(* ===== verification/Prelude.thy ===== *)
theory Prelude
  imports Main "HOL-Library.Word" "HOL-Library.List_Lexorder" "HOL-Library.Sublist"
begin

text \<open>
  What every component shares: Python strings as lists of code points, byte strings,
  exceptions as values, the result type of a function that may raise, the state-and-exception
  type of a function that also has effects, and the string methods of the Python standard
  library the source calls (\<open>startswith\<close>, \<open>endswith\<close>, \<open>in\<close>, \<open>split\<close>, \<open>strip\<close>, \<open>join\<close>,
  \<open>splitlines\<close>, \<open>encode\<close>). A Python \<open>str\<close> is a sequence of code points, so \<open>len\<close> counts code
  points and not bytes; a code point is an \<open>int\<close>, as \<open>ord\<close> returns it.
\<close>

named_theorems res_simps \<open>equations of the result and program combinators\<close>
named_theorems str_simps \<open>evaluation of the string functions on concrete strings\<close>

section \<open>Strings and bytes\<close>

type_synonym pystr = "int list"
type_synonym bytes = "8 word list"

text \<open>A literal of the source: every literal the model quotes is ASCII.\<close>

definition lit :: "string \<Rightarrow> pystr" where
  "lit s = map of_char s"

lemma lit_Nil [simp]: "lit [] = []"
  by (simp add: lit_def)

lemma lit_Cons [str_simps]: "lit (c # cs) = of_char c # lit cs"
  by (simp add: lit_def)

lemma length_lit [simp]: "length (lit s) = length s"
  by (simp add: lit_def)

lemma inj_lit [simp]: "lit s = lit t \<longleftrightarrow> s = t"
  by (simp add: lit_def inj_map_eq_map inj_def)

lemma lit_append [simp]: "lit s @ lit t = lit (s @ t)"
  by (simp add: lit_def)

definition py_len :: "'a list \<Rightarrow> int" where
  "py_len xs = int (length xs)"

lemma py_len_simps [simp]:
  "py_len [] = 0" "py_len (x # xs) = 1 + py_len xs" "py_len (xs @ ys) = py_len xs + py_len ys"
  by (simp_all add: py_len_def)

lemma py_len_nonneg [simp]: "0 \<le> py_len xs"
  by (simp add: py_len_def)

lemma py_len_lit [simp]: "py_len (lit s) = int (length s)"
  by (simp add: py_len_def)

definition starts_with :: "'a list \<Rightarrow> 'a list \<Rightarrow> bool" where
  "starts_with p s \<longleftrightarrow> take (length p) s = p"

definition ends_with :: "'a list \<Rightarrow> 'a list \<Rightarrow> bool" where
  "ends_with p s \<longleftrightarrow> length p \<le> length s \<and> drop (length s - length p) s = p"

lemma starts_with_prefix: "starts_with p s \<longleftrightarrow> prefix p s"
  by (auto simp: starts_with_def prefix_def) (metis append_take_drop_id)

lemma ends_with_suffix: "ends_with p s \<longleftrightarrow> suffix p s"
proof
  assume "ends_with p s"
  then show "suffix p s"
    unfolding ends_with_def suffix_def by (metis append_take_drop_id)
qed (auto simp: ends_with_def suffix_def)

lemma starts_with_append [simp]: "starts_with p (p @ s)"
  by (simp add: starts_with_def)

lemma ends_with_append [simp]: "ends_with p (s @ p)"
  by (simp add: ends_with_def)

lemma ends_with_append2: "ends_with p s \<Longrightarrow> ends_with p (t @ s)"
  by (auto simp: ends_with_suffix suffix_def)

lemma starts_with_Nil [simp]: "starts_with [] s"
  by (simp add: starts_with_def)

lemma starts_with_Cons [simp]:
  "starts_with (x # p) [] = False"
  "starts_with (x # p) (y # s) = (x = y \<and> starts_with p s)"
  by (auto simp: starts_with_def)

text \<open>\<open>sub in s\<close>.\<close>

fun contains :: "'a list \<Rightarrow> 'a list \<Rightarrow> bool" where
  "contains p [] = (p = [])"
| "contains p (x # s) = (starts_with p (x # s) \<or> contains p s)"

lemma contains_iff: "contains p s \<longleftrightarrow> (\<exists>u v. s = u @ p @ v)"
proof (induction s)
  case Nil
  then show ?case by auto
next
  case (Cons x s)
  show ?case
  proof
    assume "contains p (x # s)"
    then consider "starts_with p (x # s)" | "contains p s" by auto
    then show "\<exists>u v. x # s = u @ p @ v"
    proof cases
      case 1
      then show ?thesis by (metis append_Nil prefixE starts_with_prefix)
    next
      case 2
      with Cons.IH obtain u v where "s = u @ p @ v" by blast
      then have "x # s = (x # u) @ p @ v" by simp
      then show ?thesis by blast
    qed
  next
    assume "\<exists>u v. x # s = u @ p @ v"
    then obtain u v where uv: "x # s = u @ p @ v" by blast
    show "contains p (x # s)"
    proof (cases u)
      case Nil
      with uv have "starts_with p (x # s)" by (metis append_Nil starts_with_append)
      then show ?thesis by simp
    next
      case (Cons y u')
      with uv have "s = u' @ p @ v" by simp
      with Cons.IH show ?thesis by auto
    qed
  qed
qed

lemma contains_single [simp]: "contains [c] s \<longleftrightarrow> c \<in> set s"
  by (induction s) auto

text \<open>\<open>any(char in value for char in chars)\<close>.\<close>

definition has_any :: "'a list \<Rightarrow> 'a list \<Rightarrow> bool" where
  "has_any cs s \<longleftrightarrow> list_ex (\<lambda>c. c \<in> set s) cs"

lemma has_any_iff: "has_any cs s \<longleftrightarrow> set cs \<inter> set s \<noteq> {}"
  by (auto simp: has_any_def list_ex_iff)

text \<open>\<open>str.isspace\<close> of one code point, which is what \<open>strip()\<close> and \<open>split()\<close> remove.\<close>

definition is_space :: "int \<Rightarrow> bool" where
  "is_space c \<longleftrightarrow> 9 \<le> c \<and> c \<le> 13 \<or> 28 \<le> c \<and> c \<le> 32 \<or> c = 133 \<or> c = 160 \<or> c = 5760
     \<or> 8192 \<le> c \<and> c \<le> 8202 \<or> c = 8232 \<or> c = 8233 \<or> c = 8239 \<or> c = 8287 \<or> c = 12288"

text \<open>General category \<open>Cc\<close>.\<close>

definition is_control :: "int \<Rightarrow> bool" where
  "is_control c \<longleftrightarrow> 0 \<le> c \<and> c \<le> 31 \<or> 127 \<le> c \<and> c \<le> 159"

definition lstrip :: "pystr \<Rightarrow> pystr" where
  "lstrip s = dropWhile is_space s"

definition rstrip :: "pystr \<Rightarrow> pystr" where
  "rstrip s = rev (dropWhile is_space (rev s))"

definition strip :: "pystr \<Rightarrow> pystr" where
  "strip s = rstrip (lstrip s)"

lemma strip_Nil [simp]: "strip [] = []"
  by (simp add: strip_def lstrip_def rstrip_def)

lemma strip_empty_iff: "strip s = [] \<longleftrightarrow> (\<forall>c \<in> set s. is_space c)"
proof -
  have "strip s = [] \<longleftrightarrow> (\<forall>c \<in> set (dropWhile is_space s). is_space c)"
    by (simp add: strip_def rstrip_def lstrip_def)
  also have "\<dots> \<longleftrightarrow> (\<forall>c \<in> set s. is_space c)"
    by (induction s) auto
  finally show ?thesis .
qed

text \<open>\<open>s.split(c)\<close> with a one-character separator, and \<open>sep.join(parts)\<close>.\<close>

fun split_char :: "'a \<Rightarrow> 'a list \<Rightarrow> 'a list list" where
  "split_char c [] = [[]]"
| "split_char c (x # xs) =
     (if x = c then [] # split_char c xs
      else (case split_char c xs of [] \<Rightarrow> [[x]] | p # ps \<Rightarrow> (x # p) # ps))"

fun join :: "'a list \<Rightarrow> 'a list list \<Rightarrow> 'a list" where
  "join sep [] = []"
| "join sep [p] = p"
| "join sep (p # q # ps) = p @ sep @ join sep (q # ps)"

lemma split_char_nonempty [simp]: "split_char c xs \<noteq> []"
  by (induction xs) (auto split: list.splits)

lemma join_split [simp]: "join [c] (split_char c xs) = xs"
proof (induction xs)
  case (Cons x xs)
  obtain p ps where ps: "split_char c xs = p # ps"
    by (cases "split_char c xs") auto
  with Cons show ?case by (cases ps) auto
qed simp

lemma split_char_no_sep: "p \<in> set (split_char c xs) \<Longrightarrow> c \<notin> set p"
proof (induction xs arbitrary: p)
  case (Cons x xs)
  obtain q qs where qs: "split_char c xs = q # qs"
    by (cases "split_char c xs") auto
  with Cons show ?case by (auto split: if_splits)
qed auto

lemma split_join:
  "ps \<noteq> [] \<Longrightarrow> (\<forall>p \<in> set ps. c \<notin> set p) \<Longrightarrow> split_char c (join [c] ps) = ps"
proof (induction "[c]" ps rule: join.induct)
  case (2 p)
  then have "c \<notin> set p" by simp
  then have "split_char c p = [p]" by (induction p) auto
  then show ?case by simp
next
  case (3 p q ps)
  then have IH: "split_char c (join [c] (q # ps)) = q # ps" and p: "c \<notin> set p" by auto
  from p have "split_char c (p @ c # join [c] (q # ps)) = p # split_char c (join [c] (q # ps))"
    by (induction p) auto
  with IH show ?case by simp
qed simp

text \<open>\<open>s.split(sep)\<close> for a longer separator: the leftmost occurrence ends the first piece.\<close>

fun split_at :: "'a list \<Rightarrow> 'a list \<Rightarrow> ('a list \<times> 'a list) option" where
  "split_at sep [] = None"
| "split_at sep (x # xs) =
     (if starts_with sep (x # xs) then Some ([], drop (length sep) (x # xs))
      else map_option (\<lambda>(u, v). (x # u, v)) (split_at sep xs))"

lemma split_at_Some: "split_at sep xs = Some (u, v) \<Longrightarrow> xs = u @ sep @ v"
proof (induction xs arbitrary: u v)
  case (Cons x xs)
  show ?case
  proof (cases "starts_with sep (x # xs)")
    case True
    then have "take (length sep) (x # xs) = sep" by (simp add: starts_with_def)
    then have "x # xs = sep @ drop (length sep) (x # xs)" by (metis append_take_drop_id)
    with True Cons.prems show ?thesis by auto
  next
    case False
    with Cons show ?thesis by auto
  qed
qed simp

lemma split_at_shorter: "sep \<noteq> [] \<Longrightarrow> split_at sep xs = Some (u, v) \<Longrightarrow> length v < length xs"
  by (drule split_at_Some) (cases sep; simp)

function split_str :: "'a list \<Rightarrow> 'a list \<Rightarrow> 'a list list" where
  "split_str sep xs =
     (if sep = [] then [xs]
      else case split_at sep xs of None \<Rightarrow> [xs] | Some (u, v) \<Rightarrow> u # split_str sep v)"
  by pat_completeness auto
termination
  by (relation "measure (\<lambda>(sep, xs). length xs)") (auto dest: split_at_shorter)

declare split_str.simps [simp del]
lemmas [str_simps] = split_str.simps

text \<open>\<open>s.replace(a, b)\<close> with \<open>a\<close> not empty.\<close>

definition replace :: "'a list \<Rightarrow> 'a list \<Rightarrow> 'a list \<Rightarrow> 'a list" where
  "replace a b s = join b (split_str a s)"

text \<open>\<open>s.splitlines(keepends=True)\<close>: Python breaks at more characters than the newline.\<close>

definition is_linebreak :: "int \<Rightarrow> bool" where
  "is_linebreak c \<longleftrightarrow> c \<in> {10, 11, 12, 13, 28, 29, 30, 133, 8232, 8233}"

fun splitlines_keep :: "pystr \<Rightarrow> pystr list" where
  "splitlines_keep [] = []"
| "splitlines_keep [c] = [[c]]"
| "splitlines_keep (c # d # cs) =
     (if c = 13 \<and> d = 10 then [c, d] # splitlines_keep cs
      else if is_linebreak c then [c] # splitlines_keep (d # cs)
      else (case splitlines_keep (d # cs) of [] \<Rightarrow> [[c]] | l # ls \<Rightarrow> (c # l) # ls))"

lemma splitlines_empty_iff [simp]: "splitlines_keep s = [] \<longleftrightarrow> s = []"
  by (cases s rule: splitlines_keep.cases) (auto split: list.splits)

lemma concat_splitlines [simp]: "concat (splitlines_keep s) = s"
proof (induction s rule: splitlines_keep.induct)
  case (3 c d cs)
  obtain l ls where "splitlines_keep (d # cs) = l # ls"
    by (cases "splitlines_keep (d # cs)") auto
  with 3 show ?case by auto
qed simp_all

lemma splitlines_append_newline:
  assumes "\<forall>c \<in> set l. \<not> is_linebreak c"
  shows "splitlines_keep (l @ 10 # s) = (l @ [10]) # splitlines_keep s"
  using assms
proof (induction l)
  case Nil
  then show ?case by (cases s) (auto simp: is_linebreak_def)
next
  case (Cons c l)
  then have IH: "splitlines_keep (l @ 10 # s) = (l @ [10]) # splitlines_keep s" by simp
  obtain d r where dr: "l @ 10 # s = d # r" by (cases l) auto
  have "c \<noteq> 13" "\<not> is_linebreak c" using Cons.prems by (auto simp: is_linebreak_def)
  with IH dr show ?case by simp
qed

definition rstrip_newlines :: "pystr \<Rightarrow> pystr" where
  "rstrip_newlines s = rev (dropWhile (\<lambda>c. c = 10) (rev s))"

lemma rstrip_newlines_line [simp]:
  "10 \<notin> set l \<Longrightarrow> rstrip_newlines (l @ [10]) = l"
  by (cases "rev l") (auto simp: rstrip_newlines_def dropWhile_eq_self_iff rev_swap)

section \<open>UTF-8\<close>

text \<open>
  \<open>s.encode("utf-8", errors="strict")\<close> fails on surrogates (and on what is no code point);
  \<open>b.decode("utf-8")\<close> fails on malformed, overlong and surrogate sequences.
\<close>

definition utf8_char :: "int \<Rightarrow> bytes option" where
  "utf8_char c =
     (if 0 \<le> c \<and> c < 128 then Some [of_int c]
      else if 128 \<le> c \<and> c < 2048 then Some [of_int (192 + c div 64), of_int (128 + c mod 64)]
      else if 2048 \<le> c \<and> c < 55296 \<or> 57344 \<le> c \<and> c < 65536 then
        Some [of_int (224 + c div 4096), of_int (128 + c div 64 mod 64), of_int (128 + c mod 64)]
      else if 65536 \<le> c \<and> c < 1114112 then
        Some [of_int (240 + c div 262144), of_int (128 + c div 4096 mod 64),
              of_int (128 + c div 64 mod 64), of_int (128 + c mod 64)]
      else None)"

fun utf8_encode :: "pystr \<Rightarrow> bytes option" where
  "utf8_encode [] = Some []"
| "utf8_encode (c # cs) =
     (case utf8_char c of None \<Rightarrow> None
      | Some b \<Rightarrow> map_option (\<lambda>bs. b @ bs) (utf8_encode cs))"

definition cont_byte :: "8 word \<Rightarrow> bool" where
  "cont_byte b \<longleftrightarrow> 128 \<le> uint b \<and> uint b < 192"

fun utf8_decode :: "bytes \<Rightarrow> pystr option" where
  "utf8_decode [] = Some []"
| "utf8_decode (b # bs) =
     (let x = uint b in
      if x < 128 then map_option (Cons x) (utf8_decode bs)
      else if 194 \<le> x \<and> x < 224 then
        (case bs of b1 # r \<Rightarrow>
           if cont_byte b1 then map_option (Cons ((x - 192) * 64 + (uint b1 - 128))) (utf8_decode r)
           else None
         | _ \<Rightarrow> None)
      else if 224 \<le> x \<and> x < 240 then
        (case bs of b1 # b2 # r \<Rightarrow>
           let c = (x - 224) * 4096 + (uint b1 - 128) * 64 + (uint b2 - 128) in
           if cont_byte b1 \<and> cont_byte b2 \<and> (2048 \<le> c \<and> c < 55296 \<or> 57344 \<le> c)
           then map_option (Cons c) (utf8_decode r) else None
         | _ \<Rightarrow> None)
      else if 240 \<le> x \<and> x < 245 then
        (case bs of b1 # b2 # b3 # r \<Rightarrow>
           let c = (x - 240) * 262144 + (uint b1 - 128) * 4096 + (uint b2 - 128) * 64
                     + (uint b3 - 128) in
           if cont_byte b1 \<and> cont_byte b2 \<and> cont_byte b3 \<and> 65536 \<le> c \<and> c < 1114112
           then map_option (Cons c) (utf8_decode r) else None
         | _ \<Rightarrow> None)
      else None)"

declare utf8_decode.simps(2) [simp del]

lemma uint_byte [simp]: "0 \<le> x \<Longrightarrow> x < 256 \<Longrightarrow> uint (of_int x :: 8 word) = x"
  by (simp add: uint_word_of_int_eq take_bit_int_eq_self)

lemma utf8_decode2:
  assumes "uint b0 = 192 + a" "uint b1 = 128 + d" "2 \<le> a" "a < 32" "0 \<le> d" "d < 64"
  shows "utf8_decode (b0 # b1 # bs) = map_option (Cons (a * 64 + d)) (utf8_decode bs)"
  using assms by (simp add: utf8_decode.simps(2) cont_byte_def)

lemma utf8_decode3:
  assumes "uint b0 = 224 + a" "uint b1 = 128 + d" "uint b2 = 128 + e"
    and "0 \<le> a" "a < 16" "0 \<le> d" "d < 64" "0 \<le> e" "e < 64" "c = a * 4096 + d * 64 + e"
    and "2048 \<le> c" "c < 55296 \<or> 57344 \<le> c"
  shows "utf8_decode (b0 # b1 # b2 # bs) = map_option (Cons c) (utf8_decode bs)"
  using assms by (auto simp: utf8_decode.simps(2) cont_byte_def)

lemma utf8_decode4:
  assumes "uint b0 = 240 + a" "uint b1 = 128 + d" "uint b2 = 128 + e" "uint b3 = 128 + f"
    and "0 \<le> a" "a < 5" "0 \<le> d" "d < 64" "0 \<le> e" "e < 64" "0 \<le> f" "f < 64"
    and "c = a * 262144 + d * 4096 + e * 64 + f" "65536 \<le> c" "c < 1114112"
  shows "utf8_decode (b0 # b1 # b2 # b3 # bs) = map_option (Cons c) (utf8_decode bs)"
  using assms by (simp add: utf8_decode.simps(2) cont_byte_def add.assoc)

lemma base64_digits:
  fixes c :: int
  shows "c div 64 * 64 + c mod 64 = c"
    and "c div 4096 * 4096 + c div 64 mod 64 * 64 + c mod 64 = c"
    and "c div 262144 * 262144 + c div 4096 mod 64 * 4096 + c div 64 mod 64 * 64 + c mod 64 = c"
proof -
  have a: "c div 64 * 64 + c mod 64 = c" by simp
  have b: "c div 4096 * 64 + c div 64 mod 64 = c div 64"
    using div_mult_mod_eq [of "c div 64" 64] by (simp add: zdiv_zmult2_eq [symmetric])
  have d: "c div 262144 * 64 + c div 4096 mod 64 = c div 4096"
    using div_mult_mod_eq [of "c div 4096" 64] by (simp add: zdiv_zmult2_eq [symmetric])
  show "c div 64 * 64 + c mod 64 = c" by (rule a)
  show "c div 4096 * 4096 + c div 64 mod 64 * 64 + c mod 64 = c" using a b by linarith
  show "c div 262144 * 262144 + c div 4096 mod 64 * 4096 + c div 64 mod 64 * 64 + c mod 64 = c"
    using a b d by linarith
qed

lemma utf8_decode_char:
  assumes "utf8_char c = Some b"
  shows "utf8_decode (b @ bs) = map_option (Cons c) (utf8_decode bs)"
proof -
  have m: "0 \<le> c mod 64" "c mod 64 < 64" "0 \<le> c div 64 mod 64" "c div 64 mod 64 < 64"
    "0 \<le> c div 4096 mod 64" "c div 4096 mod 64 < 64"
    by simp_all
  consider (one) "0 \<le> c" "c < 128" "b = [of_int c]"
    | (two) "128 \<le> c" "c < 2048" "b = [of_int (192 + c div 64), of_int (128 + c mod 64)]"
    | (three) "2048 \<le> c" "c < 55296 \<or> 57344 \<le> c" "c < 65536"
        "b = [of_int (224 + c div 4096), of_int (128 + c div 64 mod 64), of_int (128 + c mod 64)]"
    | (four) "65536 \<le> c" "c < 1114112"
        "b = [of_int (240 + c div 262144), of_int (128 + c div 4096 mod 64),
              of_int (128 + c div 64 mod 64), of_int (128 + c mod 64)]"
    using assms unfolding utf8_char_def by (auto split: if_splits)
  then show ?thesis
  proof cases
    case one
    then show ?thesis by (simp add: utf8_decode.simps(2))
  next
    case two
    then have r: "2 \<le> c div 64" "c div 64 < 32" by auto
    have "utf8_decode (of_int (192 + c div 64) # of_int (128 + c mod 64) # bs)
        = map_option (Cons (c div 64 * 64 + c mod 64)) (utf8_decode bs)"
      by (rule utf8_decode2; (rule uint_byte)?; use m r in linarith)
    then show ?thesis unfolding two(3) base64_digits by simp
  next
    case three
    then have r: "c div 4096 < 16" "0 \<le> c div 4096" by auto
    have "utf8_decode (of_int (224 + c div 4096) # of_int (128 + c div 64 mod 64)
            # of_int (128 + c mod 64) # bs) = map_option (Cons c) (utf8_decode bs)"
      by (rule utf8_decode3 [where c = c]; (rule uint_byte)?;
          use m r three(1,2) base64_digits [of c] in linarith)
    then show ?thesis unfolding three(4) by simp
  next
    case four
    then have r: "c div 262144 < 5" "0 \<le> c div 262144" by auto
    have "utf8_decode (of_int (240 + c div 262144) # of_int (128 + c div 4096 mod 64)
            # of_int (128 + c div 64 mod 64) # of_int (128 + c mod 64) # bs)
        = map_option (Cons c) (utf8_decode bs)"
      by (rule utf8_decode4 [where c = c]; (rule uint_byte)?;
          use m r four(1,2) base64_digits [of c] in linarith)
    then show ?thesis unfolding four(3) by simp
  qed
qed

lemma utf8_roundtrip: "utf8_encode s = Some b \<Longrightarrow> utf8_decode b = Some s"
proof (induction s arbitrary: b)
  case (Cons c s)
  then obtain b1 b2 where "utf8_char c = Some b1" "utf8_encode s = Some b2" "b = b1 @ b2"
    by (auto split: option.splits)
  with Cons.IH show ?case by (simp add: utf8_decode_char)
qed simp

lemma utf8_encode_append:
  "utf8_encode (s @ t) =
     (case utf8_encode s of None \<Rightarrow> None | Some b \<Rightarrow> map_option (\<lambda>c. b @ c) (utf8_encode t))"
  by (induction s; cases "utf8_encode t") (auto split: option.splits)

section \<open>Lenient decoding\<close>

text \<open>\<open>decode("utf-8", errors="replace")\<close> and \<open>errors="ignore"\<close>: the longest start of a well-formed
  sequence that is cut short or broken off becomes \<open>bad\<close>.\<close>

definition second_ok :: "int \<Rightarrow> 8 word \<Rightarrow> bool" where
  "second_ok x b \<longleftrightarrow>
     (if x = 224 then 160 \<le> uint b \<and> uint b < 192
      else if x = 237 then 128 \<le> uint b \<and> uint b < 160
      else if x = 240 then 144 \<le> uint b \<and> uint b < 192
      else if x = 244 then 128 \<le> uint b \<and> uint b < 144
      else cont_byte b)"

fun utf8_lenient :: "pystr \<Rightarrow> bytes \<Rightarrow> pystr" where
  "utf8_lenient bad [] = []"
| "utf8_lenient bad (b # bs) =
     (let x = uint b in
      if x < 128 then x # utf8_lenient bad bs
      else if 194 \<le> x \<and> x < 224 then
        (case bs of b1 # r \<Rightarrow>
           if cont_byte b1 then ((x - 192) * 64 + (uint b1 - 128)) # utf8_lenient bad r
           else bad @ utf8_lenient bad bs
         | _ \<Rightarrow> bad @ utf8_lenient bad bs)
      else if 224 \<le> x \<and> x < 240 then
        (case bs of b1 # r \<Rightarrow>
           if second_ok x b1 then
             (case r of b2 # r2 \<Rightarrow>
                if cont_byte b2
                then ((x - 224) * 4096 + (uint b1 - 128) * 64 + (uint b2 - 128)) # utf8_lenient bad r2
                else bad @ utf8_lenient bad r
              | _ \<Rightarrow> bad @ utf8_lenient bad r)
           else bad @ utf8_lenient bad bs
         | _ \<Rightarrow> bad @ utf8_lenient bad bs)
      else if 240 \<le> x \<and> x < 245 then
        (case bs of b1 # r \<Rightarrow>
           if second_ok x b1 then
             (case r of b2 # r2 \<Rightarrow>
                if cont_byte b2 then
                  (case r2 of b3 # r3 \<Rightarrow>
                     if cont_byte b3
                     then ((x - 240) * 262144 + (uint b1 - 128) * 4096 + (uint b2 - 128) * 64
                           + (uint b3 - 128)) # utf8_lenient bad r3
                     else bad @ utf8_lenient bad r2
                   | _ \<Rightarrow> bad @ utf8_lenient bad r2)
                else bad @ utf8_lenient bad r
              | _ \<Rightarrow> bad @ utf8_lenient bad r)
           else bad @ utf8_lenient bad bs
         | _ \<Rightarrow> bad @ utf8_lenient bad bs)
      else bad @ utf8_lenient bad bs)"

declare utf8_lenient.simps(2) [simp del]

lemma second_ok3: "cont_byte b1 \<Longrightarrow> cont_byte b2 \<Longrightarrow> 224 \<le> x \<Longrightarrow>
    2048 \<le> (x - 224) * 4096 + (uint b1 - 128) * 64 + (uint b2 - 128)
      \<and> (x - 224) * 4096 + (uint b1 - 128) * 64 + (uint b2 - 128) < 55296
    \<or> 57344 \<le> (x - 224) * 4096 + (uint b1 - 128) * 64 + (uint b2 - 128) \<Longrightarrow>
    x < 240 \<Longrightarrow> second_ok x b1"
  unfolding second_ok_def cont_byte_def by (auto split: if_splits)

lemma second_ok4: "cont_byte b1 \<Longrightarrow> cont_byte b2 \<Longrightarrow> cont_byte b3 \<Longrightarrow> 240 \<le> x \<Longrightarrow>
    65536 \<le> (x - 240) * 262144 + (uint b1 - 128) * 4096 + (uint b2 - 128) * 64 + (uint b3 - 128) \<Longrightarrow>
    (x - 240) * 262144 + (uint b1 - 128) * 4096 + (uint b2 - 128) * 64 + (uint b3 - 128) < 1114112 \<Longrightarrow>
    x < 245 \<Longrightarrow> second_ok x b1"
  unfolding second_ok_def cont_byte_def by (auto split: if_splits)

lemma utf8_lenient_strict: "utf8_decode b = Some s \<Longrightarrow> utf8_lenient bad b = s"
proof (induction b arbitrary: s rule: utf8_decode.induct)
  case (2 b bs)
  let ?x = "uint b"
  consider "?x < 128" | "194 \<le> ?x" "?x < 224" | "224 \<le> ?x" "?x < 240" | "240 \<le> ?x" "?x < 245"
    | "\<not> ?x < 128" "\<not> (194 \<le> ?x \<and> ?x < 245)" by linarith
  then show ?case
  proof cases
    case 1
    then show ?thesis using 2 by (auto simp: utf8_decode.simps(2) utf8_lenient.simps(2) Let_def)
  next
    case 2
    obtain b1 r where bs: "bs = b1 # r" using 2 "2.prems"
      by (cases bs) (simp_all add: utf8_decode.simps(2) Let_def)
    then have c: "cont_byte b1"
      and s: "\<exists>t. utf8_decode r = Some t \<and> s = ((?x - 192) * 64 + (uint b1 - 128)) # t"
      using 2 "2.prems" by (simp_all add: utf8_decode.simps(2) Let_def split: if_splits) auto
    have "utf8_lenient bad r = t" if "utf8_decode r = Some t" for t
      using "2.IH"(2)[OF refl _ _ bs c] 2 that by simp
    then show ?thesis using s c 2 by (auto simp: utf8_lenient.simps(2) Let_def bs)
  next
    case 3
    obtain b1 b2 r where bs: "bs = b1 # b2 # r" using 3 "2.prems"
      by (cases bs rule: remdups_adj.cases) (simp_all add: utf8_decode.simps(2) Let_def)
    then have c: "cont_byte b1" "cont_byte b2"
      "2048 \<le> (?x - 224) * 4096 + (uint b1 - 128) * 64 + (uint b2 - 128)
      \<and> (?x - 224) * 4096 + (uint b1 - 128) * 64 + (uint b2 - 128) < 55296
    \<or> 57344 \<le> (?x - 224) * 4096 + (uint b1 - 128) * 64 + (uint b2 - 128)"
      and s: "\<exists>t. utf8_decode r = Some t \<and> s = ((?x - 224) * 4096 + (uint b1 - 128) * 64 + (uint b2 - 128)) # t"
      using 3 "2.prems" by (simp_all add: utf8_decode.simps(2) Let_def split: if_splits) auto
    have "utf8_lenient bad r = t" if "utf8_decode r = Some t" for t
      using "2.IH"(3)[OF refl _ _ _ bs refl refl] 3 c that by simp
    then show ?thesis using s c 3 second_ok3[OF c(1,2) 3(1) c(3) 3(2)]
      by (auto simp: utf8_lenient.simps(2) Let_def bs)
  next
    case 4
    obtain b1 b2 b3 r where bs: "bs = b1 # b2 # b3 # r" using 4 "2.prems"
      by (cases bs; cases "tl bs"; cases "tl (tl bs)") (simp_all add: utf8_decode.simps(2) Let_def)
    let ?c = "(?x - 240) * 262144 + (uint b1 - 128) * 4096 + (uint b2 - 128) * 64 + (uint b3 - 128)"
    have c: "cont_byte b1" "cont_byte b2" "cont_byte b3" "65536 \<le> ?c" "?c < 1114112"
      and s: "\<exists>t. utf8_decode r = Some t \<and> s = ?c # t"
      using 4 "2.prems" by (simp_all add: bs utf8_decode.simps(2) Let_def split: if_splits) auto
    have "utf8_lenient bad r = t" if "utf8_decode r = Some t" for t
      using "2.IH"(4)[OF refl _ _ _ _ bs refl refl refl] 4 c that by simp
    then show ?thesis using s c 4 second_ok4[OF c(1-3) 4(1) c(4,5) 4(2)]
      by (auto simp: utf8_lenient.simps(2) Let_def bs)
  next
    case 5
    then have "\<not> (194 \<le> ?x \<and> ?x < 224)" "\<not> (224 \<le> ?x \<and> ?x < 240)" "\<not> (240 \<le> ?x \<and> ?x < 245)"
      by auto
    then show ?thesis using "2.prems" 5(1)
      by (simp only: utf8_decode.simps(2) Let_def if_False option.distinct)
  qed
qed simp

abbreviation utf8_replace :: "bytes \<Rightarrow> pystr" where
  "utf8_replace \<equiv> utf8_lenient [65533]"

abbreviation utf8_ignore :: "bytes \<Rightarrow> pystr" where
  "utf8_ignore \<equiv> utf8_lenient []"

text \<open>Strict decoding and encoding are inverse to each other.\<close>

lemma uint_cont: "cont_byte b \<Longrightarrow> 128 \<le> uint b \<and> uint b < 192"
  by (simp add: cont_byte_def)

lemma digits2:
  fixes a y :: int
  assumes "0 \<le> y" "y < 64"
  shows "(a * 64 + y) div 64 = a" "(a * 64 + y) mod 64 = y"
  using assms by auto

lemma digits3:
  fixes a y z :: int
  assumes "0 \<le> y" "y < 64" "0 \<le> z" "z < 64"
  shows "(a * 4096 + y * 64 + z) div 64 mod 64 = y" "(a * 4096 + y * 64 + z) mod 64 = z"
    "(a * 4096 + y * 64 + z) div 4096 = a"
proof -
  have e: "a * 4096 + y * 64 + z = (a * 64 + y) * 64 + z" by simp
  have f: "(a * 4096 + y * 64 + z) div 4096 = (a * 4096 + y * 64 + z) div 64 div 64"
    by (simp add: zdiv_zmult2_eq[symmetric])
  show "(a * 4096 + y * 64 + z) div 64 mod 64 = y" "(a * 4096 + y * 64 + z) mod 64 = z"
    "(a * 4096 + y * 64 + z) div 4096 = a"
    unfolding f unfolding e digits2[OF assms(3,4)] by (rule digits2[OF assms(1,2)] refl)+
qed

lemma digits4:
  fixes a y z w :: int
  assumes "0 \<le> y" "y < 64" "0 \<le> z" "z < 64" "0 \<le> w" "w < 64"
  shows "(a * 262144 + y * 4096 + z * 64 + w) div 4096 mod 64 = y"
    "(a * 262144 + y * 4096 + z * 64 + w) div 64 mod 64 = z"
    "(a * 262144 + y * 4096 + z * 64 + w) mod 64 = w"
    "(a * 262144 + y * 4096 + z * 64 + w) div 262144 = a"
proof -
  let ?c = "a * 262144 + y * 4096 + z * 64 + w"
  have e: "?c = (a * 64 + y) * 4096 + z * 64 + w" by simp
  note d = digits3[OF assms(3-6), of "a * 64 + y"]
  have f: "?c div 262144 = ?c div 4096 div 64"
    by (simp add: zdiv_zmult2_eq[symmetric])
  show "?c div 4096 mod 64 = y" "?c div 64 mod 64 = z" "?c mod 64 = w" "?c div 262144 = a"
    unfolding f unfolding e d by (rule digits2[OF assms(1,2)] refl)+
qed

lemma utf8_decode_shape:
  assumes "utf8_decode (b # bs) = Some s"
  obtains c e r t where "utf8_char c = Some e" "b # bs = e @ r" "utf8_decode r = Some t" "s = c # t" "e \<noteq> []"
proof -
  let ?x = "uint b"
  show thesis
  proof (cases "?x < 128")
    case True
    moreover have "0 \<le> ?x" by simp
    ultimately show thesis using assms
      by (cases "utf8_decode bs") (auto simp: utf8_decode.simps(2) utf8_char_def intro: that[of ?x "[b]" bs])
  next
    case F1: False
    show thesis
    proof (cases "194 \<le> ?x \<and> ?x < 224")
      case True
      obtain b1 r where bs: "bs = b1 # r" using assms F1 True
        by (cases bs) (simp_all add: utf8_decode.simps(2) Let_def)
      have c: "cont_byte b1" and s: "\<exists>t. utf8_decode r = Some t \<and> s = ((?x - 192) * 64 + (uint b1 - 128)) # t"
        using assms F1 True bs by (simp_all add: utf8_decode.simps(2) Let_def split: if_splits) auto
      have y: "0 \<le> uint b1 - 128" "uint b1 - 128 < 64" using uint_cont[OF c] by auto
      then have "utf8_char ((?x - 192) * 64 + (uint b1 - 128)) = Some [b, b1]"
        using True unfolding utf8_char_def digits2[OF y] by simp
      then show thesis using s that bs by fastforce
    next
      case F2: False
      show thesis
      proof (cases "224 \<le> ?x \<and> ?x < 240")
        case True
        let ?c = "\<lambda>b1 b2. (?x - 224) * 4096 + (uint b1 - 128) * 64 + (uint b2 - 128)"
        obtain b1 b2 r where bs: "bs = b1 # b2 # r" using assms F1 F2 True
          by (cases bs; cases "tl bs") (simp_all add: utf8_decode.simps(2) Let_def)
        have c: "cont_byte b1" "cont_byte b2" "2048 \<le> ?c b1 b2 \<and> ?c b1 b2 < 55296 \<or> 57344 \<le> ?c b1 b2"
          and s: "\<exists>t. utf8_decode r = Some t \<and> s = ?c b1 b2 # t"
          using assms F1 F2 True bs by (simp_all add: utf8_decode.simps(2) Let_def split: if_splits) auto
        have y: "0 \<le> uint b1 - 128" "uint b1 - 128 < 64" "0 \<le> uint b2 - 128" "uint b2 - 128 < 64"
          using uint_cont[OF c(1)] uint_cont[OF c(2)] by auto
        have "?c b1 b2 < 65536" using y True by simp
        moreover define d where "d = ?c b1 b2"
        moreover have "d div 4096 = ?x - 224" "d div 64 mod 64 = uint b1 - 128" "d mod 64 = uint b2 - 128"
          unfolding d_def by (rule digits3[OF y])+
        ultimately have "utf8_char d = Some [b, b1, b2]"
          using c(3) unfolding utf8_char_def d_def[symmetric] by auto
        then have "utf8_char (?c b1 b2) = Some [b, b1, b2]" unfolding d_def .
        then show thesis using s that bs by fastforce
      next
        case F3: False
        let ?c = "\<lambda>b1 b2 b3. (?x - 240) * 262144 + (uint b1 - 128) * 4096 + (uint b2 - 128) * 64 + (uint b3 - 128)"
        have True: "240 \<le> ?x \<and> ?x < 245"
          using assms F1 F2 F3 by (auto simp: utf8_decode.simps(2) Let_def split: if_splits)
        obtain b1 b2 b3 r where bs: "bs = b1 # b2 # b3 # r" using assms F1 F2 F3 True
          by (cases bs; cases "tl bs"; cases "tl (tl bs)") (simp_all add: utf8_decode.simps(2) Let_def)
        have c: "cont_byte b1" "cont_byte b2" "cont_byte b3" "65536 \<le> ?c b1 b2 b3 \<and> ?c b1 b2 b3 < 1114112"
          and s: "\<exists>t. utf8_decode r = Some t \<and> s = ?c b1 b2 b3 # t"
          using assms F1 F2 F3 True bs by (simp_all add: utf8_decode.simps(2) Let_def split: if_splits) auto
        have y: "0 \<le> uint b1 - 128" "uint b1 - 128 < 64" "0 \<le> uint b2 - 128" "uint b2 - 128 < 64"
          "0 \<le> uint b3 - 128" "uint b3 - 128 < 64"
          using uint_cont[OF c(1)] uint_cont[OF c(2)] uint_cont[OF c(3)] by auto
        have "utf8_char (?c b1 b2 b3) = Some [b, b1, b2, b3]"
          using c(4) unfolding utf8_char_def digits4[OF y] by simp
        then show thesis using s that bs by fastforce
      qed
    qed
  qed
qed

lemma utf8_encode_decode: "utf8_decode b = Some s \<Longrightarrow> utf8_encode s = Some b"
proof (induction "length b" arbitrary: b s rule: less_induct)
  case less
  show ?case
  proof (cases b)
    case (Cons x bs)
    with less.prems utf8_decode_shape[of x bs s] obtain c e r t where d:
      "utf8_char c = Some e" "b = e @ r" "utf8_decode r = Some t" "s = c # t" "e \<noteq> []"
      by metis
    then have "utf8_encode t = Some r" using less.hyps[of r t] by simp
    with d show ?thesis by simp
  qed (use less.prems in simp)
qed


lemma utf8_charE:
  assumes "utf8_char c = Some e"
  obtains (one) b where "e = [b]" "uint b = c" "c < 128"
  | (two) b b1 where "e = [b, b1]" "c = (uint b - 192) * 64 + (uint b1 - 128)"
      "194 \<le> uint b" "uint b < 224" "cont_byte b1"
  | (three) b b1 b2 where "e = [b, b1, b2]"
      "c = (uint b - 224) * 4096 + (uint b1 - 128) * 64 + (uint b2 - 128)"
      "224 \<le> uint b" "uint b < 240" "cont_byte b1" "cont_byte b2" "second_ok (uint b) b1"
  | (four) b b1 b2 b3 where "e = [b, b1, b2, b3]"
      "c = (uint b - 240) * 262144 + (uint b1 - 128) * 4096 + (uint b2 - 128) * 64 + (uint b3 - 128)"
      "240 \<le> uint b" "uint b < 245" "cont_byte b1" "cont_byte b2" "cont_byte b3" "second_ok (uint b) b1"
proof -
  have m: "0 \<le> c mod 64" "c mod 64 < 64" "0 \<le> c div 64 mod 64" "c div 64 mod 64 < 64"
    "0 \<le> c div 4096 mod 64" "c div 4096 mod 64 < 64"
    by simp_all
  consider (1) "0 \<le> c" "c < 128" "e = [of_int c]"
    | (2) "128 \<le> c" "c < 2048" "e = [of_int (192 + c div 64), of_int (128 + c mod 64)]"
    | (3) "2048 \<le> c" "c < 55296 \<or> 57344 \<le> c" "c < 65536"
        "e = [of_int (224 + c div 4096), of_int (128 + c div 64 mod 64), of_int (128 + c mod 64)]"
    | (4) "65536 \<le> c" "c < 1114112"
        "e = [of_int (240 + c div 262144), of_int (128 + c div 4096 mod 64),
              of_int (128 + c div 64 mod 64), of_int (128 + c mod 64)]"
    using assms unfolding utf8_char_def by (auto split: if_splits)
  then show thesis
  proof cases
    case 1
    then show thesis using one[of "of_int c"] by simp
  next
    case 2
    then have r: "2 \<le> c div 64" "c div 64 < 32" by auto
    have u: "uint (of_int (192 + c div 64) :: 8 word) = 192 + c div 64"
      "uint (of_int (128 + c mod 64) :: 8 word) = 128 + c mod 64"
      by ((rule uint_byte; use m r in linarith)+)
    have cb: "cont_byte (of_int (128 + c mod 64))"
      unfolding cont_byte_def u using m by simp
    show thesis
      by (rule two[OF 2(3)], unfold u) (use 2 r cb base64_digits(1)[of c] in simp_all)
  next
    case 3
    then have r: "c div 4096 < 16" "0 \<le> c div 4096" by auto
    have u: "uint (of_int (224 + c div 4096) :: 8 word) = 224 + c div 4096"
      "uint (of_int (128 + c div 64 mod 64) :: 8 word) = 128 + c div 64 mod 64"
      "uint (of_int (128 + c mod 64) :: 8 word) = 128 + c mod 64"
      by ((rule uint_byte; use m r in linarith)+)
    have cb: "cont_byte (of_int (128 + c div 64 mod 64))" "cont_byte (of_int (128 + c mod 64))"
      unfolding cont_byte_def u using m by simp_all
    have v: "c = c div 4096 * 4096 + c div 64 mod 64 * 64 + c mod 64"
      using base64_digits(2)[of c] by simp
    have so: "second_ok (224 + c div 4096) (of_int (128 + c div 64 mod 64))"
      by (rule second_ok3[OF cb], unfold u diff_add_cancel add_diff_cancel_left' base64_digits)
        (use 3(1,2) r in auto)
    show thesis by (rule three[OF 3(4)], unfold u diff_add_cancel add_diff_cancel_left' base64_digits) (use so cb r in \<open>auto simp del: of_int_add\<close>)
  next
    case 4
    then have r: "c div 262144 < 5" "0 \<le> c div 262144" by auto
    have u: "uint (of_int (240 + c div 262144) :: 8 word) = 240 + c div 262144"
      "uint (of_int (128 + c div 4096 mod 64) :: 8 word) = 128 + c div 4096 mod 64"
      "uint (of_int (128 + c div 64 mod 64) :: 8 word) = 128 + c div 64 mod 64"
      "uint (of_int (128 + c mod 64) :: 8 word) = 128 + c mod 64"
      by ((rule uint_byte; use m r in linarith)+)
    have cb: "cont_byte (of_int (128 + c div 4096 mod 64))" "cont_byte (of_int (128 + c div 64 mod 64))"
      "cont_byte (of_int (128 + c mod 64))"
      unfolding cont_byte_def u using m by simp_all
    have v: "c = c div 262144 * 262144 + c div 4096 mod 64 * 4096 + c div 64 mod 64 * 64 + c mod 64"
      using base64_digits(3)[of c] by simp
    have so: "second_ok (240 + c div 262144) (of_int (128 + c div 4096 mod 64))"
      by (rule second_ok4[OF cb], unfold u diff_add_cancel add_diff_cancel_left' base64_digits)
        (use 4(1,2) r in auto)
    show thesis by (rule four[OF 4(3)], unfold u diff_add_cancel add_diff_cancel_left' base64_digits) (use so cb r in \<open>auto simp del: of_int_add\<close>)
  qed
qed

lemma utf8_lenient_char:
  assumes "utf8_char c = Some e"
  shows "utf8_lenient bad (e @ x) = c # utf8_lenient bad x"
  using assms by (cases rule: utf8_charE) (simp_all add: utf8_lenient.simps(2) Let_def)

lemma utf8_ignore_cut:
  assumes "utf8_char c = Some e" "k < length e"
  shows "utf8_ignore (take k e) = []"
  using assms(1)
proof (cases rule: utf8_charE)
  case (two b b1)
  then have "k = 0 \<or> k = 1" using assms(2) by auto
  with two show ?thesis by (auto simp: utf8_lenient.simps(2) Let_def)
next
  case (three b b1 b2)
  then have "k = 0 \<or> k = 1 \<or> k = 2" using assms(2) by auto
  with three show ?thesis by (auto simp: utf8_lenient.simps(2) Let_def)
next
  case (four b b1 b2 b3)
  then have "k = 0 \<or> k = 1 \<or> k = 2 \<or> k = 3" using assms(2) by auto
  with four show ?thesis by (auto simp: utf8_lenient.simps(2) Let_def)
qed (use assms(2) in simp)

text \<open>A cut of well-formed bytes, decoded with \<open>errors="ignore"\<close>, is the longest run of whole characters.\<close>

lemma utf8_ignore_take:
  assumes "utf8_encode s = Some b"
  shows "\<exists>t u. s = t @ u \<and> utf8_ignore (take n b) = t
    \<and> (\<exists>e. utf8_encode t = Some e \<and> length e \<le> n)"
  using assms
proof (induction s arbitrary: b n)
  case (Cons c s)
  then obtain e r where e: "utf8_char c = Some e" "utf8_encode s = Some r" "b = e @ r"
    by (auto split: option.splits)
  show ?case
  proof (cases "n < length e")
    case True
    then show ?thesis using e utf8_ignore_cut[OF e(1) True] by auto
  next
    case False
    obtain t u d where IH: "s = t @ u" "utf8_ignore (take (n - length e) r) = t"
      "utf8_encode t = Some d" "length d \<le> n - length e"
      using Cons.IH[OF e(2), of "n - length e"] by auto
    have "utf8_ignore (take n b) = c # t"
      using False utf8_lenient_char[OF e(1)] IH(2) by (simp add: e(3))
    then show ?thesis using IH e False by (auto intro!: exI[of _ "c # t"])
  qed
qed simp

section \<open>Exceptions, results and programs\<close>

text \<open>
  The exceptions the source raises or catches, with the message where the code keeps it.
  \<open>ValidationError\<close> is pydantic's, \<open>UnicodeError\<close> the codec's; both are subclasses of
  \<open>ValueError\<close>, as is \<open>ConfigConflict\<close>.
\<close>

datatype exn =
    ValueError string
  | ValidationError
  | UnicodeError
  | ConfigConflict string
  | TypeError string
  | KeyError string
  | IndexError
  | AttributeError
  | OSError string
  | RuntimeError string
  | IntegrityError
  | PreflightError string
  | WorkspaceError string
  | WorkerError
  | OverflowError
  | TimeoutError
  | ProviderError string

fun is_value_error :: "exn \<Rightarrow> bool" where
  "is_value_error (ValueError _) = True"
| "is_value_error ValidationError = True"
| "is_value_error UnicodeError = True"
| "is_value_error (ConfigConflict _) = True"
| "is_value_error _ = False"

fun is_type_error :: "exn \<Rightarrow> bool" where
  "is_type_error (TypeError _) = True"
| "is_type_error _ = False"

fun is_os_error :: "exn \<Rightarrow> bool" where
  "is_os_error (OSError _) = True"
| "is_os_error TimeoutError = True"
| "is_os_error _ = False"

type_synonym 'a res = "exn + 'a"

fun bind_res :: "'a res \<Rightarrow> ('a \<Rightarrow> 'b res) \<Rightarrow> 'b res" where
  "bind_res (Inl e) f = Inl e"
| "bind_res (Inr x) f = f x"

definition require :: "bool \<Rightarrow> exn \<Rightarrow> unit res" where
  "require b e = (if b then Inr () else Inl e)"

fun of_opt :: "exn \<Rightarrow> 'a option \<Rightarrow> 'a res" where
  "of_opt e None = Inl e"
| "of_opt e (Some x) = Inr x"

fun map_res :: "('a \<Rightarrow> 'b res) \<Rightarrow> 'a list \<Rightarrow> 'b list res" where
  "map_res f [] = Inr []"
| "map_res f (x # xs) = bind_res (f x) (\<lambda>y. bind_res (map_res f xs) (\<lambda>ys. Inr (y # ys)))"

definition ok :: "'a res \<Rightarrow> bool" where
  "ok r \<longleftrightarrow> (case r of Inl _ \<Rightarrow> False | Inr _ \<Rightarrow> True)"

lemma ok_simps [simp, res_simps]: "ok (Inr x) = True" "ok (Inl e) = False"
  by (simp_all add: ok_def)

lemma bind_res_Inr [res_simps]: "bind_res m f = Inr y \<longleftrightarrow> (\<exists>x. m = Inr x \<and> f x = Inr y)"
  by (cases m) auto

lemma bind_res_Inl [res_simps]:
  "bind_res m f = Inl e \<longleftrightarrow> m = Inl e \<or> (\<exists>x. m = Inr x \<and> f x = Inl e)"
  by (cases m) auto

lemma ok_bind [res_simps]: "ok (bind_res m f) \<longleftrightarrow> (\<exists>x. m = Inr x \<and> ok (f x))"
  by (cases m) auto

lemma require_Inr [simp, res_simps]: "require b e = Inr u \<longleftrightarrow> b"
  by (simp add: require_def)

lemma require_Inl [simp, res_simps]: "require b e = Inl e' \<longleftrightarrow> \<not> b \<and> e' = e"
  by (auto simp: require_def)

lemma bind_require [simp]: "bind_res (require b e) f = (if b then f () else Inl e)"
  by (simp add: require_def)

lemma of_opt_Inr [simp, res_simps]: "of_opt e m = Inr x \<longleftrightarrow> m = Some x"
  by (cases m) auto

lemma of_opt_Inl [simp, res_simps]: "of_opt e m = Inl e' \<longleftrightarrow> m = None \<and> e' = e"
  by (cases m) auto

lemma map_res_length: "map_res f xs = Inr ys \<Longrightarrow> length ys = length xs"
  by (induction xs arbitrary: ys) (auto simp: bind_res_Inr)

lemma map_res_nth: "map_res f xs = Inr ys \<Longrightarrow> i < length xs \<Longrightarrow> f (xs ! i) = Inr (ys ! i)"
proof (induction xs arbitrary: ys i)
  case (Cons x xs)
  then show ?case by (cases i) (auto simp: bind_res_Inr)
qed simp

lemma map_res_all: "(\<And>x. x \<in> set xs \<Longrightarrow> f x = Inr (g x)) \<Longrightarrow> map_res f xs = Inr (map g xs)"
  by (induction xs) auto

text \<open>
  A program over a state \<open>'w\<close>: it returns a value or raises, and in both cases leaves a state.
  The state holds whatever the operations of the program read and change.
\<close>

type_synonym ('w, 'a) prog = "'w \<Rightarrow> 'a res \<times> 'w"

definition ret :: "'a \<Rightarrow> ('w, 'a) prog" where
  "ret x = (\<lambda>w. (Inr x, w))"

definition raise :: "exn \<Rightarrow> ('w, 'a) prog" where
  "raise e = (\<lambda>w. (Inl e, w))"

definition lift_res :: "'a res \<Rightarrow> ('w, 'a) prog" where
  "lift_res r = (\<lambda>w. (r, w))"

definition bind_prog :: "('w, 'a) prog \<Rightarrow> ('a \<Rightarrow> ('w, 'b) prog) \<Rightarrow> ('w, 'b) prog" where
  "bind_prog m f = (\<lambda>w. case m w of (Inl e, w') \<Rightarrow> (Inl e, w') | (Inr x, w') \<Rightarrow> f x w')"

lemma ret_app [simp, res_simps]: "ret x w = (Inr x, w)"
  by (simp add: ret_def)

lemma raise_app [simp, res_simps]: "raise e w = (Inl e, w)"
  by (simp add: raise_def)

lemma lift_res_app [simp, res_simps]: "lift_res r w = (r, w)"
  by (simp add: lift_res_def)

lemma bind_prog_Inr [res_simps]:
  "bind_prog m f w = (Inr y, w') \<longleftrightarrow> (\<exists>x v. m w = (Inr x, v) \<and> f x v = (Inr y, w'))"
  by (auto simp: bind_prog_def split: prod.splits sum.splits)

lemma bind_prog_Inl [res_simps]:
  "bind_prog m f w = (Inl e, w') \<longleftrightarrow>
     m w = (Inl e, w') \<or> (\<exists>x v. m w = (Inr x, v) \<and> f x v = (Inl e, w'))"
  by (auto simp: bind_prog_def split: prod.splits sum.splits)

lemma bind_prog_step: "m w = (Inr x, v) \<Longrightarrow> bind_prog m f w = f x v"
  by (simp add: bind_prog_def)

lemma bind_prog_fail: "m w = (Inl e, v) \<Longrightarrow> bind_prog m f w = (Inl e, v)"
  by (simp add: bind_prog_def)

lemma bind_ret [simp]: "bind_prog (ret x) f = f x"
  by (simp add: bind_prog_def ret_def)

lemma bind_raise [simp]: "bind_prog (raise e) f = raise e"
  by (simp add: bind_prog_def raise_def)

end
