(* ===== verification/Domain.thy ===== *)
theory Domain
  imports Prelude
begin

text \<open>
  The closed vocabularies of \<^verbatim>\<open>domain/enums.py\<close> and the validated value objects of
  \<^verbatim>\<open>domain/models.py\<close>: UUIDs and task ids, artifact references, frozen test commands, tool
  results, test runs and feedback decisions. A pydantic model is a record; the checks its
  constructor makes are a function that returns the record or raises.
\<close>

section \<open>Vocabularies\<close>

datatype protocol_error_code =
    INVALID_JSON | INVALID_TOP_LEVEL | MISSING_TYPE | INVALID_TYPE | UNKNOWN_ACTION
  | SCHEMA_VIOLATION

datatype tool_error_code =
    INVALID_REQUEST | NOT_FOUND | SAFETY_VIOLATION | UNSUPPORTED | CONFLICT | TIMEOUT
  | TOOL_RESOURCE_LIMIT | TOOL_ENVIRONMENT_ERROR | EXECUTION_FAILED | TOOL_UNKNOWN_OUTCOME

datatype test_phase =
    BASELINE | FOCUSED | POST_PATCH | RECOVERY | PHASE_RESUME_VALIDATION | REQUESTED_FULL

datatype test_run_outcome =
    RUN_PASSED | RUN_FAILED | RUN_TIMED_OUT | RUN_RESOURCE_LIMIT | RUN_ENVIRONMENT_ERROR
  | RUN_UNPARSEABLE | RUN_CANCELLED | RUN_UNKNOWN_OUTCOME | RUN_WORKSPACE_DRIFT

datatype feedback_kind =
    FB_PASSED | FB_PROGRESS | FB_NO_PROGRESS | FB_CHANGED | FB_REGRESSION | FB_LOOP
  | FB_ENVIRONMENT_ERROR | FB_UNPARSEABLE

datatype task_status =
    CREATED | PREFLIGHT | AWAITING_TRUST | PREFLIGHT_FAILED | PREPARING_WORKSPACE
  | BASELINE_TESTING | CANNOT_REPRODUCE | DECIDING | VALIDATING_ACTION | PREPARING_PATCH
  | POLICY_CHECK | AWAITING_APPROVAL | RESUME_VALIDATION | REVALIDATING_PATCH | APPLYING_PATCH
  | COMPENSATION_ROLLBACK | EXECUTING_NON_PATCH | TESTING | SUCCEEDED | REGRESSION_ROLLBACK
  | RECOVERY_TESTING | PAUSED_FOR_HUMAN | STOPPED | CANCELLED

datatype action_status =
    ACT_RECEIVED | ACT_VALIDATED | ACT_AWAITING_APPROVAL | ACT_READY | ACT_EXECUTING
  | ACT_SUCCEEDED | ACT_FAILED | ACT_REJECTED | ACT_INTERRUPTED | ACT_UNKNOWN_OUTCOME

datatype policy_outcome = ALLOW | DENY | REQUIRE_APPROVAL

datatype approval_status =
    APR_PENDING | APR_APPROVED | APR_CONSUMED | APR_EXECUTED | APR_DENIED | APR_CANCELLED
  | APR_EXPIRED

text \<open>The exact string value of each member, as persisted and as shown in reasons.\<close>

primrec test_phase_value :: "test_phase \<Rightarrow> string" where
  "test_phase_value BASELINE = ''baseline''"
| "test_phase_value FOCUSED = ''focused''"
| "test_phase_value POST_PATCH = ''post_patch''"
| "test_phase_value RECOVERY = ''recovery''"
| "test_phase_value PHASE_RESUME_VALIDATION = ''resume_validation''"
| "test_phase_value REQUESTED_FULL = ''requested_full''"

primrec test_run_outcome_value :: "test_run_outcome \<Rightarrow> string" where
  "test_run_outcome_value RUN_PASSED = ''passed''"
| "test_run_outcome_value RUN_FAILED = ''failed''"
| "test_run_outcome_value RUN_TIMED_OUT = ''timed_out''"
| "test_run_outcome_value RUN_RESOURCE_LIMIT = ''resource_limit''"
| "test_run_outcome_value RUN_ENVIRONMENT_ERROR = ''environment_error''"
| "test_run_outcome_value RUN_UNPARSEABLE = ''unparseable''"
| "test_run_outcome_value RUN_CANCELLED = ''cancelled''"
| "test_run_outcome_value RUN_UNKNOWN_OUTCOME = ''unknown_outcome''"
| "test_run_outcome_value RUN_WORKSPACE_DRIFT = ''workspace_drift''"

primrec feedback_kind_value :: "feedback_kind \<Rightarrow> string" where
  "feedback_kind_value FB_PASSED = ''passed''"
| "feedback_kind_value FB_PROGRESS = ''progress''"
| "feedback_kind_value FB_NO_PROGRESS = ''no_progress''"
| "feedback_kind_value FB_CHANGED = ''changed''"
| "feedback_kind_value FB_REGRESSION = ''regression''"
| "feedback_kind_value FB_LOOP = ''loop''"
| "feedback_kind_value FB_ENVIRONMENT_ERROR = ''environment_error''"
| "feedback_kind_value FB_UNPARSEABLE = ''unparseable''"

primrec task_status_value :: "task_status \<Rightarrow> string" where
  "task_status_value CREATED = ''created''"
| "task_status_value PREFLIGHT = ''preflight''"
| "task_status_value AWAITING_TRUST = ''awaiting_trust''"
| "task_status_value PREFLIGHT_FAILED = ''preflight_failed''"
| "task_status_value PREPARING_WORKSPACE = ''preparing_workspace''"
| "task_status_value BASELINE_TESTING = ''baseline_testing''"
| "task_status_value CANNOT_REPRODUCE = ''cannot_reproduce''"
| "task_status_value DECIDING = ''deciding''"
| "task_status_value VALIDATING_ACTION = ''validating_action''"
| "task_status_value PREPARING_PATCH = ''preparing_patch''"
| "task_status_value POLICY_CHECK = ''policy_check''"
| "task_status_value AWAITING_APPROVAL = ''awaiting_approval''"
| "task_status_value RESUME_VALIDATION = ''resume_validation''"
| "task_status_value REVALIDATING_PATCH = ''revalidating_patch''"
| "task_status_value APPLYING_PATCH = ''applying_patch''"
| "task_status_value COMPENSATION_ROLLBACK = ''compensation_rollback''"
| "task_status_value EXECUTING_NON_PATCH = ''executing_non_patch''"
| "task_status_value TESTING = ''testing''"
| "task_status_value SUCCEEDED = ''succeeded''"
| "task_status_value REGRESSION_ROLLBACK = ''regression_rollback''"
| "task_status_value RECOVERY_TESTING = ''recovery_testing''"
| "task_status_value PAUSED_FOR_HUMAN = ''paused_for_human''"
| "task_status_value STOPPED = ''stopped''"
| "task_status_value CANCELLED = ''cancelled''"

text \<open>\<open>TaskStatus(value)\<close> and its kin: the member with that value, or \<open>ValueError\<close>.\<close>

definition all_task_statuses :: "task_status list" where
  "all_task_statuses =
     [CREATED, PREFLIGHT, AWAITING_TRUST, PREFLIGHT_FAILED, PREPARING_WORKSPACE, BASELINE_TESTING,
      CANNOT_REPRODUCE, DECIDING, VALIDATING_ACTION, PREPARING_PATCH, POLICY_CHECK,
      AWAITING_APPROVAL, RESUME_VALIDATION, REVALIDATING_PATCH, APPLYING_PATCH,
      COMPENSATION_ROLLBACK, EXECUTING_NON_PATCH, TESTING, SUCCEEDED, REGRESSION_ROLLBACK,
      RECOVERY_TESTING, PAUSED_FOR_HUMAN, STOPPED, CANCELLED]"

definition all_test_phases :: "test_phase list" where
  "all_test_phases =
     [BASELINE, FOCUSED, POST_PATCH, RECOVERY, PHASE_RESUME_VALIDATION, REQUESTED_FULL]"

definition enum_of_value :: "('a \<Rightarrow> string) \<Rightarrow> 'a list \<Rightarrow> string \<Rightarrow> 'a option" where
  "enum_of_value val members v = find (\<lambda>m. val m = v) members"

lemma enum_of_value_roundtrip:
  assumes "m \<in> set members" "inj_on val (set members)"
  shows "enum_of_value val members (val m) = Some m"
proof -
  have "find (\<lambda>x. val x = val m) members \<noteq> None"
    using assms(1) by (auto simp: find_None_iff)
  then obtain x where x: "find (\<lambda>x. val x = val m) members = Some x" by auto
  then have "x \<in> set members" "val x = val m"
    by (auto simp: find_Some_iff)
  with assms have "x = m" by (auto dest: inj_onD)
  with x show ?thesis by (simp add: enum_of_value_def)
qed

lemma task_status_roundtrip: "enum_of_value task_status_value all_task_statuses (task_status_value s) = Some s"
  by (cases s) (simp_all add: enum_of_value_def all_task_statuses_def)

lemma test_phase_roundtrip: "enum_of_value test_phase_value all_test_phases (test_phase_value p) = Some p"
  by (cases p) (simp_all add: enum_of_value_def all_test_phases_def)

end
