(* ===== verification/Models.thy ===== *)
theory Models
  imports Domain
begin

text \<open>
  The validated value objects of \<^verbatim>\<open>domain/models.py\<close>. A UUID is the 128-bit word Python keeps;
  \<open>_validate_uuid4\<close> accepts a UUID or its canonical string, of version 4 and RFC 4122 variant.
  \<open>TestRun\<close> and \<open>FeedbackDecision\<close> carry their cross-field contracts; the lemmas say what a
  value that passed its constructor satisfies.
\<close>

section \<open>UUIDs\<close>

datatype uuid = UUID (uuid_word: "128 word")

text \<open>\<open>ORDER BY\<close> on the canonical lower-case text is the order of the words.\<close>

instantiation uuid :: linorder
begin

definition less_eq_uuid :: "uuid \<Rightarrow> uuid \<Rightarrow> bool" where
  "less_eq_uuid u v \<longleftrightarrow> uuid_word u \<le> uuid_word v"

definition less_uuid :: "uuid \<Rightarrow> uuid \<Rightarrow> bool" where
  "less_uuid u v \<longleftrightarrow> uuid_word u < uuid_word v"

instance
  by standard (auto simp: less_eq_uuid_def less_uuid_def uuid.expand)

end

definition hex_char :: "int \<Rightarrow> int" where
  "hex_char d = (if d < 10 then 48 + d else 87 + d)"

definition hex_value :: "int \<Rightarrow> int option" where
  "hex_value c =
     (if 48 \<le> c \<and> c \<le> 57 then Some (c - 48)
      else if 97 \<le> c \<and> c \<le> 102 then Some (c - 87)
      else if 65 \<le> c \<and> c \<le> 70 then Some (c - 55)
      else None)"

definition nibbles :: "nat \<Rightarrow> int \<Rightarrow> int list" where
  "nibbles k n = map (\<lambda>i. n div 16 ^ i mod 16) (rev [0..<k])"

text \<open>\<open>str(uuid)\<close>: 32 lower-case hexadecimal digits in groups of 8, 4, 4, 4 and 12.\<close>

definition uuid_str :: "uuid \<Rightarrow> pystr" where
  "uuid_str u =
     (let h = map hex_char (nibbles 32 (uint (uuid_word u)))
      in take 8 h @ [45] @ take 4 (drop 8 h) @ [45] @ take 4 (drop 12 h) @ [45]
           @ take 4 (drop 16 h) @ [45] @ drop 20 h)"

fun hex_fold :: "int \<Rightarrow> pystr \<Rightarrow> int option" where
  "hex_fold acc [] = Some acc"
| "hex_fold acc (c # cs) =
     (case hex_value c of None \<Rightarrow> None | Some d \<Rightarrow> hex_fold (16 * acc + d) cs)"

definition strip_braces :: "pystr \<Rightarrow> pystr" where
  "strip_braces s =
     rev (dropWhile (\<lambda>c. c \<in> {123, 125}) (rev (dropWhile (\<lambda>c. c \<in> {123, 125}) s)))"

text \<open>
  \<open>UUID(text)\<close>. Only hexadecimal digits count as digits here; the other spellings \<open>int(x, 16)\<close>
  takes (signs, blanks, underscores, non-ASCII digits) do not print back to the same text, and
  \<open>validate_uuid4_str\<close> refuses them either way.
\<close>

definition uuid_of_str :: "pystr \<Rightarrow> uuid res" where
  "uuid_of_str s =
     (let t = replace (lit ''uuid:'') [] (replace (lit ''urn:'') [] s);
          h = filter (\<lambda>c. c \<noteq> 45) (strip_braces t)
      in if length h \<noteq> 32 then Inl (ValueError ''badly formed hexadecimal UUID string'')
         else (case hex_fold 0 h of
                 None \<Rightarrow> Inl (ValueError ''invalid literal for int()'')
               | Some n \<Rightarrow> Inr (UUID (of_int n))))"

definition uuid_rfc4122 :: "uuid \<Rightarrow> bool" where
  "uuid_rfc4122 u \<longleftrightarrow> bit (uuid_word u) 63 \<and> \<not> bit (uuid_word u) 62"

definition uuid_version :: "uuid \<Rightarrow> int" where
  "uuid_version u = uint (and (drop_bit 76 (uuid_word u)) 15)"

definition is_uuid4 :: "uuid \<Rightarrow> bool" where
  "is_uuid4 u \<longleftrightarrow> uuid_version u = 4 \<and> uuid_rfc4122 u"

definition check_uuid4 :: "uuid \<Rightarrow> uuid res" where
  "check_uuid4 u =
     (if \<not> is_uuid4 u then Inl (ValueError ''UUID must be RFC 4122 version 4'') else Inr u)"

text \<open>\<open>_validate_uuid4\<close> on a value: the three branches of its type test.\<close>

datatype uuid_input = UuidObject uuid | UuidText pystr | UuidOther

fun validate_uuid4 :: "uuid_input \<Rightarrow> uuid res" where
  "validate_uuid4 (UuidObject u) = check_uuid4 u"
| "validate_uuid4 (UuidText s) =
     bind_res (uuid_of_str s) (\<lambda>u.
       if s \<noteq> uuid_str u
       then Inl (ValueError ''UUID must use canonical lowercase hyphenated form'')
       else check_uuid4 u)"
| "validate_uuid4 UuidOther = Inl (ValueError ''UUID must be a UUID or canonical string'')"

lemma hex_value_char: "0 \<le> d \<Longrightarrow> d < 16 \<Longrightarrow> hex_value (hex_char d) = Some d"
  by (simp add: hex_value_def hex_char_def)

lemma nibbles_Suc: "nibbles (Suc k) n = n div 16 ^ k mod 16 # nibbles k n"
  by (simp add: nibbles_def)

lemma hex_fold_nibbles:
  "0 \<le> n \<Longrightarrow> hex_fold acc (map hex_char (nibbles k n)) = Some (acc * 16 ^ k + n mod 16 ^ k)"
proof (induction k arbitrary: acc)
  case 0
  then show ?case by (simp add: nibbles_def)
next
  case (Suc k)
  have "n mod 16 ^ Suc k = n div 16 ^ k mod 16 * 16 ^ k + n mod 16 ^ k"
    using mod_mult2_eq' [of n "16 ^ k" 16] by (simp add: mult.commute zmod_zmult2_eq)
  moreover have "hex_fold (16 * acc + n div 16 ^ k mod 16) (map hex_char (nibbles k n))
      = Some ((16 * acc + n div 16 ^ k mod 16) * 16 ^ k + n mod 16 ^ k)"
    by (rule Suc.IH [OF Suc.prems])
  ultimately show ?case
    by (simp add: nibbles_Suc hex_value_char algebra_simps)
qed

lemma split_at_absent: "x \<notin> set s \<Longrightarrow> split_at (x # p) s = None"
  by (induction s) auto

lemma replace_absent: "x \<notin> set s \<Longrightarrow> replace (x # p) b s = s"
  by (simp add: replace_def split_str.simps split_at_absent)

lemma hex_char_range: "0 \<le> d \<Longrightarrow> d < 16 \<Longrightarrow> 48 \<le> hex_char d \<and> hex_char d \<le> 102 \<and> hex_char d \<noteq> 45"
  by (simp add: hex_char_def)

lemma set_nibbles: "set (map hex_char (nibbles k n)) \<subseteq> {48..102}"
  using hex_char_range by (fastforce simp: nibbles_def)

lemma length_nibbles [simp]: "length (nibbles k n) = k"
  by (simp add: nibbles_def)

lemma uuid_str_eq:
  obtains h where "h = map hex_char (nibbles 32 (uint (uuid_word u)))"
    and "length h = 32" and "set h \<subseteq> {48..102}"
    and "uuid_str u = take 8 h @ [45] @ take 4 (drop 8 h) @ [45] @ take 4 (drop 12 h) @ [45]
           @ take 4 (drop 16 h) @ [45] @ drop 20 h"
  using that [of "map hex_char (nibbles 32 (uint (uuid_word u)))"] set_nibbles
  by (simp add: uuid_str_def Let_def)

lemma drop_split: "take k (drop n h) @ drop (k + n) h = drop n h"
  by (metis append_take_drop_id drop_drop)

lemma regroup32:
  "take 8 h @ take 4 (drop 8 h) @ take 4 (drop 12 h) @ take 4 (drop 16 h) @ drop 20 h = h"
  using drop_split [of 4 16 h] drop_split [of 4 12 h] drop_split [of 4 8 h]
  by simp

lemma set_uuid_str: "set (uuid_str u) \<subseteq> {45..102}"
proof -
  obtain h where h: "set h \<subseteq> {48..102}"
    "uuid_str u = take 8 h @ [45] @ take 4 (drop 8 h) @ [45] @ take 4 (drop 12 h) @ [45]
       @ take 4 (drop 16 h) @ [45] @ drop 20 h"
    using uuid_str_eq [of u] by metis
  have "set (take n (drop m h)) \<subseteq> {45..102}" "set (take n h) \<subseteq> {45..102}"
    "set (drop m h) \<subseteq> {45..102}" for n m
    using h(1) set_take_subset [of n h] set_take_subset [of n "drop m h"] set_drop_subset [of m h]
    by fastforce+
  then show ?thesis by (simp add: h(2))
qed

lemma dropWhile_none: "(\<forall>x \<in> set xs. \<not> P x) \<Longrightarrow> dropWhile P xs = xs"
  by (cases xs) auto

lemma strip_braces_id: "set s \<inter> {123, 125} = {} \<Longrightarrow> strip_braces s = s"
  by (subgoal_tac "\<forall>x \<in> set s. x \<notin> {123, 125}")
    (simp add: strip_braces_def dropWhile_none, blast)

lemma uuid_of_str_uuid_str: "uuid_of_str (uuid_str u) = Inr u"
proof -
  obtain h where h: "h = map hex_char (nibbles 32 (uint (uuid_word u)))" "length h = 32"
    "set h \<subseteq> {48..102}"
    "uuid_str u = take 8 h @ [45] @ take 4 (drop 8 h) @ [45] @ take 4 (drop 12 h) @ [45]
       @ take 4 (drop 16 h) @ [45] @ drop 20 h"
    using uuid_str_eq [of u] by metis
  have n: "117 \<notin> set (uuid_str u)" "set (uuid_str u) \<inter> {123, 125} = {}"
    using set_uuid_str [of u] by auto
  have k: "filter (\<lambda>c. c \<noteq> 45) t = t" if "set t \<subseteq> set h" for t
    using that h(3) by (intro filter_True) auto
  have f: "filter (\<lambda>c. c \<noteq> 45) (uuid_str u) = h"
  proof -
    have "filter (\<lambda>c. c \<noteq> 45) (take i (drop j h)) = take i (drop j h)"
      "filter (\<lambda>c. c \<noteq> 45) (take i h) = take i h"
      "filter (\<lambda>c. c \<noteq> 45) (drop j h) = drop j h" for i j
      by (rule k; meson set_take_subset set_drop_subset subset_trans)+
    then show ?thesis using regroup32 [of h] by (simp add: h(4))
  qed
  have "hex_fold 0 h = Some (uint (uuid_word u))"
  proof -
    have "uint (uuid_word u) < 16 ^ 32" using uint_lt2p [of "uuid_word u"] by simp
    then show ?thesis
      using hex_fold_nibbles [of "uint (uuid_word u)" 0 32] by (simp add: h(1))
  qed
  then show ?thesis
    using n f h(2)
    by (simp add: uuid_of_str_def Let_def lit_Cons replace_absent strip_braces_id)
qed

text \<open>For every text, \<open>_validate_uuid4\<close> returns a UUID exactly when the text is the canonical
  lower-case hyphenated form of a version 4, RFC 4122 UUID, and it returns that UUID.\<close>

theorem validate_uuid4_canonical:
  "validate_uuid4 (UuidText s) = Inr u \<longleftrightarrow> s = uuid_str u \<and> is_uuid4 u"
  by (auto simp: bind_res_Inr check_uuid4_def uuid_of_str_uuid_str split: if_splits)

lemma uuid_str_inj [simp]: "uuid_str u = uuid_str v \<longleftrightarrow> u = v"
  by (metis sum.inject(2) uuid_of_str_uuid_str)

section \<open>Field patterns\<close>

definition lower_hex :: "int \<Rightarrow> bool" where
  "lower_hex c \<longleftrightarrow> 48 \<le> c \<and> c \<le> 57 \<or> 97 \<le> c \<and> c \<le> 102"

definition lower_alpha :: "int \<Rightarrow> bool" where
  "lower_alpha c \<longleftrightarrow> 97 \<le> c \<and> c \<le> 122"

definition ascii_digit :: "int \<Rightarrow> bool" where
  "ascii_digit c \<longleftrightarrow> 48 \<le> c \<and> c \<le> 57"

text \<open>\<^verbatim>\<open>^[0-9a-f]{64}$\<close> and \<^verbatim>\<open>^(?:[0-9a-f]{40}|[0-9a-f]{64})$\<close>.\<close>

definition hash_pattern :: "pystr \<Rightarrow> bool" where
  "hash_pattern s \<longleftrightarrow> py_len s = 64 \<and> list_all lower_hex s"

definition commit_pattern :: "pystr \<Rightarrow> bool" where
  "commit_pattern s \<longleftrightarrow> (py_len s = 40 \<or> py_len s = 64) \<and> list_all lower_hex s"

text \<open>A first character of one class followed by at most \<open>n\<close> of another.\<close>

fun head_tail_pattern :: "(int \<Rightarrow> bool) \<Rightarrow> (int \<Rightarrow> bool) \<Rightarrow> int \<Rightarrow> pystr \<Rightarrow> bool" where
  "head_tail_pattern p q n [] = False"
| "head_tail_pattern p q n (c # cs) = (p c \<and> list_all q cs \<and> py_len cs \<le> n)"

definition schema_id_pattern :: "pystr \<Rightarrow> bool" where
  "schema_id_pattern =
     head_tail_pattern lower_alpha (\<lambda>c. lower_alpha c \<or> ascii_digit c \<or> c = 95 \<or> c = 46) 127"

definition media_char :: "int \<Rightarrow> bool" where
  "media_char c \<longleftrightarrow> lower_alpha c \<or> ascii_digit c \<or> c \<in> set (lit ''!#$&^_.+-'')"

definition media_type_pattern :: "pystr \<Rightarrow> bool" where
  "media_type_pattern s =
     (case split_char 47 s of
        [a, b] \<Rightarrow>
          head_tail_pattern (\<lambda>c. lower_alpha c \<or> ascii_digit c) media_char 63 a \<and>
          head_tail_pattern (\<lambda>c. lower_alpha c \<or> ascii_digit c) media_char 63 b
      | _ \<Rightarrow> False)"

section \<open>Safe single lines\<close>

text \<open>\<open>_validate_safe_single_line\<close> with its default bounds.\<close>

definition validate_safe_single_line :: "pystr \<Rightarrow> pystr res" where
  "validate_safe_single_line v =
     bind_res (of_opt UnicodeError (utf8_encode v)) (\<lambda>encoded.
       if \<not> (1 \<le> py_len v \<and> py_len v \<le> 2000) \<or> py_len encoded > 8192
       then Inl (ValueError ''safe message length is invalid'')
       else if strip v = [] \<or> v \<noteq> strip v
       then Inl (ValueError ''safe message whitespace is invalid'')
       else if list_ex is_control v \<or> list_ex (\<lambda>c. c \<in> {8232, 8233}) v
       then Inl (ValueError ''safe message contains a control'')
       else Inr v)"

section \<open>Task ids, artifact references and frozen commands\<close>

datatype task_id = TaskId (tid_value: uuid)

record artifact_ref =
  ar_artifact_id :: uuid
  ar_task_id :: task_id
  ar_schema_id :: pystr
  ar_schema_version :: int
  ar_media_type :: pystr
  ar_byte_length :: int
  ar_sha256 :: pystr

definition check_artifact_ref :: "artifact_ref \<Rightarrow> artifact_ref res" where
  "check_artifact_ref a =
     (if is_uuid4 (ar_artifact_id a) \<and> is_uuid4 (tid_value (ar_task_id a))
         \<and> schema_id_pattern (ar_schema_id a)
         \<and> 1 \<le> ar_schema_version a \<and> ar_schema_version a \<le> 65535
         \<and> media_type_pattern (ar_media_type a)
         \<and> 0 \<le> ar_byte_length a \<and> ar_byte_length a \<le> 2 ^ 63 - 1
         \<and> hash_pattern (ar_sha256 a)
      then Inr a else Inl ValidationError)"

type_synonym frozen_command = "pystr list"

definition argv_item_ok :: "pystr \<Rightarrow> bool" where
  "argv_item_ok item \<longleftrightarrow>
     1 \<le> py_len item \<and> py_len item \<le> 4096 \<and> item = strip item
       \<and> \<not> has_any [0, 13, 10] item"

text \<open>The loop of \<open>validate_argv\<close>: every item is checked, its encoded bytes are added up.\<close>

fun argv_total :: "int \<Rightarrow> pystr list \<Rightarrow> int res" where
  "argv_total acc [] = Inr acc"
| "argv_total acc (item # items) =
     bind_res (of_opt UnicodeError (utf8_encode item)) (\<lambda>encoded.
       if \<not> argv_item_ok item then Inl (ValueError ''argv item is invalid'')
       else argv_total (acc + py_len encoded) items)"

definition pytest_prefix :: "pystr list \<Rightarrow> bool" where
  "pytest_prefix argv \<longleftrightarrow>
     argv \<noteq> [] \<and> hd argv = lit ''pytest''
     \<or> take 3 argv = [lit ''python'', lit ''-m'', lit ''pytest'']"

definition frozen_command :: "pystr list \<Rightarrow> frozen_command res" where
  "frozen_command argv =
     (if \<not> (1 \<le> py_len argv \<and> py_len argv \<le> 64)
      then Inl (ValueError ''argv count is invalid'')
      else if \<not> pytest_prefix argv
      then Inl (ValueError ''test command prefix is invalid'')
      else bind_res (argv_total 0 argv) (\<lambda>bytes_total.
        if bytes_total > 32768 then Inl (ValueError ''argv byte total is invalid'') else Inr argv))"

section \<open>Tool results\<close>

record 'p tool_result =
  tr_ok :: bool
  tr_payload :: "'p option"
  tr_error_code :: "tool_error_code option"
  tr_message :: "pystr option"

definition check_tool_result :: "'p tool_result \<Rightarrow> 'p tool_result res" where
  "check_tool_result r =
     (if tr_ok r then
        (if tr_payload r = None \<or> tr_error_code r \<noteq> None \<or> tr_message r \<noteq> None
         then Inl (ValueError ''successful tool result fields are inconsistent'')
         else Inr r)
      else
        (case tr_message r of
           None \<Rightarrow> Inl (ValueError ''failed tool result fields are inconsistent'')
         | Some m \<Rightarrow>
             if tr_payload r \<noteq> None \<or> tr_error_code r = None
             then Inl (ValueError ''failed tool result fields are inconsistent'')
             else bind_res (validate_safe_single_line m) (\<lambda>_. Inr r)))"

section \<open>Test runs\<close>

record datetime =
  dt_us :: int
  dt_native_utc :: bool

record test_run =
  tn_run_id :: uuid
  tn_task_id :: task_id
  tn_phase :: test_phase
  tn_outcome :: test_run_outcome
  tn_command :: frozen_command
  tn_base_commit :: pystr
  tn_config_sha256 :: pystr
  tn_environment_sha256 :: pystr
  tn_before_sha256 :: pystr
  tn_after_sha256 :: pystr
  tn_started_at :: datetime
  tn_finished_at :: datetime
  tn_duration_ms :: int
  tn_exit_code :: "int option"
  tn_output_ref :: artifact_ref
  tn_parsed_ref :: "artifact_ref option"

definition ref_contract :: "task_id \<Rightarrow> string \<Rightarrow> artifact_ref \<Rightarrow> bool" where
  "ref_contract t schema r \<longleftrightarrow>
     ar_task_id r = t \<and> ar_schema_id r = lit schema \<and> ar_schema_version r = 1
       \<and> ar_media_type r = lit ''application/json''"

definition validate_contract :: "test_run \<Rightarrow> test_run res" where
  "validate_contract t =
     (let same_workspace = (tn_before_sha256 t = tn_after_sha256 t);
          parsed = tn_parsed_ref t;
          parsed_required = (tn_outcome t \<in> {RUN_PASSED, RUN_FAILED})
      in if dt_us (tn_finished_at t) < dt_us (tn_started_at t)
         then Inl (ValueError ''finished_at precedes started_at'')
         else if tn_outcome t = RUN_WORKSPACE_DRIFT \<and> (same_workspace \<or> parsed \<noteq> None)
         then Inl (ValueError ''workspace drift fields are inconsistent'')
         else if tn_outcome t \<noteq> RUN_WORKSPACE_DRIFT \<and> \<not> same_workspace
         then Inl (ValueError ''only workspace drift may change workspace hash'')
         else if parsed_required \<noteq> (parsed \<noteq> None)
         then Inl (ValueError ''parsed result presence is inconsistent'')
         else if tn_outcome t = RUN_PASSED \<and> tn_exit_code t \<noteq> Some 0
         then Inl (ValueError ''passed requires exit code zero'')
         else if tn_outcome t = RUN_FAILED \<and> (tn_exit_code t = None \<or> tn_exit_code t = Some 0)
         then Inl (ValueError ''failed requires nonzero exit code'')
         else if tn_outcome t \<in> {RUN_TIMED_OUT, RUN_CANCELLED, RUN_UNKNOWN_OUTCOME}
              \<and> tn_exit_code t \<noteq> None
         then Inl (ValueError ''outcome requires no exit code'')
         else if tn_outcome t = RUN_UNPARSEABLE \<and> tn_exit_code t = None
         then Inl (ValueError ''unparseable requires an exit code'')
         else if \<not> ref_contract (tn_task_id t) ''sanitized_test_output'' (tn_output_ref t)
         then Inl (ValueError ''sanitized output artifact contract is invalid'')
         else if (case parsed of None \<Rightarrow> False
                  | Some r \<Rightarrow> \<not> ref_contract (tn_task_id t) ''parsed_result'' r)
         then Inl (ValueError ''parsed result artifact contract is invalid'')
         else Inr t)"

definition test_run_fields_ok :: "test_run \<Rightarrow> bool" where
  "test_run_fields_ok t \<longleftrightarrow>
     is_uuid4 (tn_run_id t)
     \<and> commit_pattern (tn_base_commit t)
     \<and> hash_pattern (tn_config_sha256 t) \<and> hash_pattern (tn_environment_sha256 t)
     \<and> hash_pattern (tn_before_sha256 t) \<and> hash_pattern (tn_after_sha256 t)
     \<and> dt_native_utc (tn_started_at t) \<and> dt_native_utc (tn_finished_at t)
     \<and> 0 \<le> tn_duration_ms t \<and> tn_duration_ms t \<le> 2 ^ 63 - 1"

definition check_test_run :: "test_run \<Rightarrow> test_run res" where
  "check_test_run t =
     (if test_run_fields_ok t
      then (case validate_contract t of Inl _ \<Rightarrow> Inl ValidationError | Inr t' \<Rightarrow> Inr t')
      else Inl ValidationError)"

section \<open>Feedback decisions\<close>

record feedback_decision =
  fd_kind :: feedback_kind
  fd_current_run_id :: uuid
  fd_previous_run_id :: "uuid option"
  fd_matched_run_id :: "uuid option"
  fd_fingerprint :: "pystr option"
  fd_summary :: pystr

definition uuid4_option :: "uuid option \<Rightarrow> bool" where
  "uuid4_option u = (case u of None \<Rightarrow> True | Some v \<Rightarrow> is_uuid4 v)"

text \<open>\<open>validate_matrix\<close> of \<open>FeedbackDecision\<close>, its checks in the order of the code.\<close>

definition decision_matrix :: "feedback_decision \<Rightarrow> feedback_decision res" where
  "decision_matrix d =
     (if fd_kind d \<in> {FB_ENVIRONMENT_ERROR, FB_UNPARSEABLE}
      then (if fd_matched_run_id d \<noteq> None \<or> fd_fingerprint d \<noteq> None
            then Inl (ValueError ''unreliable feedback fields are inconsistent'')
            else Inr d)
      else if fd_fingerprint d = None
      then Inl (ValueError ''reliable feedback requires a fingerprint'')
      else if fd_kind d = FB_PASSED \<and> fd_matched_run_id d \<noteq> None
      then Inl (ValueError ''passed cannot match history'')
      else if fd_kind d \<noteq> FB_PASSED
           \<and> (fd_previous_run_id d = None \<or> fd_previous_run_id d = Some (fd_current_run_id d))
      then Inl (ValueError ''comparison feedback requires a different previous run'')
      else if fd_kind d = FB_LOOP
           \<and> (fd_matched_run_id d = None \<or> fd_matched_run_id d = Some (fd_current_run_id d))
      then Inl (ValueError ''loop requires a different matched run'')
      else if fd_kind d \<noteq> FB_LOOP \<and> fd_matched_run_id d \<noteq> None
      then Inl (ValueError ''only loop may match history'')
      else Inr d)"

definition decision_fields_ok :: "feedback_decision \<Rightarrow> bool" where
  "decision_fields_ok d \<longleftrightarrow>
     is_uuid4 (fd_current_run_id d) \<and> uuid4_option (fd_previous_run_id d)
     \<and> uuid4_option (fd_matched_run_id d)
     \<and> (case fd_fingerprint d of None \<Rightarrow> True
        | Some h \<Rightarrow> py_len h = 64 \<and> list_all lower_hex h)
     \<and> ok (validate_safe_single_line (fd_summary d))"

definition check_feedback_decision :: "feedback_decision \<Rightarrow> feedback_decision res" where
  "check_feedback_decision d =
     (if decision_fields_ok d
      then (case decision_matrix d of Inl _ \<Rightarrow> Inl ValidationError | Inr d' \<Rightarrow> Inr d')
      else Inl ValidationError)"

section \<open>What a constructed value satisfies\<close>

lemma validate_contract_same: "validate_contract t = Inr t' \<Longrightarrow> t' = t"
  by (simp add: validate_contract_def Let_def split: if_splits option.splits)

lemma check_test_run_same: "check_test_run t = Inr t' \<Longrightarrow> t' = t"
  by (auto simp: check_test_run_def dest: validate_contract_same split: if_splits sum.splits)

lemma check_test_run_contract:
  assumes "check_test_run t = Inr t'"
  shows "validate_contract t = Inr t" and "test_run_fields_ok t"
  using assms by (auto simp: check_test_run_def dest: validate_contract_same split: if_splits sum.splits)

lemma decision_matrix_same: "decision_matrix d = Inr d' \<Longrightarrow> d' = d"
  by (simp add: decision_matrix_def split: if_splits)

lemma check_feedback_decision_same: "check_feedback_decision d = Inr d' \<Longrightarrow> d' = d"
  by (auto simp: check_feedback_decision_def dest: decision_matrix_same split: if_splits sum.splits)

lemma safe_single_line_same: "validate_safe_single_line v = Inr v' \<Longrightarrow> v' = v"
  by (auto simp: validate_safe_single_line_def bind_res_Inr split: if_splits)

text \<open>A test run that passed its constructor is evidence about one workspace: its hashes
  differ exactly when its outcome is workspace drift, it has a parsed result exactly when it
  passed or failed, it passed only with exit code zero and failed only with another one.\<close>

theorem test_run_evidence:
  assumes "check_test_run t = Inr t'"
  shows "(tn_outcome t' = RUN_WORKSPACE_DRIFT \<longleftrightarrow> tn_before_sha256 t' \<noteq> tn_after_sha256 t')
    \<and> (tn_parsed_ref t' \<noteq> None \<longleftrightarrow> tn_outcome t' \<in> {RUN_PASSED, RUN_FAILED})
    \<and> (tn_outcome t' = RUN_PASSED \<longrightarrow> tn_exit_code t' = Some 0)
    \<and> (tn_outcome t' = RUN_FAILED \<longrightarrow> (\<exists>c. tn_exit_code t' = Some c \<and> c \<noteq> 0))
    \<and> dt_us (tn_started_at t') \<le> dt_us (tn_finished_at t')
    \<and> ar_task_id (tn_output_ref t') = tn_task_id t'"
proof -
  have t: "t' = t" "validate_contract t = Inr t"
    using assms by (rule check_test_run_same, rule check_test_run_contract(1))
  show ?thesis
    using t(2) unfolding t(1) validate_contract_def Let_def
    by (auto simp: ref_contract_def split: if_splits option.splits)
qed

definition sample_uuid :: uuid where
  "sample_uuid = UUID 0x123e4567e89b42d3a456426614174000"

definition sample_hash :: pystr where
  "sample_hash = replicate 64 97"

definition sample_ref :: "string \<Rightarrow> artifact_ref" where
  "sample_ref schema =
     \<lparr>ar_artifact_id = sample_uuid, ar_task_id = TaskId sample_uuid, ar_schema_id = lit schema,
      ar_schema_version = 1, ar_media_type = lit ''application/json'', ar_byte_length = 2,
      ar_sha256 = sample_hash\<rparr>"

definition sample_run :: test_run where
  "sample_run =
     \<lparr>tn_run_id = sample_uuid, tn_task_id = TaskId sample_uuid, tn_phase = POST_PATCH,
      tn_outcome = RUN_PASSED, tn_command = [lit ''pytest'', lit ''-q''],
      tn_base_commit = replicate 40 97, tn_config_sha256 = sample_hash,
      tn_environment_sha256 = sample_hash, tn_before_sha256 = sample_hash,
      tn_after_sha256 = sample_hash, tn_started_at = \<lparr>dt_us = 0, dt_native_utc = True\<rparr>,
      tn_finished_at = \<lparr>dt_us = 1000000, dt_native_utc = True\<rparr>, tn_duration_ms = 1000,
      tn_exit_code = Some 0, tn_output_ref = sample_ref ''sanitized_test_output'',
      tn_parsed_ref = Some (sample_ref ''parsed_result'')\<rparr>"

lemma sample_run_ok: "check_test_run sample_run = Inr sample_run"
  by code_simp

theorem test_run_evidence_witness:
  "tn_outcome sample_run = RUN_PASSED \<and> tn_exit_code sample_run = Some 0
     \<and> tn_before_sha256 sample_run = tn_after_sha256 sample_run"
  using test_run_evidence [OF sample_run_ok] by (simp add: sample_run_def)

end
