(* ===== verification/Json.thy ===== *)
theory Json
  imports Prelude
begin

text \<open>
  The part of Python's \<^verbatim>\<open>json\<close> module the source uses: \<open>json.loads\<close> with an object hook and a
  constant hook, and \<open>json.dumps\<close> with \<open>ensure_ascii=False\<close>, \<open>sort_keys=True\<close> and compact
  separators. The scanner follows CPython's: strings are strict (no raw control characters),
  surrogate pairs of escapes are joined, \<open>NaN\<close>, \<open>Infinity\<close> and \<open>-Infinity\<close> go to the constant
  hook, an integer of more than 4300 digits is refused. A float keeps its lexeme. The depth
  limit of the interpreter's stack is not modelled.
\<close>

datatype json =
    JNull
  | JBool bool
  | JInt int
  | JFloat pystr
  | JStr pystr
  | JArr "json list"
  | JObj "(pystr \<times> json) list"

section \<open>Scanning\<close>

definition json_ws :: "int \<Rightarrow> bool" where
  "json_ws c \<longleftrightarrow> c = 32 \<or> c = 9 \<or> c = 10 \<or> c = 13"

definition skip_ws :: "pystr \<Rightarrow> pystr" where
  "skip_ws s = dropWhile json_ws s"

lemma length_skip_ws [simp]: "length (skip_ws s) \<le> length s"
  by (simp add: skip_ws_def length_dropWhile_le)

definition json_hex :: "int \<Rightarrow> int option" where
  "json_hex c =
     (if 48 \<le> c \<and> c \<le> 57 then Some (c - 48)
      else if 97 \<le> c \<and> c \<le> 102 then Some (c - 87)
      else if 65 \<le> c \<and> c \<le> 70 then Some (c - 55)
      else None)"

fun hex4 :: "pystr \<Rightarrow> (int \<times> pystr) option" where
  "hex4 (a # b # c # d # r) =
     (case (json_hex a, json_hex b, json_hex c, json_hex d) of
        (Some x, Some y, Some z, Some w) \<Rightarrow> Some (((x * 16 + y) * 16 + z) * 16 + w, r)
      | _ \<Rightarrow> None)"
| "hex4 _ = None"

lemma hex4_shorter [dest]: "hex4 s = Some (u, r) \<Longrightarrow> length r < length s"
  by (cases s rule: hex4.cases) (auto split: option.splits)

definition simple_escape :: "int \<Rightarrow> int option" where
  "simple_escape e =
     (if e = 34 \<or> e = 92 \<or> e = 47 then Some e
      else if e = 98 then Some 8
      else if e = 102 then Some 12
      else if e = 110 then Some 10
      else if e = 114 then Some 13
      else if e = 116 then Some 9
      else None)"

definition high_surrogate :: "int \<Rightarrow> bool" where
  "high_surrogate u \<longleftrightarrow> 55296 \<le> u \<and> u \<le> 56319"

definition low_surrogate :: "int \<Rightarrow> bool" where
  "low_surrogate u \<longleftrightarrow> 56320 \<le> u \<and> u \<le> 57343"

text \<open>One \<open>\uXXXX\<close> escape, the two characters \<open>\u\<close> already read: a pair is joined.\<close>

definition unicode_escape :: "pystr \<Rightarrow> (int \<times> pystr) option" where
  "unicode_escape s =
     (case hex4 s of None \<Rightarrow> None
      | Some (u, r) \<Rightarrow>
          if high_surrogate u \<and> starts_with [92, 117] r
          then (case hex4 (drop 2 r) of None \<Rightarrow> None
                | Some (u2, r2) \<Rightarrow>
                    if low_surrogate u2
                    then Some (65536 + (u - 55296) * 1024 + (u2 - 56320), r2)
                    else Some (u, r))
          else Some (u, r))"

lemma unicode_escape_shorter: "unicode_escape s = Some (u, r) \<Longrightarrow> length r < length s"
  by (auto simp: unicode_escape_def split: option.splits if_splits prod.splits) fastforce+

text \<open>A string after its opening quote: its characters and what follows the closing quote.\<close>

function scan_str :: "pystr \<Rightarrow> (pystr \<times> pystr) option" where
  "scan_str [] = None"
| "scan_str (c # cs) =
     (if c = 34 then Some ([], cs)
      else if c = 92 then
        (case cs of [] \<Rightarrow> None
         | e # r \<Rightarrow>
             if e = 117
             then (case unicode_escape r of None \<Rightarrow> None
                   | Some (u, r') \<Rightarrow> map_option (\<lambda>(t, q). (u # t, q)) (scan_str r'))
             else (case simple_escape e of None \<Rightarrow> None
                   | Some x \<Rightarrow> map_option (\<lambda>(t, q). (x # t, q)) (scan_str r)))
      else if c < 32 then None
      else map_option (\<lambda>(t, q). (c # t, q)) (scan_str cs))"
  by pat_completeness auto
termination
  by (relation "measure length") (auto dest!: unicode_escape_shorter)

declare scan_str.simps(2) [simp del]

lemma scan_str_shorter: "scan_str s = Some (t, r) \<Longrightarrow> length r < length s"
proof (induction s arbitrary: t r rule: scan_str.induct)
  case (2 c cs)
  then show ?case
    by (auto simp: scan_str.simps(2) split: if_splits list.splits option.splits prod.splits
        dest!: unicode_escape_shorter) fastforce+
qed simp

section \<open>Numbers\<close>

definition json_digit :: "int \<Rightarrow> bool" where
  "json_digit c \<longleftrightarrow> 48 \<le> c \<and> c \<le> 57"

definition dec_value :: "pystr \<Rightarrow> int" where
  "dec_value ds = foldl (\<lambda>a c. a * 10 + (c - 48)) 0 ds"

text \<open>The optional fraction and exponent: what they consume, or nothing.\<close>

definition scan_frac :: "pystr \<Rightarrow> pystr \<times> pystr" where
  "scan_frac s =
     (case s of c # d # r \<Rightarrow>
        if c = 46 \<and> json_digit d
        then (c # takeWhile json_digit (d # r), dropWhile json_digit (d # r)) else ([], s)
      | _ \<Rightarrow> ([], s))"

definition scan_exp :: "pystr \<Rightarrow> pystr \<times> pystr" where
  "scan_exp s =
     (case s of c # r \<Rightarrow>
        if c = 101 \<or> c = 69
        then (let sign = takeWhile (\<lambda>x. x = 43 \<or> x = 45) (take 1 r);
                  d = drop (length sign) r
              in if d \<noteq> [] \<and> json_digit (hd d)
                 then (c # sign @ takeWhile json_digit d, dropWhile json_digit d)
                 else ([], s))
        else ([], s)
      | [] \<Rightarrow> ([], s))"

definition scan_number :: "bool \<Rightarrow> pystr \<Rightarrow> (json \<times> pystr) option" where
  "scan_number neg s =
     (case s of [] \<Rightarrow> None
      | c # r \<Rightarrow>
          if \<not> json_digit c then None
          else
            let ds = (if c = 48 then [c] else takeWhile json_digit s);
                r1 = (if c = 48 then r else dropWhile json_digit s);
                (fr, r2) = scan_frac r1;
                (ex, r3) = scan_exp r2
            in if fr = [] \<and> ex = []
               then (if length ds > 4300 then None
                     else Some (JInt (if neg then - dec_value ds else dec_value ds), r1))
               else Some (JFloat ((if neg then [45] else []) @ ds @ fr @ ex), r3))"

section \<open>Values\<close>

type_synonym pairs_hook = "(pystr \<times> json) list \<Rightarrow> json option"
type_synonym const_hook = "string \<Rightarrow> json option"

definition scan_const :: "const_hook \<Rightarrow> pystr \<Rightarrow> (json \<times> pystr) option" where
  "scan_const const s =
     (if starts_with (lit ''null'') s then Some (JNull, drop 4 s)
      else if starts_with (lit ''true'') s then Some (JBool True, drop 4 s)
      else if starts_with (lit ''false'') s then Some (JBool False, drop 5 s)
      else if starts_with (lit ''NaN'') s then map_option (\<lambda>v. (v, drop 3 s)) (const ''NaN'')
      else if starts_with (lit ''Infinity'') s
        then map_option (\<lambda>v. (v, drop 8 s)) (const ''Infinity'')
      else if starts_with (lit ''-Infinity'') s
        then map_option (\<lambda>v. (v, drop 9 s)) (const ''-Infinity'')
      else if starts_with [45] s then scan_number True (drop 1 s)
      else scan_number False s)"

text \<open>
  The recursive scanner. A rest is always shorter than its input (\<open>scan_shorter\<close> below), so the
  length tests only serve the termination proof: they never fail.
\<close>

function scan_value :: "pairs_hook \<Rightarrow> const_hook \<Rightarrow> pystr \<Rightarrow> (json \<times> pystr) option"
  and scan_elems :: "pairs_hook \<Rightarrow> const_hook \<Rightarrow> pystr \<Rightarrow> (json list \<times> pystr) option"
  and scan_members ::
    "pairs_hook \<Rightarrow> const_hook \<Rightarrow> pystr \<Rightarrow> ((pystr \<times> json) list \<times> pystr) option"
where
  "scan_value hook const s =
     (case s of [] \<Rightarrow> None
      | c # cs \<Rightarrow>
          if c = 34 then map_option (\<lambda>(t, r). (JStr t, r)) (scan_str cs)
          else if c = 123 then
            (case skip_ws cs of [] \<Rightarrow> None
             | d # ds \<Rightarrow>
                 if d = 125 then map_option (\<lambda>v. (v, ds)) (hook [])
                 else (case scan_members hook const (d # ds) of None \<Rightarrow> None
                       | Some (ms, r) \<Rightarrow> map_option (\<lambda>v. (v, r)) (hook ms)))
          else if c = 91 then
            (case skip_ws cs of [] \<Rightarrow> None
             | d # ds \<Rightarrow>
                 if d = 93 then Some (JArr [], ds)
                 else map_option (\<lambda>(vs, r). (JArr vs, r)) (scan_elems hook const (d # ds)))
          else scan_const const s)"
| "scan_elems hook const s =
     (case scan_value hook const s of None \<Rightarrow> None
      | Some (v, r) \<Rightarrow>
          (case skip_ws r of [] \<Rightarrow> None
           | d # ds \<Rightarrow>
               if d = 93 then Some ([v], ds)
               else if d = 44 \<and> length r < length s
                 then map_option (\<lambda>(vs, q). (v # vs, q)) (scan_elems hook const (skip_ws ds))
               else None))"
| "scan_members hook const s =
     (case s of [] \<Rightarrow> None
      | c # cs \<Rightarrow>
          if c \<noteq> 34 then None
          else (case scan_str cs of None \<Rightarrow> None
            | Some (k, r0) \<Rightarrow>
                (case skip_ws r0 of [] \<Rightarrow> None
                 | d # ds \<Rightarrow>
                     if d \<noteq> 58 then None
                     else (case scan_value hook const (skip_ws ds) of None \<Rightarrow> None
                       | Some (v, r) \<Rightarrow>
                           (case skip_ws r of [] \<Rightarrow> None
                            | e # es \<Rightarrow>
                                if e = 125 then Some ([(k, v)], es)
                                else if e = 44 \<and> length r < length s
                                  then map_option (\<lambda>(ms, q). ((k, v) # ms, q))
                                         (scan_members hook const (skip_ws es))
                                else None)))))"
  by pat_completeness auto
termination
proof (relation "measures [\<lambda>x. case x of Inl (_, _, s) \<Rightarrow> length s
      | Inr (Inl (_, _, s)) \<Rightarrow> length s | Inr (Inr (_, _, s)) \<Rightarrow> length s,
    \<lambda>x. case x of Inl _ \<Rightarrow> 0 | Inr _ \<Rightarrow> (1::nat)]", goal_cases)
qed (auto, (metis length_skip_ws length_Cons le_imp_less_Suc le_trans Suc_le_lessD less_imp_le_nat scan_str_shorter order_less_le_trans order_le_less_trans)+)

declare scan_value.simps [simp del] scan_elems.simps [simp del] scan_members.simps [simp del]

text \<open>\<open>json.loads(text, object_pairs_hook=hook, parse_constant=const)\<close>.\<close>

definition json_loads :: "pairs_hook \<Rightarrow> const_hook \<Rightarrow> pystr \<Rightarrow> json option" where
  "json_loads hook const s =
     (if starts_with [65279] s then None
      else case scan_value hook const (skip_ws s) of None \<Rightarrow> None
        | Some (v, r) \<Rightarrow> if skip_ws r = [] then Some v else None)"

text \<open>The defaults: \<open>dict(pairs)\<close> keeps the first position and the last value of a key.\<close>

fun dict_update :: "'k \<Rightarrow> 'v \<Rightarrow> ('k \<times> 'v) list \<Rightarrow> ('k \<times> 'v) list" where
  "dict_update k v [] = [(k, v)]"
| "dict_update k v ((k', v') # kvs) =
     (if k = k' then (k, v) # kvs else (k', v') # dict_update k v kvs)"

definition dict_of_pairs :: "('k \<times> 'v) list \<Rightarrow> ('k \<times> 'v) list" where
  "dict_of_pairs ps = foldl (\<lambda>d (k, v). dict_update k v d) [] ps"

definition default_pairs_hook :: pairs_hook where
  "default_pairs_hook ps = Some (JObj (dict_of_pairs ps))"

definition default_const_hook :: const_hook where
  "default_const_hook c = Some (JFloat (lit c))"

lemma dict_update_fresh: "k \<notin> fst ` set d \<Longrightarrow> dict_update k v d = d @ [(k, v)]"
  by (induction d) auto

lemma dict_of_pairs_distinct:
  assumes "distinct (map fst ps)"
  shows "dict_of_pairs ps = ps"
proof -
  have "foldl (\<lambda>d (k, v). dict_update k v d) d qs = d @ qs"
    if "distinct (map fst (d @ qs))" for d qs
    using that
  proof (induction qs arbitrary: d)
    case (Cons kv qs)
    obtain k v where kv: "kv = (k, v)" by (cases kv)
    with Cons.prems have "k \<notin> fst ` set d" by auto
    with Cons kv show ?case by (simp add: dict_update_fresh)
  qed simp
  from this [of "[]" ps] assms show ?thesis by (simp add: dict_of_pairs_def)
qed

section \<open>Printing\<close>

function nat_digits :: "int \<Rightarrow> pystr" where
  "nat_digits n = (if n < 10 then [48 + n] else nat_digits (n div 10) @ [48 + n mod 10])"
  by pat_completeness auto
termination
  by (relation "measure nat") auto

declare nat_digits.simps [simp del]

definition int_str :: "int \<Rightarrow> pystr" where
  "int_str n = (if n < 0 then 45 # nat_digits (- n) else nat_digits n)"

definition hex_lower :: "int \<Rightarrow> int" where
  "hex_lower d = (if d < 10 then 48 + d else 87 + d)"

definition escape_char :: "int \<Rightarrow> pystr" where
  "escape_char c =
     (if c = 34 then [92, 34]
      else if c = 92 then [92, 92]
      else if c = 10 then [92, 110]
      else if c = 13 then [92, 114]
      else if c = 9 then [92, 116]
      else if c = 12 then [92, 102]
      else if c = 8 then [92, 98]
      else if c < 32 then [92, 117, 48, 48, hex_lower (c div 16), hex_lower (c mod 16)]
      else [c])"

definition dump_str :: "pystr \<Rightarrow> pystr" where
  "dump_str s = 34 # concat (map escape_char s) @ [34]"

fun json_dumps :: "json \<Rightarrow> pystr" where
  "json_dumps JNull = lit ''null''"
| "json_dumps (JBool b) = (if b then lit ''true'' else lit ''false'')"
| "json_dumps (JInt n) = int_str n"
| "json_dumps (JFloat x) = x"
| "json_dumps (JStr s) = dump_str s"
| "json_dumps (JArr vs) = 91 # join [44] (map json_dumps vs) @ [93]"
| "json_dumps (JObj kvs) =
     123 # join [44] (map (\<lambda>(k, t). dump_str k @ 58 # t)
       (sort_key fst (map (\<lambda>(k, v). (k, json_dumps v)) kvs))) @ [125]"

section \<open>Printing then parsing\<close>

text \<open>
  The values the source prints: no floats, integers within the digit limit, strings of code
  points, dictionaries (distinct keys) already in key order, as \<open>sort_keys\<close> would leave them.
\<close>

fun plain_json :: "json \<Rightarrow> bool" where
  "plain_json JNull = True"
| "plain_json (JBool b) = True"
| "plain_json (JInt n) = (length (nat_digits \<bar>n\<bar>) \<le> 4300)"
| "plain_json (JFloat x) = False"
| "plain_json (JStr s) = (\<forall>c \<in> set s. 0 \<le> c)"
| "plain_json (JArr vs) = (\<forall>v \<in> set vs. plain_json v)"
| "plain_json (JObj kvs) =
     (sorted (map fst kvs) \<and> distinct (map fst kvs)
      \<and> (\<forall>kv \<in> set kvs. (\<forall>c \<in> set (fst kv). 0 \<le> c) \<and> plain_json (snd kv)))"

definition stops :: "pystr \<Rightarrow> bool" where
  "stops r \<longleftrightarrow> r = [] \<or> hd r = 44 \<or> hd r = 93 \<or> hd r = 125"

lemma stops_simps [simp]:
  "stops []" "stops (44 # r)" "stops (93 # r)" "stops (125 # r)"
  by (simp_all add: stops_def)

lemma nat_digits_props:
  "0 \<le> n \<Longrightarrow> nat_digits n \<noteq> [] \<and> (\<forall>c \<in> set (nat_digits n). json_digit c)
     \<and> dec_value (nat_digits n) = n \<and> (0 < n \<longrightarrow> hd (nat_digits n) \<noteq> 48)"
proof (induction n rule: nat_digits.induct)
  case (1 n)
  show ?case
  proof (cases "n < 10")
    case True
    with 1 show ?thesis
      by (simp add: nat_digits.simps [of n] json_digit_def dec_value_def)
  next
    case False
    with 1 have IH: "nat_digits (n div 10) \<noteq> []" "\<forall>c \<in> set (nat_digits (n div 10)). json_digit c"
      "dec_value (nat_digits (n div 10)) = n div 10" "hd (nat_digits (n div 10)) \<noteq> 48"
      by auto
    from False IH show ?thesis
      by (simp add: nat_digits.simps [of n] json_digit_def dec_value_def)
  qed
qed

lemma takeWhile_all: "(\<forall>c \<in> set ds. P c) \<Longrightarrow> (r = [] \<or> \<not> P (hd r)) \<Longrightarrow>
    takeWhile P (ds @ r) = ds \<and> dropWhile P (ds @ r) = r"
  by (cases r) (auto simp: takeWhile_append2 dropWhile_append2)

lemma scan_number_digits:
  assumes n: "0 \<le> n" and len: "length (nat_digits n) \<le> 4300" and r: "stops r"
  shows "scan_number neg (nat_digits n @ r) = Some (JInt (if neg then - n else n), r)"
proof -
  have p: "nat_digits n \<noteq> []" "\<forall>c \<in> set (nat_digits n). json_digit c"
    "dec_value (nat_digits n) = n" "0 < n \<longrightarrow> hd (nat_digits n) \<noteq> 48"
    using nat_digits_props [OF n] by auto
  obtain c ds where cs: "nat_digits n = c # ds" using p(1) by (cases "nat_digits n") auto
  have q: "r = [] \<or> \<not> json_digit (hd r)"
    using r by (auto simp: stops_def json_digit_def)
  have tw: "takeWhile json_digit (nat_digits n @ r) = nat_digits n"
    "dropWhile json_digit (nat_digits n @ r) = r"
    using takeWhile_all [OF p(2) q] by auto
  have fr: "scan_frac r = ([], r)" "scan_exp r = ([], r)"
    using r by (auto simp: scan_frac_def scan_exp_def stops_def split: list.splits)
  show ?thesis
  proof (cases "n = 0")
    case True
    then have "nat_digits n = [48]" by (simp add: nat_digits.simps)
    with True fr show ?thesis by (simp add: scan_number_def json_digit_def dec_value_def)
  next
    case False
    with n p(4) cs have "c \<noteq> 48" by simp
    with p(2) cs tw fr p(3) len show ?thesis
      by (simp add: scan_number_def)
  qed
qed

lemma hex_lower_value: "0 \<le> d \<Longrightarrow> d < 16 \<Longrightarrow> json_hex (hex_lower d) = Some d"
  by (simp add: json_hex_def hex_lower_def)

lemma scan_str_escape:
  assumes "0 \<le> c"
  shows "scan_str (escape_char c @ s) = map_option (\<lambda>(t, q). (c # t, q)) (scan_str s)"
proof -
  have u: "unicode_escape (48 # 48 # hex_lower (c div 16) # hex_lower (c mod 16) # s) = Some (c, s)"
    if "c < 32"
  proof -
    from that assms have "0 \<le> c div 16" "c div 16 < 16" "0 \<le> c mod 16" "c mod 16 < 16" by auto
    then show ?thesis
      using that assms
      by (simp add: unicode_escape_def hex_lower_value json_hex_def [of 48] high_surrogate_def)
  qed
  show ?thesis
    using assms u by (auto simp: escape_char_def scan_str.simps(2) simple_escape_def)
qed

lemma scan_str_dump:
  "(\<forall>c \<in> set t. 0 \<le> c) \<Longrightarrow> scan_str (concat (map escape_char t) @ 34 # r) = Some (t, r)"
proof (induction t)
  case Nil
  then show ?case by (simp add: scan_str.simps(2))
next
  case (Cons c t)
  then show ?case by (simp add: scan_str_escape)
qed

definition json_start :: "int \<Rightarrow> bool" where
  "json_start c \<longleftrightarrow> c \<in> {34, 45, 91, 102, 110, 116, 123} \<or> json_digit c"

lemma dumps_start:
  assumes "plain_json v"
  obtains c cs where "json_dumps v = c # cs" "json_start c"
proof (cases v)
  case (JInt n)
  have "0 \<le> \<bar>n\<bar>" by simp
  then have "nat_digits \<bar>n\<bar> \<noteq> [] \<and> (\<forall>c \<in> set (nat_digits \<bar>n\<bar>). json_digit c)"
    using nat_digits_props by blast
  then obtain d ds where d: "nat_digits \<bar>n\<bar> = d # ds" "json_digit d"
    by (cases "nat_digits \<bar>n\<bar>") auto
  then show ?thesis
    using JInt that by (cases "n < 0") (simp_all add: int_str_def json_start_def)
next
  case (JBool b)
  with that show ?thesis by (cases b) (simp_all add: json_start_def str_simps)
qed (use assms that in \<open>auto simp: json_start_def str_simps dump_str_def\<close>)

lemma json_start_simps:
  "json_start c \<Longrightarrow> skip_ws (c # cs) = c # cs \<and> c \<noteq> 93 \<and> c \<noteq> 125 \<and> c \<noteq> 65279"
  by (auto simp: json_start_def skip_ws_def json_ws_def json_digit_def)

lemma skip_ws_punct [simp]:
  "skip_ws (44 # r) = 44 # r" "skip_ws (93 # r) = 93 # r" "skip_ws (125 # r) = 125 # r"
  "skip_ws (58 # r) = 58 # r" "skip_ws (34 # r) = 34 # r" "skip_ws [] = []"
  by (simp_all add: skip_ws_def json_ws_def)

lemma join_Cons: "xs \<noteq> [] \<Longrightarrow> join sep (x # xs) = x @ sep @ join sep xs"
  by (cases xs) auto

lemma scan_elems_dump:
  assumes "\<And>v r. v \<in> set vs \<Longrightarrow> stops r \<Longrightarrow> scan_value h k (json_dumps v @ r) = Some (v, r)"
    and "\<forall>v \<in> set vs. plain_json v" and "vs \<noteq> []"
  shows "scan_elems h k (join [44] (map json_dumps vs) @ 93 # r) = Some (vs, r)"
  using assms
proof (induction vs)
  case (Cons v vs)
  show ?case
  proof (cases "vs = []")
    case True
    then show ?thesis using Cons.prems(1) by (simp add: scan_elems.simps)
  next
    case False
    let ?rest = "join [44] (map json_dumps vs) @ 93 # r"
    from Cons False have IH: "scan_elems h k ?rest = Some (vs, r)" by simp
    obtain w ws where ws: "vs = w # ws" using False by (cases vs) auto
    obtain c cs where "json_dumps w = c # cs" "json_start c"
      using Cons.prems(2) ws dumps_start by (metis list.set_intros(1) list.set_intros(2))
    then have sk: "skip_ws ?rest = ?rest"
      using ws by (cases ws) (auto simp: json_start_simps)
    have "json_dumps v \<noteq> []"
      using Cons.prems(2) dumps_start by (metis list.distinct(1) list.set_intros(1))
    moreover have "scan_value h k (json_dumps v @ 44 # ?rest) = Some (v, 44 # ?rest)"
      using Cons.prems(1) by simp
    ultimately have "scan_elems h k (json_dumps v @ 44 # ?rest) = Some (v # vs, r)"
      using IH sk by (subst scan_elems.simps) simp
    then show ?thesis using False by (simp add: join_Cons)
  qed
qed simp

definition dump_member :: "pystr \<times> json \<Rightarrow> pystr" where
  "dump_member kv = dump_str (fst kv) @ 58 # json_dumps (snd kv)"

lemma scan_members_dump:
  assumes "\<And>kv r. kv \<in> set kvs \<Longrightarrow> stops r \<Longrightarrow> scan_value h k (json_dumps (snd kv) @ r) = Some (snd kv, r)"
    and "\<forall>kv \<in> set kvs. (\<forall>c \<in> set (fst kv). 0 \<le> c) \<and> plain_json (snd kv)" and "kvs \<noteq> []"
  shows "scan_members h k (join [44] (map dump_member kvs) @ 125 # r) = Some (kvs, r)"
  using assms
proof (induction kvs)
  case (Cons kv kvs)
  have one: "scan_members h k (dump_member kv @ q) =
      (case skip_ws q of [] \<Rightarrow> None
       | e # es \<Rightarrow> if e = 125 then Some ([kv], es)
           else if e = 44 \<and> length q < length (dump_member kv @ q)
           then map_option (\<lambda>(ms, p). (kv # ms, p)) (scan_members h k (skip_ws es)) else None)"
    if "stops q" for q
  proof -
    obtain c cs where "json_dumps (snd kv) = c # cs" "json_start c"
      using Cons.prems(2) dumps_start by (metis list.set_intros(1))
    then have "skip_ws (json_dumps (snd kv) @ q) = json_dumps (snd kv) @ q"
      by (simp add: json_start_simps)
    moreover have "scan_str (concat (map escape_char (fst kv)) @ 34 # 58 # json_dumps (snd kv) @ q)
        = Some (fst kv, 58 # json_dumps (snd kv) @ q)"
      using Cons.prems(2) by (intro scan_str_dump) simp
    moreover have "scan_value h k (json_dumps (snd kv) @ q) = Some (snd kv, q)"
      using Cons.prems(1) that by simp
    ultimately show ?thesis
      by (subst scan_members.simps) (simp add: dump_member_def dump_str_def split: list.split)
  qed
  show ?case
  proof (cases "kvs = []")
    case True
    then show ?thesis using one [of "125 # r"] by simp
  next
    case False
    let ?rest = "join [44] (map dump_member kvs) @ 125 # r"
    from Cons False have IH: "scan_members h k ?rest = Some (kvs, r)" by simp
    obtain w ws where ws: "kvs = w # ws" using False by (cases kvs) auto
    then have sk: "skip_ws ?rest = ?rest"
      by (cases ws) (auto simp: dump_member_def dump_str_def)
    have "length (44 # ?rest) < length (dump_member kv @ 44 # ?rest)"
      by (simp add: dump_member_def dump_str_def)
    then have "scan_members h k (dump_member kv @ 44 # ?rest) = Some (kv # kvs, r)"
      using one [of "44 # ?rest"] IH sk by simp
    then show ?thesis using False by (simp add: join_Cons)
  qed
qed simp

lemma scan_int:
  assumes "length (nat_digits \<bar>n\<bar>) \<le> 4300" and "stops r"
  shows "scan_value h k (int_str n @ r) = Some (JInt n, r)"
proof -
  have p: "nat_digits \<bar>n\<bar> \<noteq> []" "\<forall>c \<in> set (nat_digits \<bar>n\<bar>). json_digit c"
    using nat_digits_props [of "\<bar>n\<bar>"] by auto
  obtain d ds where d: "nat_digits \<bar>n\<bar> = d # ds" using p(1) by (cases "nat_digits \<bar>n\<bar>") auto
  with p(2) have dig: "48 \<le> d" "d \<le> 57" by (auto simp: json_digit_def)
  have num: "scan_number neg (nat_digits \<bar>n\<bar> @ r) = Some (JInt (if neg then - \<bar>n\<bar> else \<bar>n\<bar>), r)" for neg
    using scan_number_digits [of "\<bar>n\<bar>" r neg] assms by simp
  show ?thesis
  proof (cases "n < 0")
    case True
    with d dig num [of True] show ?thesis
      by (simp add: int_str_def scan_value.simps [of h k "45 # d # ds @ r"] scan_const_def str_simps)
  next
    case False
    with d dig num [of False] show ?thesis
      by (simp add: int_str_def scan_value.simps [of h k "d # ds @ r"] scan_const_def str_simps)
  qed
qed

lemma scan_value_dump:
  "plain_json v \<Longrightarrow> stops r \<Longrightarrow> scan_value default_pairs_hook k (json_dumps v @ r) = Some (v, r)"
proof (induction v arbitrary: r rule: json_dumps.induct)
  case (3 n)
  then show ?case by (simp add: scan_int)
next
  case (5 s)
  then show ?case
    by (simp add: dump_str_def scan_value.simps [of _ _ "34 # _"] scan_str_dump)
next
  case (6 vs)
  show ?case
  proof (cases "vs = []")
    case True
    then show ?thesis by (simp add: scan_value.simps)
  next
    case False
    let ?body = "join [44] (map json_dumps vs) @ 93 # r"
    have "scan_elems default_pairs_hook k ?body = Some (vs, r)"
      using 6 False by (intro scan_elems_dump) auto
    moreover obtain c cs where "?body = c # cs" "json_start c"
      using 6(2) False dumps_start by (cases vs; cases "tl vs") (auto, (metis append_Cons)+)
    ultimately show ?thesis
      using json_start_simps [of c cs] by (simp add: scan_value.simps [of _ _ "91 # _"])
  qed
next
  case (7 kvs)
  let ?sorted = "sort_key fst (map (\<lambda>(k, v). (k, json_dumps v)) kvs)"
  have "sorted (map fst (map (\<lambda>(k, v). (k, json_dumps v)) kvs))"
    using 7(2) by (simp add: comp_def case_prod_beta)
  then have "?sorted = map (\<lambda>(k, v). (k, json_dumps v)) kvs"
    by (rule sort_key_id_if_sorted)
  then have dump: "json_dumps (JObj kvs) = 123 # join [44] (map dump_member kvs) @ [125]"
    by (simp add: comp_def case_prod_beta dump_member_def [abs_def])
  show ?case
  proof (cases "kvs = []")
    case True
    then show ?thesis
      by (simp add: scan_value.simps default_pairs_hook_def dict_of_pairs_def)
  next
    case False
    let ?body = "join [44] (map dump_member kvs) @ 125 # r"
    have "scan_value default_pairs_hook k (json_dumps (snd kv) @ q) = Some (snd kv, q)"
      if "kv \<in> set kvs" "stops q" for kv q
      using 7(1) [of kv "fst kv" "snd kv" q] 7(2) that by simp
    then have "scan_members default_pairs_hook k ?body = Some (kvs, r)"
      using 7(2) False by (intro scan_members_dump) auto
    moreover obtain cs where "?body = 34 # cs"
      using False by (cases kvs; cases "tl kvs") (auto simp: dump_member_def dump_str_def)
    moreover have "default_pairs_hook kvs = Some (JObj kvs)"
      using 7(2) by (simp add: default_pairs_hook_def dict_of_pairs_distinct)
    ultimately have "scan_value default_pairs_hook k (123 # ?body) = Some (JObj kvs, r)"
      by (simp add: scan_value.simps [of _ _ "123 # _"])
    then show ?thesis unfolding dump by simp
  qed
qed (simp_all add: scan_value.simps scan_const_def str_simps)

lemma json_roundtrip:
  assumes "plain_json v"
  shows "json_loads default_pairs_hook k (json_dumps v) = Some v"
proof -
  obtain c cs where "json_dumps v = c # cs" "json_start c"
    using assms by (rule dumps_start)
  then have "skip_ws (json_dumps v) = json_dumps v" "\<not> starts_with [65279] (json_dumps v)"
    using json_start_simps [of c cs] by auto
  moreover have "scan_value default_pairs_hook k (json_dumps v) = Some (v, [])"
    using scan_value_dump [OF assms, of "[]"] by simp
  ultimately show ?thesis by (simp add: json_loads_def)
qed

end
