(* ===== verification/Actions.thy ===== *)
theory Actions
  imports Models Json
begin

text \<open>
  \<^verbatim>\<open>domain/actions.py\<close>: the nine actions, their schema checks and \<open>parse_action\<close>, which turns a
  model's answer (text or a dictionary) into an action or one of six protocol errors, never an
  exception. pydantic validates a dictionary field by field with unknown keys forbidden; as
  every failure becomes the same \<open>SCHEMA_VIOLATION\<close>, a schema is a function that returns the
  action or \<open>None\<close>. The Unicode tables of \<open>str.isidentifier\<close> beyond ASCII are an argument.
\<close>

section \<open>Actions\<close>

datatype test_scope = FULL_SCOPE | FOCUSED_SCOPE

datatype action =
    ListFiles pystr bool
  | ReadFile pystr "int option" "int option"
  | SearchCode pystr pystr bool
  | ApplyPatch pystr
  | RunTests test_scope "pystr list"
  | GitDiff
  | GitStatus
  | RunDiagnostic pystr "pystr list"
  | RequestHuman pystr

text \<open>The literal of the \<open>type\<close> field.\<close>

primrec action_type :: "action \<Rightarrow> string" where
  "action_type (ListFiles p r) = ''list_files''"
| "action_type (ReadFile p a b) = ''read_file''"
| "action_type (SearchCode p q c) = ''search_code''"
| "action_type (ApplyPatch d) = ''apply_patch''"
| "action_type (RunTests s ts) = ''run_tests''"
| "action_type GitDiff = ''git_diff''"
| "action_type GitStatus = ''git_status''"
| "action_type (RunDiagnostic i args) = ''run_diagnostic''"
| "action_type (RequestHuman r) = ''request_human''"

section \<open>Field checks\<close>

record unicode_tables =
  uni_start :: "int \<Rightarrow> bool"
  uni_continue :: "int \<Rightarrow> bool"

definition id_start :: "unicode_tables \<Rightarrow> int \<Rightarrow> bool" where
  "id_start u c \<longleftrightarrow>
     (if c < 128 then 97 \<le> c \<and> c \<le> 122 \<or> 65 \<le> c \<and> c \<le> 90 \<or> c = 95 else uni_start u c)"

definition id_continue :: "unicode_tables \<Rightarrow> int \<Rightarrow> bool" where
  "id_continue u c \<longleftrightarrow>
     (if c < 128 then id_start u c \<or> 48 \<le> c \<and> c \<le> 57 else uni_continue u c)"

definition is_identifier :: "unicode_tables \<Rightarrow> pystr \<Rightarrow> bool" where
  "is_identifier u s \<longleftrightarrow> s \<noteq> [] \<and> id_start u (hd s) \<and> list_all (id_continue u) (tl s)"

definition bytes_within :: "pystr \<Rightarrow> int \<Rightarrow> bool" where
  "bytes_within s n = (case utf8_encode s of None \<Rightarrow> False | Some b \<Rightarrow> py_len b \<le> n)"

definition utf8_length :: "pystr \<Rightarrow> int" where
  "utf8_length s = (case utf8_encode s of None \<Rightarrow> 0 | Some b \<Rightarrow> py_len b)"

definition common_path_ok :: "pystr \<Rightarrow> bool" where
  "common_path_ok p \<longleftrightarrow> 1 \<le> py_len p \<and> py_len p \<le> 4096 \<and> 0 \<notin> set p \<and> \<not> starts_with [47] p"

definition line_bounds_ok :: "int option \<Rightarrow> int option \<Rightarrow> bool" where
  "line_bounds_ok a b =
     (case (a, b) of
        (None, None) \<Rightarrow> True
      | (Some s, Some e) \<Rightarrow> 1 \<le> s \<and> s \<le> e \<and> e \<le> 1000000
      | _ \<Rightarrow> False)"

definition query_ok :: "pystr \<Rightarrow> bool" where
  "query_ok q \<longleftrightarrow> 1 \<le> py_len q \<and> py_len q \<le> 1000 \<and> strip q \<noteq> [] \<and> \<not> has_any [0, 13, 10] q"

definition diff_ok :: "pystr \<Rightarrow> bool" where
  "diff_ok d \<longleftrightarrow>
     strip d \<noteq> [] \<and> 0 \<notin> set d \<and> 13 \<notin> set d \<and> ends_with [10] d
     \<and> bytes_within d 2097152"

text \<open>\<open>target.rfind("[")\<close>.\<close>

definition rfind :: "'a \<Rightarrow> 'a list \<Rightarrow> nat option" where
  "rfind c s =
     (if c \<in> set s then Some (length s - 1 - length (takeWhile (\<lambda>x. x \<noteq> c) (rev s))) else None)"

text \<open>The parameter suffix: \<open>None\<close> is the exception, the inner option is \<open>parameter\<close>.\<close>

definition split_parameter :: "pystr \<Rightarrow> (pystr option \<times> pystr) option" where
  "split_parameter target =
     (if 91 \<in> set target \<or> 93 \<in> set target then
        (case rfind 91 target of None \<Rightarrow> None
         | Some opening \<Rightarrow>
             if \<not> ends_with [93] target
                \<or> 93 \<in> set (drop opening (butlast target))
                \<or> 91 \<in> set (drop (opening + 1) target)
             then None
             else
               let parameter = drop (opening + 1) (butlast target)
               in if \<not> (1 \<le> py_len parameter \<and> py_len parameter \<le> 512)
                     \<or> has_any [91, 93, 0, 13, 10] parameter
                  then None
                  else Some (Some parameter, take opening target))
      else Some (None, target))"

definition focused_target_ok :: "unicode_tables \<Rightarrow> pystr \<Rightarrow> bool" where
  "focused_target_ok u target \<longleftrightarrow>
     utf8_encode target \<noteq> None
     \<and> 1 \<le> py_len target \<and> py_len target \<le> 4096
     \<and> strip target \<noteq> [] \<and> target = strip target \<and> \<not> has_any [0, 13, 10] target
     \<and> target \<noteq> [46] \<and> hd target \<notin> {45, 47, 39, 34}
     \<and> 42 \<notin> set target \<and> 63 \<notin> set target
     \<and> (case split_parameter target of None \<Rightarrow> False
        | Some (parameter, selector_source) \<Rightarrow>
            let pieces = split_str (lit ''::'') selector_source;
                selectors = tl pieces
            in ends_with (lit ''.py'') (hd pieces)
               \<and> list_all (\<lambda>s. s \<noteq> []) selectors
               \<and> (parameter \<noteq> None \<longrightarrow> selectors \<noteq> [])
               \<and> list_all (is_identifier u) selectors)"

definition run_tests_ok :: "unicode_tables \<Rightarrow> test_scope \<Rightarrow> pystr list \<Rightarrow> bool" where
  "run_tests_ok u scope targets =
     (case scope of
        FULL_SCOPE \<Rightarrow> targets = []
      | FOCUSED_SCOPE \<Rightarrow>
          1 \<le> py_len targets \<and> py_len targets \<le> 32 \<and> distinct targets
          \<and> list_all (focused_target_ok u) targets
          \<and> sum_list (map utf8_length targets) \<le> 32768)"

definition ident_pattern :: "pystr \<Rightarrow> bool" where
  "ident_pattern =
     head_tail_pattern lower_alpha (\<lambda>c. lower_alpha c \<or> ascii_digit c \<or> c = 95) 63"

definition diagnostic_arguments_ok :: "pystr list \<Rightarrow> bool" where
  "diagnostic_arguments_ok args \<longleftrightarrow>
     py_len args \<le> 32
     \<and> list_all (\<lambda>a. utf8_encode a \<noteq> None \<and> py_len a \<le> 4096 \<and> \<not> has_any [0, 13, 10] a) args
     \<and> sum_list (map utf8_length args) \<le> 32768"

definition reason_ok :: "pystr \<Rightarrow> bool" where
  "reason_ok r \<longleftrightarrow>
     1 \<le> py_len r \<and> py_len r \<le> 4000 \<and> bytes_within r 16384
     \<and> strip r \<noteq> [] \<and> r = strip r \<and> \<not> has_any [13, 8232, 8233] r
     \<and> \<not> list_ex (\<lambda>c. is_control c \<and> c \<noteq> 10) r"

text \<open>What the nine schemas accept.\<close>

fun action_ok :: "unicode_tables \<Rightarrow> action \<Rightarrow> bool" where
  "action_ok u (ListFiles p r) = common_path_ok p"
| "action_ok u (ReadFile p a b) = (common_path_ok p \<and> line_bounds_ok a b)"
| "action_ok u (SearchCode p q c) = (common_path_ok p \<and> query_ok q)"
| "action_ok u (ApplyPatch d) = diff_ok d"
| "action_ok u (RunTests s ts) = run_tests_ok u s ts"
| "action_ok u GitDiff = True"
| "action_ok u GitStatus = True"
| "action_ok u (RunDiagnostic i args) = (ident_pattern i \<and> diagnostic_arguments_ok args)"
| "action_ok u (RequestHuman r) = reason_ok r"

section \<open>Dictionaries to actions\<close>

type_synonym json_dict = "(pystr \<times> json) list"

definition field :: "json_dict \<Rightarrow> string \<Rightarrow> json option" where
  "field d k = map_of d (lit k)"

definition only_fields :: "string list \<Rightarrow> json_dict \<Rightarrow> bool" where
  "only_fields ks d \<longleftrightarrow> list_all (\<lambda>kv. fst kv \<in> set (map lit ks)) d"

fun as_str :: "json \<Rightarrow> pystr option" where
  "as_str (JStr s) = Some s"
| "as_str _ = None"

fun as_bool :: "json \<Rightarrow> bool option" where
  "as_bool (JBool b) = Some b"
| "as_bool _ = None"

fun as_strs :: "json list \<Rightarrow> pystr list option" where
  "as_strs [] = Some []"
| "as_strs (j # js) =
     (case (as_str j, as_strs js) of (Some s, Some ss) \<Rightarrow> Some (s # ss) | _ \<Rightarrow> None)"

fun as_str_tuple :: "json \<Rightarrow> pystr list option" where
  "as_str_tuple (JArr js) = as_strs js"
| "as_str_tuple _ = None"

text \<open>A field that may be absent or \<open>None\<close>; a boolean is no \<open>StrictInt\<close>.\<close>

fun as_opt_int :: "json option \<Rightarrow> int option option" where
  "as_opt_int None = Some None"
| "as_opt_int (Some JNull) = Some None"
| "as_opt_int (Some (JInt n)) = Some (Some n)"
| "as_opt_int _ = None"

definition str_field :: "json_dict \<Rightarrow> string \<Rightarrow> pystr option" where
  "str_field d k = Option.bind (field d k) as_str"

definition bool_field :: "json_dict \<Rightarrow> string \<Rightarrow> bool option" where
  "bool_field d k = Option.bind (field d k) as_bool"

definition tuple_field :: "json_dict \<Rightarrow> string \<Rightarrow> pystr list option" where
  "tuple_field d k = Option.bind (field d k) as_str_tuple"

definition scope_field :: "json_dict \<Rightarrow> test_scope option" where
  "scope_field d =
     (case str_field d ''scope'' of None \<Rightarrow> None
      | Some s \<Rightarrow> if s = lit ''full'' then Some FULL_SCOPE
          else if s = lit ''focused'' then Some FOCUSED_SCOPE else None)"

definition build_action :: "string \<Rightarrow> json_dict \<Rightarrow> action option" where
  "build_action t d =
     (if t = ''list_files'' then
        (if only_fields [''type'', ''path'', ''recursive''] d
         then Option.bind (str_field d ''path'') (\<lambda>p.
              Option.bind (bool_field d ''recursive'') (\<lambda>r. Some (ListFiles p r)))
         else None)
      else if t = ''read_file'' then
        (if only_fields [''type'', ''path'', ''start_line'', ''end_line''] d
         then Option.bind (str_field d ''path'') (\<lambda>p.
              Option.bind (as_opt_int (field d ''start_line'')) (\<lambda>a.
              Option.bind (as_opt_int (field d ''end_line'')) (\<lambda>b. Some (ReadFile p a b))))
         else None)
      else if t = ''search_code'' then
        (if only_fields [''type'', ''path'', ''query'', ''case_sensitive''] d
         then Option.bind (str_field d ''path'') (\<lambda>p.
              Option.bind (str_field d ''query'') (\<lambda>q.
              Option.bind (bool_field d ''case_sensitive'') (\<lambda>c. Some (SearchCode p q c))))
         else None)
      else if t = ''apply_patch'' then
        (if only_fields [''type'', ''diff''] d
         then Option.bind (str_field d ''diff'') (\<lambda>x. Some (ApplyPatch x)) else None)
      else if t = ''run_tests'' then
        (if only_fields [''type'', ''scope'', ''targets''] d
         then Option.bind (scope_field d) (\<lambda>s.
              Option.bind (tuple_field d ''targets'') (\<lambda>ts. Some (RunTests s ts)))
         else None)
      else if t = ''git_diff'' then (if only_fields [''type''] d then Some GitDiff else None)
      else if t = ''git_status'' then (if only_fields [''type''] d then Some GitStatus else None)
      else if t = ''run_diagnostic'' then
        (if only_fields [''type'', ''diagnostic_id'', ''arguments''] d
         then Option.bind (str_field d ''diagnostic_id'') (\<lambda>i.
              Option.bind (tuple_field d ''arguments'') (\<lambda>as. Some (RunDiagnostic i as)))
         else None)
      else if t = ''request_human'' then
        (if only_fields [''type'', ''reason''] d
         then Option.bind (str_field d ''reason'') (\<lambda>r. Some (RequestHuman r)) else None)
      else None)"

definition action_types :: "string list" where
  "action_types =
     [''list_files'', ''read_file'', ''search_code'', ''apply_patch'', ''run_tests'', ''git_diff'',
      ''git_status'', ''run_diagnostic'', ''request_human'']"

text \<open>\<open>model.model_validate(value)\<close>: fields, then validators.\<close>

definition validate_action :: "unicode_tables \<Rightarrow> string \<Rightarrow> json_dict \<Rightarrow> action option" where
  "validate_action u t d =
     (case build_action t d of None \<Rightarrow> None
      | Some a \<Rightarrow> if action_ok u a then Some a else None)"

section \<open>parse\_action\<close>

record protocol_error =
  pe_code :: protocol_error_code
  pe_message :: string

primrec protocol_message :: "protocol_error_code \<Rightarrow> string" where
  "protocol_message INVALID_JSON = ''Action must be a valid JSON object.''"
| "protocol_message INVALID_TOP_LEVEL = ''Action must be a JSON object.''"
| "protocol_message MISSING_TYPE = ''Action field 'type' is required.''"
| "protocol_message INVALID_TYPE = ''Action field 'type' must match ^[a-z][a-z0-9_]{0,63}$.''"
| "protocol_message UNKNOWN_ACTION = ''Action type is not supported.''"
| "protocol_message SCHEMA_VIOLATION = ''Action fields do not match the required schema.''"

definition protocol_error_of :: "protocol_error_code \<Rightarrow> protocol_error" where
  "protocol_error_of c = \<lparr>pe_code = c, pe_message = protocol_message c\<rparr>"

datatype raw_action = RawText pystr | RawDict json_dict | RawOther

text \<open>\<open>_reject_duplicate_keys\<close> and \<open>_reject_nonfinite\<close>, the hooks of \<open>json.loads\<close>.\<close>

definition reject_duplicate_keys :: pairs_hook where
  "reject_duplicate_keys ps = (if distinct (map fst ps) then Some (JObj ps) else None)"

definition reject_nonfinite :: const_hook where
  "reject_nonfinite c = None"

definition parse_dict :: "unicode_tables \<Rightarrow> json_dict \<Rightarrow> protocol_error + action" where
  "parse_dict u d =
     (case field d ''type'' of
        None \<Rightarrow> Inl (protocol_error_of MISSING_TYPE)
      | Some ty \<Rightarrow>
          (case as_str ty of
             None \<Rightarrow> Inl (protocol_error_of INVALID_TYPE)
           | Some t \<Rightarrow>
               if \<not> ident_pattern t then Inl (protocol_error_of INVALID_TYPE)
               else (case find (\<lambda>n. lit n = t) action_types of
                       None \<Rightarrow> Inl (protocol_error_of UNKNOWN_ACTION)
                     | Some n \<Rightarrow>
                         (case validate_action u n d of
                            None \<Rightarrow> Inl (protocol_error_of SCHEMA_VIOLATION)
                          | Some a \<Rightarrow> Inr a))))"

definition parse_action :: "unicode_tables \<Rightarrow> raw_action \<Rightarrow> protocol_error + action" where
  "parse_action u raw =
     (case raw of
        RawText s \<Rightarrow>
          (case json_loads reject_duplicate_keys reject_nonfinite s of
             None \<Rightarrow> Inl (protocol_error_of INVALID_JSON)
           | Some (JObj d) \<Rightarrow> parse_dict u d
           | Some _ \<Rightarrow> Inl (protocol_error_of INVALID_TOP_LEVEL))
      | RawDict d \<Rightarrow> parse_dict u d
      | RawOther \<Rightarrow> Inl (protocol_error_of INVALID_TOP_LEVEL))"

section \<open>Dumping and parsing back\<close>

text \<open>\<open>action.model_dump(mode="json")\<close>, by which the demo worker hands its script over.\<close>

definition opt_int_json :: "int option \<Rightarrow> json" where
  "opt_int_json n = (case n of None \<Rightarrow> JNull | Some k \<Rightarrow> JInt k)"

definition scope_str :: "test_scope \<Rightarrow> pystr" where
  "scope_str s = (case s of FULL_SCOPE \<Rightarrow> lit ''full'' | FOCUSED_SCOPE \<Rightarrow> lit ''focused'')"

fun dump_fields :: "action \<Rightarrow> json_dict" where
  "dump_fields (ListFiles p r) = [(lit ''path'', JStr p), (lit ''recursive'', JBool r)]"
| "dump_fields (ReadFile p a b) =
     [(lit ''path'', JStr p), (lit ''start_line'', opt_int_json a), (lit ''end_line'', opt_int_json b)]"
| "dump_fields (SearchCode p q c) =
     [(lit ''path'', JStr p), (lit ''query'', JStr q), (lit ''case_sensitive'', JBool c)]"
| "dump_fields (ApplyPatch d) = [(lit ''diff'', JStr d)]"
| "dump_fields (RunTests s ts) =
     [(lit ''scope'', JStr (scope_str s)), (lit ''targets'', JArr (map JStr ts))]"
| "dump_fields GitDiff = []"
| "dump_fields GitStatus = []"
| "dump_fields (RunDiagnostic i args) =
     [(lit ''diagnostic_id'', JStr i), (lit ''arguments'', JArr (map JStr args))]"
| "dump_fields (RequestHuman r) = [(lit ''reason'', JStr r)]"

definition dump_action :: "action \<Rightarrow> json_dict" where
  "dump_action a = (lit ''type'', JStr (lit (action_type a))) # dump_fields a"

lemma as_strs_map [simp]: "as_strs (map JStr ss) = Some ss"
  by (induction ss) auto

lemma as_opt_int_json [simp]: "as_opt_int (Some (opt_int_json n)) = Some n"
  by (cases n) (simp_all add: opt_int_json_def)

lemma action_types_ident: "list_all (\<lambda>n. ident_pattern (lit n)) action_types"
  by code_simp

lemma action_type_in: "action_type a \<in> set action_types"
  by (cases a) (simp_all add: action_types_def)

lemma find_action_type: "find (\<lambda>n. n = action_type a) action_types = Some (action_type a)"
  by (cases a) (simp_all add: action_types_def)

lemma build_dump: "build_action (action_type a) (dump_action a) = Some a"
proof (cases a)
  case (RunTests s ts)
  then show ?thesis
    by (cases s) (simp_all add: dump_action_def build_action_def only_fields_def field_def
        scope_field_def scope_str_def str_field_def tuple_field_def)
qed (simp_all add: dump_action_def build_action_def only_fields_def field_def str_field_def
      bool_field_def tuple_field_def)

lemma build_action_type: "build_action t d = Some a \<Longrightarrow> action_type a = t"
  by (auto simp: build_action_def Option.bind_eq_Some_conv split: if_splits)


lemma parse_dump:
  assumes "action_ok u a"
  shows "parse_action u (RawDict (dump_action a)) = Inr a"
proof -
  have "ident_pattern (lit (action_type a))"
    using action_types_ident action_type_in by (auto simp: list_all_iff)
  moreover have "field (dump_action a) ''type'' = Some (JStr (lit (action_type a)))"
    by (simp add: field_def dump_action_def)
  ultimately show ?thesis
    using assms
    by (simp add: parse_action_def parse_dict_def find_action_type validate_action_def build_dump)
qed

text \<open>Every schema-valid action survives its own dump: parsing the dictionary that
  \<open>model_dump\<close> writes gives back the same action.\<close>

theorem parse_action_dump:
  assumes "action_ok u a"
  shows "parse_action u (RawDict (dump_action a)) = Inr a"
  using assms by (rule parse_dump)

definition ascii_tables :: unicode_tables where
  "ascii_tables = \<lparr>uni_start = (\<lambda>_. False), uni_continue = (\<lambda>_. False)\<rparr>"

definition sample_text :: pystr where
  "sample_text = json_dumps (JObj [(lit ''path'', JStr (lit ''src/a.py'')),
     (lit ''recursive'', JBool True), (lit ''type'', JStr (lit ''list_files''))])"

lemma sample_parse: "parse_action ascii_tables (RawText sample_text) = Inr (ListFiles (lit ''src/a.py'') True)"
  by code_simp


definition sample_tests :: action where
  "sample_tests = RunTests FOCUSED_SCOPE [lit ''tests/test_a.py::test_b[x-1]'']"

lemma sample_tests_ok: "action_ok ascii_tables sample_tests"
  by code_simp

theorem parse_action_dump_witness:
  "parse_action ascii_tables (RawDict (dump_action sample_tests)) = Inr sample_tests"
  by (rule parse_action_dump [OF sample_tests_ok])

end
