(* ===== verification/Patching.thy ===== *)
theory Patching
  imports Prelude
begin

text \<open>
  \<^verbatim>\<open>patching/\<close>: plans and facts (\<^verbatim>\<open>models.py\<close>) and the strict diff parser \<open>prepare\<close>
  (\<^verbatim>\<open>parser.py\<close>), which turns a unified diff and a snapshot of the workspace into one plan per
  file without writing anything. SHA-256 is the argument \<open>sha\<close>. The hunks of a file must cover
  the whole file: its old text is compared with all context and deleted lines.
\<close>

section \<open>Plans and facts\<close>

datatype operation_type = MODIFY | CREATE | DELETE

type_synonym snapshot = "pystr \<Rightarrow> bytes option"

record file_plan =
  fp_path :: pystr
  fp_operation :: operation_type
  fp_pre_sha :: "pystr option"
  fp_post_sha :: "pystr option"
  fp_pre :: "bytes option"
  fp_post :: "bytes option"

record patch_facts =
  pf_file_count :: int
  pf_added_lines :: int
  pf_deleted_lines :: int
  pf_touches_test_assets :: bool
  pf_touches_sensitive_paths :: bool

record prepared_patch =
  pp_files :: "file_plan list"
  pp_facts :: patch_facts

definition sha_opt :: "(bytes \<Rightarrow> pystr) \<Rightarrow> bytes option \<Rightarrow> pystr option" where
  "sha_opt sha data = (case data of None \<Rightarrow> None | Some b \<Rightarrow> Some (sha b))"

section \<open>Paths\<close>

definition path_part_ok :: "pystr \<Rightarrow> bool" where
  "path_part_ok p \<longleftrightarrow> p \<noteq> [] \<and> p \<noteq> [46] \<and> p \<noteq> [46, 46]"

text \<open>\<open>_path\<close>: \<open>/dev/null\<close> is no path; the result joins the checked parts with slashes.\<close>

definition patch_path :: "pystr \<Rightarrow> pystr option res" where
  "patch_path v =
     (if v = lit ''/dev/null'' then Inr None
      else if starts_with [47] v \<or> starts_with [92] v \<or> (py_len v > 1 \<and> v ! 1 = 58) \<or> 0 \<in> set v
      then Inl (ValueError ''unsafe patch path'')
      else
        let v1 = takeWhile (\<lambda>c. c \<noteq> 9) v;
            v2 = (if starts_with (lit ''a/'') v1 \<or> starts_with (lit ''b/'') v1 then drop 2 v1 else v1);
            parts = split_char 47 (map (\<lambda>c. if c = 92 then 47 else c) v2)
        in if \<not> list_all path_part_ok parts then Inl (ValueError ''unsafe patch path'')
           else Inr (Some (join [47] parts)))"

text \<open>What every accepted path is: relative, with no empty, \<open>.\<close> or \<open>..\<close> component.\<close>

definition safe_relative :: "pystr \<Rightarrow> bool" where
  "safe_relative p \<longleftrightarrow> list_all path_part_ok (split_char 47 p)"

lemma split_char_map_sep:
  "\<forall>p \<in> set (split_char 47 (map (\<lambda>c. if c = 92 then 47 else c) (v :: pystr))). 47 \<notin> set p"
  using split_char_no_sep by metis

lemma patch_path_safe: "patch_path v = Inr (Some p) \<Longrightarrow> safe_relative p"
  unfolding patch_path_def safe_relative_def Let_def
  by (auto split: if_splits simp: split_join split_char_map_sep)

section \<open>The parser\<close>

definition is_hunk_line :: "pystr \<Rightarrow> bool" where
  "is_hunk_line l \<longleftrightarrow> starts_with [32] l \<or> starts_with [43] l \<or> starts_with [45] l"

record hunk_scan =
  hs_hunk :: "pystr list"
  hs_added :: int
  hs_deleted :: int
  hs_rest :: "pystr list"

text \<open>The inner loop over the lines of one file, up to the next header or the end.\<close>

fun scan_hunk :: "pystr list \<Rightarrow> hunk_scan res" where
  "scan_hunk [] = Inr \<lparr>hs_hunk = [], hs_added = 0, hs_deleted = 0, hs_rest = []\<rparr>"
| "scan_hunk (l # ls) =
     (if starts_with (lit ''--- '') l
      then Inr \<lparr>hs_hunk = [], hs_added = 0, hs_deleted = 0, hs_rest = l # ls\<rparr>
      else if starts_with (lit ''@@'') l then scan_hunk ls
      else if is_hunk_line l then
        bind_res (scan_hunk ls) (\<lambda>h.
          Inr (h\<lparr>hs_hunk := l # hs_hunk h,
                 hs_added := (if starts_with [43] l then 1 else 0) + hs_added h,
                 hs_deleted := (if \<not> starts_with [43] l \<and> starts_with [45] l then 1 else 0)
                   + hs_deleted h\<rparr>))
      else if starts_with (lit ''diff --git '') l
      then Inr \<lparr>hs_hunk = [], hs_added = 0, hs_deleted = 0, hs_rest = l # ls\<rparr>
      else if strip l \<noteq> [] \<and> \<not> starts_with (92 # lit '' No newline'') l
      then Inl (ValueError ''invalid hunk'')
      else scan_hunk ls)"

lemma scan_hunk_rest: "scan_hunk ls = Inr h \<Longrightarrow> length (hs_rest h) \<le> length ls"
  by (induction ls arbitrary: h) (auto simp: bind_res_Inr le_SucI split: if_splits)

definition old_lines :: "pystr list \<Rightarrow> pystr list" where
  "old_lines hunk = map (drop 1) (filter (\<lambda>l. starts_with [32] l \<or> starts_with [45] l) hunk)"

definition new_lines :: "pystr list \<Rightarrow> pystr list" where
  "new_lines hunk = map (drop 1) (filter (\<lambda>l. starts_with [32] l \<or> starts_with [43] l) hunk)"

text \<open>One file section, its two header paths and its hunk lines already read.\<close>

definition old_content :: "snapshot \<Rightarrow> pystr option \<Rightarrow> bytes option" where
  "old_content snap old_path = (case old_path of None \<Rightarrow> None | Some p \<Rightarrow> snap p)"

definition check_targets :: "snapshot \<Rightarrow> pystr option \<Rightarrow> pystr option \<Rightarrow> unit res" where
  "check_targets snap old_path new_path =
     (let old = old_content snap old_path
      in if old_path \<noteq> None \<and> old = None \<and> new_path = old_path
         then Inl (ValueError ''modify target missing'')
         else if old_path = None \<and> (case new_path of None \<Rightarrow> False | Some q \<Rightarrow> snap q \<noteq> None)
         then Inl (ValueError ''create target exists'')
         else if new_path = None \<and> old = None
         then Inl (ValueError ''delete target missing'')
         else Inr ())"

definition plan_file ::
    "(bytes \<Rightarrow> pystr) \<Rightarrow> snapshot \<Rightarrow> pystr \<Rightarrow> pystr option \<Rightarrow> pystr option \<Rightarrow> pystr list
       \<Rightarrow> file_plan res" where
  "plan_file sha snap path old_path new_path hunk =
     (let old = old_content snap old_path;
          old_text = concat (old_lines hunk)
      in bind_res
           (case old of None \<Rightarrow> Inr ()
            | Some b \<Rightarrow> bind_res (of_opt UnicodeError (utf8_decode b)) (\<lambda>t.
                require (t = old_text) (ValueError ''context mismatch'')))
           (\<lambda>_. bind_res
             (case new_path of None \<Rightarrow> Inr None
              | Some _ \<Rightarrow> bind_res (of_opt UnicodeError (utf8_encode (concat (new_lines hunk))))
                  (\<lambda>b. Inr (Some b)))
             (\<lambda>post. Inr
               \<lparr>fp_path = path,
                fp_operation = (if old_path = None then CREATE
                                else if new_path = None then DELETE else MODIFY),
                fp_pre_sha = sha_opt sha old, fp_post_sha = sha_opt sha post,
                fp_pre = old, fp_post = post\<rparr>)))"

text \<open>The outer loop: plans so far, added and deleted lines so far.\<close>

definition header_path :: "pystr \<Rightarrow> pystr option res" where
  "header_path l = patch_path (rstrip_newlines (drop 4 l))"

function prepare_loop ::
    "(bytes \<Rightarrow> pystr) \<Rightarrow> snapshot \<Rightarrow> pystr list \<Rightarrow> file_plan list \<Rightarrow> int \<Rightarrow> int
       \<Rightarrow> (file_plan list \<times> int \<times> int) res" where
  "prepare_loop sha snap [] plans added deleted = Inr (plans, added, deleted)"
| "prepare_loop sha snap (l # ls) plans added deleted =
     (if \<not> starts_with (lit ''--- '') l then prepare_loop sha snap ls plans added deleted
      else bind_res (header_path l) (\<lambda>old_path.
        case ls of [] \<Rightarrow> Inl (ValueError ''missing new path'')
        | m # ms \<Rightarrow>
            if \<not> starts_with (lit ''+++ '') m then Inl (ValueError ''missing new path'')
            else bind_res (header_path m) (\<lambda>new_path.
              case (case new_path of None \<Rightarrow> old_path | Some q \<Rightarrow> Some q) of
                None \<Rightarrow> Inl (ValueError ''duplicate patch path'')
              | Some path \<Rightarrow>
                  if path \<in> set (map fp_path plans)
                  then Inl (ValueError ''duplicate patch path'')
                  else bind_res (check_targets snap old_path new_path) (\<lambda>_.
                    case scan_hunk ms of Inl e \<Rightarrow> Inl e
                    | Inr h \<Rightarrow>
                        bind_res (plan_file sha snap path old_path new_path (hs_hunk h)) (\<lambda>plan.
                          prepare_loop sha snap (hs_rest h) (plans @ [plan])
                            (added + hs_added h) (deleted + hs_deleted h))))))"
  by pat_completeness auto
termination
  by (relation "measure (\<lambda>(sha, snap, ls, plans, a, d). length ls)")
    (auto dest!: scan_hunk_rest)

definition test_asset_path :: "pystr \<Rightarrow> bool" where
  "test_asset_path p \<longleftrightarrow>
     starts_with (lit ''tests/'') p \<or> ends_with (lit ''_test.py'') p
     \<or> ends_with (lit ''/conftest.py'') p"

definition sensitive_patch_path :: "pystr \<Rightarrow> bool" where
  "sensitive_patch_path p \<longleftrightarrow>
     starts_with (lit ''harness-data/'') p \<or> starts_with (lit ''.env'') p
     \<or> ends_with (lit ''.pem'') p \<or> ends_with (lit ''.key'') p"

definition prepare_bytes :: "(bytes \<Rightarrow> pystr) \<Rightarrow> bytes \<Rightarrow> snapshot \<Rightarrow> prepared_patch res" where
  "prepare_bytes sha raw snap =
     (if 13 \<in> set raw \<or> \<not> ends_with [10] raw
      then Inl (ValueError ''diff must be LF-only UTF-8 with final newline'')
      else bind_res (of_opt UnicodeError (utf8_decode raw)) (\<lambda>text.
        bind_res (prepare_loop sha snap (splitlines_keep text) [] 0 0) (\<lambda>(plans, added, deleted).
          if plans = [] then Inl (ValueError ''empty diff'')
          else Inr
            \<lparr>pp_files = plans,
             pp_facts =
               \<lparr>pf_file_count = py_len plans, pf_added_lines = added, pf_deleted_lines = deleted,
                pf_touches_test_assets = list_ex (\<lambda>p. test_asset_path (fp_path p)) plans,
                pf_touches_sensitive_paths =
                  list_ex (\<lambda>p. sensitive_patch_path (fp_path p)) plans\<rparr>\<rparr>)))"

definition prepare_patch :: "(bytes \<Rightarrow> pystr) \<Rightarrow> pystr \<Rightarrow> snapshot \<Rightarrow> prepared_patch res" where
  "prepare_patch sha diff snap =
     bind_res (of_opt UnicodeError (utf8_encode diff)) (\<lambda>raw. prepare_bytes sha raw snap)"

section \<open>What a prepared patch satisfies\<close>

definition plan_wf :: "(bytes \<Rightarrow> pystr) \<Rightarrow> snapshot \<Rightarrow> file_plan \<Rightarrow> bool" where
  "plan_wf sha snap pl \<longleftrightarrow>
     safe_relative (fp_path pl)
     \<and> fp_pre_sha pl = sha_opt sha (fp_pre pl) \<and> fp_post_sha pl = sha_opt sha (fp_post pl)
     \<and> (case fp_operation pl of
          CREATE \<Rightarrow> fp_pre pl = None \<and> fp_post pl \<noteq> None \<and> snap (fp_path pl) = None
        | DELETE \<Rightarrow> fp_post pl = None \<and> fp_pre pl \<noteq> None \<and> fp_pre pl = snap (fp_path pl)
        | MODIFY \<Rightarrow> fp_post pl \<noteq> None)"

lemma header_path_safe: "header_path l = Inr (Some p) \<Longrightarrow> safe_relative p"
  by (simp add: header_path_def patch_path_safe)

lemma plan_file_path:
  "plan_file sha snap path op np hunk = Inr pl \<Longrightarrow> fp_path pl = path"
  by (auto simp: plan_file_def Let_def bind_res_Inr)

lemma plan_file_wf:
  assumes pl: "plan_file sha snap path op np hunk = Inr pl"
    and chk: "check_targets snap op np = Inr ()"
    and path: "(case np of None \<Rightarrow> op | Some q \<Rightarrow> Some q) = Some path"
    and safe: "safe_relative path"
  shows "plan_wf sha snap pl"
proof -
  obtain post where post: "(case np of None \<Rightarrow> Inr None
      | Some _ \<Rightarrow> bind_res (of_opt UnicodeError (utf8_encode (concat (new_lines hunk))))
          (\<lambda>b. Inr (Some b))) = Inr post"
    and eq: "pl = \<lparr>fp_path = path,
        fp_operation = (if op = None then CREATE else if np = None then DELETE else MODIFY),
        fp_pre_sha = sha_opt sha (old_content snap op), fp_post_sha = sha_opt sha post,
        fp_pre = old_content snap op, fp_post = post\<rparr>"
    using pl by (auto simp: plan_file_def Let_def bind_res_Inr)
  have "post = None \<longleftrightarrow> np = None"
    using post by (auto simp: bind_res_Inr split: option.splits)
  then show ?thesis
    using chk path safe
    by (auto simp: eq plan_wf_def check_targets_def old_content_def Let_def
        split: option.splits if_splits)
qed

text \<open>Reading one file section of the diff: its header, its hunk and its plan.\<close>

lemma prepare_loop_section:
  assumes run: "prepare_loop sha snap (l # ls) plans a d = Inr res"
    and l: "starts_with (lit ''--- '') l"
  obtains old_path m ms new_path path h plan where
    "header_path l = Inr old_path" "ls = m # ms" "starts_with (lit ''+++ '') m"
    "header_path m = Inr new_path"
    "(case new_path of None \<Rightarrow> old_path | Some q \<Rightarrow> Some q) = Some path"
    "path \<notin> set (map fp_path plans)" "check_targets snap old_path new_path = Inr ()"
    "scan_hunk ms = Inr h" "plan_file sha snap path old_path new_path (hs_hunk h) = Inr plan"
    "prepare_loop sha snap (hs_rest h) (plans @ [plan]) (a + hs_added h) (d + hs_deleted h)
       = Inr res"
proof -
  from run l obtain old_path where old: "header_path l = Inr old_path"
    by (auto simp: bind_res_Inr)
  from run l old obtain m ms where ls: "ls = m # ms" and m: "starts_with (lit ''+++ '') m"
    by (auto split: list.splits if_splits)
  from run l old ls m obtain new_path where new: "header_path m = Inr new_path"
    by (auto simp: bind_res_Inr)
  from run l old ls m new obtain path where path:
    "(case new_path of None \<Rightarrow> old_path | Some q \<Rightarrow> Some q) = Some path"
    by (cases "case new_path of None \<Rightarrow> old_path | Some q \<Rightarrow> Some q") auto
  from run l old ls m new path have fresh: "path \<notin> set (map fp_path plans)"
    by (auto split: if_splits)
  from run l old ls m new path fresh have chk: "check_targets snap old_path new_path = Inr ()"
    by (auto simp: bind_res_Inr simp del: set_map)
  from run l old ls m new path fresh chk obtain h where h: "scan_hunk ms = Inr h"
    by (cases "scan_hunk ms") (auto simp del: set_map)
  from run l old ls m new path fresh chk h obtain plan where
    plan: "plan_file sha snap path old_path new_path (hs_hunk h) = Inr plan"
    by (auto simp: bind_res_Inr simp del: set_map)
  from run l old ls m new path fresh chk h plan have
    "prepare_loop sha snap (hs_rest h) (plans @ [plan]) (a + hs_added h) (d + hs_deleted h)
       = Inr res"
    by (simp del: set_map)
  with that old ls m new path fresh chk h plan show ?thesis by blast
qed

lemma prepare_loop_wf:
  assumes "prepare_loop sha snap ls plans a d = Inr (plans', a', d')"
    and "distinct (map fp_path plans)" and "\<forall>pl \<in> set plans. plan_wf sha snap pl"
  shows "distinct (map fp_path plans') \<and> (\<forall>pl \<in> set plans'. plan_wf sha snap pl)"
  using assms
proof (induction "length ls" arbitrary: ls plans a d rule: less_induct)
  case less
  show ?case
  proof (cases ls)
    case Nil
    with less.prems show ?thesis by simp
  next
    case (Cons l ls')
    show ?thesis
    proof (cases "starts_with (lit ''--- '') l")
      case False
      then have "prepare_loop sha snap ls' plans a d = Inr (plans', a', d')"
        using less.prems(1) Cons by simp
      from less.hyps[OF _ this less.prems(2,3)] show ?thesis using Cons by simp
    next
      case True
      from less.prems(1)[unfolded Cons] True obtain old_path m ms new_path path h plan where
        hd: "header_path l = Inr old_path" "ls' = m # ms" "header_path m = Inr new_path"
        and path: "(case new_path of None \<Rightarrow> old_path | Some q \<Rightarrow> Some q) = Some path"
        and fresh: "path \<notin> set (map fp_path plans)"
        and chk: "check_targets snap old_path new_path = Inr ()"
        and h: "scan_hunk ms = Inr h"
        and plan: "plan_file sha snap path old_path new_path (hs_hunk h) = Inr plan"
        and rest: "prepare_loop sha snap (hs_rest h) (plans @ [plan]) (a + hs_added h)
          (d + hs_deleted h) = Inr (plans', a', d')"
        by (rule prepare_loop_section)
      have "safe_relative path"
        using hd(1,3) path header_path_safe by (cases new_path) auto
      then have wf: "plan_wf sha snap plan" using plan chk path plan_file_wf by blast
      have "fp_path plan = path" using plan by (rule plan_file_path)
      then have "distinct (map fp_path (plans @ [plan]))" using less.prems(2) fresh by simp
      moreover have "\<forall>pl \<in> set (plans @ [plan]). plan_wf sha snap pl"
        using less.prems(3) wf by simp
      moreover have "length (hs_rest h) < length ls"
        using scan_hunk_rest[OF h] hd(2) Cons by simp
      ultimately show ?thesis using less.hyps rest by blast
    qed
  qed
qed

lemma prepare_patch_Inr:
  assumes "prepare_patch sha diff snap = Inr pp"
  obtains raw src a d where "utf8_encode diff = Some raw" and "utf8_decode raw = Some src"
    and "prepare_loop sha snap (splitlines_keep src) [] 0 0 = Inr (pp_files pp, a, d)"
    and "pp_files pp \<noteq> []" and "pf_file_count (pp_facts pp) = py_len (pp_files pp)"
    and "pf_touches_test_assets (pp_facts pp) \<longleftrightarrow>
      (\<exists>p \<in> set (pp_files pp). test_asset_path (fp_path p))"
    and "pf_touches_sensitive_paths (pp_facts pp) \<longleftrightarrow>
      (\<exists>p \<in> set (pp_files pp). sensitive_patch_path (fp_path p))"
    and "pf_added_lines (pp_facts pp) = a" and "pf_deleted_lines (pp_facts pp) = d"
proof -
  obtain raw where raw: "utf8_encode diff = Some raw" and pb: "prepare_bytes sha raw snap = Inr pp"
    using assms by (auto simp: prepare_patch_def bind_res_Inr)
  obtain src plans a d where src: "utf8_decode raw = Some src"
    and "prepare_loop sha snap (splitlines_keep src) [] 0 0 = Inr (plans, a, d)" "plans \<noteq> []"
    and "pp = \<lparr>pp_files = plans, pp_facts =
       \<lparr>pf_file_count = py_len plans, pf_added_lines = a, pf_deleted_lines = d,
        pf_touches_test_assets = list_ex (\<lambda>p. test_asset_path (fp_path p)) plans,
        pf_touches_sensitive_paths =
          list_ex (\<lambda>p. sensitive_patch_path (fp_path p)) plans\<rparr>\<rparr>"
    using pb by (auto simp: prepare_bytes_def bind_res_Inr split: if_splits)
  with that raw show ?thesis by (auto simp: list_ex_iff)
qed

lemma prepare_patch_wf:
  assumes "prepare_patch sha diff snap = Inr pp"
  shows "distinct (map fp_path (pp_files pp))" "\<forall>pl \<in> set (pp_files pp). plan_wf sha snap pl"
proof -
  obtain raw src a d where
    "prepare_loop sha snap (splitlines_keep src) [] 0 0 = Inr (pp_files pp, a, d)"
    using assms by (rule prepare_patch_Inr)
  then show "distinct (map fp_path (pp_files pp))" "\<forall>pl \<in> set (pp_files pp). plan_wf sha snap pl"
    using prepare_loop_wf[of sha snap _ "[]"] by fastforce+
qed


text \<open>A creation: a diff that makes a file of two lines, on an empty snapshot.\<close>

definition sample_diff :: pystr where
  "sample_diff = concat (map (\<lambda>l. l @ [10])
     [lit ''--- /dev/null'', lit ''+++ b/new.txt'', lit ''@@ -0,0 +1,2 @@'', lit ''+one'', lit ''+two''])"

definition sample_create :: prepared_patch where
  "sample_create =
     \<lparr>pp_files = [\<lparr>fp_path = lit ''new.txt'', fp_operation = CREATE, fp_pre_sha = None,
        fp_post_sha = Some [104], fp_pre = None,
        fp_post = Some (map of_int (lit ''one'' @ [10] @ lit ''two'' @ [10]))\<rparr>],
      pp_facts = \<lparr>pf_file_count = 1, pf_added_lines = 2, pf_deleted_lines = 0,
        pf_touches_test_assets = False, pf_touches_sensitive_paths = False\<rparr>\<rparr>"

lemma prepare_sample: "prepare_patch (\<lambda>b. [104]) sample_diff (\<lambda>_. None) = Inr sample_create"
  by code_simp


end
