(* ===== verification/PatchScripts.thy ===== *)
theory PatchScripts
  imports Patching
begin

text \<open>
  The diff parser against its specification. An edit script for one file (keep, delete and add
  lines) has an old text and a new text; \<open>render\<close> writes it as the unified diff the parser reads.
  The parser returns the plan that replaces the old text by the new one, unless a deleted line
  starts with \<open>--\<close> and a space: the parser then takes that line for the header of another file.
\<close>

section \<open>Edit scripts\<close>

datatype edit = Keep pystr | Del pystr | Add pystr

fun edit_text :: "edit \<Rightarrow> pystr" where
  "edit_text (Keep l) = l"
| "edit_text (Del l) = l"
| "edit_text (Add l) = l"

fun edit_line :: "edit \<Rightarrow> pystr" where
  "edit_line (Keep l) = 32 # l"
| "edit_line (Del l) = 45 # l"
| "edit_line (Add l) = 43 # l"

fun in_old :: "edit \<Rightarrow> bool" where
  "in_old (Add l) = False" | "in_old _ = True"

fun in_new :: "edit \<Rightarrow> bool" where
  "in_new (Del l) = False" | "in_new _ = True"

fun hides_header :: "edit \<Rightarrow> bool" where
  "hides_header (Del l) = starts_with (lit ''-- '') l" | "hides_header _ = False"

definition unlines :: "pystr list \<Rightarrow> pystr" where
  "unlines ls = concat (map (\<lambda>l. l @ [10]) ls)"

definition old_text :: "edit list \<Rightarrow> pystr" where
  "old_text es = unlines (map edit_text (filter in_old es))"

definition new_text :: "edit list \<Rightarrow> pystr" where
  "new_text es = unlines (map edit_text (filter in_new es))"

definition added_count :: "edit list \<Rightarrow> int" where
  "added_count es = py_len (filter (\<lambda>e. \<not> in_old e) es)"

definition deleted_count :: "edit list \<Rightarrow> int" where
  "deleted_count es = py_len (filter (\<lambda>e. \<not> in_new e) es)"

definition diff_lines :: "pystr \<Rightarrow> edit list \<Rightarrow> pystr list" where
  "diff_lines p es =
     [lit ''--- a/'' @ p, lit ''+++ b/'' @ p, lit ''@@ -1 +1 @@''] @ map edit_line es"

definition render :: "pystr \<Rightarrow> edit list \<Rightarrow> pystr" where
  "render p es = unlines (diff_lines p es)"

definition one_line :: "pystr \<Rightarrow> bool" where
  "one_line l \<longleftrightarrow> list_all (\<lambda>c. \<not> is_linebreak c) l"

definition good_path :: "pystr \<Rightarrow> bool" where
  "good_path p \<longleftrightarrow> safe_relative p \<and> one_line p \<and> 9 \<notin> set p \<and> 92 \<notin> set p \<and> 0 \<notin> set p
     \<and> utf8_encode p \<noteq> None"

definition good_edit :: "edit \<Rightarrow> bool" where
  "good_edit e \<longleftrightarrow> one_line (edit_text e) \<and> utf8_encode (edit_text e) \<noteq> None"

section \<open>Encodings\<close>

lemma utf8_encodable: "utf8_encode s \<noteq> None \<longleftrightarrow> (\<forall>c \<in> set s. utf8_char c \<noteq> None)"
  by (induction s) (auto split: option.splits)

lemma utf8_char_ascii: "0 \<le> c \<Longrightarrow> c < 128 \<Longrightarrow> utf8_char c = Some [of_int c]"
  by (simp add: utf8_char_def)

lemma utf8_char_cr: "utf8_char c = Some b \<Longrightarrow> 13 \<in> set b \<Longrightarrow> c = 13"
proof -
  assume a: "utf8_char c = Some b" "13 \<in> set b"
  have m: "0 \<le> c mod 64" "c mod 64 < 64" "0 \<le> c div 64 mod 64" "c div 64 mod 64 < 64"
    "0 \<le> c div 4096 mod 64" "c div 4096 mod 64 < 64"
    by simp_all
  have m2: "c mod 64 < 128" "c div 64 mod 64 < 128" "c div 4096 mod 64 < 128"
    using m by linarith+
  have hi: "128 \<le> x \<Longrightarrow> x < 256 \<Longrightarrow> (13 :: 8 word) \<noteq> of_int x" for x :: int
  proof
    assume x: "128 \<le> x" "x < 256" and "(13 :: 8 word) = of_int x"
    then have "uint (13 :: 8 word) = x" using uint_byte[of x] by simp
    then show False using x by simp
  qed
  show "c = 13"
  proof (cases "0 \<le> c \<and> c < 128")
    case True
    then have "(of_int c :: 8 word) = 13" using a by (auto simp: utf8_char_def)
    then have "uint (of_int c :: 8 word) = uint (13 :: 8 word)" by simp
    then show ?thesis using True by (simp add: uint_byte)
  next
    case False
    have "\<exists>xs. b = map of_int xs \<and> (\<forall>x \<in> set xs. 128 \<le> x \<and> x < (256 :: int))"
    proof -
      consider (two) "128 \<le> c" "c < 2048" "b = map of_int [192 + c div 64, 128 + c mod 64]"
        | (three) "2048 \<le> c" "c < 65536"
            "b = map of_int [224 + c div 4096, 128 + c div 64 mod 64, 128 + c mod 64]"
        | (four) "65536 \<le> c" "c < 1114112"
            "b = map of_int [240 + c div 262144, 128 + c div 4096 mod 64,
               128 + c div 64 mod 64, 128 + c mod 64]"
        using a(1) False unfolding utf8_char_def by (auto split: if_splits)
      then show ?thesis
      proof cases
        case two
        then have r: "0 \<le> c div 64" "c div 64 < 32" by auto
        have "\<forall>x \<in> {192 + c div 64, 128 + c mod 64}. 128 \<le> x \<and> x < 256"
          by (intro ballI conjI; elim insertE emptyE; use m r in linarith)
        with two(3) show ?thesis by (metis list.set)
      next
        case three
        then have r: "0 \<le> c div 4096" "c div 4096 < 16" by auto
        have "\<forall>x \<in> {224 + c div 4096, 128 + c div 64 mod 64, 128 + c mod 64}. 128 \<le> x \<and> x < 256"
          by (intro ballI conjI; elim insertE emptyE; use m r in linarith)
        with three(3) show ?thesis by (metis list.set)
      next
        case four
        then have r: "0 \<le> c div 262144" "c div 262144 < 5" by auto
        have "\<forall>x \<in> {240 + c div 262144, 128 + c div 4096 mod 64, 128 + c div 64 mod 64,
            128 + c mod 64}. 128 \<le> x \<and> x < 256"
          by (intro ballI conjI; elim insertE emptyE; use m r in linarith)
        with four(3) show ?thesis by (metis list.set)
      qed
    qed
    then have "13 \<notin> set b" using hi by auto
    with a(2) show ?thesis by simp
  qed
qed

lemma utf8_encode_cr: "utf8_encode s = Some b \<Longrightarrow> 13 \<in> set b \<Longrightarrow> 13 \<in> set s"
  by (induction s arbitrary: b) (auto split: option.splits dest: utf8_char_cr)

lemma utf8_encode_newline_end:
  "utf8_encode (s @ [10]) = Some b \<Longrightarrow> ends_with [10] b"
  by (auto simp: utf8_encode_append utf8_char_def ends_with_suffix split: option.splits)

section \<open>Lines of a rendered diff\<close>

lemma one_line_chars: "one_line l \<Longrightarrow> 10 \<notin> set l \<and> 13 \<notin> set l"
  by (auto simp: one_line_def list_all_iff is_linebreak_def)

lemma splitlines_unlines:
  "list_all one_line ls \<Longrightarrow> splitlines_keep (unlines ls) = map (\<lambda>l. l @ [10]) ls"
  by (induction ls)
    (auto simp: unlines_def one_line_def list_all_iff splitlines_append_newline)

lemma edit_line_one_line: "good_edit e \<Longrightarrow> one_line (edit_line e)"
  by (cases e) (auto simp: good_edit_def one_line_def is_linebreak_def)

lemma diff_lines_one_line:
  "good_path p \<Longrightarrow> list_all good_edit es \<Longrightarrow> list_all one_line (diff_lines p es)"
  by (auto simp: diff_lines_def good_path_def list_all_iff edit_line_one_line)
    (auto simp: one_line_def is_linebreak_def str_simps)

lemma unlines_chars: "set (unlines ls) = (\<Union>l \<in> set ls. set l) \<union> (if ls = [] then {} else {10})"
  by (induction ls) (auto simp: unlines_def)

lemma render_encodable:
  assumes "good_path p" "list_all good_edit es"
  obtains raw where "utf8_encode (render p es) = Some raw" "13 \<notin> set raw" "ends_with [10] raw"
proof -
  have "\<forall>c \<in> set (edit_line e). utf8_char c \<noteq> None" if "good_edit e" for e
    using that unfolding good_edit_def utf8_encodable
    by (cases e) (auto simp: utf8_char_ascii simp del: not_None_eq)
  then have "\<forall>l \<in> set (map edit_line es). \<forall>c \<in> set l. utf8_char c \<noteq> None"
    using assms(2) by (auto simp: list_all_iff)
  moreover have p: "\<forall>c \<in> set p. utf8_char c \<noteq> None"
    using assms(1) unfolding good_path_def utf8_encodable by blast
  have "\<forall>c \<in> set (lit ''--- a/'' @ p). utf8_char c \<noteq> None"
    "\<forall>c \<in> set (lit ''+++ b/'' @ p). utf8_char c \<noteq> None"
    "\<forall>c \<in> set (lit ''@@ -1 +1 @@''). utf8_char c \<noteq> None"
    using p by (simp_all add: str_simps utf8_char_ascii)
  ultimately have "\<forall>l \<in> set (diff_lines p es). \<forall>c \<in> set l. utf8_char c \<noteq> None"
    unfolding diff_lines_def by simp
  then have "\<forall>c \<in> set (render p es). utf8_char c \<noteq> None"
    by (auto simp: render_def unlines_chars utf8_char_ascii simp del: not_None_eq)
  then obtain raw where raw: "utf8_encode (render p es) = Some raw"
    using utf8_encodable by blast
  have "13 \<notin> set (render p es)"
    using diff_lines_one_line[OF assms] one_line_chars
    by (auto simp: render_def unlines_chars list_all_iff)
  moreover have "\<exists>s. render p es = s @ [10]"
    unfolding render_def unlines_def
    by (cases "diff_lines p es" rule: rev_cases) (auto simp: diff_lines_def)
  ultimately show ?thesis
    using that raw utf8_encode_cr utf8_encode_newline_end by metis
qed

lemma header_path_render:
  assumes "good_path p" "length pre = 4" "ab = lit ''a/'' \<or> ab = lit ''b/''"
  shows "header_path (pre @ ab @ p @ [10]) = Inr (Some p)"
proof -
  have 1: "rstrip_newlines (drop 4 (pre @ ab @ p @ [10])) = ab @ p"
    using assms one_line_chars rstrip_newlines_line[of "ab @ p"]
    by (auto simp: good_path_def str_simps)
  have ok: "list_all path_part_ok (split_char 47 p)" "0 \<notin> set p" "9 \<notin> set p" "92 \<notin> set p"
    using assms(1) by (auto simp: good_path_def safe_relative_def)
  have tw: "takeWhile (\<lambda>c. c \<noteq> 9) p = p" and mp: "map (\<lambda>c. if c = 92 then 47 else c) p = p"
    using ok by (auto simp: takeWhile_eq_all_conv intro!: map_idI)
  from assms(3) have "patch_path (ab @ p) = Inr (Some p)"
  proof
    assume "ab = lit ''a/''"
    then show ?thesis using ok
      by (simp add: patch_path_def Let_def str_simps tw mp del: takeWhile_eq_all_conv)
  next
    assume "ab = lit ''b/''"
    then show ?thesis using ok
      by (simp add: patch_path_def Let_def str_simps tw mp del: takeWhile_eq_all_conv)
  qed
  with 1 show ?thesis by (simp add: header_path_def)
qed

section \<open>Reading a rendered diff\<close>

lemma starts_with_at [simp]: "starts_with (lit ''@@'') (c # l) \<longleftrightarrow> c = 64 \<and> starts_with [64] l"
  by (simp add: str_simps)

lemma scan_hunk_edits:
  assumes "list_all (\<lambda>e. \<not> hides_header e) es"
  shows "scan_hunk (map (\<lambda>e. edit_line e @ [10]) es) =
    Inr \<lparr>hs_hunk = map (\<lambda>e. edit_line e @ [10]) es, hs_added = added_count es,
         hs_deleted = deleted_count es, hs_rest = []\<rparr>"
  using assms
proof (induction es)
  case Nil
  then show ?case by (simp add: added_count_def deleted_count_def)
next
  case (Cons e es)
  have "\<not> starts_with (lit ''-- '') l \<Longrightarrow> \<not> starts_with (lit ''-- '') (l @ [10])" for l
    by (auto simp: starts_with_prefix prefix_append prefix_Cons str_simps)
  with Cons show ?case
    by (cases e) (simp_all add: str_simps is_hunk_line_def added_count_def deleted_count_def)
qed

lemma edit_sides:
  "concat (old_lines (map (\<lambda>e. edit_line e @ [10]) es)) = old_text es"
  "concat (new_lines (map (\<lambda>e. edit_line e @ [10]) es)) = new_text es"
proof -
  have o: "starts_with [32] (edit_line e @ [10]) \<or> starts_with [45] (edit_line e @ [10]) \<longleftrightarrow> in_old e"
    and n: "starts_with [32] (edit_line e @ [10]) \<or> starts_with [43] (edit_line e @ [10]) \<longleftrightarrow> in_new e"
    and t: "drop 1 (edit_line e @ [10]) = edit_text e @ [10]" for e
    by (cases e; simp)+
  show "concat (old_lines (map (\<lambda>e. edit_line e @ [10]) es)) = old_text es"
    by (simp add: old_lines_def old_text_def unlines_def filter_map comp_def o t
        del: drop_append One_nat_def)
  show "concat (new_lines (map (\<lambda>e. edit_line e @ [10]) es)) = new_text es"
    by (simp add: new_lines_def new_text_def unlines_def filter_map comp_def n t
        del: drop_append One_nat_def)
qed

lemma side_encodable:
  assumes "list_all good_edit es"
  shows "utf8_encode (old_text es) \<noteq> None" "utf8_encode (new_text es) \<noteq> None"
  using assms unfolding utf8_encodable
  by (auto simp: old_text_def new_text_def unlines_chars list_all_iff good_edit_def
      utf8_encodable utf8_char_ascii simp del: not_None_eq)

lemma prepare_render:
  assumes "good_path p" "list_all good_edit es" "list_all (\<lambda>e. \<not> hides_header e) es"
    and old: "utf8_encode (old_text es) = Some old" and new: "utf8_encode (new_text es) = Some new"
    and snap: "snap p = Some old"
  shows "prepare_loop sha snap (map (\<lambda>l. l @ [10]) (diff_lines p es)) [] 0 0 =
    Inr ([\<lparr>fp_path = p, fp_operation = MODIFY, fp_pre_sha = Some (sha old),
           fp_post_sha = Some (sha new), fp_pre = Some old, fp_post = Some new\<rparr>],
         added_count es, deleted_count es)"
proof -
  have hp: "header_path (lit ''--- a/'' @ p @ [10]) = Inr (Some p)"
    "header_path (lit ''+++ b/'' @ p @ [10]) = Inr (Some p)"
    using header_path_render[OF assms(1), of "lit ''--- ''" "lit ''a/''"]
      header_path_render[OF assms(1), of "lit ''+++ ''" "lit ''b/''"]
    by (simp_all add: str_simps)
  have st: "starts_with (lit ''--- '') (lit ''--- a/'' @ p @ [10])"
    "starts_with (lit ''+++ '') (lit ''+++ b/'' @ p @ [10])"
    by (simp_all add: str_simps)
  have at: "scan_hunk ((lit ''@@ -1 +1 @@'' @ [10]) # ls) = scan_hunk ls" for ls
    by (simp add: str_simps)
  have pl: "plan_file sha snap p (Some p) (Some p) (map (\<lambda>e. edit_line e @ [10]) es) =
      Inr \<lparr>fp_path = p, fp_operation = MODIFY, fp_pre_sha = Some (sha old),
           fp_post_sha = Some (sha new), fp_pre = Some old, fp_post = Some new\<rparr>"
    using snap old new by (simp add: plan_file_def Let_def old_content_def edit_sides
        utf8_roundtrip[OF old] sha_opt_def)
  have chk: "check_targets snap (Some p) (Some p) = Inr ()"
    using snap by (simp add: check_targets_def old_content_def)
  have sc: "scan_hunk ((lit ''@@ -1 +1 @@'' @ [10]) # map ((\<lambda>l. l @ [10]) \<circ> edit_line) es) =
    Inr \<lparr>hs_hunk = map (\<lambda>e. edit_line e @ [10]) es, hs_added = added_count es,
         hs_deleted = deleted_count es, hs_rest = []\<rparr>"
    using at scan_hunk_edits[OF assms(3)] by (simp add: comp_def)
  show ?thesis
    by (simp add: diff_lines_def hp st chk sc pl del: scan_hunk.simps)
qed

lemma prepare_patch_render:
  assumes "good_path p" "list_all good_edit es"
  shows "prepare_patch sha (render p es) snap =
    bind_res (prepare_loop sha snap (map (\<lambda>l. l @ [10]) (diff_lines p es)) [] 0 0)
      (\<lambda>(plans, added, deleted).
        if plans = [] then Inl (ValueError ''empty diff'')
        else Inr \<lparr>pp_files = plans,
             pp_facts =
               \<lparr>pf_file_count = py_len plans, pf_added_lines = added, pf_deleted_lines = deleted,
                pf_touches_test_assets = list_ex (\<lambda>p. test_asset_path (fp_path p)) plans,
                pf_touches_sensitive_paths =
                  list_ex (\<lambda>p. sensitive_patch_path (fp_path p)) plans\<rparr>\<rparr>)"
proof -
  obtain raw where raw: "utf8_encode (render p es) = Some raw" "13 \<notin> set raw" "ends_with [10] raw"
    using assms by (rule render_encodable)
  have "splitlines_keep (render p es) = map (\<lambda>l. l @ [10]) (diff_lines p es)"
    unfolding render_def by (rule splitlines_unlines[OF diff_lines_one_line[OF assms]])
  then show ?thesis
    using raw utf8_roundtrip[OF raw(1)] by (simp add: prepare_patch_def prepare_bytes_def)
qed


definition sample_script :: "edit list" where
  "sample_script = [Keep (lit ''def f():''), Del (lit ''    return 1''), Add (lit ''    return 2'')]"

definition sample_old :: bytes where
  "sample_old = the (utf8_encode (old_text sample_script))"

lemma sample_script_good:
  "good_path (lit ''src/f.py'')" "list_all good_edit sample_script"
  "list_all (\<lambda>e. \<not> hides_header e) sample_script"
  "utf8_encode (old_text sample_script) = Some sample_old"
proof -
  show "good_path (lit ''src/f.py'')" "list_all good_edit sample_script"
    "list_all (\<lambda>e. \<not> hides_header e) sample_script" by code_simp+
  then show "utf8_encode (old_text sample_script) = Some sample_old"
    using side_encodable(1) by (auto simp: sample_old_def)
qed


text \<open>A diff whose first hunk line deletes a line starting with two dashes and a space is
  rejected with a context mismatch, whatever file it deletes the line from: the deleted line reads
  as the header of the next file.\<close>

theorem prepare_hidden_header:
  assumes "good_path p" "list_all good_edit (Del (lit ''-- '' @ l) # es)"
    and "utf8_encode (old_text (Del (lit ''-- '' @ l) # es)) = Some old" and "snap p = Some old"
  shows "prepare_patch sha (render p (Del (lit ''-- '' @ l) # es)) snap
    = Inl (ValueError ''context mismatch'')"
proof -
  let ?es = "Del (lit ''-- '' @ l) # es"
  have hp: "header_path (lit ''--- a/'' @ p @ [10]) = Inr (Some p)"
    "header_path (lit ''+++ b/'' @ p @ [10]) = Inr (Some p)"
    using header_path_render[OF assms(1), of "lit ''--- ''" "lit ''a/''"]
      header_path_render[OF assms(1), of "lit ''+++ ''" "lit ''b/''"]
    by (simp_all add: str_simps)
  have st: "starts_with (lit ''--- '') (lit ''--- a/'' @ p @ [10])"
    "starts_with (lit ''+++ '') (lit ''+++ b/'' @ p @ [10])"
    by (simp_all add: str_simps)
  let ?rest = "(edit_line (Del (lit ''-- '' @ l)) @ [10]) # map ((\<lambda>l. l @ [10]) \<circ> edit_line) es"
  have sc: "scan_hunk ((lit ''@@ -1 +1 @@'' @ [10]) # ?rest)
    = Inr \<lparr>hs_hunk = [], hs_added = 0, hs_deleted = 0, hs_rest = ?rest\<rparr>"
    by (simp add: str_simps)
  have ne: "old_text ?es \<noteq> []" by (simp add: old_text_def unlines_def)
  have pl: "plan_file sha snap p (Some p) (Some p) [] = Inl (ValueError ''context mismatch'')"
    using assms(4) ne utf8_roundtrip[OF assms(3)]
    by (simp add: plan_file_def old_content_def old_lines_def)
  have chk: "check_targets snap (Some p) (Some p) = Inr ()"
    using assms(4) by (simp add: check_targets_def old_content_def)
  have "prepare_loop sha snap (map (\<lambda>l. l @ [10]) (diff_lines p ?es)) [] 0 0
    = Inl (ValueError ''context mismatch'')"
    unfolding diff_lines_def by (simp add: hp st chk sc pl del: edit_line.simps scan_hunk.simps)
  then show ?thesis by (simp add: prepare_patch_render[OF assms(1,2)])
qed

theorem prepare_hidden_header_witness:
  "prepare_patch (\<lambda>b. lit ''h'') (render (lit ''q.sql'') [Del (lit ''-- '' @ lit ''old'')])
     (\<lambda>_. Some (map of_int (lit ''-- old'') @ [10])) = Inl (ValueError ''context mismatch'')"
proof -
  have "good_path (lit ''q.sql'')" "list_all good_edit [Del (lit ''-- '' @ lit ''old'')]"
    "utf8_encode (old_text [Del (lit ''-- '' @ lit ''old'')])
      = Some (map of_int (lit ''-- old'') @ [10])"
    by code_simp+
  from prepare_hidden_header[OF this] show ?thesis by simp
qed

end
