(* ===== verification/PatchApply.thy ===== *)
theory PatchApply
  imports Patching
begin

text \<open>
  \<^verbatim>\<open>patching/applier.py\<close> and \<^verbatim>\<open>patching/rollback.py\<close>: writing a prepared patch, and compensating
  when a write fails. The workspace is a map from paths to contents, the symbolic links among the
  paths, and the temporary files left behind; \<open>os_script\<close> is what the operating system will answer
  to the coming calls that write (an empty list: every call succeeds). The optional replacement
  callbacks, which only the tests pass, are not modelled.
\<close>

section \<open>The workspace\<close>

datatype os_answer = Done | Refused | Torn bytes

record fs =
  fs_files :: "pystr \<Rightarrow> bytes option"
  fs_links :: "pystr \<Rightarrow> bool"
  fs_temps :: "pystr list"
  os_script :: "os_answer list"

type_synonym 'a fs_prog = "(fs, 'a) prog"

definition os_call :: "os_answer fs_prog" where
  "os_call w = (case os_script w of [] \<Rightarrow> (Inr Done, w)
     | a # as \<Rightarrow> (Inr a, w\<lparr>os_script := as\<rparr>))"

definition os_step :: "unit fs_prog" where
  "os_step = bind_prog os_call (\<lambda>a. if a = Done then ret () else raise (OSError ''''))"

definition set_file :: "pystr \<Rightarrow> bytes option \<Rightarrow> unit fs_prog" where
  "set_file p c w = (Inr (), w\<lparr>fs_files := (fs_files w)(p := c)\<rparr>)"

definition leave_temp :: "pystr \<Rightarrow> unit fs_prog" where
  "leave_temp p w = (Inr (), w\<lparr>fs_temps := p # fs_temps w\<rparr>)"

definition drop_temp :: "unit fs_prog" where
  "drop_temp w = (Inr (), w\<lparr>fs_temps := tl (fs_temps w)\<rparr>)"

definition read_file :: "pystr \<Rightarrow> bytes option fs_prog" where
  "read_file p w = (Inr (fs_files w p), w)"

section \<open>Writing\<close>

definition unlink_file :: "pystr \<Rightarrow> unit fs_prog" where
  "unlink_file p = bind_prog (read_file p) (\<lambda>c.
     if c = None then raise (OSError ''not found'')
     else bind_prog os_step (\<lambda>_. set_file p None))"

text \<open>Make the parent directories, make a temporary file beside the target, write and sync it,
  move it over the target. The temporary file exists from its creation to the move.\<close>

definition replace_file :: "pystr \<Rightarrow> bytes \<Rightarrow> unit fs_prog" where
  "replace_file p data =
     bind_prog os_step (\<lambda>_.
     bind_prog os_step (\<lambda>_.
     bind_prog (leave_temp p) (\<lambda>_.
     bind_prog os_step (\<lambda>_.
     bind_prog os_step (\<lambda>_.
     bind_prog drop_temp (\<lambda>_. set_file p (Some data)))))))"

definition install_one :: "file_plan \<Rightarrow> unit fs_prog" where
  "install_one pl =
     (if fp_operation pl = DELETE then unlink_file (fp_path pl)
      else replace_file (fp_path pl) (case fp_post pl of None \<Rightarrow> [] | Some b \<Rightarrow> b))"

text \<open>The loop inside \<open>try\<close>: the plans begun, and whether all of them finished.\<close>

fun install_all :: "file_plan list \<Rightarrow> fs \<Rightarrow> (file_plan list \<times> bool) \<times> fs" where
  "install_all [] w = (([], True), w)"
| "install_all (pl # pls) w =
     (case install_one pl w of
        (Inr _, v) \<Rightarrow> (case install_all pls v of ((c, b), u) \<Rightarrow> ((pl # c, b), u))
      | (Inl _, v) \<Rightarrow> (([pl], False), v))"

section \<open>Rollback\<close>

datatype rollback_result = RollbackOk | RollbackConflict

text \<open>\<open>write_bytes\<close> truncates before it writes: it may fail having left something else.\<close>

definition write_bytes :: "pystr \<Rightarrow> bytes \<Rightarrow> unit fs_prog" where
  "write_bytes p data = bind_prog os_call (\<lambda>a. case a of
       Done \<Rightarrow> set_file p (Some data)
     | Refused \<Rightarrow> raise (OSError '''')
     | Torn b \<Rightarrow> bind_prog (set_file p (Some b)) (\<lambda>_. raise (OSError '''')))"

fun rollback_loop :: "(bytes \<Rightarrow> pystr) \<Rightarrow> file_plan list \<Rightarrow> rollback_result fs_prog" where
  "rollback_loop sha [] = ret RollbackOk"
| "rollback_loop sha (pl # pls) =
     bind_prog (read_file (fp_path pl)) (\<lambda>current.
       if sha_opt sha current \<noteq> fp_post_sha pl then ret RollbackConflict
       else bind_prog
         (case fp_pre pl of
            None \<Rightarrow> if current \<noteq> None then unlink_file (fp_path pl) else ret ()
          | Some b \<Rightarrow> write_bytes (fp_path pl) b)
         (\<lambda>_. rollback_loop sha pls))"

definition rollback :: "(bytes \<Rightarrow> pystr) \<Rightarrow> file_plan list \<Rightarrow> rollback_result fs_prog" where
  "rollback sha changed = rollback_loop sha (rev changed)"

section \<open>Applying\<close>

datatype apply_result =
    Applied "file_plan list"
  | ApplyFailure string string
  | CompensationFailure string string rollback_result

fun check_preimages :: "(bytes \<Rightarrow> pystr) \<Rightarrow> fs \<Rightarrow> file_plan list \<Rightarrow> apply_result option" where
  "check_preimages sha w [] = None"
| "check_preimages sha w (pl # pls) =
     (if fs_links w (fp_path pl) then Some (ApplyFailure ''conflict'' ''symlink target rejected'')
      else if sha_opt sha (fs_files w (fp_path pl)) \<noteq> fp_pre_sha pl
      then Some (ApplyFailure ''conflict'' ''pre-image drift'')
      else check_preimages sha w pls)"

text \<open>The plans to undo, or \<open>None\<close> when some file is neither its pre-image nor its post-image.\<close>

fun compensable :: "(bytes \<Rightarrow> pystr) \<Rightarrow> fs \<Rightarrow> file_plan list \<Rightarrow> file_plan list option" where
  "compensable sha w [] = Some []"
| "compensable sha w (pl # pls) =
     (let h = sha_opt sha (fs_files w (fp_path pl))
      in if h = fp_pre_sha pl then compensable sha w pls
         else if h = fp_post_sha pl then map_option (Cons pl) (compensable sha w pls)
         else None)"

definition compensate :: "(bytes \<Rightarrow> pystr) \<Rightarrow> file_plan list \<Rightarrow> apply_result fs_prog" where
  "compensate sha changed w =
     (case compensable sha w changed of
        None \<Rightarrow> (Inr (CompensationFailure ''unknown_outcome'' ''patch compensation conflicted''
          RollbackConflict), w)
      | Some cs \<Rightarrow>
          bind_prog (rollback sha cs) (\<lambda>r. ret
            (if r \<noteq> RollbackOk
             then CompensationFailure ''unknown_outcome'' ''patch compensation conflicted'' r
             else CompensationFailure ''apply_failed'' ''patch application failed'' r)) w)"

definition apply_patch :: "(bytes \<Rightarrow> pystr) \<Rightarrow> prepared_patch \<Rightarrow> bool \<Rightarrow> apply_result fs_prog" where
  "apply_patch sha pp authorized w =
     (if \<not> authorized
      then (Inr (ApplyFailure ''unauthorized'' ''patch execution is not authorized''), w)
      else case check_preimages sha w (pp_files pp) of
        Some failure \<Rightarrow> (Inr failure, w)
      | None \<Rightarrow>
          (case install_all (pp_files pp) w of
             ((changed, True), v) \<Rightarrow> (Inr (Applied changed), v)
           | ((changed, False), v) \<Rightarrow> compensate sha changed v))"

section \<open>What the steps do to the files\<close>

lemma os_call_cases:
  obtains a v where "os_call w = (Inr a, v)" "fs_files v = fs_files w" "fs_temps v = fs_temps w"
  by (cases "os_script w") (auto simp: os_call_def)

lemma os_step_cases:
  obtains v where "os_step w = (Inr (), v)" "fs_files v = fs_files w"
  | v where "os_step w = (Inl (OSError ''''), v)" "fs_files v = fs_files w"
proof (cases rule: os_call_cases[of w])
  case (1 a v)
  then show ?thesis using that by (cases "a = Done") (auto simp: os_step_def bind_prog_def)
qed

lemma unlink_file_cases:
  obtains v where "unlink_file p w = (Inr (), v)" "fs_files v = (fs_files w)(p := None)"
  | v e where "unlink_file p w = (Inl (OSError e), v)" "fs_files v = fs_files w"
proof (cases "fs_files w p")
  case None
  then show ?thesis using that by (simp add: unlink_file_def bind_prog_def read_file_def)
next
  case (Some b)
  show ?thesis
    by (cases rule: os_step_cases[of w])
      (use Some that in \<open>auto simp: unlink_file_def bind_prog_def read_file_def set_file_def\<close>)
qed

text \<open>A program that changes the files by \<open>g\<close>, or raises \<open>OSError\<close> having changed none.\<close>

definition does :: "'a fs_prog \<Rightarrow> ((pystr \<Rightarrow> bytes option) \<Rightarrow> pystr \<Rightarrow> bytes option) \<Rightarrow> bool" where
  "does m g \<longleftrightarrow> (\<forall>w. (\<exists>x. fst (m w) = Inr x) \<and> fs_files (snd (m w)) = g (fs_files w)
     \<or> (\<exists>e. fst (m w) = Inl (OSError e)) \<and> fs_files (snd (m w)) = fs_files w)"

lemma does_bind:
  assumes m: "does m (\<lambda>f. f)" and f: "\<And>x. does (f x) g"
  shows "does (bind_prog m f) g"
  unfolding does_def
proof
  fix w
  obtain r v where mw: "m w = (r, v)" by fastforce
  show "(\<exists>x. fst (bind_prog m f w) = Inr x) \<and> fs_files (snd (bind_prog m f w)) = g (fs_files w)
    \<or> (\<exists>e. fst (bind_prog m f w) = Inl (OSError e))
       \<and> fs_files (snd (bind_prog m f w)) = fs_files w"
  proof (cases r)
    case (Inl e)
    then show ?thesis using m mw unfolding does_def by (metis bind_prog_fail fst_conv snd_conv sum.simps(4))
  next
    case (Inr x)
    then have "bind_prog m f w = f x v" "fs_files v = fs_files w"
      using m mw unfolding does_def by (metis bind_prog_step fst_conv snd_conv)+
    then show ?thesis using f[of x] unfolding does_def by metis
  qed
qed

lemma does_basic:
  "does os_step (\<lambda>f. f)" "does (leave_temp p) (\<lambda>f. f)" "does drop_temp (\<lambda>f. f)"
  "does (set_file p c) (\<lambda>f. f(p := c))"
  unfolding does_def by (auto simp: leave_temp_def drop_temp_def set_file_def)
    (metis os_step_cases fst_conv snd_conv)+

lemma replace_file_cases:
  obtains v where "replace_file p d w = (Inr (), v)" "fs_files v = (fs_files w)(p := Some d)"
  | v e where "replace_file p d w = (Inl (OSError e), v)" "fs_files v = fs_files w"
proof -
  have "does (replace_file p d) (\<lambda>f. f(p := Some d))"
    unfolding replace_file_def by (intro does_bind does_basic)
  then have d: "(\<exists>x. fst (replace_file p d w) = Inr x)
      \<and> fs_files (snd (replace_file p d w)) = (fs_files w)(p := Some d)
    \<or> (\<exists>e. fst (replace_file p d w) = Inl (OSError e))
      \<and> fs_files (snd (replace_file p d w)) = fs_files w"
    unfolding does_def by (rule spec)
  obtain r v where "replace_file p d w = (r, v)" by fastforce
  with d that show ?thesis by (cases r) auto
qed

definition installed :: "file_plan list \<Rightarrow> (pystr \<Rightarrow> bytes option) \<Rightarrow> pystr \<Rightarrow> bytes option" where
  "installed pls f = fold (\<lambda>pl g. g(fp_path pl := fp_post pl)) pls f"

definition op_consistent :: "file_plan \<Rightarrow> bool" where
  "op_consistent pl \<longleftrightarrow> (fp_operation pl = DELETE \<longleftrightarrow> fp_post pl = None)"

lemma install_one_cases:
  assumes "op_consistent pl"
  obtains v where "install_one pl w = (Inr (), v)"
      "fs_files v = (fs_files w)(fp_path pl := fp_post pl)"
  | v e where "install_one pl w = (Inl (OSError e), v)" "fs_files v = fs_files w"
proof (cases "fp_post pl")
  case None
  show ?thesis
    by (cases rule: unlink_file_cases[of "fp_path pl" w])
      (use None assms that in \<open>auto simp: install_one_def op_consistent_def\<close>)
next
  case (Some b)
  show ?thesis
    by (cases rule: replace_file_cases[of "fp_path pl" b w])
      (use Some assms that in \<open>auto simp: install_one_def op_consistent_def\<close>)
qed

lemma installed_simps [simp]:
  "installed [] f = f"
  "installed (pl # pls) f = installed pls (f(fp_path pl := fp_post pl))"
  by (simp_all add: installed_def)

lemma installed_other: "p \<notin> set (map fp_path pls) \<Longrightarrow> installed pls f p = f p"
  by (induction pls arbitrary: f) auto

lemma installed_at:
  "distinct (map fp_path pls) \<Longrightarrow> pl \<in> set pls \<Longrightarrow> installed pls f (fp_path pl) = fp_post pl"
  by (induction pls arbitrary: f) (auto simp: installed_other)

text \<open>The loop installs a prefix of the plans; when it stops early the last plan it began has
  changed nothing.\<close>

lemma install_all_result:
  assumes "list_all op_consistent pls" "install_all pls w = ((changed, b), v)"
  shows "if b then changed = pls \<and> fs_files v = installed pls (fs_files w)
    else \<exists>done pl rest. pls = done @ pl # rest \<and> changed = done @ [pl]
           \<and> fs_files v = installed done (fs_files w)"
  using assms
proof (induction pls arbitrary: w changed)
  case Nil
  then show ?case by simp
next
  case (Cons pl pls)
  have pl: "op_consistent pl" using Cons.prems(1) by simp
  show ?case
  proof (cases rule: install_one_cases[OF pl, of w])
    case (1 u)
    then obtain c where "install_all pls u = ((c, b), v)" and c: "changed = pl # c"
      using Cons.prems(2) by (auto split: prod.splits)
    from Cons.IH[OF _ this(1)] Cons.prems(1) have IH:
      "if b then c = pls \<and> fs_files v = installed pls (fs_files u)
       else \<exists>done pl rest. pls = done @ pl # rest \<and> c = done @ [pl]
           \<and> fs_files v = installed done (fs_files u)" by simp
    show ?thesis
    proof (cases b)
      case True
      then show ?thesis using IH c 1 by simp
    next
      case False
      then obtain ds p rest where "pls = ds @ p # rest" "c = ds @ [p]"
        "fs_files v = installed ds (fs_files u)" using IH by auto
      then have "pl # pls = (pl # ds) @ p # rest" "changed = (pl # ds) @ [p]"
        "fs_files v = installed (pl # ds) (fs_files w)" using c 1 by simp_all
      then show ?thesis using False by (auto intro!: exI[of _ "pl # ds"])
    qed
  next
    case (2 u e)
    then have "changed = [pl] \<and> \<not> b \<and> v = u" using Cons.prems(2) by auto
    then show ?thesis using 2 by (auto intro!: exI[of _ "[]"])
  qed
qed

section \<open>What a rollback does\<close>

lemma rollback_loop_result:
  assumes "distinct (map fp_path pls)" "\<forall>pl \<in> set pls. fp_post_sha pl = sha_opt sha (fp_post pl)"
    and "\<forall>pl \<in> set pls. fs_files w (fp_path pl) = fp_post pl"
    and "rollback_loop sha pls w = (r, v)"
  shows "(\<forall>p. p \<notin> set (map fp_path pls) \<longrightarrow> fs_files v p = fs_files w p)
    \<and> (case r of Inl e \<Rightarrow> is_os_error e
        | Inr res \<Rightarrow> res = RollbackOk \<and> (\<forall>pl \<in> set pls. fs_files v (fp_path pl) = fp_pre pl))"
  using assms
proof (induction pls arbitrary: w)
  case Nil
  then show ?case by auto
next
  case (Cons pl pls)
  define undo where "undo = (case fp_pre pl of
      None \<Rightarrow> if fs_files w (fp_path pl) \<noteq> None then unlink_file (fp_path pl) else ret ()
    | Some b \<Rightarrow> write_bytes (fp_path pl) b)"
  obtain r1 u where u: "undo w = (r1, u)" by fastforce
  have undo: "(\<forall>p. p \<noteq> fp_path pl \<longrightarrow> fs_files u p = fs_files w p)
    \<and> (case r1 of Inl e \<Rightarrow> is_os_error e | Inr _ \<Rightarrow> fs_files u (fp_path pl) = fp_pre pl)"
  proof (cases "fp_pre pl")
    case None
    show ?thesis
      by (cases rule: unlink_file_cases[of "fp_path pl" w])
        (use u None in \<open>auto simp: undo_def split: if_splits\<close>)
  next
    case (Some b)
    obtain a x where "os_call w = (Inr a, x)" "fs_files x = fs_files w"
      by (rule os_call_cases[of w])
    then show ?thesis
      using u Some by (cases a) (auto simp: undo_def write_bytes_def bind_prog_def set_file_def)
  qed
  have step: "rollback_loop sha (pl # pls) w = bind_prog undo (\<lambda>_. rollback_loop sha pls) w"
    using Cons.prems(2,3) by (simp add: bind_prog_def read_file_def undo_def)
  show ?case
  proof (cases r1)
    case (Inl e)
    then show ?thesis using undo u step Cons.prems(4) by (auto simp: bind_prog_def)
  next
    case (Inr x)
    then have rest: "rollback_loop sha pls u = (r, v)"
      using u step Cons.prems(4) by (simp add: bind_prog_def)
    have "\<forall>q \<in> set pls. fs_files u (fp_path q) = fp_post q"
      using Cons.prems(1,3) undo by (auto simp: image_iff)
    from Cons.IH[OF _ _ this rest] Cons.prems(1,2) have IH:
      "(\<forall>p. p \<notin> set (map fp_path pls) \<longrightarrow> fs_files v p = fs_files u p)
       \<and> (case r of Inl e \<Rightarrow> is_os_error e
          | Inr res \<Rightarrow> res = RollbackOk \<and> (\<forall>pl \<in> set pls. fs_files v (fp_path pl) = fp_pre pl))"
      by simp
    moreover have "fs_files v (fp_path pl) = fs_files u (fp_path pl)"
      using IH Cons.prems(1) by simp
    ultimately show ?thesis using undo Inr by (auto split: sum.splits)
  qed
qed

section \<open>Applying is all or nothing\<close>

text \<open>The contents that a run of \<open>apply\<close> can compare by their hashes.\<close>

definition involved :: "prepared_patch \<Rightarrow> fs \<Rightarrow> bytes set" where
  "involved pp w = {b. \<exists>pl \<in> set (pp_files pp).
     fs_files w (fp_path pl) = Some b \<or> fp_pre pl = Some b \<or> fp_post pl = Some b}"

definition plans_ok :: "(bytes \<Rightarrow> pystr) \<Rightarrow> prepared_patch \<Rightarrow> bool" where
  "plans_ok sha pp \<longleftrightarrow> distinct (map fp_path (pp_files pp)) \<and> list_all op_consistent (pp_files pp)
     \<and> list_all (\<lambda>pl. fp_pre_sha pl = sha_opt sha (fp_pre pl)
         \<and> fp_post_sha pl = sha_opt sha (fp_post pl)) (pp_files pp)"

lemma sha_opt_inj:
  assumes "inj_on sha (involved pp w)" "pl \<in> set (pp_files pp)"
    and "x \<in> {fs_files w (fp_path pl), fp_pre pl, fp_post pl}"
    and "y \<in> {fs_files w (fp_path pl), fp_pre pl, fp_post pl}"
  shows "sha_opt sha x = sha_opt sha y \<longleftrightarrow> x = y"
proof -
  have "b \<in> involved pp w" if "Some b \<in> {fs_files w (fp_path pl), fp_pre pl, fp_post pl}" for b
    using that assms(2) unfolding involved_def by auto
  then show ?thesis
    using assms(1,3,4) by (cases x; cases y) (auto simp: sha_opt_def inj_on_def)
qed

lemma check_preimages_None:
  "check_preimages sha w pls = None \<Longrightarrow> pl \<in> set pls
     \<Longrightarrow> sha_opt sha (fs_files w (fp_path pl)) = fp_pre_sha pl"
  by (induction pls) (auto split: if_splits)

lemma check_preimages_Some:
  "check_preimages sha w pls = Some r \<Longrightarrow> \<exists>c m. r = ApplyFailure c m"
  by (induction pls) (auto split: if_splits)

lemma compensable_some:
  assumes "\<forall>pl \<in> set pls. sha_opt sha (fs_files v (fp_path pl)) \<in> {fp_pre_sha pl, fp_post_sha pl}"
  shows "compensable sha v pls =
    Some (filter (\<lambda>pl. sha_opt sha (fs_files v (fp_path pl)) \<noteq> fp_pre_sha pl) pls)"
  using assms by (induction pls) (auto simp: Let_def)

lemma apply_failed_restores:
  assumes ok: "plans_ok sha pp" and inj: "inj_on sha (involved pp w)"
    and pre: "check_preimages sha w (pp_files pp) = None"
    and inst: "install_all (pp_files pp) w = ((changed, False), v)"
    and run: "compensate sha changed v = (r, u)"
  shows "case r of
      Inr res \<Rightarrow> res = CompensationFailure ''apply_failed'' ''patch application failed'' RollbackOk
        \<and> fs_files u = fs_files w
    | Inl e \<Rightarrow> is_os_error e
        \<and> (\<forall>p. p \<notin> set (map fp_path (pp_files pp)) \<longrightarrow> fs_files u p = fs_files w p)"
proof -
  have dist: "distinct (map fp_path (pp_files pp))" using ok by (simp add: plans_ok_def)
  have shas: "fp_pre_sha pl = sha_opt sha (fp_pre pl) \<and> fp_post_sha pl = sha_opt sha (fp_post pl)"
    if "pl \<in> set (pp_files pp)" for pl
    using ok that by (simp add: plans_ok_def list_all_iff)
  have at_pre: "fs_files w (fp_path pl) = fp_pre pl" if "pl \<in> set (pp_files pp)" for pl
    using check_preimages_None[OF pre that] shas[OF that] sha_opt_inj[OF inj that] by simp
  obtain ds p rest where pls: "pp_files pp = ds @ p # rest" and ch: "changed = ds @ [p]"
    and v: "fs_files v = installed ds (fs_files w)"
    using install_all_result[OF _ inst] ok by (auto simp: plans_ok_def)
  have in_ds: "fs_files v (fp_path pl) = fp_post pl" if "pl \<in> set ds" for pl
    using v that dist pls installed_at[of ds pl] by simp
  have at_p: "fs_files v (fp_path p) = fp_pre p"
    using v dist pls at_pre[of p] by (simp add: installed_other)
  have mem: "pl \<in> set (pp_files pp)" if "pl \<in> set changed" for pl
    using that pls ch by auto
  have cur: "fs_files v (fp_path pl) = fp_post pl \<or> pl = p" if "pl \<in> set changed" for pl
    using that in_ds ch by auto
  let ?undo = "filter (\<lambda>pl. sha_opt sha (fs_files v (fp_path pl)) \<noteq> fp_pre_sha pl) changed"
  have comp: "compensable sha v changed = Some ?undo"
  proof (rule compensable_some, intro ballI)
    fix pl assume "pl \<in> set changed"
    with cur[OF this] mem[OF this] shas[of pl] at_p
    show "sha_opt sha (fs_files v (fp_path pl)) \<in> {fp_pre_sha pl, fp_post_sha pl}"
      by (cases "pl = p") auto
  qed
  have undo_ds: "set ?undo \<subseteq> set ds"
    using at_p shas[of p] pls ch by auto
  obtain q where q: "rollback_loop sha (rev ?undo) v = (q, u)"
    and r: "r = (case q of Inl e \<Rightarrow> Inl e | Inr res \<Rightarrow> Inr (if res \<noteq> RollbackOk
       then CompensationFailure ''unknown_outcome'' ''patch compensation conflicted'' res
       else CompensationFailure ''apply_failed'' ''patch application failed'' res))"
    using run comp by (cases "rollback_loop sha (rev ?undo) v")
      (auto simp: compensate_def rollback_def bind_prog_def split: sum.splits)
  have "distinct (map fp_path ds)" using dist pls by simp
  then have d: "distinct (map fp_path (rev ?undo))"
    using at_p shas[of p] pls ch dist by (auto simp: rev_map[symmetric] distinct_map_filter)
  have res: "(\<forall>x. x \<notin> set (map fp_path (rev ?undo)) \<longrightarrow> fs_files u x = fs_files v x)
    \<and> (case q of Inl e \<Rightarrow> is_os_error e
        | Inr res \<Rightarrow> res = RollbackOk
            \<and> (\<forall>pl \<in> set (rev ?undo). fs_files u (fp_path pl) = fp_pre pl))"
  proof (rule rollback_loop_result[OF d _ _ q])
    show "\<forall>pl \<in> set (rev ?undo). fp_post_sha pl = sha_opt sha (fp_post pl)"
      using shas mem by auto
    show "\<forall>pl \<in> set (rev ?undo). fs_files v (fp_path pl) = fp_post pl"
      using undo_ds in_ds by auto
  qed
  have outside: "fs_files u x = fs_files w x" if "x \<notin> set (map fp_path (pp_files pp))" for x
  proof -
    have "x \<notin> set (map fp_path (rev ?undo))" "x \<notin> set (map fp_path ds)"
      using that undo_ds pls by auto
    then show ?thesis using res v installed_other by metis
  qed
  show ?thesis
  proof (cases q)
    case (Inl e)
    then show ?thesis using res r outside by auto
  next
    case (Inr x)
    have "fs_files u y = fs_files w y" for y
    proof (cases "y \<in> set (map fp_path ?undo)")
      case True
      then obtain pl where pl: "pl \<in> set ?undo" "y = fp_path pl" by auto
      then have "fs_files u y = fp_pre pl" using res Inr by auto
      then show ?thesis using at_pre[of pl] mem pl by auto
    next
      case False
      then have uy: "fs_files u y = fs_files v y" using res by auto
      show ?thesis
      proof (cases "y \<in> set (map fp_path ds)")
        case True
        then obtain pl where pl: "pl \<in> set ds" "y = fp_path pl" by auto
        then have m: "pl \<in> set (pp_files pp)" "pl \<in> set changed" using pls ch by auto
        have "pl \<notin> set ?undo" using False pl by auto
        then have "sha_opt sha (fs_files v y) = fp_pre_sha pl" using m(2) pl by auto
        then have "fp_post pl = fp_pre pl"
          using in_ds[OF pl(1)] shas[OF m(1)] pl sha_opt_inj[OF inj m(1)] by auto
        then show ?thesis using uy in_ds[OF pl(1)] at_pre[OF m(1)] pl by simp
      next
        case False
        then show ?thesis using uy v installed_other by simp
      qed
    qed
    then show ?thesis using res r Inr by auto
  qed
qed


text \<open>Two plans, the second of which the operating system refuses to create a directory for.\<close>

definition plain_sha :: "bytes \<Rightarrow> pystr" where
  "plain_sha b = map uint b"

definition sample_pp :: prepared_patch where
  "sample_pp =
     \<lparr>pp_files =
        [\<lparr>fp_path = lit ''a'', fp_operation = MODIFY, fp_pre_sha = Some [1], fp_post_sha = Some [2],
          fp_pre = Some [1], fp_post = Some [2]\<rparr>,
         \<lparr>fp_path = lit ''b'', fp_operation = CREATE, fp_pre_sha = None, fp_post_sha = Some [3],
          fp_pre = None, fp_post = Some [3]\<rparr>],
      pp_facts = \<lparr>pf_file_count = 2, pf_added_lines = 2, pf_deleted_lines = 1,
        pf_touches_test_assets = False, pf_touches_sensitive_paths = False\<rparr>\<rparr>"

definition sample_fs :: fs where
  "sample_fs = \<lparr>fs_files = (\<lambda>p. if p = lit ''a'' then Some [1] else None), fs_links = (\<lambda>p. False),
     fs_temps = [], os_script = [Done, Done, Done, Done, Refused]\<rparr>"

lemma plain_sha_inj: "inj_on plain_sha A"
proof (rule inj_onI)
  fix x y assume "plain_sha x = plain_sha y"
  then show "x = y" unfolding plain_sha_def
    by (rule map_injective) (auto intro: injI)
qed

lemma sample_apply:
  "fst (apply_patch plain_sha sample_pp True sample_fs)
     = Inr (CompensationFailure ''apply_failed'' ''patch application failed'' RollbackOk)"
  by code_simp


text \<open>The temporary file of a failed replacement stays in the workspace: when the operating
  system refuses the write or the move, the name of a new temporary file is left behind although
  the compensation has restored every file.\<close>

theorem apply_leaks_temp:
  assumes "check_preimages sha w [pl] = None" and "fp_operation pl \<noteq> DELETE"
    and "os_script w = [Done, Done, Refused]" and "fp_pre_sha pl = sha_opt sha (fp_pre pl)"
  shows "\<exists>u. apply_patch sha \<lparr>pp_files = [pl], pp_facts = facts\<rparr> True w
      = (Inr (CompensationFailure ''apply_failed'' ''patch application failed'' RollbackOk), u)
    \<and> fs_files u = fs_files w \<and> fs_temps u = fp_path pl # fs_temps w"
proof -
  have "sha_opt sha (fs_files w (fp_path pl)) = fp_pre_sha pl"
    using check_preimages_None[OF assms(1)] by simp
  then show ?thesis
    using assms(1-3)
    by (simp add: apply_patch_def install_one_def replace_file_def bind_prog_def os_step_def
        os_call_def leave_temp_def compensate_def rollback_def ret_def raise_def)
qed

theorem apply_leaks_temp_witness:
  "\<exists>u. apply_patch plain_sha \<lparr>pp_files = [hd (pp_files sample_pp)], pp_facts = pp_facts sample_pp\<rparr>
      True (sample_fs\<lparr>os_script := [Done, Done, Refused]\<rparr>)
      = (Inr (CompensationFailure ''apply_failed'' ''patch application failed'' RollbackOk), u)
    \<and> fs_files u = fs_files (sample_fs\<lparr>os_script := [Done, Done, Refused]\<rparr>)
    \<and> fs_temps u = [lit ''a'']"
  using apply_leaks_temp[of plain_sha "sample_fs\<lparr>os_script := [Done, Done, Refused]\<rparr>"
      "hd (pp_files sample_pp)" "pp_facts sample_pp"]
  by (simp add: sample_pp_def sample_fs_def plain_sha_def sha_opt_def)

end
