(* ===== verification/Canonical.thy ===== *)
theory Canonical
  imports Models Json "HOL-Library.Multiset"
begin

text \<open>
  \<^verbatim>\<open>security/canonical.py\<close>: Python values to one canonical byte string and its hash. SHA-256 is
  the argument \<open>sha\<close>; a datetime carries the text \<open>strftime\<close> gives for it and whether it is
  native UTC, a float its lexeme.
\<close>

section \<open>Normalisation\<close>

datatype py_value =
    PyNone
  | PyBool bool
  | PyInt int
  | PyFloat pystr
  | PyStr pystr
  | PyEnum py_value
  | PyUuid uuid
  | PyDatetime pystr bool
  | PySeq "py_value list"
  | PyDict "(pystr option \<times> py_value) list"
  | PyOther

definition finite_lexeme :: "pystr \<Rightarrow> bool" where
  "finite_lexeme x \<longleftrightarrow> x \<notin> {lit ''nan'', lit ''inf'', lit ''-inf''}"

text \<open>A key that is no string is \<open>None\<close> here.\<close>

fun string_keys :: "(pystr option \<times> 'v) list \<Rightarrow> (pystr \<times> 'v) list option" where
  "string_keys [] = Some []"
| "string_keys ((None, v) # kvs) = None"
| "string_keys ((Some k, v) # kvs) = map_option (Cons (k, v)) (string_keys kvs)"

fun map_values :: "(pystr \<times> 'v res) list \<Rightarrow> (pystr \<times> 'v) list res" where
  "map_values [] = Inr []"
| "map_values ((k, v) # kvs) = bind_res v (\<lambda>x. bind_res (map_values kvs) (\<lambda>xs. Inr ((k, x) # xs)))"

fun seq_values :: "'v res list \<Rightarrow> 'v list res" where
  "seq_values [] = Inr []"
| "seq_values (v # vs) = bind_res v (\<lambda>x. bind_res (seq_values vs) (\<lambda>xs. Inr (x # xs)))"

fun normalize :: "py_value \<Rightarrow> json res" where
  "normalize (PyEnum v) = normalize v"
| "normalize (PyUuid u) = Inr (JStr (uuid_str u))"
| "normalize (PyDatetime t utc) =
     (if utc then Inr (JStr t) else Inl (ValueError ''datetime must be UTC''))"
| "normalize (PyStr s) = Inr (JStr s)"
| "normalize (PyInt n) = Inr (JInt n)"
| "normalize (PyBool b) = Inr (JBool b)"
| "normalize PyNone = Inr JNull"
| "normalize (PyFloat x) =
     (if finite_lexeme x then Inr (JFloat x) else Inl (ValueError ''non-finite number''))"
| "normalize (PySeq vs) = bind_res (seq_values (map normalize vs)) (\<lambda>js. Inr (JArr js))"
| "normalize (PyDict kvs) =
     (case string_keys (map (\<lambda>(k, v). (k, normalize v)) kvs) of
        None \<Rightarrow> Inl (TypeError ''object keys must be strings'')
      | Some ms \<Rightarrow> bind_res (map_values (sort_key fst ms)) (\<lambda>js. Inr (JObj js)))"
| "normalize PyOther = Inl (TypeError ''unsupported canonical type'')"

definition canonical_bytes :: "py_value \<Rightarrow> bytes res" where
  "canonical_bytes v =
     bind_res (normalize v) (\<lambda>j. of_opt UnicodeError (utf8_encode (json_dumps j)))"

definition canonical_sha256 :: "(bytes \<Rightarrow> pystr) \<Rightarrow> py_value \<Rightarrow> pystr res" where
  "canonical_sha256 sha v = bind_res (canonical_bytes v) (\<lambda>b. Inr (sha b))"

section \<open>Canonical bytes determine the value\<close>

text \<open>Values whose texts are code points, integers within the digit limit of the interpreter, no
  floats, and dictionaries with distinct keys.\<close>

fun plain_value :: "py_value \<Rightarrow> bool" where
  "plain_value (PyEnum v) = plain_value v"
| "plain_value (PyStr s) = (\<forall>c \<in> set s. 0 \<le> c)"
| "plain_value (PyDatetime t utc) = (\<forall>c \<in> set t. 0 \<le> c)"
| "plain_value (PyInt n) = (length (nat_digits \<bar>n\<bar>) \<le> 4300)"
| "plain_value (PyFloat x) = False"
| "plain_value (PySeq vs) = (\<forall>v \<in> set vs. plain_value v)"
| "plain_value (PyDict kvs) = (distinct (map fst kvs) \<and>
     (\<forall>kv \<in> set kvs. (case fst kv of None \<Rightarrow> True | Some k \<Rightarrow> \<forall>c \<in> set k. 0 \<le> c) \<and> plain_value (snd kv)))"
| "plain_value _ = True"

lemma seq_values_Inr:
  "seq_values rs = Inr xs \<Longrightarrow> rs = map Inr xs"
  by (induction rs arbitrary: xs) (auto simp: bind_res_Inr)

lemma map_values_Inr:
  "map_values kvs = Inr xs \<Longrightarrow> kvs = map (\<lambda>(k, x). (k, Inr x)) xs"
  by (induction kvs arbitrary: xs rule: map_values.induct) (auto simp: bind_res_Inr)

lemma string_keys_Some:
  "string_keys kvs = Some ms \<Longrightarrow> kvs = map (\<lambda>(k, v). (Some k, v)) ms"
  by (induction kvs arbitrary: ms rule: string_keys.induct) auto

lemma uuid_str_chars: "c \<in> set (uuid_str u) \<Longrightarrow> 0 \<le> c"
  by (auto simp: uuid_str_def nibbles_def hex_char_def Let_def in_set_conv_nth dest!: in_set_takeD in_set_dropD)

lemma normalize_plain: "normalize v = Inr j \<Longrightarrow> plain_value v \<Longrightarrow> plain_json j"
proof (induction v arbitrary: j rule: normalize.induct)
  case (2 u)
  then show ?case by (auto dest: uuid_str_chars)
next
  case (9 vs)
  then obtain js where js: "seq_values (map normalize vs) = Inr js" "j = JArr js"
    by (auto simp: bind_res_Inr)
  from js(1) have "map normalize vs = map Inr js" by (rule seq_values_Inr)
  then have "\<exists>v \<in> set vs. normalize v = Inr x" if "x \<in> set js" for x
    using that by (metis (no_types, lifting) image_iff list.set_map)
  with 9 js(2) show ?case by fastforce
next
  case (10 kvs)
  then obtain ms js where ms: "string_keys (map (\<lambda>(k, v). (k, normalize v)) kvs) = Some ms"
    and js: "map_values (sort_key fst ms) = Inr js" "j = JObj js"
    by (auto simp: bind_res_Inr split: option.splits)
  have keys: "map (\<lambda>(k, v). (k, normalize v)) kvs = map (\<lambda>(k, v). (Some k, v)) ms"
    using ms by (rule string_keys_Some)
  have sorted: "sort_key fst ms = map (\<lambda>(k, x). (k, Inr x)) js"
    using js(1) by (rule map_values_Inr)
  have fsts: "map fst (sort_key fst ms) = map fst js"
    unfolding sorted by (simp add: comp_def case_prod_beta)
  have "map fst kvs = map Some (map fst ms)"
    using arg_cong[OF keys, of "map fst"] by (simp add: comp_def case_prod_beta)
  then have "distinct (map fst ms)"
    using 10(3) by (metis distinct_map plain_value.simps(7))
  then have "distinct (map fst js)" "sorted (map fst js)"
    unfolding fsts[symmetric] by (simp_all add: distinct_map)
  moreover have "(\<forall>c \<in> set k. 0 \<le> c) \<and> plain_json x" if kx: "(k, x) \<in> set js" for k x
  proof -
    have "(k, Inr x) \<in> set (sort_key fst ms)" using kx unfolding sorted by force
    then have "(Some k, Inr x) \<in> set (map (\<lambda>(k, v). (k, normalize v)) kvs)"
      unfolding keys by force
    then obtain v where "(Some k, v) \<in> set kvs" "normalize v = Inr x" by auto
    with 10 show ?thesis by fastforce
  qed
  ultimately show ?case using js(2) by auto
qed (auto split: if_splits)

lemma canonical_bytes_inj:
  assumes "canonical_bytes v = Inr b" "canonical_bytes w = Inr b"
    and "plain_value v" "plain_value w"
  shows "normalize v = normalize w"
proof -
  obtain j k where j: "normalize v = Inr j" "utf8_encode (json_dumps j) = Some b"
    and k: "normalize w = Inr k" "utf8_encode (json_dumps k) = Some b"
    using assms(1,2) by (auto simp: canonical_bytes_def bind_res_Inr)
  have "json_dumps j = json_dumps k"
    using utf8_roundtrip[OF j(2)] utf8_roundtrip[OF k(2)] by simp
  then have "Some j = Some k"
    using json_roundtrip[of _ default_const_hook] normalize_plain[OF j(1) assms(3)]
      normalize_plain[OF k(1) assms(4)] by metis
  then show ?thesis using j k by simp
qed


definition sample_value :: "pystr \<Rightarrow> py_value" where
  "sample_value s = PyDict [(Some (lit ''b''), PyInt 1), (Some (lit ''a''), PyEnum (PyStr s))]"

lemma sample_bytes:
  "canonical_bytes (sample_value (lit ''x'')) = Inr (map of_int ([123, 34, 97, 34, 58, 34, 120, 34]
     @ [44, 34, 98, 34, 58, 49, 125]))"
  by code_simp


lemma string_keys_eq:
  "string_keys kvs = (if None \<in> set (map fst kvs) then None else Some (map (\<lambda>(k, v). (the k, v)) kvs))"
  by (induction kvs rule: string_keys.induct) auto

text \<open>Canonical bytes do not depend on the order in which a dictionary lists its members.\<close>

theorem canonical_dict_order:
  assumes "mset kvs = mset kvs'" "distinct (map fst kvs)"
  shows "canonical_bytes (PyDict kvs) = canonical_bytes (PyDict kvs')"
proof -
  let ?n = "map (\<lambda>(k, v). (k, normalize v))"
  let ?t = "map (\<lambda>(k, v). (the k, v))"
  have s: "set kvs = set kvs'" using assms(1) by (metis mset_eq_setD)
  have m: "mset (?t (?n kvs)) = mset (?t (?n kvs'))" using assms(1) by (simp del: map_map)
  have "sort_key fst (?t (?n kvs)) = sort_key fst (?t (?n kvs'))" if "None \<notin> set (map fst kvs)"
  proof (rule sort_key_inj_key_eq)
    have f: "map fst (?t (?n kvs)) = map (the \<circ> fst) kvs" by (simp add: comp_def case_prod_beta)
    have "map fst kvs = map Some (map (the \<circ> fst) kvs)"
      using that by (auto simp: image_iff intro!: nth_equalityI)
    then have "distinct (map (the \<circ> fst) kvs)"
      using assms(2) distinct_map by metis
    then have "distinct (map fst (?t (?n kvs)))" unfolding f .
    then show "inj_on fst (set (?t (?n kvs)))" unfolding distinct_map by (rule conjunct2)
    show "mset (?t (?n kvs)) = mset (sort_key fst (?t (?n kvs')))" using m by simp
    show "sorted (map fst (sort_key fst (?t (?n kvs'))))" by simp
  qed
  moreover have "None \<in> set (map fst (?n kvs)) \<longleftrightarrow> None \<in> set (map fst (?n kvs'))"
    using s by force
  moreover have "map fst (?n kvs) = map fst kvs" by (simp add: comp_def case_prod_beta)
  ultimately have "normalize (PyDict kvs) = normalize (PyDict kvs')"
    by (auto simp: string_keys_eq)
  then show ?thesis by (simp add: canonical_bytes_def)
qed

theorem canonical_dict_order_witness:
  "canonical_bytes (PyDict [(Some [97], PyInt 1), (Some [98], PyNone)])
     = canonical_bytes (PyDict [(Some [98], PyNone), (Some [97], PyInt 1)])"
  by (rule canonical_dict_order) simp_all

end
