(* ===== verification/Policy.thy ===== *)
theory Policy
  imports Domain Models Actions Patching
begin

text \<open>
  \<^verbatim>\<open>security/policy.py\<close> (facts, decision, rule tables), \<^verbatim>\<open>core/patch_policy.py\<close> (the facts of a
  prepared patch), the safety resolver of \<^verbatim>\<open>adapters/runtime/action_executor.py\<close>, and the
  bindings of \<^verbatim>\<open>security/approvals.py\<close> and \<^verbatim>\<open>security/trust.py\<close>.
\<close>

section \<open>Facts and decisions\<close>

datatype policy_reason =
    ALLOWED | TEST_ASSET_PROTECTION | PROTECTED_CONFIG | PATH_SAFETY | BINARY_UNSUPPORTED
  | SHELL_FORBIDDEN | CAPABILITY_MISSING | DEMO_ESCAPE | PATCH_HARD_LIMIT
  | PATCH_REQUIRES_APPROVAL | SOURCE_DELETE | SENSITIVE_PATH | DEPENDENCY_CONFIG

primrec policy_reason_value :: "policy_reason \<Rightarrow> string" where
  "policy_reason_value ALLOWED = ''allowed''"
| "policy_reason_value TEST_ASSET_PROTECTION = ''test_asset_protection''"
| "policy_reason_value PROTECTED_CONFIG = ''protected_config''"
| "policy_reason_value PATH_SAFETY = ''path_safety''"
| "policy_reason_value BINARY_UNSUPPORTED = ''binary_unsupported''"
| "policy_reason_value SHELL_FORBIDDEN = ''shell_forbidden''"
| "policy_reason_value CAPABILITY_MISSING = ''capability_missing''"
| "policy_reason_value DEMO_ESCAPE = ''demo_escape''"
| "policy_reason_value PATCH_HARD_LIMIT = ''patch_hard_limit''"
| "policy_reason_value PATCH_REQUIRES_APPROVAL = ''patch_requires_approval''"
| "policy_reason_value SOURCE_DELETE = ''source_delete''"
| "policy_reason_value SENSITIVE_PATH = ''sensitive_path''"
| "policy_reason_value DEPENDENCY_CONFIG = ''dependency_config''"

record policy_facts =
  pol_file_count :: int
  pol_changed_lines :: int
  pol_payload_bytes :: int
  pol_touches_test_assets :: bool
  pol_protected_config :: bool
  pol_path_escape :: bool
  pol_symlink :: bool
  pol_binary :: bool
  pol_shell :: bool
  pol_capability_missing :: bool
  pol_demo_escape :: bool
  pol_source_delete :: bool
  pol_sensitive_path :: bool
  pol_dependency_config :: bool

text \<open>\<open>PolicyFacts()\<close>: the defaults, the facts of every action that is no patch.\<close>

definition default_facts :: policy_facts where
  "default_facts =
     \<lparr>pol_file_count = 0, pol_changed_lines = 0, pol_payload_bytes = 0,
      pol_touches_test_assets = False, pol_protected_config = False, pol_path_escape = False,
      pol_symlink = False, pol_binary = False, pol_shell = False, pol_capability_missing = False,
      pol_demo_escape = False, pol_source_delete = False, pol_sensitive_path = False,
      pol_dependency_config = False\<rparr>"

definition check_policy_facts :: "policy_facts \<Rightarrow> policy_facts res" where
  "check_policy_facts f =
     (if 0 \<le> pol_file_count f \<and> 0 \<le> pol_changed_lines f \<and> 0 \<le> pol_payload_bytes f
      then Inr f else Inl ValidationError)"

record policy_decision =
  pd_outcome :: policy_outcome
  pd_reason :: policy_reason

section \<open>The engine\<close>

definition deny_rules :: "policy_facts \<Rightarrow> (bool \<times> policy_reason) list" where
  "deny_rules f =
     [(pol_touches_test_assets f, TEST_ASSET_PROTECTION),
      (pol_protected_config f, PROTECTED_CONFIG),
      (pol_path_escape f \<or> pol_symlink f, PATH_SAFETY),
      (pol_binary f, BINARY_UNSUPPORTED),
      (pol_shell f, SHELL_FORBIDDEN),
      (pol_capability_missing f, CAPABILITY_MISSING),
      (pol_demo_escape f, DEMO_ESCAPE),
      (pol_file_count f > 20 \<or> pol_changed_lines f > 2000 \<or> pol_payload_bytes f > 1048576,
       PATCH_HARD_LIMIT)]"

definition approval_rules :: "policy_facts \<Rightarrow> (bool \<times> policy_reason) list" where
  "approval_rules f =
     [(pol_file_count f > 5 \<or> pol_changed_lines f > 300, PATCH_REQUIRES_APPROVAL),
      (pol_source_delete f, SOURCE_DELETE),
      (pol_sensitive_path f, SENSITIVE_PATH),
      (pol_dependency_config f, DEPENDENCY_CONFIG)]"

fun first_match :: "(bool \<times> policy_reason) list \<Rightarrow> policy_reason option" where
  "first_match [] = None"
| "first_match ((b, r) # rs) = (if b then Some r else first_match rs)"

definition policy_evaluate :: "policy_facts \<Rightarrow> policy_decision" where
  "policy_evaluate f =
     (case first_match (deny_rules f) of
        Some r \<Rightarrow> \<lparr>pd_outcome = DENY, pd_reason = r\<rparr>
      | None \<Rightarrow>
          (case first_match (approval_rules f) of
             Some r \<Rightarrow> \<lparr>pd_outcome = REQUIRE_APPROVAL, pd_reason = r\<rparr>
           | None \<Rightarrow> \<lparr>pd_outcome = ALLOW, pd_reason = ALLOWED\<rparr>))"

section \<open>The facts of a prepared patch\<close>

definition protected_config_names :: "pystr list" where
  "protected_config_names = [lit ''pyproject.toml'', lit ''setup.cfg'', lit ''pytest.ini'',
     lit ''tox.ini'', lit ''.coding-harness.toml'']"

definition dependency_config_names :: "pystr list" where
  "dependency_config_names = [lit ''pyproject.toml'', lit ''setup.cfg'', lit ''requirements.txt'',
     lit ''requirements-dev.txt'', lit ''poetry.lock'', lit ''uv.lock'', lit ''Pipfile'',
     lit ''Pipfile.lock'']"

record patch_safety =
  ps_path_escape :: bool
  ps_symlink :: bool
  ps_binary :: bool
  ps_shell :: bool
  ps_capability_missing :: bool
  ps_demo_escape :: bool

definition source_delete_plan :: "file_plan \<Rightarrow> bool" where
  "source_delete_plan pl \<longleftrightarrow> fp_operation pl = DELETE \<and> ends_with (lit ''.py'') (fp_path pl)
     \<and> \<not> starts_with (lit ''tests/'') (fp_path pl)"

definition dependency_path :: "pystr \<Rightarrow> bool" where
  "dependency_path p \<longleftrightarrow> p \<in> set dependency_config_names \<or> starts_with (lit ''requirements/'') p"

definition policy_facts_from_prepared ::
    "pystr \<Rightarrow> prepared_patch \<Rightarrow> patch_safety \<Rightarrow> policy_facts res" where
  "policy_facts_from_prepared diff pp s =
     bind_res (of_opt UnicodeError (utf8_encode diff)) (\<lambda>encoded.
       let paths = map fp_path (pp_files pp); facts = pp_facts pp
       in check_policy_facts
         \<lparr>pol_file_count = pf_file_count facts,
          pol_changed_lines = pf_added_lines facts + pf_deleted_lines facts,
          pol_payload_bytes = py_len encoded,
          pol_touches_test_assets = pf_touches_test_assets facts,
          pol_protected_config = list_ex (\<lambda>p. p \<in> set protected_config_names) paths,
          pol_path_escape = ps_path_escape s,
          pol_symlink = ps_symlink s,
          pol_binary = ps_binary s,
          pol_shell = ps_shell s,
          pol_capability_missing = ps_capability_missing s,
          pol_demo_escape = ps_demo_escape s,
          pol_source_delete = list_ex source_delete_plan (pp_files pp),
          pol_sensitive_path = pf_touches_sensitive_paths facts,
          pol_dependency_config = list_ex dependency_path paths\<rparr>)"

text \<open>\<open>WorkspacePatchSafetyResolver.resolve\<close>. Where a path lies once links are resolved, and
  whether it is a link, are answers of the file system: arguments.\<close>

datatype run_mode = RealMode | DemoMode

definition binary_plan :: "file_plan \<Rightarrow> bool" where
  "binary_plan pl \<longleftrightarrow>
     list_ex (\<lambda>v. case v of None \<Rightarrow> False | Some b \<Rightarrow> 0 \<in> set (take 8192 b)) [fp_pre pl, fp_post pl]"

definition resolve_patch_safety ::
    "(pystr \<Rightarrow> bool) \<Rightarrow> (pystr \<Rightarrow> bool) \<Rightarrow> run_mode \<Rightarrow> prepared_patch \<Rightarrow> patch_safety" where
  "resolve_patch_safety escapes is_link mode pp =
     \<lparr>ps_path_escape = list_ex (\<lambda>pl. escapes (fp_path pl)) (pp_files pp),
      ps_symlink = list_ex (\<lambda>pl. is_link (fp_path pl)) (pp_files pp),
      ps_binary = list_ex binary_plan (pp_files pp),
      ps_shell = False,
      ps_capability_missing = (mode \<noteq> RealMode),
      ps_demo_escape = (mode = DemoMode)\<rparr>"

section \<open>Approvals and trust\<close>

record approval_binding =
  ab_task_id :: task_id
  ab_action_sha256 :: pystr
  ab_diff_sha256 :: pystr
  ab_target_paths :: "pystr list"
  ab_pre_image_hashes :: "pystr list"
  ab_config_sha256 :: pystr
  ab_capability_sha256 :: pystr
  ab_risk_sha256 :: pystr
  ab_base_commit :: pystr
  ab_status :: approval_status

definition check_approval_binding :: "approval_binding \<Rightarrow> approval_binding res" where
  "check_approval_binding b =
     (if is_uuid4 (tid_value (ab_task_id b)) \<and> hash_pattern (ab_action_sha256 b)
         \<and> hash_pattern (ab_diff_sha256 b) \<and> hash_pattern (ab_config_sha256 b)
         \<and> hash_pattern (ab_capability_sha256 b) \<and> hash_pattern (ab_risk_sha256 b)
         \<and> commit_pattern (ab_base_commit b)
      then Inr b else Inl ValidationError)"

definition verify_approval_binding :: "approval_binding \<Rightarrow> approval_binding \<Rightarrow> bool" where
  "verify_approval_binding expected actual \<longleftrightarrow> expected = actual \<and> ab_status actual = APR_APPROVED"

definition can_execute_approval :: "approval_binding \<Rightarrow> bool \<Rightarrow> bool" where
  "can_execute_approval b resume_requested \<longleftrightarrow> resume_requested \<and> ab_status b = APR_APPROVED"

record trust_binding =
  tb_repository_identity :: pystr
  tb_base_commit :: pystr
  tb_command_hash :: pystr
  tb_config_hash :: pystr
  tb_capability_hash :: pystr
  tb_provider :: pystr
  tb_threat_notice_version :: pystr
  tb_data_categories :: "pystr list"
  tb_mode :: pystr

definition verify_trust_binding :: "trust_binding \<Rightarrow> trust_binding \<Rightarrow> bool" where
  "verify_trust_binding expected actual \<longleftrightarrow> expected = actual"

section \<open>What the engine decides\<close>

definition denied :: "policy_facts \<Rightarrow> bool" where
  "denied f \<longleftrightarrow> pol_touches_test_assets f \<or> pol_protected_config f \<or> pol_path_escape f
     \<or> pol_symlink f \<or> pol_binary f \<or> pol_shell f \<or> pol_capability_missing f \<or> pol_demo_escape f
     \<or> pol_file_count f > 20 \<or> pol_changed_lines f > 2000 \<or> pol_payload_bytes f > 1048576"

definition needs_approval :: "policy_facts \<Rightarrow> bool" where
  "needs_approval f \<longleftrightarrow> pol_file_count f > 5 \<or> pol_changed_lines f > 300 \<or> pol_source_delete f
     \<or> pol_sensitive_path f \<or> pol_dependency_config f"

lemma first_match_None: "first_match rs = None \<longleftrightarrow> (\<forall>(b, r) \<in> set rs. \<not> b)"
  by (induction rs rule: first_match.induct) auto

lemma policy_outcome:
  "pd_outcome (policy_evaluate f) =
     (if denied f then DENY else if needs_approval f then REQUIRE_APPROVAL else ALLOW)"
proof -
  have d: "first_match (deny_rules f) = None \<longleftrightarrow> \<not> denied f"
    by (auto simp: first_match_None deny_rules_def denied_def)
  have a: "first_match (approval_rules f) = None \<longleftrightarrow> \<not> needs_approval f"
    by (auto simp: first_match_None approval_rules_def needs_approval_def)
  show ?thesis
    using d a by (auto simp: policy_evaluate_def split: option.splits)
qed

text \<open>The default facts are allowed: the policy says nothing against an action that is no patch.\<close>

lemma default_facts_allowed: "policy_evaluate default_facts = \<lparr>pd_outcome = ALLOW, pd_reason = ALLOWED\<rparr>"
  by code_simp

lemma policy_facts_from_prepared_Inr:
  assumes "policy_facts_from_prepared diff pp s = Inr f"
  shows "pol_file_count f = pf_file_count (pp_facts pp)"
    and "pol_changed_lines f = pf_added_lines (pp_facts pp) + pf_deleted_lines (pp_facts pp)"
    and "pol_touches_test_assets f = pf_touches_test_assets (pp_facts pp)"
    and "pol_sensitive_path f = pf_touches_sensitive_paths (pp_facts pp)"
    and "pol_path_escape f = ps_path_escape s" and "pol_symlink f = ps_symlink s"
    and "pol_binary f = ps_binary s" and "pol_capability_missing f = ps_capability_missing s"
    and "pol_protected_config f \<longleftrightarrow> (\<exists>pl \<in> set (pp_files pp). fp_path pl \<in> set protected_config_names)"
    and "pol_source_delete f \<longleftrightarrow> (\<exists>pl \<in> set (pp_files pp). source_delete_plan pl)"
    and "pol_dependency_config f \<longleftrightarrow> (\<exists>pl \<in> set (pp_files pp). dependency_path (fp_path pl))"
    and "\<exists>b. utf8_encode diff = Some b \<and> pol_payload_bytes f = py_len b"
  using assms
  by (auto simp: policy_facts_from_prepared_def bind_res_Inr Let_def check_policy_facts_def
      list_ex_iff split: if_splits)


text \<open>The rules are ordered: any deny rule that matches wins over every approval rule, and the
  reason reported is the first rule of its table that matches.\<close>

theorem policy_precedence:
  "policy_evaluate f =
     (if denied f then \<lparr>pd_outcome = DENY, pd_reason = the (first_match (deny_rules f))\<rparr>
      else if needs_approval f
      then \<lparr>pd_outcome = REQUIRE_APPROVAL, pd_reason = the (first_match (approval_rules f))\<rparr>
      else \<lparr>pd_outcome = ALLOW, pd_reason = ALLOWED\<rparr>)"
proof -
  have d: "first_match (deny_rules f) = None \<longleftrightarrow> \<not> denied f"
    by (auto simp: first_match_None deny_rules_def denied_def)
  have a: "first_match (approval_rules f) = None \<longleftrightarrow> \<not> needs_approval f"
    by (auto simp: first_match_None approval_rules_def needs_approval_def)
  show ?thesis using d a by (auto simp: policy_evaluate_def split: option.splits)
qed

text \<open>A root-level test module is no test asset: a patch of \<open>test_calculator.py\<close> in the root
  directory, which \<open>tests/test_calculator.py\<close> would be denied for, is allowed.\<close>

definition root_test_diff :: "pystr \<Rightarrow> pystr" where
  "root_test_diff p = concat (map (\<lambda>l. l @ [10])
     [lit ''--- a/'' @ p, lit ''+++ b/'' @ p, lit ''@@ -1 +1 @@'', lit ''-assert f() == 1'',
      lit ''+assert True''])"

definition patch_outcome :: "pystr \<Rightarrow> pystr \<Rightarrow> bytes \<Rightarrow> policy_outcome option" where
  "patch_outcome p diff content =
     (case prepare_patch (\<lambda>b. []) diff (\<lambda>q. if q = p then Some content else None) of
        Inl e \<Rightarrow> None
      | Inr pp \<Rightarrow>
          (case policy_facts_from_prepared diff pp
              (resolve_patch_safety (\<lambda>_. False) (\<lambda>_. False) RealMode pp) of
             Inl e \<Rightarrow> None | Inr f \<Rightarrow> Some (pd_outcome (policy_evaluate f))))"

theorem root_test_unprotected:
  "patch_outcome (lit ''test_calculator.py'') (root_test_diff (lit ''test_calculator.py''))
      (map of_int (lit ''assert f() == 1'') @ [10]) = Some ALLOW
   \<and> patch_outcome (lit ''tests/test_calculator.py'')
      (root_test_diff (lit ''tests/test_calculator.py''))
      (map of_int (lit ''assert f() == 1'') @ [10]) = Some DENY"
  by code_simp

definition sample_facts :: policy_facts where
  "sample_facts = default_facts\<lparr>pol_file_count := 1, pol_changed_lines := 2, pol_payload_bytes := 54\<rparr>"


end
