(* ===== verification/Feedback.thy ===== *)
theory Feedback
  imports Canonical
begin

text \<open>
  \<^verbatim>\<open>feedback/\<close>: the parsed result of a test run (\<^verbatim>\<open>pytest_parser.py\<close>), its state fingerprint
  (\<^verbatim>\<open>fingerprint.py\<close>) and the engine that compares a result with the previous one and with the
  history (\<^verbatim>\<open>engine.py\<close>). The main theorem says that on results whose fingerprints do not collide
  the engine classifies by comparing states, sets of failing tests and source revisions.
\<close>

section \<open>Parsed results\<close>

datatype parsed_outcome = PO_PASSED | PO_FAILED | PO_COLLECTION_ERROR | PO_ENVIRONMENT_ERROR | PO_UNPARSEABLE

primrec parsed_outcome_value :: "parsed_outcome \<Rightarrow> string" where
  "parsed_outcome_value PO_PASSED = ''passed''"
| "parsed_outcome_value PO_FAILED = ''failed''"
| "parsed_outcome_value PO_COLLECTION_ERROR = ''collection_error''"
| "parsed_outcome_value PO_ENVIRONMENT_ERROR = ''environment_error''"
| "parsed_outcome_value PO_UNPARSEABLE = ''unparseable''"

record parsed_result =
  pr_run_id :: uuid
  pr_phase :: test_phase
  pr_outcome :: parsed_outcome
  pr_node_ids :: "pystr list"
  pr_exception_type :: "pystr option"
  pr_summary :: pystr
  pr_frames :: "pystr list"
  pr_truncated :: bool
  pr_revision :: pystr

definition safe_summary :: "pystr \<Rightarrow> pystr res" where
  "safe_summary v =
     bind_res (of_opt UnicodeError (utf8_encode v)) (\<lambda>encoded.
       if v = [] \<or> v \<noteq> strip v \<or> has_any [13, 10] v \<or> py_len encoded > 8192
       then Inl (ValueError ''summary is not bounded safe text'') else Inr v)"

definition check_parsed_result :: "parsed_result \<Rightarrow> parsed_result res" where
  "check_parsed_result r = (if ok (safe_summary (pr_summary r)) then Inr r else Inl ValidationError)"

section \<open>Fingerprints\<close>

definition py_strings :: "pystr list \<Rightarrow> py_value" where
  "py_strings ss = PySeq (map PyStr ss)"

definition fingerprint_value :: "parsed_result \<Rightarrow> py_value" where
  "fingerprint_value r = PyDict
     [(Some (lit ''phase''), PyEnum (PyStr (lit (test_phase_value (pr_phase r))))),
      (Some (lit ''outcome''), PyEnum (PyStr (lit (parsed_outcome_value (pr_outcome r))))),
      (Some (lit ''node_ids''), py_strings (sort (pr_node_ids r))),
      (Some (lit ''exception_type''),
         case pr_exception_type r of None \<Rightarrow> PyNone | Some e \<Rightarrow> PyStr e),
      (Some (lit ''summary''), PyStr (pr_summary r)),
      (Some (lit ''in_project_frames''), py_strings (sort (pr_frames r)))]"

definition state_fingerprint :: "(bytes \<Rightarrow> pystr) \<Rightarrow> parsed_result \<Rightarrow> pystr res" where
  "state_fingerprint sha r = canonical_sha256 sha (fingerprint_value r)"

section \<open>The engine\<close>

text \<open>The first candidate of the history with the current fingerprint.\<close>

fun find_loop :: "(bytes \<Rightarrow> pystr) \<Rightarrow> pystr \<Rightarrow> parsed_result list \<Rightarrow> parsed_result option res" where
  "find_loop sha fp [] = Inr None"
| "find_loop sha fp (c # cs) =
     bind_res (state_fingerprint sha c) (\<lambda>h. if h = fp then Inr (Some c) else find_loop sha fp cs)"

definition compare_kind ::
    "(bytes \<Rightarrow> pystr) \<Rightarrow> pystr \<Rightarrow> parsed_result \<Rightarrow> parsed_result \<Rightarrow> feedback_kind res" where
  "compare_kind sha fp previous current =
     (let previous_nodes = set (pr_node_ids previous); current_nodes = set (pr_node_ids current)
      in if pr_outcome previous = PO_COLLECTION_ERROR \<and> pr_outcome current \<noteq> PO_COLLECTION_ERROR
         then Inr FB_PROGRESS
         else if current_nodes \<subset> previous_nodes then Inr FB_PROGRESS
         else if current_nodes - previous_nodes \<noteq> {} then Inr FB_REGRESSION
         else bind_res (state_fingerprint sha previous) (\<lambda>h.
           if h = fp \<and> pr_revision current = pr_revision previous then Inr FB_NO_PROGRESS
           else Inr FB_CHANGED))"

definition analyze ::
    "(bytes \<Rightarrow> pystr) \<Rightarrow> parsed_result option \<Rightarrow> parsed_result \<Rightarrow> parsed_result list
       \<Rightarrow> feedback_decision res" where
  "analyze sha previous current history =
     bind_res (state_fingerprint sha current) (\<lambda>fp.
       let decision = (\<lambda>kind prev matched state. check_feedback_decision
             \<lparr>fd_kind = kind, fd_current_run_id = pr_run_id current, fd_previous_run_id = prev,
              fd_matched_run_id = matched, fd_fingerprint = state,
              fd_summary = pr_summary current\<rparr>)
       in case pr_outcome current of
            PO_ENVIRONMENT_ERROR \<Rightarrow> decision FB_ENVIRONMENT_ERROR None None None
          | PO_UNPARSEABLE \<Rightarrow> decision FB_UNPARSEABLE None None None
          | PO_PASSED \<Rightarrow> decision FB_PASSED (map_option pr_run_id previous) None (Some fp)
          | _ \<Rightarrow>
              (case previous of
                 None \<Rightarrow> Inl (ValueError ''comparison feedback requires a previous result'')
               | Some p \<Rightarrow>
                   bind_res (find_loop sha fp (butlast history)) (\<lambda>found. case found of
                     Some c \<Rightarrow> decision FB_LOOP (Some (pr_run_id p)) (Some (pr_run_id c)) (Some fp)
                   | None \<Rightarrow> bind_res (compare_kind sha fp p current) (\<lambda>kind.
                       decision kind (Some (pr_run_id p)) None (Some fp)))))"

section \<open>Fingerprints compare states\<close>

text \<open>What a fingerprint is taken of: the failing tests and the frames in any order.\<close>

type_synonym result_state =
  "test_phase \<times> parsed_outcome \<times> pystr list \<times> pystr option \<times> pystr \<times> pystr list"

definition result_state :: "parsed_result \<Rightarrow> result_state" where
  "result_state r = (pr_phase r, pr_outcome r, sort (pr_node_ids r), pr_exception_type r,
     pr_summary r, sort (pr_frames r))"

definition valid_text :: "pystr \<Rightarrow> bool" where
  "valid_text s \<longleftrightarrow> (\<forall>c \<in> set s. 0 \<le> c)"

definition texts_ok :: "parsed_result \<Rightarrow> bool" where
  "texts_ok r \<longleftrightarrow> list_all valid_text (pr_node_ids r) \<and> valid_text (pr_summary r)
     \<and> list_all valid_text (pr_frames r)
     \<and> (case pr_exception_type r of None \<Rightarrow> True | Some e \<Rightarrow> valid_text e)"

lemma test_phase_value_eq: "test_phase_value p = test_phase_value q \<longleftrightarrow> p = q"
  by (cases p; cases q) simp_all

lemma parsed_outcome_value_eq: "parsed_outcome_value p = parsed_outcome_value q \<longleftrightarrow> p = q"
  by (cases p; cases q) simp_all

lemma seq_values_strs: "seq_values (map normalize (map PyStr ss)) = Inr (map JStr ss)"
  by (induction ss) auto

lemma json_strings_eq: "map JStr xs = map JStr ys \<longleftrightarrow> xs = ys"
  by (metis json.inject(4) list.inj_map_strong)

lemma fingerprint_normalize:
  "normalize (fingerprint_value r) = Inr (JObj
     [(lit ''exception_type'', case pr_exception_type r of None \<Rightarrow> JNull | Some e \<Rightarrow> JStr e),
      (lit ''in_project_frames'', JArr (map JStr (sort (pr_frames r)))),
      (lit ''node_ids'', JArr (map JStr (sort (pr_node_ids r)))),
      (lit ''outcome'', JStr (lit (parsed_outcome_value (pr_outcome r)))),
      (lit ''phase'', JStr (lit (test_phase_value (pr_phase r)))),
      (lit ''summary'', JStr (pr_summary r))])"
  by (cases "pr_exception_type r")
    (simp_all add: fingerprint_value_def py_strings_def seq_values_strs str_simps del: map_map)

lemma lit_chars: "\<forall>c \<in> set (lit s). 0 \<le> c"
proof -
  have "0 \<le> (of_char c :: int)" for c by (metis of_nat_of_char of_nat_0_le_iff)
  then show ?thesis by (auto simp: lit_def)
qed

lemma fingerprint_plain:
  assumes "texts_ok r"
  shows "plain_value (fingerprint_value r)"
proof -
  have "distinct [Some (lit ''phase''), Some (lit ''outcome''), Some (lit ''node_ids''),
      Some (lit ''exception_type''), Some (lit ''summary''), Some (lit ''in_project_frames'')]"
    by simp
  moreover have "\<forall>s \<in> set (sort (pr_node_ids r)). \<forall>c \<in> set s. 0 \<le> c"
    "\<forall>s \<in> set (sort (pr_frames r)). \<forall>c \<in> set s. 0 \<le> c" "\<forall>c \<in> set (pr_summary r). 0 \<le> c"
    using assms by (auto simp: texts_ok_def valid_text_def list_all_iff)
  moreover have "plain_value (case pr_exception_type r of None \<Rightarrow> PyNone | Some e \<Rightarrow> PyStr e)"
    using assms by (auto simp: texts_ok_def valid_text_def split: option.splits)
  ultimately show ?thesis
    by (simp add: fingerprint_value_def py_strings_def lit_chars)
qed

definition state_bytes :: "parsed_result \<Rightarrow> bytes option" where
  "state_bytes r = (case canonical_bytes (fingerprint_value r) of Inl _ \<Rightarrow> None | Inr b \<Rightarrow> Some b)"

text \<open>On results that \<open>sha\<close> does not confuse, equal fingerprints are equal states.\<close>

definition no_collision :: "(bytes \<Rightarrow> pystr) \<Rightarrow> parsed_result set \<Rightarrow> bool" where
  "no_collision sha rs \<longleftrightarrow> (\<forall>r \<in> rs. \<forall>q \<in> rs. texts_ok r \<and> state_bytes r \<noteq> None \<and>
     (sha (the (state_bytes r)) = sha (the (state_bytes q)) \<longrightarrow> state_bytes r = state_bytes q))"

lemma fingerprint_total:
  "no_collision sha rs \<Longrightarrow> r \<in> rs \<Longrightarrow> state_fingerprint sha r = Inr (sha (the (state_bytes r)))"
  by (auto simp: no_collision_def state_fingerprint_def canonical_sha256_def state_bytes_def
      split: sum.splits)

lemma state_bytes_eq:
  assumes "texts_ok r" "texts_ok q" "state_bytes r = Some b"
  shows "state_bytes q = Some b \<longleftrightarrow> result_state r = result_state q"
proof -
  have b: "canonical_bytes (fingerprint_value r) = Inr b"
    using assms(3) by (simp add: state_bytes_def split: sum.splits)
  have "state_bytes q = Some b \<longleftrightarrow> canonical_bytes (fingerprint_value q) = Inr b"
    by (simp add: state_bytes_def split: sum.splits)
  also have "\<dots> \<longleftrightarrow> normalize (fingerprint_value r) = normalize (fingerprint_value q)"
  proof
    assume "canonical_bytes (fingerprint_value q) = Inr b"
    then show "normalize (fingerprint_value r) = normalize (fingerprint_value q)"
      using canonical_bytes_inj[OF b] fingerprint_plain assms(1,2) by blast
  next
    assume "normalize (fingerprint_value r) = normalize (fingerprint_value q)"
    then show "canonical_bytes (fingerprint_value q) = Inr b" using b by (simp add: canonical_bytes_def)
  qed
  also have "\<dots> \<longleftrightarrow> result_state r = result_state q"
    unfolding fingerprint_normalize
    by (auto simp: result_state_def json_strings_eq test_phase_value_eq parsed_outcome_value_eq
        split: option.splits)
  finally show ?thesis .
qed

lemma fingerprint_eq:
  assumes "no_collision sha rs" "r \<in> rs" "q \<in> rs"
  shows "sha (the (state_bytes r)) = sha (the (state_bytes q)) \<longleftrightarrow> result_state r = result_state q"
proof -
  obtain b c where b: "state_bytes r = Some b" "state_bytes q = Some c"
    and t: "texts_ok r" "texts_ok q"
    using assms unfolding no_collision_def by blast
  have "sha (the (state_bytes r)) = sha (the (state_bytes q)) \<longleftrightarrow> state_bytes r = state_bytes q"
    using assms unfolding no_collision_def by auto
  also have "\<dots> \<longleftrightarrow> result_state r = result_state q"
    using state_bytes_eq[OF t b(1)] b by auto
  finally show ?thesis .
qed

lemma find_loop_spec:
  assumes "no_collision sha rs" "r \<in> rs" "set cs \<subseteq> rs"
  shows "find_loop sha (sha (the (state_bytes r))) cs
    = Inr (find (\<lambda>c. result_state c = result_state r) cs)"
  using assms(3)
proof (induction cs)
  case (Cons c cs)
  then have c: "c \<in> rs" by simp
  with Cons show ?case
    using fingerprint_total[OF assms(1) c] fingerprint_eq[OF assms(1) c assms(2)] by simp
qed simp

section \<open>The classification\<close>

text \<open>The specification: how a failing result compares with the previous one and with the results
  before it.\<close>

definition classify :: "parsed_result \<Rightarrow> parsed_result \<Rightarrow> parsed_result list \<Rightarrow> feedback_kind" where
  "classify p c earlier =
     (if \<exists>e \<in> set earlier. result_state e = result_state c then FB_LOOP
      else if pr_outcome p = PO_COLLECTION_ERROR \<and> pr_outcome c = PO_FAILED then FB_PROGRESS
      else if set (pr_node_ids c) \<subset> set (pr_node_ids p) then FB_PROGRESS
      else if \<not> set (pr_node_ids c) \<subseteq> set (pr_node_ids p) then FB_REGRESSION
      else if result_state p = result_state c \<and> pr_revision c = pr_revision p then FB_NO_PROGRESS
      else FB_CHANGED)"

lemma compare_kind_spec:
  assumes "no_collision sha rs" "p \<in> rs" "c \<in> rs"
    and "pr_outcome c \<in> {PO_FAILED, PO_COLLECTION_ERROR}"
    and "\<not> (\<exists>e \<in> set earlier. result_state e = result_state c)"
  shows "compare_kind sha (sha (the (state_bytes c))) p c = Inr (classify p c earlier)"
  using assms fingerprint_total[OF assms(1,2)] fingerprint_eq[OF assms(1,2,3)]
  by (auto simp: compare_kind_def classify_def Let_def)


definition sample_result :: "uuid \<Rightarrow> pystr list \<Rightarrow> parsed_result" where
  "sample_result run nodes =
     \<lparr>pr_run_id = run, pr_phase = POST_PATCH, pr_outcome = PO_FAILED, pr_node_ids = nodes,
      pr_exception_type = None, pr_summary = lit ''assert 1 == 2'', pr_frames = [],
      pr_truncated = False, pr_revision = lit ''r''\<rparr>"

definition uuid_b :: uuid where
  "uuid_b = UUID 0x123e4567e89b42d3a456426614174001"

definition byte_sha :: "bytes \<Rightarrow> pystr" where
  "byte_sha b = (let n = length b mod 64 in replicate n 97 @ replicate (64 - n) 98)"

lemma sample_no_collision:
  "no_collision byte_sha
     ({sample_result sample_uuid [], sample_result uuid_b [[120]]} \<union> set [sample_result sample_uuid []])"
  unfolding no_collision_def by code_simp

lemma sample_analysis:
  "analyze byte_sha (Some (sample_result sample_uuid [])) (sample_result uuid_b [[120]])
     [sample_result sample_uuid []] = Inr
     \<lparr>fd_kind = FB_REGRESSION, fd_current_run_id = uuid_b, fd_previous_run_id = Some sample_uuid,
      fd_matched_run_id = None,
      fd_fingerprint = Some (byte_sha (the (state_bytes (sample_result uuid_b [[120]])))),
      fd_summary = lit ''assert 1 == 2''\<rparr>"
  by code_simp


text \<open>The engine always decides: for results with version 4 run ids, a summary that is one
  safe line and hashes of 64 hexadecimal digits, analysing a current result against another
  previous run (needed only when the current one failed) and a history of other runs returns a
  decision.\<close>

theorem analyze_total:
  assumes nc: "no_collision sha (set_option previous \<union> {c} \<union> set history)"
    and hex: "\<And>b. py_len (sha b) = 64 \<and> list_all lower_hex (sha b)"
    and ids: "is_uuid4 (pr_run_id c)" "\<And>r. r \<in> set_option previous \<union> set history \<Longrightarrow>
      is_uuid4 (pr_run_id r) \<and> pr_run_id r \<noteq> pr_run_id c"
    and safe: "ok (validate_safe_single_line (pr_summary c))"
    and prev: "pr_outcome c \<in> {PO_FAILED, PO_COLLECTION_ERROR} \<Longrightarrow> previous \<noteq> None"
  shows "\<exists>d. analyze sha previous c history = Inr d"
proof -
  let ?rs = "set_option previous \<union> {c} \<union> set history"
  let ?fp = "sha (the (state_bytes c))"
  have fp: "state_fingerprint sha c = Inr ?fp"
    using fingerprint_total[OF nc] by simp
  have loop: "find_loop sha ?fp (butlast history)
      = Inr (find (\<lambda>e. result_state e = result_state c) (butlast history))"
    by (rule find_loop_spec[OF nc]) (auto dest: in_set_butlastD)
  have hist: "is_uuid4 (pr_run_id e) \<and> pr_run_id e \<noteq> pr_run_id c"
    if "find (\<lambda>e. result_state e = result_state c) (butlast history) = Some e" for e
  proof -
    have "e \<in> set (butlast history)" using that by (auto simp: find_Some_iff)
    then show ?thesis using ids(2) in_set_butlastD by fastforce
  qed
  show ?thesis
  proof (cases "pr_outcome c \<in> {PO_FAILED, PO_COLLECTION_ERROR}")
    case False
    then show ?thesis
      using fp ids hex safe
      by (cases "pr_outcome c"; cases previous)
        (auto simp: analyze_def Let_def check_feedback_decision_def decision_fields_ok_def
          decision_matrix_def uuid4_option_def)
  next
    case True
    then obtain p where p: "previous = Some p" using prev by auto
    have pid: "is_uuid4 (pr_run_id p) \<and> pr_run_id p \<noteq> pr_run_id c" using ids(2) p by simp
    show ?thesis
    proof (cases "find (\<lambda>e. result_state e = result_state c) (butlast history)")
      case (Some e)
      with hist[OF this] pid fp loop ids hex safe p True show ?thesis
        by (auto simp: analyze_def Let_def check_feedback_decision_def decision_fields_ok_def
            decision_matrix_def uuid4_option_def)
    next
      case None
      then have no: "\<not> (\<exists>e \<in> set (butlast history). result_state e = result_state c)"
        by (auto simp: find_None_iff)
      have k: "compare_kind sha ?fp p c = Inr (classify p c (butlast history))"
        by (rule compare_kind_spec[OF nc _ _ True no]) (use p in auto)
      have "classify p c (butlast history) \<in> {FB_PROGRESS, FB_REGRESSION, FB_NO_PROGRESS, FB_CHANGED}"
        using no by (auto simp: classify_def)
      with k None pid fp loop ids hex safe p True show ?thesis
        by (auto simp: analyze_def Let_def check_feedback_decision_def decision_fields_ok_def
            decision_matrix_def uuid4_option_def)
    qed
  qed
qed

theorem analyze_total_witness:
  "\<exists>d. analyze byte_sha (Some (sample_result sample_uuid [])) (sample_result uuid_b [[120]])
     [sample_result sample_uuid []] = Inr d"
proof (rule analyze_total)
  show "no_collision byte_sha (set_option (Some (sample_result sample_uuid []))
      \<union> {sample_result uuid_b [[120]]} \<union> set [sample_result sample_uuid []])"
    using sample_no_collision by (simp add: insert_commute)
  show "py_len (byte_sha b) = 64 \<and> list_all lower_hex (byte_sha b)" for b
  proof -
    have "length b mod 64 < 64" by simp
    then show ?thesis by (simp add: byte_sha_def Let_def py_len_def list_all_iff lower_hex_def)
  qed
  show "is_uuid4 (pr_run_id (sample_result uuid_b [[120]]))" by code_simp
  show "is_uuid4 (pr_run_id r) \<and> pr_run_id r \<noteq> pr_run_id (sample_result uuid_b [[120]])"
    if "r \<in> set_option (Some (sample_result sample_uuid [])) \<union> set [sample_result sample_uuid []]" for r
  proof -
    have "is_uuid4 sample_uuid \<and> sample_uuid \<noteq> uuid_b" by code_simp
    then show ?thesis using that by (auto simp: sample_result_def)
  qed
  show "ok (validate_safe_single_line (pr_summary (sample_result uuid_b [[120]])))" by code_simp
qed simp

text \<open>A summary that \<open>ParsedTestResult\<close> accepts can make the engine raise: with a control
  character other than a line break inside, the result is valid but its decision is not.\<close>

definition control_result :: parsed_result where
  "control_result = (sample_result sample_uuid [])\<lparr>pr_outcome := PO_PASSED, pr_summary := [97, 7, 98]\<rparr>"

theorem control_summary_raises:
  "check_parsed_result control_result = Inr control_result
   \<and> analyze byte_sha None control_result [] = Inl ValidationError"
  by code_simp

end
