(* ===== verification/Context.thy ===== *)
theory Context
  imports Canonical
begin

text \<open>
  \<^verbatim>\<open>core/context.py\<close> and \<^verbatim>\<open>core/budget.py\<close>: the prompt built from a session. The redaction of
  one text (\<open>_safe\<close>) and SHA-256 are the arguments \<open>safe\<close> and \<open>sha\<close>.
\<close>

section \<open>Budgets\<close>

record budget =
  bd_action_count :: int
  bd_feedback_count :: int
  bd_max_actions :: int
  bd_max_feedback :: int

definition can_call_llm :: "budget \<Rightarrow> bool" where
  "can_call_llm b \<longleftrightarrow> bd_action_count b < bd_max_actions b \<and> bd_feedback_count b < bd_max_feedback b"

definition consume_action :: "budget \<Rightarrow> budget" where
  "consume_action b = b\<lparr>bd_action_count := bd_action_count b + 1\<rparr>"

definition consume_feedback :: "budget \<Rightarrow> budget" where
  "consume_feedback b = b\<lparr>bd_feedback_count := bd_feedback_count b + 1\<rparr>"

section \<open>Snapshots and prompts\<close>

record history_entry =
  he_action_type :: pystr
  he_safe_result :: pystr

definition check_history_entry :: "history_entry \<Rightarrow> history_entry res" where
  "check_history_entry h = (if py_len (he_safe_result h) \<le> 8192 then Inr h else Inl ValidationError)"

record context_snapshot =
  sn_user_task :: pystr
  sn_config_summary :: pystr
  sn_action_schema :: "pystr list"
  sn_workspace_summary :: pystr
  sn_history :: "history_entry list"
  sn_feedback_summary :: "pystr option"
  sn_remaining_actions :: int
  sn_remaining_feedback :: int

definition check_snapshot :: "context_snapshot \<Rightarrow> context_snapshot res" where
  "check_snapshot s =
     (if 0 \<le> sn_remaining_actions s \<and> 0 \<le> sn_remaining_feedback s then Inr s
      else Inl ValidationError)"

record prompt_context =
  pc_user_task :: pystr
  pc_config_summary :: pystr
  pc_action_schema :: "pystr list"
  pc_workspace_summary :: pystr
  pc_history :: "history_entry list"
  pc_feedback_summary :: "pystr option"
  pc_remaining_actions :: int
  pc_remaining_feedback :: int
  pc_sha256 :: pystr

definition py_entry :: "history_entry \<Rightarrow> py_value" where
  "py_entry h = PyDict [(Some (lit ''action_type''), PyStr (he_action_type h)),
                        (Some (lit ''safe_result''), PyStr (he_safe_result h))]"

text \<open>The dictionary \<open>values\<close> of \<open>build\<close>, of which the context's hash is taken.\<close>

definition context_values :: "prompt_context \<Rightarrow> py_value" where
  "context_values c = PyDict
     [(Some (lit ''user_task''), PyStr (pc_user_task c)),
      (Some (lit ''config_summary''), PyStr (pc_config_summary c)),
      (Some (lit ''action_schema''), PySeq (map PyStr (pc_action_schema c))),
      (Some (lit ''workspace_summary''), PyStr (pc_workspace_summary c)),
      (Some (lit ''history''), PySeq (map py_entry (pc_history c))),
      (Some (lit ''feedback_summary''),
         case pc_feedback_summary c of None \<Rightarrow> PyNone | Some f \<Rightarrow> PyStr f),
      (Some (lit ''remaining_actions''), PyInt (pc_remaining_actions c)),
      (Some (lit ''remaining_feedback''), PyInt (pc_remaining_feedback c))]"

definition safe_entry :: "(pystr \<Rightarrow> pystr) \<Rightarrow> history_entry \<Rightarrow> history_entry res" where
  "safe_entry safe h = check_history_entry (h\<lparr>he_safe_result := safe (he_safe_result h)\<rparr>)"

definition last_entries :: "int \<Rightarrow> 'a list \<Rightarrow> 'a list" where
  "last_entries n xs = drop (length xs - nat n) xs"

definition check_max_history :: "int \<Rightarrow> int res" where
  "check_max_history n =
     (if 1 \<le> n \<and> n \<le> 10 then Inr n else Inl (ValueError ''history limit is invalid''))"

definition build_context ::
    "(pystr \<Rightarrow> pystr) \<Rightarrow> (bytes \<Rightarrow> pystr) \<Rightarrow> int \<Rightarrow> context_snapshot \<Rightarrow> prompt_context res" where
  "build_context safe sha max_history s =
     bind_res (map_res (safe_entry safe) (last_entries max_history (sn_history s))) (\<lambda>history.
       let c = \<lparr>pc_user_task = safe (sn_user_task s),
                pc_config_summary = safe (sn_config_summary s),
                pc_action_schema = sn_action_schema s,
                pc_workspace_summary = safe (sn_workspace_summary s),
                pc_history = history,
                pc_feedback_summary =
                  (case sn_feedback_summary s of None \<Rightarrow> None
                   | Some f \<Rightarrow> if f = [] then None else Some (safe f)),
                pc_remaining_actions = sn_remaining_actions s,
                pc_remaining_feedback = sn_remaining_feedback s,
                pc_sha256 = []\<rparr>
       in bind_res (canonical_sha256 sha (context_values c)) (\<lambda>h.
            if hash_pattern h then Inr (c\<lparr>pc_sha256 := h\<rparr>) else Inl ValidationError))"

section \<open>What a built context holds\<close>

lemma context_values_sha [simp]: "context_values (c\<lparr>pc_sha256 := h\<rparr>) = context_values c"
  by (simp add: context_values_def)

lemma last_entries_suffix: "\<exists>older. xs = older @ last_entries n xs"
  unfolding last_entries_def by (metis append_take_drop_id)

lemma last_entries_length: "0 \<le> n \<Longrightarrow> py_len (last_entries n xs) = min n (py_len xs)"
  by (simp add: last_entries_def py_len_def)

lemma safe_entry_Inr: "safe_entry safe h = Inr h' \<Longrightarrow>
    he_action_type h' = he_action_type h \<and> he_safe_result h' = safe (he_safe_result h)
    \<and> py_len (he_safe_result h') \<le> 8192"
  by (auto simp: safe_entry_def check_history_entry_def split: if_splits)

lemma map_res_map: "map_res f xs = Inr ys \<Longrightarrow> (\<And>x y. f x = Inr y \<Longrightarrow> g y = h x) \<Longrightarrow> map g ys = map h xs"
  by (induction xs arbitrary: ys) (auto simp: bind_res_Inr)

text \<open>C39. A built context holds only redacted text: its history is the redacted last entries of the
  session, at most the window, oldest first, and its hash is that of its own canonical fields.\<close>

theorem build_context_redacted:
  assumes "0 \<le> max_history" and "build_context safe sha max_history s = Inr c"
  shows "map he_safe_result (pc_history c)
      = map (\<lambda>h. safe (he_safe_result h)) (last_entries max_history (sn_history s))
    \<and> map he_action_type (pc_history c)
      = map he_action_type (last_entries max_history (sn_history s))
    \<and> py_len (pc_history c) = min max_history (py_len (sn_history s))
    \<and> list_all (\<lambda>h. py_len (he_safe_result h) \<le> 8192) (pc_history c)
    \<and> pc_user_task c = safe (sn_user_task s) \<and> pc_config_summary c = safe (sn_config_summary s)
    \<and> pc_workspace_summary c = safe (sn_workspace_summary s)
    \<and> pc_feedback_summary c \<in> {None, map_option safe (sn_feedback_summary s)}
    \<and> canonical_sha256 sha (context_values c) = Inr (pc_sha256 c)"
proof -
  obtain hist where hist: "map_res (safe_entry safe) (last_entries max_history (sn_history s)) = Inr hist"
    and h: "pc_history c = hist" "canonical_sha256 sha (context_values c) = Inr (pc_sha256 c)"
    and rest: "pc_user_task c = safe (sn_user_task s)"
      "pc_config_summary c = safe (sn_config_summary s)"
      "pc_workspace_summary c = safe (sn_workspace_summary s)"
      "pc_feedback_summary c \<in> {None, map_option safe (sn_feedback_summary s)}"
    using assms(2)
    by (auto simp: build_context_def bind_res_Inr Let_def context_values_def
        split: if_splits option.splits)
  have "map he_safe_result hist
      = map (\<lambda>h. safe (he_safe_result h)) (last_entries max_history (sn_history s))"
    and "map he_action_type hist = map he_action_type (last_entries max_history (sn_history s))"
    and "map (\<lambda>h. py_len (he_safe_result h) \<le> 8192) hist
      = map (\<lambda>h. True) (last_entries max_history (sn_history s))"
    by (rule map_res_map[OF hist]; auto dest: safe_entry_Inr)+
  moreover from this(3) have "list_all (\<lambda>h. py_len (he_safe_result h) \<le> 8192) hist"
    by (metis (no_types, lifting) list_all_length length_map nth_map)
  moreover have "py_len hist = min max_history (py_len (sn_history s))"
    using map_res_length[OF hist] last_entries_length[OF assms(1), of "sn_history s"]
    by (simp add: py_len_def)
  ultimately show ?thesis using h rest by simp
qed

definition sample_snapshot :: context_snapshot where
  "sample_snapshot =
     \<lparr>sn_user_task = lit ''fix'', sn_config_summary = lit ''demo'', sn_action_schema = [],
      sn_workspace_summary = lit ''ws'',
      sn_history = [\<lparr>he_action_type = lit ''a'', he_safe_result = lit ''one''\<rparr>,
                    \<lparr>he_action_type = lit ''b'', he_safe_result = lit ''two''\<rparr>],
      sn_feedback_summary = None, sn_remaining_actions = 3, sn_remaining_feedback = 2\<rparr>"

definition upper_safe :: "pystr \<Rightarrow> pystr" where
  "upper_safe s = map (\<lambda>c. if 97 \<le> c \<and> c \<le> 122 then c - 32 else c) s"

theorem build_context_redacted_witness:
  "\<exists>c. build_context upper_safe (\<lambda>b. sample_hash) 1 sample_snapshot = Inr c
     \<and> map he_safe_result (pc_history c) = [lit ''TWO'']"
proof -
  have "ok (build_context upper_safe (\<lambda>b. sample_hash) 1 sample_snapshot)" by code_simp
  then obtain c where c: "build_context upper_safe (\<lambda>b. sample_hash) 1 sample_snapshot = Inr c"
    by (cases "build_context upper_safe (\<lambda>b. sample_hash) 1 sample_snapshot") auto
  have "map (\<lambda>h. upper_safe (he_safe_result h)) (last_entries 1 (sn_history sample_snapshot))
      = [lit ''TWO'']" by code_simp
  with build_context_redacted[OF _ c] c show ?thesis by simp
qed

end
