(* ===== verification/Harness.thy ===== *)
theory Harness
  imports Actions Policy Feedback Context
begin

text \<open>
  \<^verbatim>\<open>core/harness.py\<close>: the session, one step of the loop (\<open>HarnessCore.step\<close>) and the loop
  (\<open>HarnessCore.run\<close>). The core's collaborators are a record of programs over a world; a program
  is a function from the world to a result or exception and the next world. The loop may not end
  by itself, so it takes fuel; the termination theorem gives the fuel that always suffices.
\<close>

section \<open>Sessions and outcomes\<close>

record action_execution =
  ae_safe_summary :: pystr
  ae_source_revision :: pystr
  ae_test_run :: "test_run option"
  ae_parsed_result :: "parsed_result option"
  ae_unknown_outcome :: bool

record core_session =
  cs_task_id :: task_id
  cs_user_task :: pystr
  cs_config_summary :: pystr
  cs_workspace_summary :: pystr
  cs_status :: task_status
  cs_history :: "history_entry list"
  cs_previous_result :: "parsed_result option"
  cs_result_history :: "parsed_result list"
  cs_feedback_summary :: "pystr option"
  cs_action_count :: int
  cs_feedback_count :: int

record core_outcome =
  co_status :: task_status
  co_action_count :: int
  co_feedback_count :: int
  co_reason :: string

definition outcome_of :: "core_session \<Rightarrow> string \<Rightarrow> core_outcome" where
  "outcome_of s reason =
     \<lparr>co_status = cs_status s, co_action_count = cs_action_count s,
      co_feedback_count = cs_feedback_count s, co_reason = reason\<rparr>"

text \<open>\<open>_append\<close>: the entry is validated, the copied session is not.\<close>

definition append_history :: "core_session \<Rightarrow> pystr \<Rightarrow> pystr \<Rightarrow> core_session res" where
  "append_history s kind summary =
     bind_res (check_history_entry \<lparr>he_action_type = kind, he_safe_result = summary\<rparr>)
       (\<lambda>h. Inr (s\<lparr>cs_history := cs_history s @ [h]\<rparr>))"

section \<open>The collaborators\<close>

record 'w core_deps =
  dp_load :: "task_id \<Rightarrow> ('w, core_session) prog"
  dp_save :: "core_session \<Rightarrow> ('w, unit) prog"
  dp_build :: "context_snapshot \<Rightarrow> prompt_context res"
  dp_generate :: "prompt_context \<Rightarrow> ('w, raw_action) prog"
  dp_tables :: unicode_tables
  dp_evaluate :: "policy_facts \<Rightarrow> policy_decision"
  dp_prepare :: "(pystr \<Rightarrow> ('w, prepared_patch) prog) option"
  dp_resolve :: "(prepared_patch \<Rightarrow> ('w, patch_safety) prog) option"
  dp_execute :: "action \<Rightarrow> ('w, action_execution) prog"
  dp_execute_patch :: "prepared_patch \<Rightarrow> ('w, action_execution) prog"
  dp_full_tests :: "('w, action_execution) prog"
  dp_analyze ::
    "parsed_result option \<Rightarrow> parsed_result \<Rightarrow> parsed_result list \<Rightarrow> feedback_decision res"
  dp_max_actions :: int
  dp_max_feedback :: int

section \<open>One step\<close>

definition save_as :: "'w core_deps \<Rightarrow> core_session \<Rightarrow> string \<Rightarrow> ('w, core_outcome) prog" where
  "save_as D s reason = bind_prog (dp_save D s) (\<lambda>_. ret (outcome_of s reason))"

definition with_status :: "task_status \<Rightarrow> core_session \<Rightarrow> core_session" where
  "with_status st s = s\<lparr>cs_status := st\<rparr>"

definition action_schema :: "pystr list" where
  "action_schema = [lit ''list_files'', lit ''read_file'', lit ''search_code'', lit ''apply_patch'',
     lit ''run_tests'', lit ''git_diff'', lit ''git_status'', lit ''request_human'']"

definition session_snapshot :: "'w core_deps \<Rightarrow> core_session \<Rightarrow> context_snapshot" where
  "session_snapshot D s =
     \<lparr>sn_user_task = cs_user_task s, sn_config_summary = cs_config_summary s,
      sn_action_schema = action_schema, sn_workspace_summary = cs_workspace_summary s,
      sn_history = cs_history s, sn_feedback_summary = cs_feedback_summary s,
      sn_remaining_actions = dp_max_actions D - cs_action_count s,
      sn_remaining_feedback = dp_max_feedback D - cs_feedback_count s\<rparr>"

definition feedback_gate ::
    "'w core_deps \<Rightarrow> core_session \<Rightarrow> test_phase \<Rightarrow> feedback_kind option
       \<Rightarrow> ('w, core_outcome) prog" where
  "feedback_gate D s phase kind =
     (if kind = Some FB_PASSED \<and> phase \<noteq> FOCUSED
      then save_as D (with_status SUCCEEDED s) ''tests_passed''
      else if kind = Some FB_LOOP then save_as D (with_status STOPPED s) ''loop''
      else if kind = Some FB_NO_PROGRESS then save_as D (with_status STOPPED s) ''no_progress''
      else if kind \<in> {Some FB_ENVIRONMENT_ERROR, Some FB_UNPARSEABLE}
      then save_as D (with_status PAUSED_FOR_HUMAN s) (feedback_kind_value (the kind))
      else if cs_feedback_count s \<ge> dp_max_feedback D
      then save_as D (with_status STOPPED s) ''budget_exhausted''
      else save_as D s ''feedback'')"

text \<open>What follows an execution that reported no unknown outcome.\<close>

definition record_result :: "core_session \<Rightarrow> parsed_result \<Rightarrow> pystr \<Rightarrow> core_session" where
  "record_result s current summary =
     s\<lparr>cs_previous_result := Some current, cs_result_history := cs_result_history s @ [current],
       cs_feedback_summary := Some summary, cs_feedback_count := cs_feedback_count s + 1\<rparr>"

definition consider_tests ::
    "'w core_deps \<Rightarrow> core_session \<Rightarrow> action_execution \<Rightarrow> ('w, core_outcome) prog" where
  "consider_tests D s ex =
     (case ae_test_run ex of
        None \<Rightarrow> save_as D s ''continue''
      | Some run \<Rightarrow>
          if tn_outcome run = RUN_WORKSPACE_DRIFT
          then save_as D (with_status PAUSED_FOR_HUMAN s) ''workspace_drift''
          else (case ae_parsed_result ex of
             None \<Rightarrow>
               save_as D (with_status PAUSED_FOR_HUMAN s) (test_run_outcome_value (tn_outcome run))
           | Some parsed \<Rightarrow>
               let current = parsed\<lparr>pr_revision := ae_source_revision ex\<rparr>
               in if cs_previous_result s = None \<and> pr_outcome current \<noteq> PO_PASSED
                  then feedback_gate D (record_result s current (pr_summary current))
                         (tn_phase run) None
                  else bind_prog
                    (lift_res (dp_analyze D (cs_previous_result s) current (cs_result_history s)))
                    (\<lambda>fb. feedback_gate D (record_result s current (fd_summary fb))
                       (tn_phase run) (Some (fd_kind fb)))))"

text \<open>Executing an allowed action; \<open>patch\<close> is the prepared patch of an \<open>apply_patch\<close>.\<close>

definition perform ::
    "'w core_deps \<Rightarrow> core_session \<Rightarrow> action \<Rightarrow> prepared_patch option
       \<Rightarrow> ('w, core_outcome) prog" where
  "perform D s act patch =
     bind_prog (case patch of Some pp \<Rightarrow> dp_execute_patch D pp | None \<Rightarrow> dp_execute D act) (\<lambda>ex.
       if ae_unknown_outcome ex
       then save_as D (with_status PAUSED_FOR_HUMAN s) ''unknown_outcome''
       else bind_prog (lift_res (append_history s (lit (action_type act)) (ae_safe_summary ex)))
         (\<lambda>s1. case patch of
             None \<Rightarrow> consider_tests D s1 ex
           | Some _ \<Rightarrow>
               bind_prog (dp_full_tests D) (\<lambda>full.
               bind_prog (lift_res (append_history s1 (lit ''full_test'') (ae_safe_summary full)))
                 (\<lambda>s2. consider_tests D s2 full))))"

text \<open>Stop when the last action of the budget was refused, otherwise go on.\<close>

definition refuse :: "'w core_deps \<Rightarrow> core_session \<Rightarrow> string \<Rightarrow> ('w, core_outcome) prog" where
  "refuse D s reason =
     (if cs_action_count s \<ge> dp_max_actions D
      then save_as D (with_status STOPPED s) ''budget_exhausted''
      else save_as D s reason)"

definition govern ::
    "'w core_deps \<Rightarrow> core_session \<Rightarrow> action \<Rightarrow> prepared_patch option \<Rightarrow> policy_facts
       \<Rightarrow> ('w, core_outcome) prog" where
  "govern D s act patch facts =
     (let decision = dp_evaluate D facts
      in case pd_outcome decision of
           DENY \<Rightarrow>
             bind_prog (lift_res (append_history s (lit ''policy_deny'')
                (lit (policy_reason_value (pd_reason decision)))))
               (\<lambda>s1. refuse D s1 ''policy_deny'')
         | REQUIRE_APPROVAL \<Rightarrow> save_as D (with_status AWAITING_APPROVAL s) ''approval_required''
         | ALLOW \<Rightarrow> perform D s act patch)"

text \<open>Preparing a patch, with the exceptions that \<open>except (TypeError, ValueError)\<close> catches.\<close>

definition catch_value ::
    "('w, 'a) prog \<Rightarrow> ('w, 'b) prog \<Rightarrow> ('a \<Rightarrow> ('w, 'b) prog) \<Rightarrow> ('w, 'b) prog" where
  "catch_value m handler k w =
     (case m w of
        (Inl e, v) \<Rightarrow> if is_type_error e \<or> is_value_error e then handler v else (Inl e, v)
      | (Inr x, v) \<Rightarrow> k x v)"

definition prepare_failed ::
    "'w core_deps \<Rightarrow> core_session \<Rightarrow> string \<Rightarrow> ('w, core_outcome) prog" where
  "prepare_failed D s message =
     bind_prog (lift_res (append_history s (lit ''patch_prepare_failed'') (lit message)))
       (\<lambda>s1. save_as D s1 ''patch_prepare_failed'')"

definition govern_patch ::
    "'w core_deps \<Rightarrow> core_session \<Rightarrow> pystr \<Rightarrow> ('w, core_outcome) prog" where
  "govern_patch D s diff =
     (case (dp_prepare D, dp_resolve D) of
        (Some prep, Some resolve) \<Rightarrow>
          catch_value
            (bind_prog (prep diff) (\<lambda>pp.
             bind_prog (resolve pp) (\<lambda>safety.
             bind_prog (lift_res (policy_facts_from_prepared diff pp safety)) (\<lambda>facts.
               ret (pp, facts)))))
            (prepare_failed D s ''patch preparation failed'')
            (\<lambda>(pp, facts). govern D s (ApplyPatch diff) (Some pp) facts)
      | _ \<Rightarrow> prepare_failed D s ''patch preparation is unavailable'')"

definition decide ::
    "'w core_deps \<Rightarrow> core_session \<Rightarrow> raw_action \<Rightarrow> ('w, core_outcome) prog" where
  "decide D s raw =
     (case parse_action (dp_tables D) raw of
        Inl err \<Rightarrow>
          bind_prog (lift_res (append_history s (lit ''protocol_error'') (lit (pe_message err))))
            (\<lambda>s1. refuse D s1 ''protocol_error'')
      | Inr (RequestHuman reason) \<Rightarrow>
          bind_prog (lift_res (append_history s (lit ''request_human'') (lit ''human review requested'')))
            (\<lambda>s1. save_as D (with_status PAUSED_FOR_HUMAN s1) ''request_human'')
      | Inr (ApplyPatch diff) \<Rightarrow> govern_patch D s diff
      | Inr act \<Rightarrow> govern D s act None default_facts)"

definition core_step :: "'w core_deps \<Rightarrow> task_id \<Rightarrow> ('w, core_outcome) prog" where
  "core_step D t =
     bind_prog (dp_load D t) (\<lambda>s.
       if cs_status s \<noteq> DECIDING then ret (outcome_of s ''not_deciding'')
       else if cs_action_count s \<ge> dp_max_actions D \<or> cs_feedback_count s \<ge> dp_max_feedback D
       then save_as D (with_status STOPPED s) ''budget_exhausted''
       else bind_prog (lift_res (bind_res (check_snapshot (session_snapshot D s)) (dp_build D)))
         (\<lambda>context. bind_prog (dp_generate D context)
           (\<lambda>raw. decide D (s\<lparr>cs_action_count := cs_action_count s + 1\<rparr>) raw)))"

section \<open>The loop\<close>

text \<open>\<open>None\<close>: the fuel ran out.\<close>

fun core_run :: "'w core_deps \<Rightarrow> nat \<Rightarrow> task_id \<Rightarrow> ('w, core_outcome option) prog" where
  "core_run D 0 t = ret None"
| "core_run D (Suc fuel) t =
     bind_prog (core_step D t) (\<lambda>out.
       if co_status out \<noteq> DECIDING then ret (Some out) else core_run D fuel t)"

end
