(* ===== verification/HarnessLoop.thy ===== *)
theory HarnessLoop
  imports Harness
begin

text \<open>
  What the core promises, proved once against the interfaces of its collaborators: a session store
  (\<open>session_store\<close>) and collaborators that leave the stored sessions alone (\<open>core_env\<close>). The
  theories that provide stores interpret these locales.
\<close>

section \<open>Programs that leave the sessions alone, and programs that store one\<close>

type_synonym sessions = "task_id \<Rightarrow> core_session option"

definition frame :: "('w \<Rightarrow> bool) \<Rightarrow> ('w \<Rightarrow> sessions) \<Rightarrow> ('w, 'a) prog \<Rightarrow> bool" where
  "frame good sessions m \<longleftrightarrow>
     (\<forall>w. good w \<longrightarrow> good (snd (m w)) \<and> sessions (snd (m w)) = sessions w)"

text \<open>From \<open>w\<close>, a program raised and left the sessions alone, or stored one session that satisfies
  \<open>P\<close> together with the outcome it returned.\<close>

definition stored ::
    "('w \<Rightarrow> bool) \<Rightarrow> ('w \<Rightarrow> sessions) \<Rightarrow> (core_session \<Rightarrow> core_outcome \<Rightarrow> bool)
       \<Rightarrow> 'w \<Rightarrow> core_outcome res \<times> 'w \<Rightarrow> bool" where
  "stored good sessions P w rv \<longleftrightarrow> good (snd rv) \<and>
     (case fst rv of Inl e \<Rightarrow> sessions (snd rv) = sessions w
      | Inr out \<Rightarrow> \<exists>s. P s out \<and> sessions (snd rv) = (sessions w)(cs_task_id s \<mapsto> s))"

definition yields ::
    "('w \<Rightarrow> bool) \<Rightarrow> ('w \<Rightarrow> sessions) \<Rightarrow> (core_session \<Rightarrow> core_outcome \<Rightarrow> bool)
       \<Rightarrow> ('w, core_outcome) prog \<Rightarrow> bool" where
  "yields good sessions P m \<longleftrightarrow> (\<forall>w. good w \<longrightarrow> stored good sessions P w (m w))"

lemma stored_cong: "sessions u = sessions w \<Longrightarrow> stored good sessions P u rv = stored good sessions P w rv"
  by (simp add: stored_def split: sum.split)

lemma stored_raise: "good v \<Longrightarrow> sessions v = sessions w \<Longrightarrow> stored good sessions P w (Inl e, v)"
  by (simp add: stored_def)

lemma frameD:
  "frame good sessions m \<Longrightarrow> good w \<Longrightarrow> m w = (r, u) \<Longrightarrow> good u \<and> sessions u = sessions w"
  unfolding frame_def by (metis snd_conv)

lemma yields_bind:
  assumes "frame good sessions m"
    and "\<And>x w v. m w = (Inr x, v) \<Longrightarrow> yields good sessions P (f x)"
  shows "yields good sessions P (bind_prog m f)"
  unfolding yields_def
proof (intro allI impI)
  fix w assume w: "good w"
  obtain r u where m: "m w = (r, u)" by fastforce
  note u = frameD[OF assms(1) w m]
  show "stored good sessions P w (bind_prog m f w)"
  proof (cases r)
    case (Inl e)
    then show ?thesis using m u by (simp add: bind_prog_fail stored_raise)
  next
    case (Inr x)
    then have "stored good sessions P u (f x u)"
      using assms(2) m u unfolding yields_def by blast
    then show ?thesis using m Inr u stored_cong[of sessions u w] by (simp add: bind_prog_step)
  qed
qed

lemma yields_lift:
  assumes "\<And>x. r = Inr x \<Longrightarrow> yields good sessions P (f x)"
  shows "yields good sessions P (bind_prog (lift_res r) f)"
  using assms by (cases r) (auto simp: yields_def bind_prog_def stored_raise)

lemma frame_bind:
  assumes "frame good sessions m" "\<And>x. frame good sessions (f x)"
  shows "frame good sessions (bind_prog m f)"
  unfolding frame_def
proof (intro allI impI)
  fix w assume w: "good w"
  obtain r u where m: "m w = (r, u)" by fastforce
  note u = frameD[OF assms(1) w m]
  show "good (snd (bind_prog m f w)) \<and> sessions (snd (bind_prog m f w)) = sessions w"
  proof (cases r)
    case (Inl e)
    then show ?thesis using m u by (simp add: bind_prog_fail)
  next
    case (Inr x)
    then show ?thesis using m u assms(2)[of x] unfolding frame_def by (simp add: bind_prog_step)
  qed
qed

lemma frame_lift [simp]: "frame good sessions (lift_res r)"
  by (simp add: frame_def)

lemma frame_ret [simp]: "frame good sessions (ret x)"
  by (simp add: frame_def)

lemma yields_catch:
  assumes "frame good sessions m" "yields good sessions P h"
    and "\<And>x w v. m w = (Inr x, v) \<Longrightarrow> yields good sessions P (k x)"
  shows "yields good sessions P (catch_value m h k)"
  unfolding yields_def
proof (intro allI impI)
  fix w assume w: "good w"
  obtain r u where m: "m w = (r, u)" by fastforce
  note u = frameD[OF assms(1) w m]
  have h: "stored good sessions P w (h u)" and k: "r = Inr x \<Longrightarrow> stored good sessions P w (k x u)" for x
    using assms(2,3) m u stored_cong[of sessions u w] unfolding yields_def by blast+
  show "stored good sessions P w (catch_value m h k w)"
    using m u h k by (cases r) (simp_all add: catch_value_def stored_raise)
qed

section \<open>The interfaces\<close>

text \<open>A store holds one session for some tasks. Loading raises or returns the session the store
  holds, and changes nothing; saving stores the session under its own task, or raises and changes
  nothing.\<close>

locale session_store =
  fixes load :: "task_id \<Rightarrow> ('w, core_session) prog"
    and save :: "core_session \<Rightarrow> ('w, unit) prog"
    and sessions :: "'w \<Rightarrow> task_id \<Rightarrow> core_session option"
    and good :: "'w \<Rightarrow> bool"
  assumes load: "good w \<Longrightarrow> load t w = (r, v) \<Longrightarrow> v = w \<and> (\<forall>s. r = Inr s \<longrightarrow> sessions w t = Some s)"
    and save: "good w \<Longrightarrow> save s w = (q, v) \<Longrightarrow> good v \<and>
      (q = Inr () \<and> sessions v = (sessions w)(cs_task_id s \<mapsto> s)
       \<or> (\<exists>e. q = Inl e) \<and> sessions v = sessions w)"
    and own: "good w \<Longrightarrow> sessions w t = Some s \<Longrightarrow> cs_task_id s = t"
begin

lemma frame_load: "frame good sessions (load t)"
  unfolding frame_def using load by (metis prod.collapse)

lemma load_cases:
  assumes "good w" "sessions w t = Some s"
  obtains e where "load t w = (Inl e, w)" | "load t w = (Inr s, w)"
proof -
  obtain r v where ld: "load t w = (r, v)" by fastforce
  from load[OF assms(1) ld] assms(2) ld that show ?thesis by (cases r) auto
qed

lemma load_Inr: "good w \<Longrightarrow> load t w = (Inr s, v) \<Longrightarrow> v = w \<and> sessions w t = Some s \<and> cs_task_id s = t"
  using load own by blast

lemma yields_save:
  "P s out \<Longrightarrow> yields good sessions P (bind_prog (save s) (\<lambda>_. ret out))"
  unfolding yields_def
proof (intro allI impI)
  fix w assume P: "P s out" and w: "good w"
  obtain q u where sv: "save s w = (q, u)" by fastforce
  with save[OF w sv] P show "stored good sessions P w (bind_prog (save s) (\<lambda>_. ret out) w)"
    by (auto simp: bind_prog_def stored_def)
qed

end

text \<open>The core's environment: its store, and collaborators that leave the sessions alone.\<close>

locale core_env = session_store "dp_load D" "dp_save D" sessions good
  for D :: "'w core_deps" and sessions :: "'w \<Rightarrow> task_id \<Rightarrow> core_session option"
    and good :: "'w \<Rightarrow> bool" +
  assumes generate: "frame good sessions (dp_generate D context)"
    and prepare: "dp_prepare D = Some prep \<Longrightarrow> frame good sessions (prep diff)"
    and resolve: "dp_resolve D = Some res \<Longrightarrow> frame good sessions (res pp)"
    and execute: "frame good sessions (dp_execute D act)"
    and execute_patch: "frame good sessions (dp_execute_patch D pp)"
    and full_tests: "frame good sessions (dp_full_tests D)"

section \<open>What a step does to its session\<close>

text \<open>An execution the core can have seen.\<close>

definition executed :: "'w core_deps \<Rightarrow> action_execution \<Rightarrow> bool" where
  "executed D ex \<longleftrightarrow> (\<exists>w v. dp_full_tests D w = (Inr ex, v) \<or> (\<exists>act. dp_execute D act w = (Inr ex, v)))"

lemma executed_action: "dp_execute D act w = (Inr ex, v) \<Longrightarrow> executed D ex"
  and executed_tests: "dp_full_tests D w = (Inr ex, v) \<Longrightarrow> executed D ex"
  by (auto simp: executed_def)

text \<open>Evidence of success: a run outside the focused phase whose parsed result, compared with what
  came before it, is \<open>PASSED\<close>.\<close>

definition success_evidence :: "'w core_deps \<Rightarrow> core_session \<Rightarrow> core_session \<Rightarrow> bool" where
  "success_evidence D s s' \<longleftrightarrow>
     (\<exists>ex run parsed fb. executed D ex \<and> ae_test_run ex = Some run \<and> tn_phase run \<noteq> FOCUSED
        \<and> tn_outcome run \<noteq> RUN_WORKSPACE_DRIFT \<and> ae_parsed_result ex = Some parsed
        \<and> cs_result_history s' = cs_result_history s @ [parsed\<lparr>pr_revision := ae_source_revision ex\<rparr>]
        \<and> dp_analyze D (cs_previous_result s) (parsed\<lparr>pr_revision := ae_source_revision ex\<rparr>)
            (cs_result_history s) = Inr fb
        \<and> fd_kind fb = FB_PASSED)"

definition same_task :: "core_session \<Rightarrow> core_session \<Rightarrow> bool" where
  "same_task s s' \<longleftrightarrow> cs_task_id s' = cs_task_id s \<and> cs_user_task s' = cs_user_task s
     \<and> cs_config_summary s' = cs_config_summary s \<and> cs_workspace_summary s' = cs_workspace_summary s"

text \<open>\<open>s\<close> is the session with the action already counted, \<open>s'\<close> the one that is stored.\<close>

definition step_post :: "'w core_deps \<Rightarrow> core_session \<Rightarrow> core_session \<Rightarrow> core_outcome \<Rightarrow> bool" where
  "step_post D s s' out \<longleftrightarrow>
     same_task s s' \<and> out = outcome_of s' (co_reason out)
     \<and> cs_action_count s' = cs_action_count s
     \<and> (\<exists>rs. cs_result_history s' = cs_result_history s @ rs \<and> length rs \<le> 1
          \<and> cs_feedback_count s' = cs_feedback_count s + py_len rs)
     \<and> (\<exists>hs. cs_history s' = cs_history s @ hs \<and> length hs \<le> 2)
     \<and> cs_status s' \<in> {DECIDING, STOPPED, PAUSED_FOR_HUMAN, AWAITING_APPROVAL, SUCCEEDED}
     \<and> (cs_status s' = SUCCEEDED \<longrightarrow> success_evidence D s s')"

lemma append_history_Inr:
  "append_history s k m = Inr s1 \<longleftrightarrow>
     py_len m \<le> 8192 \<and> s1 = s\<lparr>cs_history := cs_history s @ [\<lparr>he_action_type = k, he_safe_result = m\<rparr>]\<rparr>"
  by (auto simp: append_history_def check_history_entry_def bind_res_Inr)

lemma step_post_plain:
  assumes "same_task s s1" "cs_action_count s1 = cs_action_count s"
    and "cs_result_history s1 = cs_result_history s" "cs_feedback_count s1 = cs_feedback_count s"
    and "cs_history s1 = cs_history s @ hs" "length hs \<le> 2"
    and "cs_status s1 \<in> {DECIDING, STOPPED, PAUSED_FOR_HUMAN, AWAITING_APPROVAL}"
  shows "step_post D s s1 (outcome_of s1 reason)"
  using assms by (auto simp: step_post_def outcome_of_def intro: exI[of _ "[]"])

text \<open>What a number of steps do to a session: the task is the same, histories grow, the counts grow
  within the limits, and a success carries its evidence.\<close>

definition run_post :: "'w core_deps \<Rightarrow> core_session \<Rightarrow> core_session \<Rightarrow> bool" where
  "run_post D s s' \<longleftrightarrow>
     same_task s s'
     \<and> prefix (cs_history s) (cs_history s') \<and> prefix (cs_result_history s) (cs_result_history s')
     \<and> cs_action_count s \<le> cs_action_count s'
     \<and> cs_action_count s' \<le> max (cs_action_count s) (dp_max_actions D)
     \<and> cs_feedback_count s \<le> cs_feedback_count s'
     \<and> cs_feedback_count s' \<le> max (cs_feedback_count s) (dp_max_feedback D)
     \<and> (cs_status s' = SUCCEEDED \<longrightarrow> cs_status s = SUCCEEDED \<or> (\<exists>b. success_evidence D b s'))"

lemma run_post_refl: "run_post D s s"
  by (simp add: run_post_def same_task_def)

lemma run_post_trans:
  assumes "run_post D s1 s2" "run_post D s2 s3" "cs_status s2 \<noteq> SUCCEEDED"
  shows "run_post D s1 s3"
  using assms by (auto simp: run_post_def same_task_def intro: prefix_order.trans)

section \<open>The core's steps\<close>

context core_env
begin

lemma yields_save_as:
  assumes "same_task s s1" "cs_action_count s1 = cs_action_count s"
    and "cs_result_history s1 = cs_result_history s" "cs_feedback_count s1 = cs_feedback_count s"
    and "\<exists>hs. cs_history s1 = cs_history s @ hs \<and> length hs \<le> 2"
    and "cs_status s1 \<in> {DECIDING, STOPPED, PAUSED_FOR_HUMAN, AWAITING_APPROVAL}"
  shows "yields good sessions (step_post D s) (save_as D s1 reason)"
  unfolding save_as_def using assms by (intro yields_save) (auto intro: step_post_plain)

lemma yields_gate:
  assumes s1: "same_task s s1" "cs_action_count s1 = cs_action_count s" "cs_status s1 = DECIDING"
    and res: "cs_result_history s1 = cs_result_history s @ [current]"
      "cs_feedback_count s1 = cs_feedback_count s + 1"
    and hist: "\<exists>hs. cs_history s1 = cs_history s @ hs \<and> length hs \<le> 2"
    and succ: "kind = Some FB_PASSED \<Longrightarrow> phase \<noteq> FOCUSED \<Longrightarrow>
      success_evidence D s (with_status SUCCEEDED s1)"
  shows "yields good sessions (step_post D s) (feedback_gate D s1 phase kind)"
proof -
  have post: "step_post D s (with_status st s1) (outcome_of (with_status st s1) reason)"
    if "st \<in> {DECIDING, STOPPED, PAUSED_FOR_HUMAN, AWAITING_APPROVAL} \<or>
      st = SUCCEEDED \<and> kind = Some FB_PASSED \<and> phase \<noteq> FOCUSED" for st reason
    using that s1 res hist succ
    by (auto simp: step_post_def outcome_of_def with_status_def same_task_def)
  have "with_status DECIDING s1 = s1" using s1(3) by (simp add: with_status_def)
  then have post0: "step_post D s s1 (outcome_of s1 reason)" for reason
    using post[of DECIDING reason] by simp
  show ?thesis
    unfolding feedback_gate_def save_as_def by (auto intro!: yields_save post post0)
qed

lemma yields_consider:
  assumes s1: "same_task s s1" "cs_action_count s1 = cs_action_count s" "cs_status s1 = DECIDING"
    and res: "cs_result_history s1 = cs_result_history s" "cs_feedback_count s1 = cs_feedback_count s"
      "cs_previous_result s1 = cs_previous_result s"
    and hist: "\<exists>hs. cs_history s1 = cs_history s @ hs \<and> length hs \<le> 2"
    and ex: "executed D ex"
  shows "yields good sessions (step_post D s) (consider_tests D s1 ex)"
proof -
  have plain: "yields good sessions (step_post D s) (save_as D s1 reason)"
    "yields good sessions (step_post D s) (save_as D (with_status PAUSED_FOR_HUMAN s1) reason)"
    for reason
    using s1 res hist by (auto intro!: yields_save_as simp: with_status_def same_task_def)
  show ?thesis
  proof (cases "ae_test_run ex")
    case None
    then show ?thesis using plain by (simp add: consider_tests_def)
  next
    case (Some run)
    show ?thesis
    proof (cases "tn_outcome run = RUN_WORKSPACE_DRIFT \<or> ae_parsed_result ex = None")
      case True
      then show ?thesis using Some plain by (auto simp: consider_tests_def)
    next
      case False
      then obtain parsed where parsed: "ae_parsed_result ex = Some parsed" by auto
      let ?current = "parsed\<lparr>pr_revision := ae_source_revision ex\<rparr>"
      have gate: "yields good sessions (step_post D s)
          (feedback_gate D (record_result s1 ?current summary) (tn_phase run) kind)"
        if "kind = Some FB_PASSED \<Longrightarrow> \<exists>fb. dp_analyze D (cs_previous_result s) ?current
          (cs_result_history s) = Inr fb \<and> fd_kind fb = FB_PASSED" for summary kind
      proof (rule yields_gate)
        assume "kind = Some FB_PASSED" "tn_phase run \<noteq> FOCUSED"
        then show "success_evidence D s (with_status SUCCEEDED (record_result s1 ?current summary))"
          using that ex Some False parsed res
          by (auto simp: success_evidence_def with_status_def record_result_def)
      qed (use s1 res hist in \<open>auto simp: record_result_def same_task_def\<close>)
      show ?thesis
        using Some False parsed res gate
        by (auto simp: consider_tests_def Let_def intro!: gate yields_lift)
    qed
  qed
qed

lemma yields_perform:
  assumes "cs_status s = DECIDING"
  shows "yields good sessions (step_post D s) (perform D s act patch)"
proof -
  have paused: "yields good sessions (step_post D s)
      (save_as D (with_status PAUSED_FOR_HUMAN s) reason)" for reason
    by (intro yields_save_as) (auto simp: with_status_def same_task_def)
  have s1: "yields good sessions (step_post D s) (consider_tests D s1 ex)"
    if "append_history s k m = Inr s1" "executed D ex" for s1 ex k m
    using that assms by (intro yields_consider) (auto simp: append_history_Inr same_task_def)
  have s2: "yields good sessions (step_post D s) (consider_tests D s2 ex)"
    if "append_history s k m = Inr s1" "append_history s1 k' m' = Inr s2" "executed D ex"
    for s1 s2 ex k m k' m'
    using that assms by (intro yields_consider) (auto simp: append_history_Inr same_task_def)
  show ?thesis
  proof (cases patch)
    case None
    then show ?thesis
      unfolding perform_def
      by (auto intro!: yields_bind[OF execute] yields_lift paused)
        (rule s1, assumption, rule executed_action, assumption)
  next
    case (Some pp)
    then show ?thesis
      unfolding perform_def
      by (auto intro!: yields_bind[OF execute_patch] yields_bind[OF full_tests] yields_lift paused)
        (rule s2, assumption, assumption, rule executed_tests, assumption)
  qed
qed

lemma yields_refuse:
  assumes "append_history s k m = Inr s1" "cs_status s = DECIDING"
  shows "yields good sessions (step_post D s) (refuse D s1 reason)"
  unfolding refuse_def using assms
  by (auto intro!: yields_save_as simp: append_history_Inr with_status_def same_task_def)

lemma yields_govern:
  assumes "cs_status s = DECIDING"
  shows "yields good sessions (step_post D s) (govern D s act patch facts)"
proof -
  have "yields good sessions (step_post D s)
      (save_as D (with_status AWAITING_APPROVAL s) ''approval_required'')"
    by (intro yields_save_as) (auto simp: with_status_def same_task_def)
  then show ?thesis
    unfolding govern_def Let_def using assms
    by (auto intro!: yields_lift yields_refuse yields_perform split: policy_outcome.splits)
qed

lemma yields_decide:
  assumes "cs_status s = DECIDING"
  shows "yields good sessions (step_post D s) (decide D s raw)"
proof -
  have failed: "yields good sessions (step_post D s) (prepare_failed D s m)" for m
    unfolding prepare_failed_def using assms
    by (auto intro!: yields_lift yields_save_as simp: append_history_Inr same_task_def)
  have human: "yields good sessions (step_post D s) (bind_prog
      (lift_res (append_history s (lit ''request_human'') (lit ''human review requested'')))
      (\<lambda>s1. save_as D (with_status PAUSED_FOR_HUMAN s1) ''request_human''))"
    by (auto intro!: yields_lift yields_save_as
        simp: append_history_Inr with_status_def same_task_def)
  have patch: "yields good sessions (step_post D s) (govern_patch D s diff)" for diff
  proof (cases "\<exists>prep res. dp_prepare D = Some prep \<and> dp_resolve D = Some res")
    case False
    then show ?thesis using failed by (auto simp: govern_patch_def split: option.splits)
  next
    case True
    then obtain prep res where D: "dp_prepare D = Some prep" "dp_resolve D = Some res" by blast
    have "frame good sessions (bind_prog (prep diff) (\<lambda>pp. bind_prog (res pp) (\<lambda>safety.
        bind_prog (lift_res (policy_facts_from_prepared diff pp safety)) (\<lambda>facts. ret (pp, facts)))))"
      by (intro frame_bind prepare[OF D(1)] resolve[OF D(2)] frame_lift frame_ret)
    then show ?thesis
      unfolding govern_patch_def D using assms failed
      by (auto intro!: yields_catch yields_govern)
  qed
  show ?thesis
  proof (cases "parse_action (dp_tables D) raw")
    case (Inl err)
    then show ?thesis
      using assms by (auto simp: decide_def intro!: yields_lift yields_refuse)
  next
    case (Inr act)
    then show ?thesis
      using assms human patch yields_govern[OF assms] by (cases act) (auto simp: decide_def)
  qed
qed


section \<open>A whole step\<close>

text \<open>From a session that is not deciding nothing changes; from one whose budget is used up the task
  stops; otherwise the step counts one action and does what \<open>step_post\<close> says, or raises having
  changed nothing.\<close>

lemma step_not_deciding:
  assumes "dp_load D t w = (Inr s, w)" "cs_status s \<noteq> DECIDING"
  shows "core_step D t w = (Inr (outcome_of s ''not_deciding''), w)"
  using assms by (simp add: core_step_def bind_prog_def)

lemma step_exhausted:
  assumes "dp_load D t w = (Inr s, w)" "cs_status s = DECIDING"
    and "cs_action_count s \<ge> dp_max_actions D \<or> cs_feedback_count s \<ge> dp_max_feedback D"
  shows "core_step D t w = save_as D (with_status STOPPED s) ''budget_exhausted'' w"
  using assms by (simp add: core_step_def bind_prog_def)

definition has_budget :: "core_session \<Rightarrow> bool" where
  "has_budget s \<longleftrightarrow> cs_action_count s < dp_max_actions D \<and> cs_feedback_count s < dp_max_feedback D"

lemma step_deciding:
  assumes "good w" "dp_load D t w = (Inr s, w)" "cs_status s = DECIDING" "has_budget s"
  shows "stored good sessions (step_post D (s\<lparr>cs_action_count := cs_action_count s + 1\<rparr>)) w
    (core_step D t w)"
proof -
  let ?s = "s\<lparr>cs_action_count := cs_action_count s + 1\<rparr>"
  have "yields good sessions (step_post D ?s)
      (bind_prog (lift_res (bind_res (check_snapshot (session_snapshot D s)) (dp_build D)))
        (\<lambda>context. bind_prog (dp_generate D context) (\<lambda>raw. decide D ?s raw)))"
    using assms(3) by (intro yields_lift yields_bind[OF generate] yields_decide) simp
  moreover have "core_step D t w =
      bind_prog (lift_res (bind_res (check_snapshot (session_snapshot D s)) (dp_build D)))
        (\<lambda>context. bind_prog (dp_generate D context) (\<lambda>raw. decide D ?s raw)) w"
    using assms by (simp add: core_step_def has_budget_def bind_prog_step)
  ultimately show ?thesis using assms(1) unfolding yields_def by metis
qed

text \<open>What one step, whatever it finds, does to the store.\<close>

definition step_effect :: "task_id \<Rightarrow> core_session \<Rightarrow> 'w \<Rightarrow> core_outcome res \<times> 'w \<Rightarrow> bool" where
  "step_effect t s w rv \<longleftrightarrow> good (snd rv) \<and>
     (case fst rv of
        Inl e \<Rightarrow> sessions (snd rv) = sessions w
      | Inr out \<Rightarrow> \<exists>s'. sessions (snd rv) = (sessions w)(t \<mapsto> s') \<and> out = outcome_of s' (co_reason out)
          \<and> same_task s s'
          \<and> (cs_status s \<noteq> DECIDING \<longrightarrow> s' = s)
          \<and> (cs_status s = DECIDING \<and> \<not> has_budget s \<longrightarrow> s' = with_status STOPPED s)
          \<and> (cs_status s = DECIDING \<and> has_budget s \<longrightarrow>
               step_post D (s\<lparr>cs_action_count := cs_action_count s + 1\<rparr>) s' out))"

lemma step_effect:
  assumes "good w" "sessions w t = Some s"
  shows "step_effect t s w (core_step D t w)"
proof -
  have t: "cs_task_id s = t" using own assms by blast
  have same: "(sessions w)(t \<mapsto> s) = sessions w" using assms(2) by auto
  show ?thesis
  proof (cases rule: load_cases[OF assms])
    case (1 e)
    then have "core_step D t w = (Inl e, w)" by (simp add: core_step_def bind_prog_def)
    then show ?thesis using assms(1) by (simp add: step_effect_def)
  next
  case ld: 2
  consider "cs_status s \<noteq> DECIDING" | "cs_status s = DECIDING" "\<not> has_budget s"
    | "cs_status s = DECIDING" "has_budget s" by blast
  then show ?thesis
  proof cases
    case 1
    then show ?thesis
      using step_not_deciding[OF ld] assms same
      by (auto simp: step_effect_def same_task_def outcome_of_def intro!: exI[of _ s])
  next
    case 2
    let ?s = "with_status STOPPED s"
    have st: "core_step D t w = save_as D ?s ''budget_exhausted'' w"
      using step_exhausted[OF ld] 2 by (auto simp: has_budget_def)
    obtain q u where sv: "dp_save D ?s w = (q, u)" by fastforce
    show ?thesis
      using save[OF assms(1) sv] st sv 2 t
      by (auto simp: step_effect_def save_as_def bind_prog_def same_task_def outcome_of_def
          with_status_def)
  next
    case 3
    let ?s = "s\<lparr>cs_action_count := cs_action_count s + 1\<rparr>"
    have st: "stored good sessions (step_post D ?s) w (core_step D t w)"
      using step_deciding[OF assms(1) ld 3] .
    show ?thesis
    proof (cases "fst (core_step D t w)")
      case (Inl e)
      then show ?thesis using st by (simp add: step_effect_def stored_def)
    next
      case (Inr out)
      then obtain s' where s': "step_post D ?s s' out"
        "sessions (snd (core_step D t w)) = (sessions w)(cs_task_id s' \<mapsto> s')"
        and g: "good (snd (core_step D t w))"
        using st by (auto simp: stored_def)
      have "same_task s s'" "out = outcome_of s' (co_reason out)"
        using s'(1) by (simp_all add: step_post_def same_task_def)
      moreover from this have "cs_task_id s' = t" using t by (simp add: same_task_def)
      ultimately show ?thesis using Inr s' g 3 by (auto simp: step_effect_def)
    qed
  qed
  qed
qed

lemma step_run_post:
  assumes "step_effect t s w rv" "fst rv = Inr out"
  obtains s' where "sessions (snd rv) = (sessions w)(t \<mapsto> s')" "run_post D s s'"
    "out = outcome_of s' (co_reason out)"
    "cs_status s' = DECIDING \<Longrightarrow> has_budget s \<and> cs_action_count s' = cs_action_count s + 1"
proof -
  obtain s' where s': "sessions (snd rv) = (sessions w)(t \<mapsto> s')"
      "out = outcome_of s' (co_reason out)" "same_task s s'"
    and nd: "cs_status s \<noteq> DECIDING \<Longrightarrow> s' = s"
    and nb: "cs_status s = DECIDING \<Longrightarrow> \<not> has_budget s \<Longrightarrow> s' = with_status STOPPED s"
    and st: "cs_status s = DECIDING \<Longrightarrow> has_budget s \<Longrightarrow>
      step_post D (s\<lparr>cs_action_count := cs_action_count s + 1\<rparr>) s' out"
    using assms by (auto simp: step_effect_def)
  show ?thesis
  proof (cases "cs_status s = DECIDING \<and> has_budget s")
    case True
    then have post: "step_post D (s\<lparr>cs_action_count := cs_action_count s + 1\<rparr>) s' out"
      using st by simp
    obtain rs where rs: "cs_result_history s' = cs_result_history s @ rs" "length rs \<le> 1"
      "cs_feedback_count s' = cs_feedback_count s + py_len rs"
      using post by (auto simp: step_post_def)
    have "run_post D s s'"
      using post True rs s'(3)
      by (auto simp: run_post_def step_post_def has_budget_def py_len_def)
    moreover have "cs_action_count s' = cs_action_count s + 1"
      using post by (simp add: step_post_def)
    ultimately show ?thesis using that s' True by blast
  next
    case False
    then have "s' = s \<and> cs_status s \<noteq> DECIDING \<or> s' = with_status STOPPED s" using nd nb by blast
    then have "run_post D s s' \<and> cs_status s' \<noteq> DECIDING"
      by (auto simp: run_post_def same_task_def with_status_def)
    then show ?thesis using that s' by blast
  qed
qed

lemma run_result:
  assumes "good w" "sessions w t = Some s"
    and "nat (dp_max_actions D - cs_action_count s) < n"
    and "core_run D n t w = (r, v)"
  shows "good v \<and> (\<forall>t'. t' \<noteq> t \<longrightarrow> sessions v t' = sessions w t')
    \<and> (\<exists>s'. sessions v t = Some s' \<and> run_post D s s'
         \<and> (case r of Inl e \<Rightarrow> cs_status s' = DECIDING \<or> cs_status s' = cs_status s
            | Inr None \<Rightarrow> False
            | Inr (Some out) \<Rightarrow> cs_status s' \<noteq> DECIDING \<and> out = outcome_of s' (co_reason out)))"
  using assms
proof (induction n arbitrary: w s)
  case 0
  then show ?case by simp
next
  case (Suc n)
  obtain q u where st: "core_step D t w = (q, u)" by fastforce
  have eff: "step_effect t s w (q, u)" using step_effect[OF Suc.prems(1,2)] st by simp
  then have u: "good u" by (simp add: step_effect_def)
  show ?case
  proof (cases q)
    case (Inl e)
    then have "sessions u = sessions w" using eff by (simp add: step_effect_def)
    moreover have "r = Inl e" "v = u" using Suc.prems(4) st Inl by (simp_all add: bind_prog_def)
    ultimately show ?thesis using u Suc.prems(2) run_post_refl by auto
  next
    case (Inr out)
    obtain s1 where s1: "sessions u = (sessions w)(t \<mapsto> s1)" "run_post D s s1"
      "out = outcome_of s1 (co_reason out)"
      "cs_status s1 = DECIDING \<Longrightarrow> has_budget s \<and> cs_action_count s1 = cs_action_count s + 1"
      using step_run_post[OF eff] Inr by auto
    show ?thesis
    proof (cases "co_status out = DECIDING")
      case False
      then have "r = Inr (Some out)" "v = u" using Suc.prems(4) st Inr by (simp_all add: bind_prog_def)
      moreover have "cs_status s1 \<noteq> DECIDING" using False s1(3) by (metis outcome_of_def core_outcome.select_convs(1))
      ultimately show ?thesis using u s1 by auto
    next
      case True
      then have d: "cs_status s1 = DECIDING"
        using s1(3) by (metis outcome_of_def core_outcome.select_convs(1))
      have run: "core_run D n t u = (r, v)" using Suc.prems(4) st Inr True by (simp add: bind_prog_def)
      have "nat (dp_max_actions D - cs_action_count s1) < n"
        using s1(4)[OF d] Suc.prems(3) by (auto simp: has_budget_def)
      then obtain s' where "good v" "\<forall>t'. t' \<noteq> t \<longrightarrow> sessions v t' = sessions u t'"
        and s': "sessions v t = Some s'" "run_post D s1 s'"
          "case r of Inl e \<Rightarrow> cs_status s' = DECIDING \<or> cs_status s' = cs_status s1
            | Inr None \<Rightarrow> False
            | Inr (Some out) \<Rightarrow> cs_status s' \<noteq> DECIDING \<and> out = outcome_of s' (co_reason out)"
        using Suc.IH[OF u, of s1] s1(1) run by auto
      moreover have "run_post D s s'" using run_post_trans[OF s1(2) s'(2)] d by simp
      ultimately show ?thesis using s1(1) d by (auto split: sum.splits option.splits)
    qed
  qed
qed

end

end
