(* ===== verification/Application.thy ===== *)
theory Application
  imports HarnessLoop
begin

text \<open>
  \<^verbatim>\<open>application/service.py\<close>, the in-memory session store of \<^verbatim>\<open>core/harness.py\<close>, the scripted
  model of \<^verbatim>\<open>adapters/llm/scripted_mock.py\<close> and the demo runtime of \<^verbatim>\<open>composition.py\<close>. The
  interfaces of \<open>HarnessLoop\<close> are interpreted on the in-memory store with any components; the
  properties of the loop are stated here for it.
\<close>

section \<open>The in-memory store\<close>

record 'x mem_world =
  mw_sessions :: "task_id \<Rightarrow> core_session option"
  mw_rest :: 'x

definition mem_load :: "task_id \<Rightarrow> ('x mem_world, core_session) prog" where
  "mem_load t w = (case mw_sessions w t of None \<Rightarrow> (Inl (KeyError ''''), w) | Some s \<Rightarrow> (Inr s, w))"

definition mem_save :: "core_session \<Rightarrow> ('x mem_world, unit) prog" where
  "mem_save s w = (Inr (), w\<lparr>mw_sessions := (mw_sessions w)(cs_task_id s \<mapsto> s)\<rparr>)"

text \<open>Every session is stored under its own task.\<close>

definition mem_ok :: "'x mem_world \<Rightarrow> bool" where
  "mem_ok w \<longleftrightarrow> (\<forall>t s. mw_sessions w t = Some s \<longrightarrow> cs_task_id s = t)"

interpretation mem_store: session_store mem_load mem_save mw_sessions mem_ok
  by unfold_locales (auto simp: mem_load_def mem_save_def mem_ok_def split: option.splits if_splits)

section \<open>Wiring the core\<close>

text \<open>The collaborators of a core other than its store, over a world of their own.\<close>

record 'x components =
  cm_safe :: "pystr \<Rightarrow> pystr"
  cm_sha :: "bytes \<Rightarrow> pystr"
  cm_tables :: unicode_tables
  cm_max_history :: int
  cm_generate :: "prompt_context \<Rightarrow> ('x, raw_action) prog"
  cm_prepare :: "(pystr \<Rightarrow> ('x, prepared_patch) prog) option"
  cm_resolve :: "(prepared_patch \<Rightarrow> ('x, patch_safety) prog) option"
  cm_execute :: "action \<Rightarrow> ('x, action_execution) prog"
  cm_execute_patch :: "prepared_patch \<Rightarrow> ('x, action_execution) prog"
  cm_full_tests :: "('x, action_execution) prog"
  cm_max_actions :: int
  cm_max_feedback :: int

definition on_rest :: "('x, 'a) prog \<Rightarrow> ('x mem_world, 'a) prog" where
  "on_rest m w = (case m (mw_rest w) of (r, x) \<Rightarrow> (r, w\<lparr>mw_rest := x\<rparr>))"

definition in_memory_core :: "'x components \<Rightarrow> 'x mem_world core_deps" where
  "in_memory_core C =
     \<lparr>dp_load = mem_load, dp_save = mem_save,
      dp_build = build_context (cm_safe C) (cm_sha C) (cm_max_history C),
      dp_generate = (\<lambda>c. on_rest (cm_generate C c)),
      dp_tables = cm_tables C,
      dp_evaluate = policy_evaluate,
      dp_prepare = map_option (\<lambda>f d. on_rest (f d)) (cm_prepare C),
      dp_resolve = map_option (\<lambda>f p. on_rest (f p)) (cm_resolve C),
      dp_execute = (\<lambda>a. on_rest (cm_execute C a)),
      dp_execute_patch = (\<lambda>p. on_rest (cm_execute_patch C p)),
      dp_full_tests = on_rest (cm_full_tests C),
      dp_analyze = analyze (cm_sha C),
      dp_max_actions = cm_max_actions C, dp_max_feedback = cm_max_feedback C\<rparr>"

lemma core_sel [simp]:
  "dp_load (in_memory_core C) = mem_load" "dp_save (in_memory_core C) = mem_save"
  "dp_build (in_memory_core C) = build_context (cm_safe C) (cm_sha C) (cm_max_history C)"
  "dp_generate (in_memory_core C) c = on_rest (cm_generate C c)"
  "dp_tables (in_memory_core C) = cm_tables C" "dp_evaluate (in_memory_core C) = policy_evaluate"
  "dp_execute (in_memory_core C) a = on_rest (cm_execute C a)"
  "dp_execute_patch (in_memory_core C) p = on_rest (cm_execute_patch C p)"
  "dp_full_tests (in_memory_core C) = on_rest (cm_full_tests C)"
  "dp_analyze (in_memory_core C) = analyze (cm_sha C)"
  "dp_max_actions (in_memory_core C) = cm_max_actions C"
  "dp_max_feedback (in_memory_core C) = cm_max_feedback C"
  by (simp_all add: in_memory_core_def)

lemma frame_on_rest [simp]: "frame mem_ok mw_sessions (on_rest m)"
  by (auto simp: frame_def on_rest_def mem_ok_def split: prod.splits)

interpretation mem: core_env "in_memory_core C" mw_sessions mem_ok for C
proof (unfold_locales, goal_cases)
  case (1 w t r v)
  then show ?case using mem_store.load by simp
next
  case (2 w s q v)
  then show ?case using mem_store.save by simp
qed (auto simp: mem_ok_def in_memory_core_def)

section \<open>The application service\<close>

record 'w app_service =
  as_core :: "'w core_deps option"
  as_load :: "(task_id \<Rightarrow> ('w, core_session) prog) option"
  as_save :: "(core_session \<Rightarrow> ('w, unit) prog) option"

text \<open>\<open>ApplicationService(core)\<close>: the core's store unless another one is given.\<close>

definition service_of :: "'w core_deps \<Rightarrow> 'w app_service" where
  "service_of D = \<lparr>as_core = Some D, as_load = Some (dp_load D), as_save = Some (dp_save D)\<rparr>"

definition run_task :: "'w app_service \<Rightarrow> nat \<Rightarrow> task_id \<Rightarrow> ('w, core_outcome option) prog" where
  "run_task S fuel t = (case as_core S of
       None \<Rightarrow> raise (ValueError ''task execution is unavailable'')
     | Some D \<Rightarrow> core_run D fuel t)"

definition run_session :: "'w app_service \<Rightarrow> nat \<Rightarrow> core_session \<Rightarrow> ('w, core_outcome option) prog" where
  "run_session S fuel s = (case as_save S of
       None \<Rightarrow> raise (ValueError ''task storage is unavailable'')
     | Some save \<Rightarrow> bind_prog (save s) (\<lambda>_. run_task S fuel (cs_task_id s)))"

definition status_task :: "'w app_service \<Rightarrow> task_id \<Rightarrow> ('w, core_session) prog" where
  "status_task S t = (case as_load S of
       None \<Rightarrow> raise (ValueError ''task storage is unavailable'')
     | Some load \<Rightarrow> load t)"

definition resume_task :: "'w app_service \<Rightarrow> nat \<Rightarrow> task_id \<Rightarrow> ('w, core_outcome option) prog" where
  "resume_task S fuel t = (case (as_core S, as_load S, as_save S) of
       (Some D, Some load, Some save) \<Rightarrow>
         bind_prog (load t) (\<lambda>s.
           if cs_status s \<noteq> PAUSED_FOR_HUMAN then raise (ValueError ''task is not resumable'')
           else bind_prog (save (s\<lparr>cs_status := DECIDING\<rparr>)) (\<lambda>_. core_run D fuel t))
     | _ \<Rightarrow> raise (ValueError ''task execution is unavailable''))"

section \<open>Properties of a run\<close>

text \<open>C1. A run ends. From any stored session, with more fuel than the actions left in its budget,
  the loop either raises or returns an outcome, and that outcome is no longer \<open>DECIDING\<close> and is
  the status and counts of the stored session; the counts stay within the limits or where they
  were, the histories only grow, the task's own fields and every other task's session are
  unchanged.\<close>

theorem run_ends:
  assumes "mem_ok w" "mw_sessions w t = Some s"
    and "nat (cm_max_actions C - cs_action_count s) < fuel"
    and "core_run (in_memory_core C) fuel t w = (r, v)"
  shows "r \<noteq> Inr None \<and> (\<forall>t'. t' \<noteq> t \<longrightarrow> mw_sessions v t' = mw_sessions w t')
    \<and> (\<exists>s'. mw_sessions v t = Some s' \<and> same_task s s'
         \<and> prefix (cs_history s) (cs_history s')
         \<and> prefix (cs_result_history s) (cs_result_history s')
         \<and> cs_action_count s' \<le> max (cs_action_count s) (cm_max_actions C)
         \<and> cs_feedback_count s' \<le> max (cs_feedback_count s) (cm_max_feedback C)
         \<and> (\<forall>out. r = Inr (Some out) \<longrightarrow>
              co_status out \<noteq> DECIDING \<and> out = outcome_of s' (co_reason out)))"
proof -
  note R = mem.run_result[OF assms(1,2), of C fuel r v]
  have "mem_ok v \<and> (\<forall>t'. t' \<noteq> t \<longrightarrow> mw_sessions v t' = mw_sessions w t')
    \<and> (\<exists>s'. mw_sessions v t = Some s' \<and> run_post (in_memory_core C) s s'
         \<and> (case r of Inl e \<Rightarrow> cs_status s' = DECIDING \<or> cs_status s' = cs_status s
            | Inr None \<Rightarrow> False
            | Inr (Some out) \<Rightarrow> cs_status s' \<noteq> DECIDING \<and> out = outcome_of s' (co_reason out)))"
    using R assms(3,4) by simp
  then obtain s' where other: "\<forall>t'. t' \<noteq> t \<longrightarrow> mw_sessions v t' = mw_sessions w t'"
    and s': "mw_sessions v t = Some s'" "run_post (in_memory_core C) s s'"
    and r: "case r of Inl e \<Rightarrow> cs_status s' = DECIDING \<or> cs_status s' = cs_status s
            | Inr None \<Rightarrow> False
            | Inr (Some out) \<Rightarrow> cs_status s' \<noteq> DECIDING \<and> out = outcome_of s' (co_reason out)"
    by blast
  have "co_status out \<noteq> DECIDING" if "r = Inr (Some out)" for out
    using r that by (simp add: outcome_of_def) (metis core_outcome.select_convs(1))
  then show ?thesis
    using other s' r by (auto simp: run_post_def split: sum.splits option.splits)
qed

lemma analyze_passed:
  assumes "analyze sha p c h = Inr fb" "fd_kind fb = FB_PASSED"
  shows "pr_outcome c = PO_PASSED"
proof (rule ccontr)
  assume n: "pr_outcome c \<noteq> PO_PASSED"
  have k: "compare_kind sha fp q c = Inr k \<Longrightarrow> k \<noteq> FB_PASSED" for fp q k
    by (auto simp: compare_kind_def Let_def bind_res_Inr split: if_splits)
  show False
    using assms n
    by (cases "pr_outcome c")
      (auto simp: analyze_def Let_def bind_res_Inr split: option.splits
        dest!: check_feedback_decision_same dest: k)
qed

text \<open>C2. A run that turns a session into \<open>SUCCEEDED\<close> has evidence: some execution of the core's test
  runner or executor carried a test run outside the focused phase, without workspace drift, whose
  parsed result passed, and that result with the execution's source revision is the last of the
  stored result history.\<close>

theorem success_has_evidence:
  assumes "mem_ok w" "mw_sessions w t = Some s" "cs_status s \<noteq> SUCCEEDED"
    and "nat (cm_max_actions C - cs_action_count s) < fuel"
    and "core_run (in_memory_core C) fuel t w = (Inr (Some out), v)" "co_status out = SUCCEEDED"
  shows "\<exists>s' ex run parsed. mw_sessions v t = Some s' \<and> executed (in_memory_core C) ex
    \<and> ae_test_run ex = Some run \<and> tn_phase run \<noteq> FOCUSED \<and> tn_outcome run \<noteq> RUN_WORKSPACE_DRIFT
    \<and> ae_parsed_result ex = Some parsed \<and> pr_outcome parsed = PO_PASSED
    \<and> cs_result_history s' \<noteq> []
    \<and> last (cs_result_history s') = parsed\<lparr>pr_revision := ae_source_revision ex\<rparr>"
proof -
  have "\<exists>s'. mw_sessions v t = Some s' \<and> run_post (in_memory_core C) s s'
    \<and> cs_status s' \<noteq> DECIDING \<and> out = outcome_of s' (co_reason out)"
    using mem.run_result[OF assms(1,2), of C fuel "Inr (Some out)" v] assms(4,5) by simp
  then obtain s' where s': "mw_sessions v t = Some s'" "run_post (in_memory_core C) s s'"
    "out = outcome_of s' (co_reason out)" by blast
  have "cs_status s' = SUCCEEDED"
    using s'(3) assms(6) by (metis outcome_of_def core_outcome.select_convs(1))
  then obtain b where "success_evidence (in_memory_core C) b s'"
    using s'(2) assms(3) by (auto simp: run_post_def)
  then obtain ex run parsed fb where e: "executed (in_memory_core C) ex" "ae_test_run ex = Some run"
      "tn_phase run \<noteq> FOCUSED" "tn_outcome run \<noteq> RUN_WORKSPACE_DRIFT"
      "ae_parsed_result ex = Some parsed"
      "cs_result_history s' = cs_result_history b @ [parsed\<lparr>pr_revision := ae_source_revision ex\<rparr>]"
    and fb: "analyze (cm_sha C) (cs_previous_result b) (parsed\<lparr>pr_revision := ae_source_revision ex\<rparr>)
        (cs_result_history b) = Inr fb" "fd_kind fb = FB_PASSED"
    by (auto simp: success_evidence_def)
  have "pr_outcome parsed = PO_PASSED" using analyze_passed[OF fb] by simp
  then show ?thesis using s'(1) e by auto
qed

section \<open>A step that executes an action\<close>

definition is_patch_or_human :: "action \<Rightarrow> bool" where
  "is_patch_or_human act = (case act of ApplyPatch _ \<Rightarrow> True | RequestHuman _ \<Rightarrow> True | _ \<Rightarrow> False)"

text \<open>The action the model chooses next for a session, what its execution returns, and the world
  after it, when the action is neither a patch nor a request for a human.\<close>

definition next_execution ::
    "'x components \<Rightarrow> core_session \<Rightarrow> 'x \<Rightarrow> (action \<times> action_execution \<times> 'x) option" where
  "next_execution C s x =
     (case bind_res (check_snapshot (session_snapshot (in_memory_core C) s))
         (build_context (cm_safe C) (cm_sha C) (cm_max_history C)) of
        Inl _ \<Rightarrow> None
      | Inr context \<Rightarrow>
          (case cm_generate C context x of
             (Inl _, _) \<Rightarrow> None
           | (Inr raw, x1) \<Rightarrow>
               (case parse_action (cm_tables C) raw of
                  Inl _ \<Rightarrow> None
                | Inr act \<Rightarrow>
                    if is_patch_or_human act then None
                    else (case cm_execute C act x1 of
                        (Inl _, _) \<Rightarrow> None
                      | (Inr ex, x2) \<Rightarrow> Some (act, ex, x2)))))"

definition counted :: "core_session \<Rightarrow> core_session" where
  "counted s = s\<lparr>cs_action_count := cs_action_count s + 1\<rparr>"

lemma step_executes:
  assumes "mw_sessions w t = Some s" "cs_status s = DECIDING"
    and "cs_action_count s < cm_max_actions C" "cs_feedback_count s < cm_max_feedback C"
    and "next_execution C s (mw_rest w) = Some (act, ex, x)" "\<not> ae_unknown_outcome ex"
  shows "core_step (in_memory_core C) t w =
    bind_prog (lift_res (append_history (counted s) (lit (action_type act)) (ae_safe_summary ex)))
      (\<lambda>s1. consider_tests (in_memory_core C) s1 ex) (w\<lparr>mw_rest := x\<rparr>)"
proof -
  obtain cx where ctx: "bind_res (check_snapshot (session_snapshot (in_memory_core C) s))
      (build_context (cm_safe C) (cm_sha C) (cm_max_history C)) = Inr cx"
    using assms(5) by (auto simp: next_execution_def split: sum.splits)
  obtain raw x1 where gen: "cm_generate C cx (mw_rest w) = (Inr raw, x1)"
    using assms(5) ctx by (auto simp: next_execution_def split: sum.splits prod.splits)
  have act: "parse_action (cm_tables C) raw = Inr act" "\<not> is_patch_or_human act"
    and ex: "cm_execute C act x1 = (Inr ex, x)"
    using assms(5) ctx gen
    by (auto simp: next_execution_def split: sum.splits prod.splits if_splits)
  have "core_step (in_memory_core C) t w
      = decide (in_memory_core C) (counted s) raw (w\<lparr>mw_rest := x1\<rparr>)"
    using assms(1-4) ctx gen
    by (simp add: core_step_def bind_prog_def mem_load_def on_rest_def counted_def)
  also have "\<dots> = perform (in_memory_core C) (counted s) act None (w\<lparr>mw_rest := x1\<rparr>)"
    using act default_facts_allowed
    by (cases act) (simp_all add: decide_def is_patch_or_human_def govern_def)
  also have "\<dots> = bind_prog (lift_res (append_history (counted s) (lit (action_type act))
      (ae_safe_summary ex))) (\<lambda>s1. consider_tests (in_memory_core C) s1 ex) (w\<lparr>mw_rest := x\<rparr>)"
    using ex assms(6) by (simp add: perform_def bind_prog_def on_rest_def)
  finally show ?thesis .
qed

text \<open>An action whose safe summary is longer than 8192 characters makes the step raise a
  validation error after the action has run: neither the action count nor the history is stored,
  so the session stays where it was.\<close>

theorem long_summary_raises:
  assumes "mw_sessions w t = Some s" "cs_status s = DECIDING"
    and "cs_action_count s < cm_max_actions C" "cs_feedback_count s < cm_max_feedback C"
    and "next_execution C s (mw_rest w) = Some (act, ex, x)" "\<not> ae_unknown_outcome ex"
    and "py_len (ae_safe_summary ex) > 8192"
  shows "core_step (in_memory_core C) t w = (Inl ValidationError, w\<lparr>mw_rest := x\<rparr>)"
proof -
  have "append_history (counted s) (lit (action_type act)) (ae_safe_summary ex) = Inl ValidationError"
    using assms(7) by (simp add: append_history_def check_history_entry_def)
  then show ?thesis by (simp add: step_executes[OF assms(1-6)] bind_prog_def)
qed

text \<open>The first test result of a task is never classified: when it is an environment error or
  unparseable, the task goes on deciding with that result as the one to compare the next with,
  although the same result after another one pauses the task for a human.\<close>

theorem first_unreliable_result:
  assumes "mw_sessions w t = Some s" "cs_status s = DECIDING" "cs_task_id s = t"
    and "cs_action_count s < cm_max_actions C" "cs_feedback_count s + 1 < cm_max_feedback C"
    and "next_execution C s (mw_rest w) = Some (act, ex, x)" "\<not> ae_unknown_outcome ex"
    and "py_len (ae_safe_summary ex) \<le> 8192"
    and "ae_test_run ex = Some run" "tn_outcome run \<noteq> RUN_WORKSPACE_DRIFT"
    and "ae_parsed_result ex = Some parsed"
    and "pr_outcome parsed \<in> {PO_ENVIRONMENT_ERROR, PO_UNPARSEABLE}"
  shows "\<exists>out v s'. mw_sessions v t = Some s' \<and>
    (cs_previous_result s = None \<longrightarrow> core_step (in_memory_core C) t w = (Inr out, v)
       \<and> co_status out = DECIDING \<and> co_reason out = ''feedback'' \<and> cs_status s' = DECIDING
       \<and> cs_previous_result s' = Some (parsed\<lparr>pr_revision := ae_source_revision ex\<rparr>))
    \<and> (\<forall>fb. cs_previous_result s \<noteq> None \<and> analyze (cm_sha C) (cs_previous_result s)
          (parsed\<lparr>pr_revision := ae_source_revision ex\<rparr>) (cs_result_history s) = Inr fb \<longrightarrow>
        core_step (in_memory_core C) t w = (Inr out, v)
        \<and> co_status out = PAUSED_FOR_HUMAN \<and> cs_status s' = PAUSED_FOR_HUMAN)"
proof -
  let ?D = "in_memory_core C"
  let ?c = "parsed\<lparr>pr_revision := ae_source_revision ex\<rparr>"
  obtain s1 where s1: "append_history (counted s) (lit (action_type act)) (ae_safe_summary ex) = Inr s1"
    "cs_previous_result s1 = cs_previous_result s" "cs_result_history s1 = cs_result_history s"
    "cs_feedback_count s1 = cs_feedback_count s" "cs_status s1 = DECIDING" "cs_task_id s1 = t"
    using assms(2,3,8)
    by (simp add: append_history_def check_history_entry_def counted_def)
  have fc: "cs_feedback_count s < cm_max_feedback C" using assms(5) by simp
  have step: "core_step ?D t w = consider_tests ?D s1 ex (w\<lparr>mw_rest := x\<rparr>)"
    using step_executes[OF assms(1,2,4) fc assms(6,7)] s1(1) by (simp add: bind_prog_def)
  show ?thesis
  proof (cases "cs_previous_result s")
    case None
    let ?s' = "record_result s1 ?c (pr_summary parsed)"
    have "core_step ?D t w = save_as ?D ?s' ''feedback'' (w\<lparr>mw_rest := x\<rparr>)"
      using step None s1 assms(5,9-12)
      by (auto simp: consider_tests_def Let_def feedback_gate_def record_result_def)
    then show ?thesis
      using None s1
      by (auto simp: save_as_def bind_prog_def mem_save_def outcome_of_def record_result_def
          intro!: exI[of _ "outcome_of ?s' ''feedback''"] exI[of _ "snd (core_step ?D t w)"])
  next
    case (Some p)
    show ?thesis
    proof (cases "analyze (cm_sha C) (cs_previous_result s) ?c (cs_result_history s)")
      case (Inl e)
      then show ?thesis using Some assms(1) by auto
    next
      case (Inr fb)
      have k: "fd_kind fb \<in> {FB_ENVIRONMENT_ERROR, FB_UNPARSEABLE}"
        using Inr assms(12)
        by (auto simp: analyze_def Let_def bind_res_Inr dest!: check_feedback_decision_same)
      let ?s' = "with_status PAUSED_FOR_HUMAN (record_result s1 ?c (fd_summary fb))"
      have "core_step ?D t w = save_as ?D ?s' (feedback_kind_value (fd_kind fb)) (w\<lparr>mw_rest := x\<rparr>)"
        using step Some s1 assms(9-12) Inr k
        by (auto simp: consider_tests_def Let_def feedback_gate_def bind_prog_def)
      then show ?thesis
        using Some Inr s1
        by (auto simp: save_as_def bind_prog_def mem_save_def outcome_of_def record_result_def
            with_status_def intro!: exI[of _ "outcome_of ?s' (feedback_kind_value (fd_kind fb))"]
            exI[of _ "snd (core_step ?D t w)"])
    qed
  qed
qed

text \<open>A task that waits for an approval is stuck: running it returns at once, resuming it raises,
  and neither changes the world, whatever the components.\<close>

theorem awaiting_approval_stuck:
  assumes "mw_sessions w t = Some s" "cs_status s = AWAITING_APPROVAL"
  shows "core_run (in_memory_core C) (Suc fuel) t w = (Inr (Some (outcome_of s ''not_deciding'')), w)
    \<and> resume_task (service_of (in_memory_core C)) fuel t w
        = (Inl (ValueError ''task is not resumable''), w)"
  using assms
  by (simp add: core_step_def bind_prog_def mem_load_def outcome_of_def resume_task_def
      service_of_def)

end
