(* ===== verification/Demo.thy ===== *)
theory Demo
  imports Application
begin

text \<open>
  The scripted model of \<^verbatim>\<open>adapters/llm/scripted_mock.py\<close> and the fixed demo runtime of
  \<^verbatim>\<open>composition.py\<close> (\<open>_DemoRuntime\<close>): the harness run end to end on one scripted patch. The run
  and artifact identifiers, which the source draws at random, are the argument \<open>new_id\<close>.
\<close>

section \<open>The scripted model\<close>

record scripted_llm =
  sl_actions :: "raw_action list"
  sl_index :: nat
  sl_contexts :: "prompt_context list"

definition scripted :: "raw_action list \<Rightarrow> scripted_llm" where
  "scripted actions = \<lparr>sl_actions = actions, sl_index = 0, sl_contexts = []\<rparr>"

definition scripted_generate :: "prompt_context \<Rightarrow> (scripted_llm, raw_action) prog" where
  "scripted_generate c m =
     (let m1 = m\<lparr>sl_contexts := sl_contexts m @ [c]\<rparr>
      in if sl_index m1 \<ge> length (sl_actions m1)
         then (Inl (RuntimeError ''script exhausted''), m1)
         else (Inr (sl_actions m1 ! sl_index m1), m1\<lparr>sl_index := sl_index m1 + 1\<rparr>))"

section \<open>The demo runtime\<close>

definition demo_task_id :: task_id where
  "demo_task_id = TaskId (UUID 0x123e4567e89b42d3a456426614174000)"

definition demo_hash :: pystr where
  "demo_hash = replicate 64 97"

definition demo_safety :: patch_safety where
  "demo_safety = \<lparr>ps_path_escape = False, ps_symlink = False, ps_binary = False, ps_shell = False,
     ps_capability_missing = False, ps_demo_escape = False\<rparr>"

definition demo_snapshot :: snapshot where
  "demo_snapshot p =
     (if p = lit ''counter.py'' then Some (map of_int (lit ''return 0'' @ [10])) else None)"

definition demo_execution :: "string \<Rightarrow> string \<Rightarrow> action_execution" where
  "demo_execution summary revision =
     \<lparr>ae_safe_summary = lit summary, ae_source_revision = lit revision, ae_test_run = None,
      ae_parsed_result = None, ae_unknown_outcome = False\<rparr>"

definition demo_ref :: "uuid \<Rightarrow> string \<Rightarrow> artifact_ref" where
  "demo_ref i schema =
     \<lparr>ar_artifact_id = i, ar_task_id = demo_task_id, ar_schema_id = lit schema,
      ar_schema_version = 1, ar_media_type = lit ''application/json'', ar_byte_length = 2,
      ar_sha256 = demo_hash\<rparr>"

definition demo_test_run :: "uuid \<Rightarrow> test_run" where
  "demo_test_run i =
     \<lparr>tn_run_id = i, tn_task_id = demo_task_id, tn_phase = POST_PATCH, tn_outcome = RUN_PASSED,
      tn_command = [lit ''pytest'', lit ''-q''], tn_base_commit = replicate 40 97,
      tn_config_sha256 = demo_hash, tn_environment_sha256 = demo_hash,
      tn_before_sha256 = demo_hash, tn_after_sha256 = demo_hash,
      tn_started_at = \<lparr>dt_us = 1767225600000000, dt_native_utc = True\<rparr>,
      tn_finished_at = \<lparr>dt_us = 1767225601000000, dt_native_utc = True\<rparr>, tn_duration_ms = 1000,
      tn_exit_code = Some 0, tn_output_ref = demo_ref i ''sanitized_test_output'',
      tn_parsed_ref = Some (demo_ref i ''parsed_result'')\<rparr>"

definition demo_parsed :: "uuid \<Rightarrow> parsed_result" where
  "demo_parsed i =
     \<lparr>pr_run_id = i, pr_phase = POST_PATCH, pr_outcome = PO_PASSED, pr_node_ids = [],
      pr_exception_type = None, pr_summary = lit ''pytest passed'', pr_frames = [],
      pr_truncated = False, pr_revision = lit ''demo-b''\<rparr>"

definition demo_full_tests :: "uuid \<Rightarrow> ('x, action_execution) prog" where
  "demo_full_tests i = lift_res
     (bind_res (check_test_run (demo_test_run i)) (\<lambda>run.
      bind_res (check_parsed_result (demo_parsed i)) (\<lambda>parsed.
        Inr ((demo_execution ''pytest passed'' ''demo-b'')
          \<lparr>ae_test_run := Some run, ae_parsed_result := Some parsed\<rparr>))))"

text \<open>The wiring of \<open>_DemoRuntime.run\<close>; the limits are the defaults of \<open>HarnessCore\<close>.\<close>

definition demo_components ::
    "(pystr \<Rightarrow> pystr) \<Rightarrow> (bytes \<Rightarrow> pystr) \<Rightarrow> unicode_tables \<Rightarrow> uuid \<Rightarrow> scripted_llm components" where
  "demo_components safe sha tables new_id =
     \<lparr>cm_safe = safe, cm_sha = sha, cm_tables = tables, cm_max_history = 8,
      cm_generate = scripted_generate,
      cm_prepare = Some (\<lambda>diff. lift_res (prepare_patch sha diff demo_snapshot)),
      cm_resolve = Some (\<lambda>pp. ret demo_safety),
      cm_execute = (\<lambda>act. ret (demo_execution ''inspection completed'' ''demo-a'')),
      cm_execute_patch = (\<lambda>pp. ret (demo_execution ''patch applied'' ''demo-b'')),
      cm_full_tests = demo_full_tests new_id,
      cm_max_actions = 40, cm_max_feedback = 8\<rparr>"

definition demo_session :: "pystr \<Rightarrow> core_session" where
  "demo_session description =
     \<lparr>cs_task_id = demo_task_id, cs_user_task = description, cs_config_summary = lit ''demo'',
      cs_workspace_summary = lit ''offline demo workspace'', cs_status = DECIDING,
      cs_history = [], cs_previous_result = None, cs_result_history = [],
      cs_feedback_summary = None, cs_action_count = 0, cs_feedback_count = 0\<rparr>"

definition demo_diff :: pystr where
  "demo_diff = concat (map (\<lambda>l. l @ [10]) [lit ''--- a/counter.py'', lit ''+++ b/counter.py'',
     lit ''@@ -1 +1 @@'', lit ''-return 0'', lit ''+return 1''])"

definition demo_script :: "raw_action list" where
  "demo_script = [RawDict [(lit ''type'', JStr (lit ''apply_patch'')), (lit ''diff'', JStr demo_diff)]]"

definition demo_world :: "raw_action list \<Rightarrow> pystr \<Rightarrow> scripted_llm mem_world" where
  "demo_world script description = \<lparr>mw_sessions = (\<lambda>t. None)(demo_task_id \<mapsto> demo_session description),
     mw_rest = scripted script\<rparr>"

definition demo_run ::
    "scripted_llm components \<Rightarrow> bool \<Rightarrow> bool \<Rightarrow> pystr \<Rightarrow> core_outcome option res" where
  "demo_run C mode_is_demo trust description =
     (if \<not> mode_is_demo \<or> \<not> trust then Inl (ValueError ''demo trust is required'')
      else fst (run_task (service_of (in_memory_core C)) 41 demo_task_id
             (demo_world demo_script description)))"

definition plain_components :: "scripted_llm components" where
  "plain_components = demo_components (\<lambda>s. s) (\<lambda>b. demo_hash) ascii_tables sample_uuid"

section \<open>The demo runs to success\<close>

lemma demo_core_run:
  "fst (core_run (in_memory_core plain_components) 41 demo_task_id (demo_world demo_script (lit ''fix'')))
     = Inr (Some \<lparr>co_status = SUCCEEDED, co_action_count = 1, co_feedback_count = 1,
                   co_reason = ''tests_passed''\<rparr>)"
  by code_simp

lemma demo_world_props:
  "mem_ok (demo_world script d)"
  "mw_sessions (demo_world script d) demo_task_id = Some (demo_session d)"
  "cm_max_actions plain_components = 40" "cm_max_feedback plain_components = 8"
  by (auto simp: mem_ok_def demo_world_def demo_session_def plain_components_def demo_components_def
      split: if_splits)

theorem run_ends_witness:
  "fst (core_run (in_memory_core plain_components) 41 demo_task_id
     (demo_world demo_script (lit ''fix''))) \<noteq> Inr None"
proof -
  obtain r v where rv: "core_run (in_memory_core plain_components) 41 demo_task_id
      (demo_world demo_script (lit ''fix'')) = (r, v)" by fastforce
  have "nat (cm_max_actions plain_components - cs_action_count (demo_session (lit ''fix''))) < 41"
    by (simp add: demo_world_props demo_session_def)
  from run_ends[OF demo_world_props(1,2) this rv] rv show ?thesis by simp
qed

theorem success_has_evidence_witness:
  "\<exists>s'. mw_sessions (snd (core_run (in_memory_core plain_components) 41 demo_task_id
       (demo_world demo_script (lit ''fix'')))) demo_task_id = Some s' \<and> cs_result_history s' \<noteq> []"
proof -
  let ?out = "\<lparr>co_status = SUCCEEDED, co_action_count = 1, co_feedback_count = 1,
                   co_reason = ''tests_passed''\<rparr>"
  obtain v where rv: "core_run (in_memory_core plain_components) 41 demo_task_id
      (demo_world demo_script (lit ''fix'')) = (Inr (Some ?out), v)"
    using demo_core_run by (metis prod.collapse)
  have fuel: "nat (cm_max_actions plain_components - cs_action_count (demo_session (lit ''fix''))) < 41"
    and "cs_status (demo_session (lit ''fix'')) \<noteq> SUCCEEDED"
    by (simp_all add: demo_world_props demo_session_def)
  from success_has_evidence[OF demo_world_props(1,2) this(2) fuel rv] rv show ?thesis by auto
qed

section \<open>Components that misbehave\<close>

definition status_script :: "raw_action list" where
  "status_script = [RawDict [(lit ''type'', JStr (lit ''git_status''))]]"

definition executing :: "action_execution \<Rightarrow> scripted_llm components" where
  "executing ex = plain_components\<lparr>cm_execute := (\<lambda>act. ret ex)\<rparr>"

lemma next_status:
  "\<exists>x. next_execution (executing ex) (demo_session (lit ''fix'')) (scripted status_script)
     = Some (GitStatus, ex, x)"
proof -
  let ?snap = "session_snapshot (in_memory_core plain_components) (demo_session (lit ''fix''))"
  have snap: "session_snapshot (in_memory_core (executing ex)) (demo_session (lit ''fix'')) = ?snap"
    by (simp add: session_snapshot_def executing_def)
  have "ok (bind_res (check_snapshot ?snap) (build_context (\<lambda>s. s) (\<lambda>b. demo_hash) 8))"
    by code_simp
  then obtain cx where cx:
    "bind_res (check_snapshot ?snap) (build_context (\<lambda>s. s) (\<lambda>b. demo_hash) 8) = Inr cx"
    unfolding ok_def by (auto split: sum.splits)
  have parse: "parse_action ascii_tables (hd status_script) = Inr GitStatus" by code_simp
  have C: "cm_safe (executing ex) = (\<lambda>s. s)" "cm_sha (executing ex) = (\<lambda>b. demo_hash)"
    "cm_max_history (executing ex) = 8" "cm_generate (executing ex) = scripted_generate"
    "cm_tables (executing ex) = ascii_tables" "cm_execute (executing ex) = (\<lambda>act. ret ex)"
    by (simp_all add: executing_def plain_components_def demo_components_def)
  have gen: "\<exists>x. scripted_generate cx (scripted status_script) = (Inr (hd status_script), x)"
    by (simp add: scripted_generate_def scripted_def status_script_def Let_def)
  show ?thesis
    using gen parse by (auto simp: next_execution_def C snap cx is_patch_or_human_def)
qed

definition long_execution :: action_execution where
  "long_execution = (demo_execution ''x'' ''r'')\<lparr>ae_safe_summary := replicate 8193 97\<rparr>"

theorem long_summary_raises_witness:
  "fst (core_step (in_memory_core (executing long_execution)) demo_task_id
     (demo_world status_script (lit ''fix''))) = Inl ValidationError
   \<and> mw_sessions (snd (core_step (in_memory_core (executing long_execution)) demo_task_id
     (demo_world status_script (lit ''fix'')))) demo_task_id = Some (demo_session (lit ''fix''))"
proof -
  obtain x where x: "next_execution (executing long_execution) (demo_session (lit ''fix''))
      (mw_rest (demo_world status_script (lit ''fix''))) = Some (GitStatus, long_execution, x)"
    using next_status by (auto simp: demo_world_def)
  have "\<not> ae_unknown_outcome long_execution" "py_len (ae_safe_summary long_execution) > 8192"
    by (simp_all add: long_execution_def demo_execution_def py_len_def)
  moreover have "cs_status (demo_session (lit ''fix'')) = DECIDING"
    "cs_action_count (demo_session (lit ''fix'')) < cm_max_actions (executing long_execution)"
    "cs_feedback_count (demo_session (lit ''fix'')) < cm_max_feedback (executing long_execution)"
    by (simp_all add: demo_session_def executing_def demo_world_props)
  ultimately show ?thesis
    using long_summary_raises[OF demo_world_props(2) _ _ _ x] demo_world_props(2) by simp
qed

definition broken_parsed :: parsed_result where
  "broken_parsed = (demo_parsed sample_uuid)\<lparr>pr_outcome := PO_ENVIRONMENT_ERROR\<rparr>"

definition broken_execution :: action_execution where
  "broken_execution = (demo_execution ''pytest environment unavailable'' ''r'')
     \<lparr>ae_test_run := Some (demo_test_run sample_uuid), ae_parsed_result := Some broken_parsed\<rparr>"

theorem first_unreliable_result_witness:
  "\<exists>out v. core_step (in_memory_core (executing broken_execution)) demo_task_id
     (demo_world status_script (lit ''fix'')) = (Inr out, v) \<and> co_status out = DECIDING"
proof -
  obtain x where x: "next_execution (executing broken_execution) (demo_session (lit ''fix''))
      (mw_rest (demo_world status_script (lit ''fix''))) = Some (GitStatus, broken_execution, x)"
    using next_status by (auto simp: demo_world_def)
  have b: "\<not> ae_unknown_outcome broken_execution" "py_len (ae_safe_summary broken_execution) \<le> 8192"
    "ae_test_run broken_execution = Some (demo_test_run sample_uuid)"
    "tn_outcome (demo_test_run sample_uuid) \<noteq> RUN_WORKSPACE_DRIFT"
    "ae_parsed_result broken_execution = Some broken_parsed"
    "pr_outcome broken_parsed \<in> {PO_ENVIRONMENT_ERROR, PO_UNPARSEABLE}"
    by (simp_all add: broken_execution_def demo_execution_def demo_test_run_def broken_parsed_def)
  have "cs_status (demo_session (lit ''fix'')) = DECIDING"
    "cs_task_id (demo_session (lit ''fix'')) = demo_task_id"
    "cs_previous_result (demo_session (lit ''fix'')) = None"
    "cs_action_count (demo_session (lit ''fix'')) < cm_max_actions (executing broken_execution)"
    "cs_feedback_count (demo_session (lit ''fix'')) + 1 < cm_max_feedback (executing broken_execution)"
    by (simp_all add: demo_session_def executing_def demo_world_props)
  then show ?thesis
    using first_unreliable_result[OF demo_world_props(2) _ _ _ _ x b] by blast
qed

theorem awaiting_approval_stuck_witness:
  "fst (resume_task (service_of (in_memory_core plain_components)) 41 demo_task_id
     (demo_world [] []\<lparr>mw_sessions := (\<lambda>t. Some (with_status AWAITING_APPROVAL (demo_session [])))\<rparr>))
     = Inl (ValueError ''task is not resumable'')"
  using awaiting_approval_stuck[of "demo_world [] []\<lparr>mw_sessions :=
      (\<lambda>t. Some (with_status AWAITING_APPROVAL (demo_session [])))\<rparr>"]
  by (simp add: with_status_def)

end
