(* ===== verification/StateStore.thy ===== *)
theory StateStore
  imports Models
begin

text \<open>
  \<^verbatim>\<open>adapters/sqlite/state_store.py\<close> over the tables of \<^verbatim>\<open>schema.sql\<close>: tasks with their lease,
  actions, approvals, execution intents and the feedback states the session store uses. A table
  is its rows in the order of insertion, the status columns hold the enum instead of its text, a
  primary or foreign key violation raises \<open>IntegrityError\<close> and changes nothing, and a
  transaction that rolls back gives the state it began with. The store owns its connection, so a
  statement outside a transaction commits at once. Times are microseconds; the column
  \<open>lease_until\<close> has text affinity, so the database compares timestamps as text, which is the
  numeric order as long as they have ten digits of seconds (from 2001 to 2286).
\<close>

section \<open>Tables\<close>

record task_row =
  tk_status :: task_status
  tk_lease_owner :: "pystr option"
  tk_lease_until :: "int option"

type_synonym action_key = "task_id \<times> uuid"

record db =
  db_tasks :: "(task_id \<times> task_row) list"
  db_actions :: "(action_key \<times> action_status) list"
  db_approvals :: "(action_key \<times> approval_status) list"
  db_intents :: "action_key list"
  db_feedback :: "(task_id \<times> pystr) list"

definition empty_db :: db where
  "empty_db = \<lparr>db_tasks = [], db_actions = [], db_approvals = [], db_intents = [], db_feedback = []\<rparr>"

type_synonym 'a db_prog = "(db, 'a) prog"

text \<open>\<open>UPDATE\<close>: change the row of a key; \<open>INSERT\<close>: a new row at the end.\<close>

fun update_row :: "'k \<Rightarrow> ('v \<Rightarrow> 'v) \<Rightarrow> ('k \<times> 'v) list \<Rightarrow> ('k \<times> 'v) list" where
  "update_row k f [] = []"
| "update_row k f ((k', v) # rows) =
     (if k' = k then (k', f v) # rows else (k', v) # update_row k f rows)"

definition insert_row :: "'k \<Rightarrow> 'v \<Rightarrow> ('k \<times> 'v) list \<Rightarrow> ('k \<times> 'v) list option" where
  "insert_row k v rows = (if map_of rows k \<noteq> None then None else Some (rows @ [(k, v)]))"

lemma map_of_update_row:
  "map_of (update_row k f rows) j = (if j = k then map_option f (map_of rows k) else map_of rows j)"
  by (induction rows) auto

lemma fst_update_row [simp]: "map fst (update_row k f rows) = map fst rows"
  by (induction rows) auto

lemma map_of_insert_row:
  "insert_row k v rows = Some rows' \<Longrightarrow> map_of rows' j = (if j = k then Some v else map_of rows j)"
  by (auto simp: insert_row_def map_add_def split: if_splits option.splits)

lemma fst_insert_row: "insert_row k v rows = Some rows' \<Longrightarrow> map fst rows' = map fst rows @ [k]"
  by (auto simp: insert_row_def split: if_splits)

lemma insert_row_fresh: "insert_row k v rows = Some rows' \<Longrightarrow> k \<notin> set (map fst rows)"
  by (auto simp: insert_row_def map_of_eq_None_iff split: if_splits)

section \<open>Tasks and actions\<close>

definition create_task :: "task_id \<Rightarrow> task_status \<Rightarrow> unit db_prog" where
  "create_task t st d =
     (case insert_row t \<lparr>tk_status = st, tk_lease_owner = None, tk_lease_until = None\<rparr> (db_tasks d) of
        None \<Rightarrow> (Inl IntegrityError, d)
      | Some rows \<Rightarrow> (Inr (), d\<lparr>db_tasks := rows\<rparr>))"

definition get_task_status :: "task_id \<Rightarrow> task_status db_prog" where
  "get_task_status t d =
     (case map_of (db_tasks d) t of
        None \<Rightarrow> (Inl (KeyError ''task not found''), d)
      | Some row \<Rightarrow> (Inr (tk_status row), d))"

definition compare_and_set_task_status ::
    "task_id \<Rightarrow> task_status \<Rightarrow> task_status \<Rightarrow> bool db_prog" where
  "compare_and_set_task_status t expected target d =
     (if map_option tk_status (map_of (db_tasks d) t) = Some expected
      then (Inr True, d\<lparr>db_tasks := update_row t (\<lambda>r. r\<lparr>tk_status := target\<rparr>) (db_tasks d)\<rparr>)
      else (Inr False, d))"

definition create_action :: "task_id \<Rightarrow> uuid \<Rightarrow> action_status \<Rightarrow> unit db_prog" where
  "create_action t a st d =
     (if map_of (db_tasks d) t = None then (Inl IntegrityError, d)
      else case insert_row (t, a) st (db_actions d) of
        None \<Rightarrow> (Inl IntegrityError, d)
      | Some rows \<Rightarrow> (Inr (), d\<lparr>db_actions := rows\<rparr>))"

definition get_action_status :: "task_id \<Rightarrow> uuid \<Rightarrow> action_status db_prog" where
  "get_action_status t a d =
     (case map_of (db_actions d) (t, a) of
        None \<Rightarrow> (Inl (KeyError ''action not found''), d)
      | Some st \<Rightarrow> (Inr st, d))"

definition compare_and_set_action_status ::
    "task_id \<Rightarrow> uuid \<Rightarrow> action_status \<Rightarrow> action_status \<Rightarrow> bool db_prog" where
  "compare_and_set_action_status t a expected target d =
     (if map_of (db_actions d) (t, a) = Some expected
      then (Inr True, d\<lparr>db_actions := update_row (t, a) (\<lambda>_. target) (db_actions d)\<rparr>)
      else (Inr False, d))"

record snapshot_row =
  sr_status :: task_status
  sr_actions :: "(uuid \<times> action_status) list"
  sr_approvals :: "(uuid \<times> approval_status) list"
  sr_intents :: "uuid list"

definition rows_of :: "task_id \<Rightarrow> (action_key \<times> 'v) list \<Rightarrow> (uuid \<times> 'v) list" where
  "rows_of t rows =
     sort_key fst (map (\<lambda>((_, a), v). (a, v)) (filter (\<lambda>((t', _), _). t' = t) rows))"

text \<open>The creation times of the intents are the database's clock and are left out.\<close>

definition load_snapshot :: "task_id \<Rightarrow> snapshot_row option db_prog" where
  "load_snapshot t d =
     (Inr (map_option (\<lambda>row.
        \<lparr>sr_status = tk_status row, sr_actions = rows_of t (db_actions d),
         sr_approvals = rows_of t (db_approvals d),
         sr_intents = map fst (rows_of t (map (\<lambda>k. (k, ())) (db_intents d)))\<rparr>)
        (map_of (db_tasks d) t)), d)"

section \<open>Leases\<close>

definition lease_active :: "int \<Rightarrow> task_row \<Rightarrow> bool" where
  "lease_active now r \<longleftrightarrow> tk_lease_owner r \<noteq> None
     \<and> (case tk_lease_until r of None \<Rightarrow> False | Some u \<Rightarrow> now \<le> u)"

definition lease_free_for :: "pystr \<Rightarrow> int \<Rightarrow> task_row \<Rightarrow> bool" where
  "lease_free_for owner now r \<longleftrightarrow>
     (case tk_lease_until r of None \<Rightarrow> True | Some u \<Rightarrow> u < now) \<or> tk_lease_owner r = Some owner"

definition acquire_lease :: "task_id \<Rightarrow> pystr \<Rightarrow> int \<Rightarrow> int \<Rightarrow> bool db_prog" where
  "acquire_lease t owner ttl_seconds now d =
     (let until = now + ttl_seconds * 1000000
      in case map_of (db_tasks d) t of
           None \<Rightarrow> (Inr False, d)
         | Some row \<Rightarrow>
             (case find (\<lambda>(_, r). lease_active now r) (db_tasks d) of
                Some (active, _) \<Rightarrow> if active \<noteq> t then (Inr False, d)
                  else if lease_free_for owner now row
                  then (Inr True, d\<lparr>db_tasks := update_row t
                         (\<lambda>r. r\<lparr>tk_lease_owner := Some owner, tk_lease_until := Some until\<rparr>)
                         (db_tasks d)\<rparr>)
                  else (Inr False, d)
              | None \<Rightarrow>
                  if lease_free_for owner now row
                  then (Inr True, d\<lparr>db_tasks := update_row t
                         (\<lambda>r. r\<lparr>tk_lease_owner := Some owner, tk_lease_until := Some until\<rparr>)
                         (db_tasks d)\<rparr>)
                  else (Inr False, d)))"

section \<open>Approvals and intents\<close>

definition create_approval :: "task_id \<Rightarrow> uuid \<Rightarrow> approval_status \<Rightarrow> unit db_prog" where
  "create_approval t a st d =
     (if map_of (db_actions d) (t, a) = None then (Inl IntegrityError, d)
      else case insert_row (t, a) st (db_approvals d) of
        None \<Rightarrow> (Inl IntegrityError, d)
      | Some rows \<Rightarrow> (Inr (), d\<lparr>db_approvals := rows\<rparr>))"

definition get_approval_status :: "task_id \<Rightarrow> uuid \<Rightarrow> approval_status db_prog" where
  "get_approval_status t a d =
     (case map_of (db_approvals d) (t, a) of
        None \<Rightarrow> (Inl (KeyError ''approval not found''), d)
      | Some st \<Rightarrow> (Inr st, d))"

definition record_approval_decision :: "task_id \<Rightarrow> uuid \<Rightarrow> approval_status \<Rightarrow> unit db_prog" where
  "record_approval_decision t a decision d =
     (if map_of (db_approvals d) (t, a) = Some APR_PENDING
      then (Inr (), d\<lparr>db_approvals := update_row (t, a) (\<lambda>_. decision) (db_approvals d)\<rparr>)
      else (Inr (), d))"

definition log_intent :: "task_id \<Rightarrow> uuid \<Rightarrow> unit db_prog" where
  "log_intent t a d =
     (if map_of (db_actions d) (t, a) = None \<or> (t, a) \<in> set (db_intents d)
      then (Inl IntegrityError, d)
      else (Inr (), d\<lparr>db_intents := db_intents d @ [(t, a)]\<rparr>))"

definition consume_approval :: "task_id \<Rightarrow> uuid \<Rightarrow> action_status \<Rightarrow> bool db_prog" where
  "consume_approval t a target d =
     (if map_of (db_approvals d) (t, a) \<noteq> Some APR_APPROVED then (Inr False, d)
      else if map_of (db_actions d) (t, a) \<noteq> Some ACT_AWAITING_APPROVAL then (Inr False, d)
      else if target \<noteq> ACT_EXECUTING
      then (Inl (ValueError ''approval consumption target must be executing''), d)
      else
        let d1 = d\<lparr>db_approvals := update_row (t, a) (\<lambda>_. APR_CONSUMED) (db_approvals d)\<rparr>;
            d2 = d1\<lparr>db_actions := update_row (t, a) (\<lambda>_. ACT_EXECUTING) (db_actions d1)\<rparr>
        in case log_intent t a d2 of
             (Inl e, _) \<Rightarrow> (Inl e, d)
           | (Inr _, d3) \<Rightarrow> (Inr True, d3))"

definition intent_count :: "task_id \<Rightarrow> uuid \<Rightarrow> int db_prog" where
  "intent_count t a d = (Inr (py_len (filter (\<lambda>k. k = (t, a)) (db_intents d))), d)"

definition recover_inflight :: "unit db_prog" where
  "recover_inflight d =
     (Inr (), d\<lparr>db_actions := map (\<lambda>(k, st). (k, if st = ACT_EXECUTING then ACT_UNKNOWN_OUTCOME else st))
                 (db_actions d)\<rparr>)"

definition can_retry_action :: "task_id \<Rightarrow> uuid \<Rightarrow> bool db_prog" where
  "can_retry_action t a = bind_prog (get_action_status t a)
     (\<lambda>st. ret (st \<notin> {ACT_UNKNOWN_OUTCOME, ACT_INTERRUPTED}))"

section \<open>Runs of the store\<close>

text \<open>Any caller may call any operation at any time; the clock does not go back.\<close>

datatype store_op =
    CreateTask task_id task_status
  | SetTask task_id task_status task_status
  | CreateAction task_id uuid action_status
  | SetAction task_id uuid action_status action_status
  | AcquireLease task_id pystr int
  | CreateApproval task_id uuid approval_status
  | DecideApproval task_id uuid approval_status
  | LogIntent task_id uuid
  | ConsumeApproval task_id uuid action_status
  | RecoverInflight

fun after_op :: "int \<Rightarrow> store_op \<Rightarrow> db \<Rightarrow> db" where
  "after_op now (CreateTask t st) d = snd (create_task t st d)"
| "after_op now (SetTask t x y) d = snd (compare_and_set_task_status t x y d)"
| "after_op now (CreateAction t a st) d = snd (create_action t a st d)"
| "after_op now (SetAction t a x y) d = snd (compare_and_set_action_status t a x y d)"
| "after_op now (AcquireLease t owner ttl) d = snd (acquire_lease t owner ttl now d)"
| "after_op now (CreateApproval t a st) d = snd (create_approval t a st d)"
| "after_op now (DecideApproval t a st) d = snd (record_approval_decision t a st d)"
| "after_op now (LogIntent t a) d = snd (log_intent t a d)"
| "after_op now (ConsumeApproval t a st) d = snd (consume_approval t a st d)"
| "after_op now RecoverInflight d = snd (recover_inflight d)"

inductive later :: "int \<Rightarrow> db \<Rightarrow> int \<Rightarrow> db \<Rightarrow> bool" where
  later_refl: "later now d now d"
| later_step: "later now d now1 d1 \<Longrightarrow> now1 \<le> now2 \<Longrightarrow> later now d now2 (after_op now2 op d1)"

definition reachable_db :: "int \<Rightarrow> db \<Rightarrow> bool" where
  "reachable_db now d \<longleftrightarrow> (\<exists>start. later start empty_db now d)"

section \<open>Integrity\<close>

definition keys :: "('k \<times> 'v) list \<Rightarrow> 'k set" where
  "keys rows = set (map fst rows)"

lemma map_of_key: "map_of rows k \<noteq> None \<longleftrightarrow> k \<in> keys rows"
  by (simp add: map_of_eq_None_iff keys_def)

definition db_ok :: "db \<Rightarrow> bool" where
  "db_ok d \<longleftrightarrow> distinct (map fst (db_tasks d)) \<and> distinct (map fst (db_actions d))
     \<and> distinct (map fst (db_approvals d)) \<and> distinct (db_intents d)
     \<and> fst ` keys (db_actions d) \<subseteq> keys (db_tasks d)
     \<and> keys (db_approvals d) \<subseteq> keys (db_actions d)
     \<and> set (db_intents d) \<subseteq> keys (db_actions d)"

lemma keys_same: "map fst rows = map fst rows' \<Longrightarrow> keys rows = keys rows'"
  by (simp add: keys_def)

lemma db_ok_tasks:
  assumes "db_ok d" "map fst rows = map fst (db_tasks d)"
  shows "db_ok (d\<lparr>db_tasks := rows\<rparr>)"
  using assms keys_same[OF assms(2)] by (simp add: db_ok_def)

lemma db_ok_actions:
  assumes "db_ok d" "map fst rows = map fst (db_actions d)"
  shows "db_ok (d\<lparr>db_actions := rows\<rparr>)"
  using assms keys_same[OF assms(2)] by (simp add: db_ok_def)

lemma db_ok_approvals:
  assumes "db_ok d" "map fst rows = map fst (db_approvals d)"
  shows "db_ok (d\<lparr>db_approvals := rows\<rparr>)"
  using assms keys_same[OF assms(2)] by (simp add: db_ok_def)

lemma inserted:
  assumes "insert_row k v rows = Some rows'" "distinct (map fst rows)"
  shows "keys rows' = insert k (keys rows) \<and> distinct (map fst rows')"
  using assms fst_insert_row[OF assms(1)] insert_row_fresh[OF assms(1)] by (simp add: keys_def)

lemma db_ok_new_task:
  assumes "db_ok d" "insert_row t v (db_tasks d) = Some rows"
  shows "db_ok (d\<lparr>db_tasks := rows\<rparr>)"
proof -
  have "keys rows = insert t (keys (db_tasks d)) \<and> distinct (map fst rows)"
    using inserted[OF assms(2)] assms(1) by (simp add: db_ok_def)
  then show ?thesis using assms(1) unfolding db_ok_def by (simp, blast)
qed

lemma db_ok_new_action:
  assumes "db_ok d" "insert_row (t, a) v (db_actions d) = Some rows" "map_of (db_tasks d) t \<noteq> None"
  shows "db_ok (d\<lparr>db_actions := rows\<rparr>)"
proof -
  have "keys rows = insert (t, a) (keys (db_actions d)) \<and> distinct (map fst rows)"
    using inserted[OF assms(2)] assms(1) by (simp add: db_ok_def)
  moreover have "t \<in> keys (db_tasks d)" using assms(3) by (simp only: map_of_key)
  ultimately show ?thesis using assms(1) unfolding db_ok_def by (simp, blast)
qed

lemma db_ok_new_approval:
  assumes "db_ok d" "insert_row k v (db_approvals d) = Some rows" "map_of (db_actions d) k \<noteq> None"
  shows "db_ok (d\<lparr>db_approvals := rows\<rparr>)"
proof -
  have "keys rows = insert k (keys (db_approvals d)) \<and> distinct (map fst rows)"
    using inserted[OF assms(2)] assms(1) by (simp add: db_ok_def)
  moreover have "k \<in> keys (db_actions d)" using assms(3) by (simp only: map_of_key)
  ultimately show ?thesis using assms(1) unfolding db_ok_def by (simp)
qed

lemma db_ok_intent:
  assumes "db_ok d" "k \<in> keys (db_actions d)" "k \<notin> set (db_intents d)"
  shows "db_ok (d\<lparr>db_intents := db_intents d @ [k]\<rparr>)"
  using assms by (simp add: db_ok_def)

lemma db_ok_log_intent:
  assumes "db_ok d" "log_intent t a d = (r, d')"
  shows "db_ok d'"
  using assms map_of_key[of "db_actions d" "(t, a)"] db_ok_intent[of d "(t, a)"]
  by (auto simp: log_intent_def split: if_splits)

lemma consume_cases:
  assumes "consume_approval t a target d = (r, d')"
  shows "r \<noteq> Inr True \<and> d' = d \<or>
    r = Inr True \<and> map_of (db_approvals d) (t, a) = Some APR_APPROVED
      \<and> map_of (db_actions d) (t, a) = Some ACT_AWAITING_APPROVAL \<and> target = ACT_EXECUTING
      \<and> (t, a) \<notin> set (db_intents d)
      \<and> d' = d\<lparr>db_approvals := update_row (t, a) (\<lambda>_. APR_CONSUMED) (db_approvals d),
               db_actions := update_row (t, a) (\<lambda>_. ACT_EXECUTING) (db_actions d),
               db_intents := db_intents d @ [(t, a)]\<rparr>"
  using assms
  by (auto simp: consume_approval_def Let_def log_intent_def map_of_update_row split: if_splits)

lemma after_op_ok: "db_ok d \<Longrightarrow> db_ok (after_op now op d)"
proof (induction op)
  case (ConsumeApproval t a st)
  obtain r d' where r: "consume_approval t a st d = (r, d')" by fastforce
  from consume_cases[OF this] show ?case
  proof (elim disjE conjE)
    assume "d' = d" then show ?thesis using ConsumeApproval r by simp
  next
    assume h: "d' = d\<lparr>db_approvals := update_row (t, a) (\<lambda>_. APR_CONSUMED) (db_approvals d),
        db_actions := update_row (t, a) (\<lambda>_. ACT_EXECUTING) (db_actions d),
        db_intents := db_intents d @ [(t, a)]\<rparr>"
      and "map_of (db_actions d) (t, a) = Some ACT_AWAITING_APPROVAL" "(t, a) \<notin> set (db_intents d)"
    then have k: "(t, a) \<in> keys (db_actions d)" using map_of_key[of "db_actions d" "(t, a)"] by simp
    let ?d = "d\<lparr>db_approvals := update_row (t, a) (\<lambda>_. APR_CONSUMED) (db_approvals d),
        db_actions := update_row (t, a) (\<lambda>_. ACT_EXECUTING) (db_actions d)\<rparr>"
    have "db_ok ?d"
      using db_ok_actions[OF db_ok_approvals[OF ConsumeApproval, of "update_row (t, a) (\<lambda>_. APR_CONSUMED) (db_approvals d)"],
          of "update_row (t, a) (\<lambda>_. ACT_EXECUTING) (db_actions d)"] by simp
    moreover have "keys (db_actions ?d) = keys (db_actions d)" by (simp add: keys_def)
    ultimately show ?thesis
      using db_ok_intent[of ?d "(t, a)"] k r \<open>(t, a) \<notin> set (db_intents d)\<close> by (simp add: h)
  qed
next
  case (LogIntent t a)
  then show ?case using db_ok_log_intent by (metis after_op.simps(8) prod.collapse)
next
  case (AcquireLease t owner ttl)
  then show ?case
    by (auto simp: acquire_lease_def Let_def intro!: db_ok_tasks split: option.splits)
next
  case RecoverInflight
  have "map fst (map (\<lambda>(k, st). (k, if st = ACT_EXECUTING then ACT_UNKNOWN_OUTCOME else st))
      (db_actions d)) = map fst (db_actions d)" by auto
  then show ?case using RecoverInflight by (simp add: recover_inflight_def db_ok_actions)
qed (auto simp: create_task_def compare_and_set_task_status_def create_action_def
    compare_and_set_action_status_def create_approval_def record_approval_decision_def
    intro: db_ok_tasks db_ok_actions db_ok_approvals db_ok_new_task db_ok_new_action
      db_ok_new_approval split: option.splits)

lemma filter_one: "x \<in> set xs \<Longrightarrow> distinct xs \<Longrightarrow> length (filter (\<lambda>y. y = x) xs) = 1"
  by (induction xs) (auto simp: filter_empty_conv)

section \<open>Approvals are consumed once\<close>

definition consumed :: "action_key \<Rightarrow> db \<Rightarrow> bool" where
  "consumed k d \<longleftrightarrow> map_of (db_approvals d) k = Some APR_CONSUMED \<and> k \<in> set (db_intents d)"

lemma after_op_consumed: "consumed k d \<Longrightarrow> consumed k (after_op now op d)"
proof (induction op)
  case (ConsumeApproval t a st)
  obtain r d' where "consume_approval t a st d = (r, d')" by fastforce
  with consume_cases[OF this] ConsumeApproval show ?case
    by (auto simp: consumed_def map_of_update_row)
qed (auto simp: consumed_def create_task_def compare_and_set_task_status_def create_action_def
    compare_and_set_action_status_def create_approval_def record_approval_decision_def
    log_intent_def acquire_lease_def Let_def recover_inflight_def map_of_update_row insert_row_def
    split: option.splits)

lemma later_consumed: "later now d now' d' \<Longrightarrow> consumed k d \<Longrightarrow> consumed k d'"
  by (induction rule: later.induct) (auto intro: after_op_consumed)

lemma later_ok: "later now d now' d' \<Longrightarrow> db_ok d \<Longrightarrow> db_ok d'"
  by (induction rule: later.induct) (auto intro: after_op_ok)

lemma later_time: "later now d now' d' \<Longrightarrow> now \<le> now'"
  by (induction rule: later.induct) auto

text \<open>C5. Consuming an approval is one transaction and happens at most once. It succeeds only on an
  approved approval of an action that awaits it, and then the approval is consumed, the action
  executes and its intent is logged, all three or nothing; after that, whatever operations follow
  at whatever times, the approval stays consumed, the intent stays logged exactly once and
  consuming it again is refused.\<close>

theorem approval_consumed_once:
  assumes "reachable_db now d" and "consume_approval t a target d = (r, d')"
  shows "(r \<noteq> Inr True \<longrightarrow> d' = d)
    \<and> (r = Inr True \<longrightarrow>
        map_of (db_approvals d) (t, a) = Some APR_APPROVED
        \<and> map_of (db_actions d) (t, a) = Some ACT_AWAITING_APPROVAL \<and> target = ACT_EXECUTING
        \<and> map_of (db_actions d') = (map_of (db_actions d))((t, a) \<mapsto> ACT_EXECUTING)
        \<and> map_of (db_approvals d') = (map_of (db_approvals d))((t, a) \<mapsto> APR_CONSUMED)
        \<and> db_tasks d' = db_tasks d \<and> db_feedback d' = db_feedback d
        \<and> (\<forall>now' later_db target'. later now d' now' later_db \<longrightarrow>
             consume_approval t a target' later_db = (Inr False, later_db)
             \<and> fst (intent_count t a later_db) = Inr 1))"
proof (cases "r = Inr True")
  case False
  then show ?thesis using consume_cases[OF assms(2)] by auto
next
  case True
  then have c: "map_of (db_approvals d) (t, a) = Some APR_APPROVED"
    "map_of (db_actions d) (t, a) = Some ACT_AWAITING_APPROVAL" "target = ACT_EXECUTING"
    and d': "d' = d\<lparr>db_approvals := update_row (t, a) (\<lambda>_. APR_CONSUMED) (db_approvals d),
               db_actions := update_row (t, a) (\<lambda>_. ACT_EXECUTING) (db_actions d),
               db_intents := db_intents d @ [(t, a)]\<rparr>"
    using consume_cases[OF assms(2)] by blast+
  obtain start where st: "later start empty_db now d" using assms(1) by (auto simp: reachable_db_def)
  have "db_ok empty_db" by (simp add: db_ok_def empty_db_def keys_def)
  with st have ok: "db_ok d" by (rule later_ok)
  have ok': "db_ok d'"
    using after_op_ok[OF ok, of now "ConsumeApproval t a target"] assms(2) by simp
  have cons: "consumed (t, a) d'" using c(1) by (simp add: consumed_def d' map_of_update_row)
  have maps: "map_of (db_actions d') = (map_of (db_actions d))((t, a) \<mapsto> ACT_EXECUTING)"
    "map_of (db_approvals d') = (map_of (db_approvals d))((t, a) \<mapsto> APR_CONSUMED)"
    using c by (auto simp: d' map_of_update_row fun_eq_iff)
  have "consume_approval t a target' e = (Inr False, e) \<and> fst (intent_count t a e) = Inr 1"
    if "later now d' now' e" for now' e target'
  proof -
    have "consumed (t, a) e" "db_ok e"
      using later_consumed[OF that cons] later_ok[OF that ok'] by blast+
    then have "(t, a) \<in> set (db_intents e)" "distinct (db_intents e)"
      "map_of (db_approvals e) (t, a) = Some APR_CONSUMED"
      by (auto simp: consumed_def db_ok_def)
    moreover from this(1,2) have "length (filter (\<lambda>k. k = (t, a)) (db_intents e)) = 1"
      by (rule filter_one)
    ultimately show ?thesis by (simp add: consume_approval_def intent_count_def py_len_def)
  qed
  then show ?thesis using True c maps by (simp add: d')
qed

section \<open>One lease at a time\<close>

definition one_lease :: "int \<Rightarrow> db \<Rightarrow> bool" where
  "one_lease now d \<longleftrightarrow> (\<forall>t r t' r'. map_of (db_tasks d) t = Some r \<longrightarrow> map_of (db_tasks d) t' = Some r'
     \<longrightarrow> lease_active now r \<longrightarrow> lease_active now r' \<longrightarrow> t = t')"

lemma lease_active_earlier: "lease_active now' r \<Longrightarrow> now \<le> now' \<Longrightarrow> lease_active now r"
  by (auto simp: lease_active_def split: option.splits)

lemma one_lease_later: "one_lease now d \<Longrightarrow> now \<le> now' \<Longrightarrow> one_lease now' d"
  unfolding one_lease_def using lease_active_earlier by metis

text \<open>What \<open>acquire_lease\<close> did when it succeeded, on a table where one lease is active at most.\<close>

lemma acquire_lease_True:
  assumes "acquire_lease t owner ttl now d = (Inr True, d')" "distinct (map fst (db_tasks d))"
    and "one_lease now d"
  shows "(\<forall>u r. map_of (db_tasks d) u = Some r \<longrightarrow> lease_active now r \<longrightarrow> u = t \<and> tk_lease_owner r = Some owner)
    \<and> (\<exists>row. map_of (db_tasks d) t = Some row)
    \<and> d' = d\<lparr>db_tasks := update_row t (\<lambda>r. r\<lparr>tk_lease_owner := Some owner,
              tk_lease_until := Some (now + ttl * 1000000)\<rparr>) (db_tasks d)\<rparr>"
proof -
  obtain row where row: "map_of (db_tasks d) t = Some row"
    using assms(1) by (cases "map_of (db_tasks d) t") (auto simp: acquire_lease_def Let_def)
  have d': "lease_free_for owner now row" "d' = d\<lparr>db_tasks := update_row t
      (\<lambda>r. r\<lparr>tk_lease_owner := Some owner, tk_lease_until := Some (now + ttl * 1000000)\<rparr>) (db_tasks d)\<rparr>"
    using assms(1) row by (auto simp: acquire_lease_def Let_def split: option.splits if_splits)
  have "u = t \<and> tk_lease_owner r = Some owner"
    if u: "map_of (db_tasks d) u = Some r" "lease_active now r" for u r
  proof -
    have "\<exists>a s. find (\<lambda>(_, r). lease_active now r) (db_tasks d) = Some (a, s)"
      using u find_None_iff[of "\<lambda>(_, r). lease_active now r" "db_tasks d"] map_of_SomeD
      by (cases "find (\<lambda>(_, r). lease_active now r) (db_tasks d)") force+
    then obtain a s where f: "find (\<lambda>(_, r). lease_active now r) (db_tasks d) = Some (a, s)" by blast
    then have as: "lease_active now s" "(a, s) \<in> set (db_tasks d)"
      by (auto simp: find_Some_iff) (metis nth_mem)
    then have "map_of (db_tasks d) a = Some s" using assms(2) by simp
    then have "a = u" using assms(3) u as(1) unfolding one_lease_def by blast
    moreover have "a = t" using assms(1) row f
      by (auto simp: acquire_lease_def Let_def split: if_splits)
    ultimately have ut: "u = t" "r = row" using u row by auto
    then show ?thesis using d'(1) u(2) by (auto simp: lease_free_for_def lease_active_def split: option.splits)
  qed
  then show ?thesis using row d' by blast
qed

lemma acquire_lease_other:
  "acquire_lease t owner ttl now d = (r, d') \<Longrightarrow> r \<noteq> Inr True \<Longrightarrow> d' = d"
  by (auto simp: acquire_lease_def Let_def split: option.splits if_splits)

lemma same_leases:
  assumes "\<And>u r. map_of (db_tasks d') u = Some r \<Longrightarrow> lease_active now r \<Longrightarrow>
      \<exists>r'. map_of (db_tasks d) u = Some r' \<and> lease_active now r'"
    and "one_lease now d"
  shows "one_lease now d'"
  using assms unfolding one_lease_def by blast

lemma after_op_one_lease:
  assumes "db_ok d" "one_lease now d"
  shows "one_lease now (after_op now op d)"
proof (cases op)
  case (AcquireLease t owner ttl)
  obtain r d' where r: "acquire_lease t owner ttl now d = (r, d')" by fastforce
  show ?thesis
  proof (cases "r = Inr True")
    case True
    then have L: "acquire_lease t owner ttl now d = (Inr True, d')" using r by simp
    have "distinct (map fst (db_tasks d))" using assms(1) by (simp add: db_ok_def)
    from acquire_lease_True[OF L this assms(2)] show ?thesis
      using AcquireLease r by (auto simp: one_lease_def map_of_update_row split: if_splits)
  next
    case False
    then show ?thesis using acquire_lease_other[OF r] AcquireLease r assms(2) by simp
  qed
next
  case (CreateTask t st)
  let ?row = "\<lparr>tk_status = st, tk_lease_owner = None, tk_lease_until = None\<rparr>"
  show ?thesis
  proof (cases "insert_row t ?row (db_tasks d)")
    case None
    then show ?thesis using CreateTask assms(2) by (simp add: create_task_def)
  next
    case (Some rows)
    have "\<not> lease_active now ?row" by (simp add: lease_active_def)
    then have "one_lease now (d\<lparr>db_tasks := rows\<rparr>)"
      using map_of_insert_row[OF Some] by (intro same_leases[OF _ assms(2)]) (auto split: if_splits)
    then show ?thesis using CreateTask Some by (simp add: create_task_def)
  qed
next
  case (SetTask t x y)
  have "lease_active now (r\<lparr>tk_status := y\<rparr>) = lease_active now r" for r
    by (simp add: lease_active_def)
  then have "one_lease now (d\<lparr>db_tasks := update_row t (\<lambda>r. r\<lparr>tk_status := y\<rparr>) (db_tasks d)\<rparr>)"
    by (intro same_leases[OF _ assms(2)]) (auto simp: map_of_update_row split: if_splits)
  then show ?thesis using SetTask assms(2) by (simp add: compare_and_set_task_status_def)
next
  case (ConsumeApproval t a st)
  obtain r d' where "consume_approval t a st d = (r, d')" by fastforce
  from consume_cases[OF this] this show ?thesis
    using ConsumeApproval assms(2) by (auto simp: one_lease_def)
qed (use assms(2) in \<open>auto simp: one_lease_def create_action_def compare_and_set_action_status_def
    create_approval_def record_approval_decision_def log_intent_def recover_inflight_def
    split: option.splits\<close>)

lemma later_one_lease:
  "later now d now' d' \<Longrightarrow> db_ok d \<Longrightarrow> one_lease now d \<Longrightarrow> one_lease now' d' \<and> db_ok d'"
  by (induction rule: later.induct) (auto intro: after_op_one_lease after_op_ok one_lease_later)

lemma reachable_ok: "reachable_db now d \<Longrightarrow> db_ok d \<and> one_lease now d"
proof -
  assume "reachable_db now d"
  then obtain start where "later start empty_db now d" by (auto simp: reachable_db_def)
  moreover have "db_ok empty_db" "one_lease start empty_db"
    by (simp_all add: db_ok_def empty_db_def keys_def one_lease_def)
  ultimately show ?thesis using later_one_lease by blast
qed

text \<open>C7. A lease is exclusive over the whole store. In every state the operations can reach, while
  the clock does not go back: if acquiring a lease of a task for an owner succeeds, every lease
  active at that time was one of the same task and the same owner, and afterwards, until another
  call succeeds, no other task has an active lease; if it fails nothing changes.\<close>

theorem lease_exclusive:
  assumes "reachable_db now d" "now \<le> now'" "acquire_lease t owner ttl now' d = (r, d')"
  shows "(r \<noteq> Inr True \<longrightarrow> d' = d)
    \<and> (r = Inr True \<longrightarrow>
        (\<forall>u row. map_of (db_tasks d) u = Some row \<and> lease_active now' row \<longrightarrow>
           u = t \<and> tk_lease_owner row = Some owner)
        \<and> (\<forall>u row. map_of (db_tasks d') u = Some row \<and> lease_active now' row \<longrightarrow>
           u = t \<and> tk_lease_owner row = Some owner
           \<and> tk_lease_until row = Some (now' + ttl * 1000000)))"
proof (cases "r = Inr True")
  case False
  then show ?thesis using acquire_lease_other[OF assms(3)] by blast
next
  case True
  have ok: "db_ok d" "one_lease now' d"
    using reachable_ok[OF assms(1)] one_lease_later assms(2) by blast+
  have "distinct (map fst (db_tasks d))" using ok(1) by (simp add: db_ok_def)
  from acquire_lease_True[OF assms(3)[unfolded True] this ok(2)] show ?thesis
    using True by (auto simp: map_of_update_row split: if_splits)
qed

text \<open>C37. Recovery marks what was in flight: afterwards no action is executing, every action that was
  has an unknown outcome and may not be retried, and every other action keeps its status.\<close>

theorem recovery_marks_unknown:
  assumes "map_of (db_actions d) (t, a) = Some st"
  shows "fst (get_action_status t a (snd (recover_inflight d)))
      = Inr (if st = ACT_EXECUTING then ACT_UNKNOWN_OUTCOME else st)
    \<and> fst (can_retry_action t a (snd (recover_inflight d)))
      = Inr (st \<notin> {ACT_EXECUTING, ACT_UNKNOWN_OUTCOME, ACT_INTERRUPTED})"
proof -
  have "map_of (map (\<lambda>(k, st). (k, f st)) rows) k = map_option f (map_of rows k)"
    for f :: "action_status \<Rightarrow> action_status" and rows and k :: action_key
    by (induction rows) auto
  then show ?thesis
    using assms by (auto simp: recover_inflight_def get_action_status_def can_retry_action_def
        bind_prog_def)
qed

section \<open>A concrete history\<close>

definition sample_task :: task_id where
  "sample_task = TaskId sample_uuid"

definition sample_ops :: "store_op list" where
  "sample_ops = [CreateTask sample_task DECIDING,
     CreateAction sample_task sample_uuid ACT_AWAITING_APPROVAL,
     CreateApproval sample_task sample_uuid APR_PENDING,
     DecideApproval sample_task sample_uuid APR_APPROVED]"

definition sample_db :: db where
  "sample_db = fold (after_op 5) sample_ops empty_db"

lemma later_fold: "later now d now1 d1 \<Longrightarrow> now1 \<le> now2 \<Longrightarrow> later now d now2 (fold (after_op now2) ops d1)
    \<or> ops = []"
proof (induction ops arbitrary: now1 d1)
  case (Cons op ops)
  have "later now d now2 (after_op now2 op d1)" using Cons.prems by (rule later_step)
  with Cons.IH[OF this] show ?case by (cases ops) auto
qed simp

lemma sample_reachable: "reachable_db 5 sample_db"
  unfolding reachable_db_def sample_db_def
  using later_fold[OF later_refl, of 5 5 empty_db sample_ops] by (auto simp: sample_ops_def)

theorem approval_consumed_once_witness:
  "\<exists>d'. consume_approval sample_task sample_uuid ACT_EXECUTING sample_db = (Inr True, d')
     \<and> consume_approval sample_task sample_uuid ACT_EXECUTING d' = (Inr False, d')"
proof -
  have "fst (consume_approval sample_task sample_uuid ACT_EXECUTING sample_db) = Inr True"
    by code_simp
  then obtain d' where d': "consume_approval sample_task sample_uuid ACT_EXECUTING sample_db = (Inr True, d')"
    by (metis prod.collapse)
  with approval_consumed_once[OF sample_reachable d'] show ?thesis
    using later_refl[of 5 d'] by blast
qed

theorem lease_exclusive_witness:
  "\<exists>d'. acquire_lease sample_task [97] 60 7 sample_db = (Inr True, d')
     \<and> map_option tk_lease_owner (map_of (db_tasks d') sample_task) = Some (Some [97])"
proof -
  have "fst (acquire_lease sample_task [97] 60 7 sample_db) = Inr True"
    and row: "case map_of (db_tasks (snd (acquire_lease sample_task [97] 60 7 sample_db))) sample_task of
      None \<Rightarrow> False | Some r \<Rightarrow> lease_active 7 r"
    by code_simp+
  then obtain d' where d': "acquire_lease sample_task [97] 60 7 sample_db = (Inr True, d')"
    by (metis prod.collapse)
  with lease_exclusive[OF sample_reachable _ d'] row show ?thesis
    by (auto split: option.splits)
qed

theorem recovery_marks_unknown_witness:
  "fst (can_retry_action sample_task sample_uuid (snd (recover_inflight
     (sample_db\<lparr>db_actions := [((sample_task, sample_uuid), ACT_EXECUTING)]\<rparr>)))) = Inr False"
  using recovery_marks_unknown[of "sample_db\<lparr>db_actions := [((sample_task, sample_uuid), ACT_EXECUTING)]\<rparr>"]
  by simp

end
