(* ===== verification/SessionStore.thy ===== *)
theory SessionStore
  imports StateStore Demo "HOL-Library.Monad_Syntax"
begin

text \<open>
  \<^verbatim>\<open>application/session_store.py\<close>: sessions as JSON in the table \<open>feedback_states\<close>, beside the
  status in \<open>tasks\<close>. Reading a session is a structural decoding (types, required and forbidden
  fields, defaults) followed by the validators of the models; every failure of either is the one
  error \<open>session state is invalid\<close>. The interface \<open>session_store\<close> is interpreted on this store.
\<close>

section \<open>Sessions as JSON\<close>

text \<open>Members in key order, as \<open>sort_keys\<close> writes them.\<close>

definition opt_str_json :: "pystr option \<Rightarrow> json" where
  "opt_str_json s = (case s of None \<Rightarrow> JNull | Some t \<Rightarrow> JStr t)"

definition entry_json :: "history_entry \<Rightarrow> json" where
  "entry_json h = JObj [(lit ''action_type'', JStr (he_action_type h)),
                        (lit ''safe_result'', JStr (he_safe_result h))]"

definition result_json :: "parsed_result \<Rightarrow> json" where
  "result_json r = JObj
     [(lit ''exception_type'', opt_str_json (pr_exception_type r)),
      (lit ''in_project_frames'', JArr (map JStr (pr_frames r))),
      (lit ''node_ids'', JArr (map JStr (pr_node_ids r))),
      (lit ''outcome'', JStr (lit (parsed_outcome_value (pr_outcome r)))),
      (lit ''phase'', JStr (lit (test_phase_value (pr_phase r)))),
      (lit ''run_id'', JStr (uuid_str (pr_run_id r))),
      (lit ''source_revision'', JStr (pr_revision r)),
      (lit ''summary'', JStr (pr_summary r)),
      (lit ''truncated'', JBool (pr_truncated r))]"

definition session_json :: "core_session \<Rightarrow> json" where
  "session_json s = JObj
     [(lit ''action_count'', JInt (cs_action_count s)),
      (lit ''config_summary'', JStr (cs_config_summary s)),
      (lit ''feedback_count'', JInt (cs_feedback_count s)),
      (lit ''feedback_summary'', opt_str_json (cs_feedback_summary s)),
      (lit ''history'', JArr (map entry_json (cs_history s))),
      (lit ''previous_result'',
         case cs_previous_result s of None \<Rightarrow> JNull | Some r \<Rightarrow> result_json r),
      (lit ''result_history'', JArr (map result_json (cs_result_history s))),
      (lit ''status'', JStr (lit (task_status_value (cs_status s)))),
      (lit ''task_id'', JObj [(lit ''value'', JStr (uuid_str (tid_value (cs_task_id s))))]),
      (lit ''user_task'', JStr (cs_user_task s)),
      (lit ''workspace_summary'', JStr (cs_workspace_summary s))]"

definition envelope_json :: "core_session \<Rightarrow> json \<Rightarrow> json" where
  "envelope_json s workspace = JObj
     [(lit ''schema_version'', JInt 1), (lit ''session'', session_json s),
      (lit ''workspace'', workspace)]"

section \<open>Structural decoding\<close>

definition enum_of_text :: "('a \<Rightarrow> string) \<Rightarrow> 'a list \<Rightarrow> pystr \<Rightarrow> 'a option" where
  "enum_of_text val members v = find (\<lambda>m. lit (val m) = v) members"

definition all_parsed_outcomes :: "parsed_outcome list" where
  "all_parsed_outcomes =
     [PO_PASSED, PO_FAILED, PO_COLLECTION_ERROR, PO_ENVIRONMENT_ERROR, PO_UNPARSEABLE]"

fun as_dict :: "json \<Rightarrow> json_dict option" where
  "as_dict (JObj d) = Some d"
| "as_dict _ = None"

fun as_list :: "json \<Rightarrow> json list option" where
  "as_list (JArr js) = Some js"
| "as_list _ = None"

fun as_int :: "json \<Rightarrow> int option" where
  "as_int (JInt n) = Some n"
| "as_int _ = None"

fun as_opt_str :: "json \<Rightarrow> pystr option option" where
  "as_opt_str JNull = Some None"
| "as_opt_str (JStr s) = Some (Some s)"
| "as_opt_str _ = None"

fun map_opt :: "('a \<Rightarrow> 'b option) \<Rightarrow> 'a list \<Rightarrow> 'b list option" where
  "map_opt f [] = Some []"
| "map_opt f (x # xs) = (case (f x, map_opt f xs) of (Some y, Some ys) \<Rightarrow> Some (y # ys) | _ \<Rightarrow> None)"

definition guard_opt :: "bool \<Rightarrow> unit option" where
  "guard_opt b = (if b then Some () else None)"

text \<open>A field with a default: absent, or decoded.\<close>

definition default_field :: "'a \<Rightarrow> (json \<Rightarrow> 'a option) \<Rightarrow> json_dict \<Rightarrow> string \<Rightarrow> 'a option" where
  "default_field v f d k = (case field d k of None \<Rightarrow> Some v | Some j \<Rightarrow> f j)"

definition required :: "(json \<Rightarrow> 'a option) \<Rightarrow> json_dict \<Rightarrow> string \<Rightarrow> 'a option" where
  "required f d k = Option.bind (field d k) f"

definition decode_uuid :: "json \<Rightarrow> uuid option" where
  "decode_uuid j = do { s \<leftarrow> as_str j; case uuid_of_str s of Inl _ \<Rightarrow> None | Inr u \<Rightarrow> Some u }"

definition decode_entry :: "json \<Rightarrow> history_entry option" where
  "decode_entry j = do {
     d \<leftarrow> as_dict j;
     guard_opt (only_fields [''action_type'', ''safe_result''] d);
     t \<leftarrow> required as_str d ''action_type'';
     r \<leftarrow> required as_str d ''safe_result'';
     Some \<lparr>he_action_type = t, he_safe_result = r\<rparr> }"

definition decode_result :: "json \<Rightarrow> parsed_result option" where
  "decode_result j = do {
     d \<leftarrow> as_dict j;
     guard_opt (only_fields [''exception_type'', ''in_project_frames'', ''node_ids'', ''outcome'', ''phase'',
        ''run_id'', ''source_revision'', ''summary'', ''truncated''] d);
     run_id \<leftarrow> required decode_uuid d ''run_id'';
     phase \<leftarrow> required (\<lambda>j. Option.bind (as_str j) (enum_of_text test_phase_value all_test_phases)) d ''phase'';
     outcome \<leftarrow> required (\<lambda>j. Option.bind (as_str j)
        (enum_of_text parsed_outcome_value all_parsed_outcomes)) d ''outcome'';
     nodes \<leftarrow> required as_str_tuple d ''node_ids'';
     exc \<leftarrow> required as_opt_str d ''exception_type'';
     summary \<leftarrow> required as_str d ''summary'';
     frames \<leftarrow> required as_str_tuple d ''in_project_frames'';
     truncated \<leftarrow> required as_bool d ''truncated'';
     revision \<leftarrow> default_field (lit ''unknown'') as_str d ''source_revision'';
     Some \<lparr>pr_run_id = run_id, pr_phase = phase, pr_outcome = outcome, pr_node_ids = nodes,
           pr_exception_type = exc, pr_summary = summary, pr_frames = frames,
           pr_truncated = truncated, pr_revision = revision\<rparr> }"

definition decode_opt_result :: "json \<Rightarrow> parsed_result option option" where
  "decode_opt_result j = (if j = JNull then Some None else map_option Some (decode_result j))"

text \<open>The task id accepts only the canonical text of a UUID.\<close>

definition decode_task_id :: "json \<Rightarrow> task_id option" where
  "decode_task_id j = do {
     d \<leftarrow> as_dict j;
     guard_opt (only_fields [''value''] d);
     s \<leftarrow> required as_str d ''value'';
     u \<leftarrow> decode_uuid (JStr s);
     if uuid_str u = s then Some (TaskId u) else None }"

definition decode_session :: "json \<Rightarrow> core_session option" where
  "decode_session j = do {
     d \<leftarrow> as_dict j;
     guard_opt (only_fields [''action_count'', ''config_summary'', ''feedback_count'', ''feedback_summary'',
        ''history'', ''previous_result'', ''result_history'', ''status'', ''task_id'', ''user_task'',
        ''workspace_summary''] d);
     t \<leftarrow> required decode_task_id d ''task_id'';
     user_task \<leftarrow> required as_str d ''user_task'';
     config_summary \<leftarrow> required as_str d ''config_summary'';
     workspace_summary \<leftarrow> required as_str d ''workspace_summary'';
     status \<leftarrow> default_field DECIDING (\<lambda>j. Option.bind (as_str j)
        (enum_of_text task_status_value all_task_statuses)) d ''status'';
     history \<leftarrow> default_field [] (\<lambda>j. Option.bind (as_list j) (map_opt decode_entry)) d ''history'';
     previous \<leftarrow> default_field None decode_opt_result d ''previous_result'';
     results \<leftarrow> default_field [] (\<lambda>j. Option.bind (as_list j) (map_opt decode_result)) d ''result_history'';
     feedback \<leftarrow> default_field None as_opt_str d ''feedback_summary'';
     actions \<leftarrow> default_field 0 as_int d ''action_count'';
     feedbacks \<leftarrow> default_field 0 as_int d ''feedback_count'';
     Some \<lparr>cs_task_id = t, cs_user_task = user_task, cs_config_summary = config_summary,
           cs_workspace_summary = workspace_summary, cs_status = status, cs_history = history,
           cs_previous_result = previous, cs_result_history = results,
           cs_feedback_summary = feedback, cs_action_count = actions,
           cs_feedback_count = feedbacks\<rparr> }"

text \<open>The validators of the models a session is made of.\<close>

definition valid_session :: "core_session \<Rightarrow> bool" where
  "valid_session s \<longleftrightarrow> is_uuid4 (tid_value (cs_task_id s))
     \<and> list_all (\<lambda>h. ok (check_history_entry h)) (cs_history s)
     \<and> list_all (\<lambda>r. ok (check_parsed_result r)) (cs_result_history s)
     \<and> (case cs_previous_result s of None \<Rightarrow> True | Some r \<Rightarrow> ok (check_parsed_result r))"

section \<open>The store\<close>

text \<open>Equality with the integer 1, which \<open>True\<close> and \<open>1.0\<close> have too.\<close>

fun equals_one :: "json option \<Rightarrow> bool" where
  "equals_one (Some (JInt n)) = (n = 1)"
| "equals_one (Some (JBool b)) = b"
| "equals_one (Some (JFloat x)) = (x = lit ''1.0'')"
| "equals_one _ = False"

definition loads :: "pystr \<Rightarrow> json option" where
  "loads s = json_loads default_pairs_hook default_const_hook s"

text \<open>The session of a row's envelope, before its validators.\<close>

definition row_session :: "pystr \<Rightarrow> core_session option" where
  "row_session row = do {
     e \<leftarrow> loads row;
     d \<leftarrow> as_dict e;
     guard_opt (only_fields [''schema_version'', ''session'', ''workspace''] d
        \<and> equals_one (field d ''schema_version''));
     j \<leftarrow> field d ''session'';
     decode_session j }"

definition store_load :: "task_id \<Rightarrow> core_session db_prog" where
  "store_load t d =
     (case map_of (db_feedback d) t of
        None \<Rightarrow> (Inl (KeyError ''task not found''), d)
      | Some row \<Rightarrow>
          (case row_session row of
             None \<Rightarrow> (Inl (ValueError ''session state is invalid''), d)
           | Some s \<Rightarrow>
               if \<not> valid_session s \<or> cs_task_id s \<noteq> t
                  \<or> fst (get_task_status t d) \<noteq> Inr (cs_status s)
               then (Inl (ValueError ''session state is invalid''), d)
               else (Inr s, d)))"

definition row_workspace :: "pystr \<Rightarrow> json option" where
  "row_workspace row = do {
     e \<leftarrow> loads row;
     d \<leftarrow> as_dict e;
     Some (case field d ''workspace'' of None \<Rightarrow> JNull | Some w \<Rightarrow> w) }"

text \<open>
  What \<open>json.dumps\<close> refuses (integers beyond the digit limit, floats that are not finite) and what
  the database refuses (texts that have no UTF-8 encoding).
\<close>

fun json_printable :: "json \<Rightarrow> bool" where
  "json_printable (JInt n) = (length (nat_digits \<bar>n\<bar>) \<le> 4300)"
| "json_printable (JFloat x) = finite_lexeme x"
| "json_printable (JArr vs) = (\<forall>v \<in> set vs. json_printable v)"
| "json_printable (JObj kvs) = (\<forall>kv \<in> set kvs. json_printable (snd kv))"
| "json_printable _ = True"

fun json_encodable :: "json \<Rightarrow> bool" where
  "json_encodable (JStr s) = (utf8_encode s \<noteq> None)"
| "json_encodable (JArr vs) = (\<forall>v \<in> set vs. json_encodable v)"
| "json_encodable (JObj kvs) =
     (\<forall>kv \<in> set kvs. utf8_encode (fst kv) \<noteq> None \<and> json_encodable (snd kv))"
| "json_encodable _ = True"

text \<open>\<open>INSERT .. ON CONFLICT DO UPDATE\<close>.\<close>

definition put_row :: "task_id \<Rightarrow> pystr \<Rightarrow> (task_id \<times> pystr) list \<Rightarrow> (task_id \<times> pystr) list" where
  "put_row t row rows = (case map_of rows t of None \<Rightarrow> rows @ [(t, row)]
     | Some _ \<Rightarrow> update_row t (\<lambda>_. row) rows)"

definition store_save :: "core_session \<Rightarrow> unit db_prog" where
  "store_save s d =
     (let t = cs_task_id s
      in case (case map_of (db_feedback d) t of None \<Rightarrow> Some JNull | Some row \<Rightarrow> row_workspace row) of
           None \<Rightarrow> (Inl (ValueError ''session state is invalid''), d)
         | Some workspace \<Rightarrow>
             let payload = envelope_json s workspace
             in if \<not> json_printable payload then (Inl (ValueError ''out of range''), d)
                else if \<not> json_encodable payload
                then (Inl (ValueError ''session state could not be saved''), d)
                else
                  let tasks = (case map_of (db_tasks d) t of
                        None \<Rightarrow> db_tasks d @ [(t, \<lparr>tk_status = cs_status s, tk_lease_owner = None,
                                                 tk_lease_until = None\<rparr>)]
                      | Some _ \<Rightarrow> update_row t (\<lambda>r. r\<lparr>tk_status := cs_status s\<rparr>) (db_tasks d));
                      rows = put_row t (json_dumps payload) (db_feedback d)
                  in (Inr (), d\<lparr>db_tasks := tasks, db_feedback := rows\<rparr>))"

text \<open>\<open>mapping\<close> is the workspace's \<open>model_dump\<close>, its members in key order.\<close>

definition bind_workspace :: "task_id \<Rightarrow> json \<Rightarrow> unit db_prog" where
  "bind_workspace t mapping = bind_prog (store_load t) (\<lambda>s d.
     let payload = envelope_json s mapping
     in if \<not> json_printable payload then (Inl (ValueError ''out of range''), d)
        else if \<not> json_encodable payload then (Inl UnicodeError, d)
        else (Inr (), d\<lparr>db_feedback := update_row t (\<lambda>_. json_dumps payload) (db_feedback d)\<rparr>))"

definition load_workspace :: "task_id \<Rightarrow> json_dict option db_prog" where
  "load_workspace t d =
     (case map_of (db_feedback d) t of
        None \<Rightarrow> (Inl (KeyError ''task not found''), d)
      | Some row \<Rightarrow>
          (case row_workspace row of
             None \<Rightarrow> (Inl (ValueError ''session state is invalid''), d)
           | Some w \<Rightarrow> (Inr (as_dict w), d)))"

section \<open>Decoding what was encoded\<close>

lemma enum_of_text_eq:
  "enum_of_text val members (lit v) = enum_of_value val members v"
  by (simp add: enum_of_text_def enum_of_value_def)

lemma outcome_roundtrip:
  "enum_of_value parsed_outcome_value all_parsed_outcomes (parsed_outcome_value p) = Some p"
  by (cases p) (simp_all add: enum_of_value_def all_parsed_outcomes_def)

lemmas decode_defs = required_def default_field_def field_def guard_opt_def only_fields_def

lemma decode_strs: "as_strs (map JStr ss) = Some ss"
  by (induction ss) auto

lemma decode_uuid_json: "decode_uuid (JStr (uuid_str u)) = Some u"
  by (simp add: decode_uuid_def uuid_of_str_uuid_str)

lemma decode_opt_str_json: "as_opt_str (opt_str_json s) = Some s"
  by (cases s) (simp_all add: opt_str_json_def)

lemma decode_entry_json: "decode_entry (entry_json h) = Some h"
  by (simp add: decode_entry_def entry_json_def decode_defs)

lemma decode_result_json: "decode_result (result_json r) = Some r"
  by (simp add: decode_result_def result_json_def decode_defs decode_strs decode_uuid_json
      decode_opt_str_json enum_of_text_eq test_phase_roundtrip outcome_roundtrip)

lemma map_opt_map: "(\<And>x. x \<in> set xs \<Longrightarrow> f (g x) = Some x) \<Longrightarrow> map_opt f (map g xs) = Some xs"
  by (induction xs) auto

lemma decode_opt_result_json:
  "decode_opt_result (case p of None \<Rightarrow> JNull | Some r \<Rightarrow> result_json r) = Some p"
  by (cases p) (simp_all add: decode_opt_result_def decode_result_json, simp add: result_json_def)

lemma decode_task_id_json:
  "decode_task_id (JObj [(lit ''value'', JStr (uuid_str (tid_value t)))]) = Some t"
  by (simp add: decode_task_id_def decode_defs decode_uuid_json)

lemma decode_session_json: "decode_session (session_json s) = Some s"
  by (simp add: decode_session_def session_json_def decode_defs decode_task_id_json
      decode_opt_result_json decode_opt_str_json enum_of_text_eq task_status_roundtrip
      map_opt_map[where f = decode_entry and g = entry_json, OF decode_entry_json]
      map_opt_map[where f = decode_result and g = result_json, OF decode_result_json])

section \<open>The rows the store writes\<close>

lemma utf8_char_nonneg: "utf8_char c \<noteq> None \<Longrightarrow> 0 \<le> c"
  by (auto simp: utf8_char_def split: if_splits)

lemma encodable_chars: "utf8_encode s \<noteq> None \<Longrightarrow> \<forall>c \<in> set s. 0 \<le> c"
proof (induction s)
  case (Cons c s)
  then have "utf8_char c \<noteq> None" "utf8_encode s \<noteq> None" by (auto split: option.splits)
  with Cons.IH show ?case using utf8_char_nonneg by auto
qed simp

lemma plain_JObj:
  assumes "sorted (map fst kvs)" "distinct (map fst kvs)"
    and "\<And>k v. (k, v) \<in> set kvs \<Longrightarrow> (\<forall>c \<in> set k. 0 \<le> c) \<and> plain_json v"
  shows "plain_json (JObj kvs)"
  using assms by auto

lemma plain_str: "json_encodable (JStr s) \<Longrightarrow> plain_json (JStr s)"
  using encodable_chars[of s] by simp

lemma plain_opt_str: "json_encodable (opt_str_json s) \<Longrightarrow> plain_json (opt_str_json s)"
  using plain_str by (cases s) (simp_all add: opt_str_json_def del: json_encodable.simps(1) plain_json.simps(5))

fun no_floats :: "json \<Rightarrow> bool" where
  "no_floats (JFloat x) = False"
| "no_floats (JArr vs) = (\<forall>v \<in> set vs. no_floats v)"
| "no_floats (JObj kvs) = (sorted (map fst kvs) \<and> distinct (map fst kvs) \<and> (\<forall>kv \<in> set kvs. no_floats (snd kv)))"
| "no_floats _ = True"

lemma plain_of_checks:
  "no_floats j \<Longrightarrow> json_printable j \<Longrightarrow> json_encodable j \<Longrightarrow> plain_json j"
proof (induction j)
  case (JStr s)
  then show ?case using plain_str by blast
next
  case (JObj kvs)
  show ?case
  proof (rule plain_JObj)
    fix k v assume kv: "(k, v) \<in> set kvs"
    with JObj.prems have "utf8_encode k \<noteq> None" "no_floats v" "json_printable v" "json_encodable v"
      by (fastforce simp del: not_None_eq)+
    then show "(\<forall>c \<in> set k. 0 \<le> c) \<and> plain_json v"
      using JObj.IH[of "(k, v)" v] kv encodable_chars by auto
  qed (use JObj.prems in simp_all)
qed auto


lemma no_floats_opt_str: "no_floats (opt_str_json s)"
  by (cases s) (simp_all add: opt_str_json_def)

lemma no_floats_entry: "no_floats (entry_json h)"
  by (simp add: entry_json_def str_simps)

lemma no_floats_result: "no_floats (result_json r)"
  by (simp add: result_json_def no_floats_opt_str str_simps)

lemma no_floats_session: "no_floats (session_json s)"
  by (simp add: session_json_def no_floats_opt_str no_floats_entry no_floats_result str_simps
      split: option.split)

text \<open>A payload the store writes: its workspace parsed back from a row, or given in plain form.\<close>

lemma plain_envelope:
  assumes "plain_json ws" "json_printable (envelope_json s ws)" "json_encodable (envelope_json s ws)"
  shows "plain_json (envelope_json s ws)"
proof -
  have "plain_json (session_json s)"
    using assms by (intro plain_of_checks no_floats_session) (simp_all add: envelope_json_def)
  then show ?thesis using assms(1) by (simp add: envelope_json_def str_simps nat_digits.simps)
qed

lemma loads_dumps: "plain_json j \<Longrightarrow> loads (json_dumps j) = Some j"
  by (simp add: loads_def json_roundtrip)

lemma row_session_envelope:
  "plain_json (envelope_json s ws) \<Longrightarrow> row_session (json_dumps (envelope_json s ws)) = Some s"
  by (simp add: row_session_def loads_dumps)
    (simp add: envelope_json_def decode_defs decode_session_json)

lemma row_workspace_envelope:
  "plain_json (envelope_json s ws) \<Longrightarrow> row_workspace (json_dumps (envelope_json s ws)) = Some ws"
  by (simp add: row_workspace_def loads_dumps) (simp add: envelope_json_def field_def)

lemma plain_workspace: "plain_json (envelope_json s ws) \<Longrightarrow> plain_json ws"
  by (simp add: envelope_json_def)

section \<open>The store keeps its rows readable\<close>

definition row_of :: "task_id \<Rightarrow> core_session \<Rightarrow> json \<Rightarrow> pystr \<Rightarrow> bool" where
  "row_of t s ws row \<longleftrightarrow> row = json_dumps (envelope_json s ws) \<and> plain_json (envelope_json s ws)
     \<and> cs_task_id s = t"

definition store_ok :: "db \<Rightarrow> bool" where
  "store_ok d \<longleftrightarrow> (\<forall>t row. map_of (db_feedback d) t = Some row \<longrightarrow> (\<exists>s ws. row_of t s ws row))"

definition db_sessions :: "db \<Rightarrow> task_id \<Rightarrow> core_session option" where
  "db_sessions d t = Option.bind (map_of (db_feedback d) t) row_session"

definition db_workspace :: "db \<Rightarrow> task_id \<Rightarrow> json" where
  "db_workspace d t = (case Option.bind (map_of (db_feedback d) t) row_workspace of None \<Rightarrow> JNull | Some w \<Rightarrow> w)"

lemma row_of_reads: "row_of t s ws row \<Longrightarrow> row_session row = Some s \<and> row_workspace row = Some ws \<and> plain_json ws"
  using row_session_envelope row_workspace_envelope plain_workspace by (auto simp: row_of_def)

lemma db_workspace_plain: "store_ok d \<Longrightarrow> plain_json (db_workspace d t)"
  unfolding store_ok_def db_workspace_def
  by (cases "map_of (db_feedback d) t") (use row_of_reads in fastforce)+

lemma map_of_put_row: "map_of (put_row t row rows) j = (if j = t then Some row else map_of rows j)"
  by (auto simp: put_row_def map_of_update_row map_add_def split: option.splits)

lemma store_save_cases:
  assumes "store_ok d"
  obtains e where "store_save s d = (Inl e, d)"
    "\<not> json_printable (envelope_json s (db_workspace d (cs_task_id s)))
       \<or> \<not> json_encodable (envelope_json s (db_workspace d (cs_task_id s)))"
  | d' where "store_save s d = (Inr (), d')"
    "row_of (cs_task_id s) s (db_workspace d (cs_task_id s))
       (json_dumps (envelope_json s (db_workspace d (cs_task_id s))))"
    "db_feedback d' = put_row (cs_task_id s)
       (json_dumps (envelope_json s (db_workspace d (cs_task_id s)))) (db_feedback d)"
    "map_option tk_status (map_of (db_tasks d') (cs_task_id s)) = Some (cs_status s)"
    "\<And>t. t \<noteq> cs_task_id s \<Longrightarrow> map_of (db_tasks d') t = map_of (db_tasks d) t"
proof -
  let ?t = "cs_task_id s"
  let ?ws = "db_workspace d ?t"
  have ws: "(case map_of (db_feedback d) ?t of None \<Rightarrow> Some JNull | Some row \<Rightarrow> row_workspace row) = Some ?ws"
  proof (cases "map_of (db_feedback d) ?t")
    case (Some row)
    with assms obtain s0 w0 where "row_of ?t s0 w0 row" unfolding store_ok_def by blast
    from row_of_reads[OF this] Some show ?thesis by (simp add: db_workspace_def)
  qed (simp add: db_workspace_def)
  let ?p = "envelope_json s ?ws"
  define tasks where "tasks = (case map_of (db_tasks d) ?t of
      None \<Rightarrow> db_tasks d @ [(?t, \<lparr>tk_status = cs_status s, tk_lease_owner = None, tk_lease_until = None\<rparr>)]
    | Some _ \<Rightarrow> update_row ?t (\<lambda>r. r\<lparr>tk_status := cs_status s\<rparr>) (db_tasks d))"
  have save: "store_save s d =
      (if \<not> json_printable ?p then (Inl (ValueError ''out of range''), d)
       else if \<not> json_encodable ?p then (Inl (ValueError ''session state could not be saved''), d)
       else (Inr (), d\<lparr>db_tasks := tasks, db_feedback := put_row ?t (json_dumps ?p) (db_feedback d)\<rparr>))"
    by (simp add: store_save_def ws tasks_def Let_def)
  have status: "map_option tk_status (map_of tasks ?t) = Some (cs_status s)"
    and other: "\<And>t. t \<noteq> ?t \<Longrightarrow> map_of tasks t = map_of (db_tasks d) t"
    by (auto simp: tasks_def map_of_update_row map_add_def split: option.splits)
  show thesis
  proof (cases "json_printable ?p \<and> json_encodable ?p")
    case False
    then show thesis using that(1) save by (cases "json_printable ?p") auto
  next
    case True
    then have "row_of ?t s ?ws (json_dumps ?p)"
      using plain_envelope[OF db_workspace_plain[OF assms]] by (simp add: row_of_def)
    then show thesis
      using True save status other
      by (intro that(2)[of "d\<lparr>db_tasks := tasks, db_feedback := put_row ?t (json_dumps ?p) (db_feedback d)\<rparr>"])
        simp_all
  qed
qed


lemma store_ok_put:
  assumes "store_ok d" "db_feedback d' = put_row t row (db_feedback d)" "row_of t s ws row"
  shows "store_ok d'" and "db_sessions d' = (db_sessions d)(t \<mapsto> s)"
    and "db_workspace d' = (db_workspace d)(t := ws)"
  using assms row_of_reads[OF assms(3)]
  by (auto simp: store_ok_def db_sessions_def db_workspace_def map_of_put_row fun_eq_iff)

section \<open>The store is a session store\<close>

lemma store_load_law:
  "store_load t d = (r, v) \<Longrightarrow> v = d \<and> (\<forall>s. r = Inr s \<longrightarrow> db_sessions d t = Some s)"
  by (auto simp: store_load_def db_sessions_def split: option.splits if_splits)

interpretation sqlite: session_store store_load store_save db_sessions store_ok
proof (unfold_locales, goal_cases)
  case (1 d t r v)
  then show ?case using store_load_law by blast
next
  case (2 d s q v)
  from 2(1) show ?case
  proof (cases rule: store_save_cases[of d s])
    case (1 e)
    then show ?thesis using 2 by auto
  next
    case (2 d')
    then show ?thesis using store_ok_put[OF \<open>store_ok d\<close> 2(3,2)] \<open>store_save s d = (q, v)\<close>
      by simp
  qed
next
  case (3 d t s)
  then obtain row where row: "map_of (db_feedback d) t = Some row" "row_session row = Some s"
    by (auto simp: db_sessions_def bind_eq_Some_conv)
  with 3(1) obtain s' ws where "row_of t s' ws row" unfolding store_ok_def by blast
  with row_of_reads[OF this] row show ?case by (auto simp: row_of_def)
qed


section \<open>The core over the persistent store\<close>

record 'x db_world =
  dw_db :: db
  dw_rest :: 'x

definition on_db :: "'a db_prog \<Rightarrow> ('x db_world, 'a) prog" where
  "on_db m w = (case m (dw_db w) of (r, d) \<Rightarrow> (r, w\<lparr>dw_db := d\<rparr>))"

definition on_other :: "('x, 'a) prog \<Rightarrow> ('x db_world, 'a) prog" where
  "on_other m w = (case m (dw_rest w) of (r, x) \<Rightarrow> (r, w\<lparr>dw_rest := x\<rparr>))"

definition persistent_core :: "'x components \<Rightarrow> 'x db_world core_deps" where
  "persistent_core C =
     \<lparr>dp_load = (\<lambda>t. on_db (store_load t)), dp_save = (\<lambda>s. on_db (store_save s)),
      dp_build = build_context (cm_safe C) (cm_sha C) (cm_max_history C),
      dp_generate = (\<lambda>c. on_other (cm_generate C c)),
      dp_tables = cm_tables C,
      dp_evaluate = policy_evaluate,
      dp_prepare = map_option (\<lambda>f d. on_other (f d)) (cm_prepare C),
      dp_resolve = map_option (\<lambda>f p. on_other (f p)) (cm_resolve C),
      dp_execute = (\<lambda>a. on_other (cm_execute C a)),
      dp_execute_patch = (\<lambda>p. on_other (cm_execute_patch C p)),
      dp_full_tests = on_other (cm_full_tests C),
      dp_analyze = analyze (cm_sha C),
      dp_max_actions = cm_max_actions C, dp_max_feedback = cm_max_feedback C\<rparr>"

definition dw_sessions :: "'x db_world \<Rightarrow> task_id \<Rightarrow> core_session option" where
  "dw_sessions w = db_sessions (dw_db w)"

definition dw_ok :: "'x db_world \<Rightarrow> bool" where
  "dw_ok w \<longleftrightarrow> store_ok (dw_db w)"

lemma frame_on_other [simp]: "frame dw_ok dw_sessions (on_other m)"
  by (auto simp: frame_def on_other_def dw_ok_def dw_sessions_def split: prod.splits)

interpretation persistent: core_env "persistent_core C" dw_sessions dw_ok for C
proof (unfold_locales, goal_cases)
  case (1 w t r v)
  obtain q d where "store_load t (dw_db w) = (q, d)" by fastforce
  with 1 sqlite.load[of "dw_db w" t q d] show ?case
    by (simp add: persistent_core_def on_db_def dw_ok_def dw_sessions_def)
next
  case (2 w s q v)
  obtain p d where "store_save s (dw_db w) = (p, d)" by fastforce
  with 2 sqlite.save[of "dw_db w" s p d] show ?case
    by (auto simp: persistent_core_def on_db_def dw_ok_def dw_sessions_def)
next
  case (3 w t s)
  then show ?case using sqlite.own by (simp add: dw_ok_def dw_sessions_def)
qed (auto simp: persistent_core_def)

section \<open>Properties\<close>

text \<open>C9. A saved session survives a restart: saving a valid session that can be printed and encoded
  succeeds, loading its task gives back exactly that session, the status column agrees with it, the
  workspace bound to the task and the sessions of every other task are unchanged, and every row
  stays readable.\<close>

theorem session_roundtrip:
  assumes "store_ok d" "valid_session s"
    and "json_printable (envelope_json s (db_workspace d (cs_task_id s)))"
    and "json_encodable (envelope_json s (db_workspace d (cs_task_id s)))"
  shows "\<exists>d'. store_save s d = (Inr (), d') \<and> store_load (cs_task_id s) d' = (Inr s, d')
    \<and> get_task_status (cs_task_id s) d' = (Inr (cs_status s), d')
    \<and> db_workspace d' = db_workspace d \<and> db_sessions d' = (db_sessions d)(cs_task_id s \<mapsto> s)
    \<and> store_ok d'"
  using assms(1)
proof (cases rule: store_save_cases[of d s])
  case (1 e)
  then show ?thesis using assms(3,4) by blast
next
  case (2 d')
  note put = store_ok_put[OF assms(1) 2(3,2)]
  have "map_of (db_feedback d') (cs_task_id s)
      = Some (json_dumps (envelope_json s (db_workspace d (cs_task_id s))))"
    using 2(3) by (simp add: map_of_put_row)
  moreover have "get_task_status (cs_task_id s) d' = (Inr (cs_status s), d')"
    using 2(4) by (auto simp: get_task_status_def)
  ultimately have "store_load (cs_task_id s) d' = (Inr s, d')"
    using row_of_reads[OF 2(2)] assms(2) by (simp add: store_load_def)
  then show ?thesis using 2(1) put \<open>get_task_status (cs_task_id s) d' = _\<close> by (auto simp: fun_eq_iff)
qed

lemma demo_session_printable:
  "json_printable (envelope_json (demo_session (lit ''fix'')) JNull)"
  "json_encodable (envelope_json (demo_session (lit ''fix'')) JNull)"
  "valid_session (demo_session (lit ''fix''))"
  by code_simp+

lemma empty_db_sessions: "store_ok empty_db" "db_workspace empty_db t = JNull" "db_sessions empty_db t = None"
  by (simp_all add: store_ok_def empty_db_def db_workspace_def db_sessions_def)

lemma cs_task_id_demo: "cs_task_id (demo_session x) = demo_task_id"
  by (simp add: demo_session_def)

theorem session_roundtrip_witness:
  "\<exists>d. store_save (demo_session (lit ''fix'')) empty_db = (Inr (), d)
     \<and> store_load demo_task_id d = (Inr (demo_session (lit ''fix'')), d)"
  using session_roundtrip[of empty_db "demo_session (lit ''fix'')"] demo_session_printable
    empty_db_sessions cs_task_id_demo by metis

text \<open>Binding a workspace keeps the session: for a task that loads, binding a workspace record
  that can be printed and encoded succeeds, the record is read back as it was given, the task still
  loads the same session, and no other task's workspace changes.\<close>

lemma bind_workspace_roundtrip:
  assumes "store_ok d" "store_load t d = (Inr s, d)" "no_floats (JObj m)"
    and "json_printable (envelope_json s (JObj m))" "json_encodable (envelope_json s (JObj m))"
  shows "\<exists>d'. bind_workspace t (JObj m) d = (Inr (), d') \<and> load_workspace t d' = (Inr (Some m), d')
    \<and> store_load t d' = (Inr s, d') \<and> db_workspace d' = (db_workspace d)(t := JObj m)
    \<and> db_sessions d' = db_sessions d \<and> store_ok d'"
proof -
  let ?row = "json_dumps (envelope_json s (JObj m))"
  let ?d = "d\<lparr>db_feedback := update_row t (\<lambda>_. ?row) (db_feedback d)\<rparr>"
  obtain old where old: "map_of (db_feedback d) t = Some old" "row_session old = Some s"
    and s: "valid_session s" "cs_task_id s = t" "fst (get_task_status t d) = Inr (cs_status s)"
    using assms(2) by (auto simp: store_load_def split: option.splits if_splits)
  have "plain_json (JObj m)"
    using assms(3-5) by (intro plain_of_checks) (simp_all add: envelope_json_def)
  then have row: "row_of t s (JObj m) ?row"
    using plain_envelope[OF _ assms(4,5)] s(2) by (simp add: row_of_def)
  have put: "db_feedback ?d = put_row t ?row (db_feedback d)" using old by (simp add: put_row_def)
  note ok = store_ok_put[OF assms(1) put row]
  have "bind_workspace t (JObj m) d = (Inr (), ?d)"
    using assms(2,4,5) by (simp add: bind_workspace_def bind_prog_def)
  moreover have "load_workspace t ?d = (Inr (Some m), ?d)"
    using old row_of_reads[OF row] by (simp add: load_workspace_def map_of_update_row)
  moreover have "store_load t ?d = (Inr s, ?d)"
    using old row_of_reads[OF row] s
    by (simp add: store_load_def map_of_update_row get_task_status_def split: option.splits)
  moreover have "db_sessions d t = Some s" using old by (simp add: db_sessions_def)
  ultimately show ?thesis using ok by (auto simp: fun_eq_iff)
qed


lemma saved_demo:
  obtains d where "store_save (demo_session (lit ''fix'')) empty_db = (Inr (), d)" "store_ok d"
    "store_load demo_task_id d = (Inr (demo_session (lit ''fix'')), d)"
    "db_sessions d demo_task_id = Some (demo_session (lit ''fix''))"
proof -
  let ?s = "demo_session (lit ''fix'')"
  let ?row = "json_dumps (envelope_json ?s JNull)"
  have row: "row_of demo_task_id ?s JNull ?row"
    using plain_envelope[of JNull ?s] demo_session_printable by (simp add: row_of_def cs_task_id_demo)
  have ws: "db_workspace empty_db (cs_task_id ?s) = JNull" by (rule empty_db_sessions(2))
  show thesis
    using empty_db_sessions(1)
  proof (cases rule: store_save_cases[of empty_db ?s])
    case (1 e)
    then show ?thesis using demo_session_printable by (simp add: ws)
  next
    case (2 d)
    have put: "db_feedback d = put_row demo_task_id ?row (db_feedback empty_db)"
      using 2(3) by (simp only: empty_db_sessions(2) cs_task_id_demo)
    note ok = store_ok_put[OF empty_db_sessions(1) put row]
    have "store_load demo_task_id d = (Inr ?s, d)"
      using row_of_reads[OF row] 2(4) demo_session_printable(3) put
      by (auto simp: store_load_def map_of_put_row cs_task_id_demo get_task_status_def)
    then show ?thesis using 2(1) ok that[of d] by simp
  qed
qed

text \<open>A run over the persistent store ends like one in memory, and the store survives it: with more
  fuel than the actions left the loop raises or returns an outcome that is not \<open>DECIDING\<close>; after it
  every row is still readable, the task's row holds a session of the same task with grown
  histories and counts within the limits, whose status and counts the outcome reports, and
  every other task's session is the one stored before.\<close>

theorem persistent_run_ends:
  assumes "store_ok (dw_db w)" "db_sessions (dw_db w) t = Some s"
    and "nat (cm_max_actions C - cs_action_count s) < fuel"
    and "core_run (persistent_core C) fuel t w = (r, v)"
  shows "r \<noteq> Inr None \<and> store_ok (dw_db v)
    \<and> (\<forall>t'. t' \<noteq> t \<longrightarrow> db_sessions (dw_db v) t' = db_sessions (dw_db w) t')
    \<and> (\<exists>s'. db_sessions (dw_db v) t = Some s' \<and> same_task s s'
         \<and> prefix (cs_history s) (cs_history s') \<and> prefix (cs_result_history s) (cs_result_history s')
         \<and> cs_action_count s' \<le> max (cs_action_count s) (cm_max_actions C)
         \<and> cs_feedback_count s' \<le> max (cs_feedback_count s) (cm_max_feedback C)
         \<and> (\<forall>out. r = Inr (Some out) \<longrightarrow>
              co_status out \<noteq> DECIDING \<and> out = outcome_of s' (co_reason out)))"
proof -
  have lim: "dp_max_actions (persistent_core C) = cm_max_actions C"
    "dp_max_feedback (persistent_core C) = cm_max_feedback C"
    by (simp_all add: persistent_core_def)
  have "dw_ok v \<and> (\<forall>t'. t' \<noteq> t \<longrightarrow> dw_sessions v t' = dw_sessions w t')
    \<and> (\<exists>s'. dw_sessions v t = Some s' \<and> run_post (persistent_core C) s s'
         \<and> (case r of Inl e \<Rightarrow> cs_status s' = DECIDING \<or> cs_status s' = cs_status s
            | Inr None \<Rightarrow> False
            | Inr (Some out) \<Rightarrow> cs_status s' \<noteq> DECIDING \<and> out = outcome_of s' (co_reason out)))"
    using persistent.run_result[of w t s C fuel r v] assms lim by (simp add: dw_ok_def dw_sessions_def)
  then obtain s' where w: "store_ok (dw_db v)"
      "\<forall>t'. t' \<noteq> t \<longrightarrow> db_sessions (dw_db v) t' = db_sessions (dw_db w) t'"
    and s': "db_sessions (dw_db v) t = Some s'" "run_post (persistent_core C) s s'"
    and r: "case r of Inl e \<Rightarrow> cs_status s' = DECIDING \<or> cs_status s' = cs_status s
            | Inr None \<Rightarrow> False
            | Inr (Some out) \<Rightarrow> cs_status s' \<noteq> DECIDING \<and> out = outcome_of s' (co_reason out)"
    by (auto simp: dw_ok_def dw_sessions_def)
  have "co_status out \<noteq> DECIDING" if "r = Inr (Some out)" for out
    using r that by (simp add: outcome_of_def) (metis core_outcome.select_convs(1))
  then show ?thesis
    using w s' r by (auto simp: run_post_def lim split: sum.splits option.splits)
qed

theorem persistent_run_ends_witness:
  "\<exists>d. store_load demo_task_id d = (Inr (demo_session (lit ''fix'')), d)
     \<and> fst (core_run (persistent_core plain_components) 41 demo_task_id
          \<lparr>dw_db = d, dw_rest = scripted demo_script\<rparr>) \<noteq> Inr None"
proof -
  obtain d where d: "store_ok d" "store_load demo_task_id d = (Inr (demo_session (lit ''fix'')), d)"
    "db_sessions d demo_task_id = Some (demo_session (lit ''fix''))"
    using saved_demo by metis
  let ?w = "\<lparr>dw_db = d, dw_rest = scripted demo_script\<rparr>"
  obtain r v where rv: "core_run (persistent_core plain_components) 41 demo_task_id ?w = (r, v)"
    by fastforce
  have "nat (cm_max_actions plain_components - cs_action_count (demo_session (lit ''fix''))) < 41"
    by (simp add: demo_world_props demo_session_def)
  from persistent_run_ends[OF _ _ this rv] d show ?thesis using rv by auto
qed

end
