(* ===== verification/Trace.thy ===== *)
theory Trace
  imports Policy
begin

text \<open>
  \<^verbatim>\<open>web/trace.py\<close>: the typed events of a demo run, the contract a scenario's trace has to satisfy
  and the view the Web UI shows. The validator of a contract is compared with the declarative
  statement of what it accepts.
\<close>

section \<open>Events\<close>

datatype event_type = EV_ACTION_SELECTED | EV_POLICY_DECISION | EV_TEST_COMPLETED | EV_FEEDBACK_PRODUCED
  | EV_TERMINAL_STATUS

datatype demo_action_kind = DA_LIST_FILES | DA_READ_FILE | DA_SEARCH_CODE | DA_APPLY_PATCH | DA_RUN_TESTS
  | DA_GIT_DIFF | DA_GIT_STATUS | DA_RUN_DIAGNOSTIC | DA_REQUEST_HUMAN

datatype demo_feedback_code = DF_INITIAL_FAILURE | DF_PASSED | DF_CHANGED | DF_PROGRESS | DF_NO_PROGRESS
  | DF_REGRESSION | DF_LOOP | DF_ENVIRONMENT_ERROR | DF_UNPARSEABLE

primrec demo_action_kind_value :: "demo_action_kind \<Rightarrow> string" where
  "demo_action_kind_value DA_LIST_FILES = ''list_files''"
| "demo_action_kind_value DA_READ_FILE = ''read_file''"
| "demo_action_kind_value DA_SEARCH_CODE = ''search_code''"
| "demo_action_kind_value DA_APPLY_PATCH = ''apply_patch''"
| "demo_action_kind_value DA_RUN_TESTS = ''run_tests''"
| "demo_action_kind_value DA_GIT_DIFF = ''git_diff''"
| "demo_action_kind_value DA_GIT_STATUS = ''git_status''"
| "demo_action_kind_value DA_RUN_DIAGNOSTIC = ''run_diagnostic''"
| "demo_action_kind_value DA_REQUEST_HUMAN = ''request_human''"

primrec demo_feedback_code_value :: "demo_feedback_code \<Rightarrow> string" where
  "demo_feedback_code_value DF_INITIAL_FAILURE = ''initial_failure''"
| "demo_feedback_code_value DF_PASSED = ''passed''"
| "demo_feedback_code_value DF_CHANGED = ''changed''"
| "demo_feedback_code_value DF_PROGRESS = ''progress''"
| "demo_feedback_code_value DF_NO_PROGRESS = ''no_progress''"
| "demo_feedback_code_value DF_REGRESSION = ''regression''"
| "demo_feedback_code_value DF_LOOP = ''loop''"
| "demo_feedback_code_value DF_ENVIRONMENT_ERROR = ''environment_error''"
| "demo_feedback_code_value DF_UNPARSEABLE = ''unparseable''"

primrec policy_outcome_value :: "policy_outcome \<Rightarrow> string" where
  "policy_outcome_value ALLOW = ''allow''"
| "policy_outcome_value DENY = ''deny''"
| "policy_outcome_value REQUIRE_APPROVAL = ''require_approval''"

datatype trace_event =
    ActionSelected demo_action_kind int
  | PolicyDecided policy_outcome policy_reason int
  | TestCompleted test_run_outcome int
  | FeedbackProduced demo_feedback_code int
  | TerminalStatus task_status int

fun type_of_event :: "trace_event \<Rightarrow> event_type" where
  "type_of_event (ActionSelected _ _) = EV_ACTION_SELECTED"
| "type_of_event (PolicyDecided _ _ _) = EV_POLICY_DECISION"
| "type_of_event (TestCompleted _ _) = EV_TEST_COMPLETED"
| "type_of_event (FeedbackProduced _ _) = EV_FEEDBACK_PRODUCED"
| "type_of_event (TerminalStatus _ _) = EV_TERMINAL_STATUS"

fun event_sequence :: "trace_event \<Rightarrow> int" where
  "event_sequence (ActionSelected _ n) = n"
| "event_sequence (PolicyDecided _ _ n) = n"
| "event_sequence (TestCompleted _ n) = n"
| "event_sequence (FeedbackProduced _ n) = n"
| "event_sequence (TerminalStatus _ n) = n"

text \<open>\<open>sequence: StrictInt = Field(ge=0)\<close> of each event model.\<close>

definition check_event :: "trace_event \<Rightarrow> trace_event res" where
  "check_event e = bind_res (require (0 \<le> event_sequence e) ValidationError) (\<lambda>_. Inr e)"

definition is_terminal_event :: "trace_event \<Rightarrow> bool" where
  "is_terminal_event e = (case e of TerminalStatus _ _ \<Rightarrow> True | _ \<Rightarrow> False)"

fun terminal_status_of :: "trace_event \<Rightarrow> task_status option" where
  "terminal_status_of (TerminalStatus st _) = Some st"
| "terminal_status_of _ = None"

section \<open>Contracts\<close>

record count_rule =
  cr_type :: event_type
  cr_min :: int
  cr_max :: int

definition check_count_rule :: "count_rule \<Rightarrow> count_rule res" where
  "check_count_rule r =
     bind_res (require (0 \<le> cr_min r \<and> 0 \<le> cr_max r) ValidationError) (\<lambda>_.
     bind_res (require (cr_min r \<le> cr_max r) ValidationError) (\<lambda>_. Inr r))"

record trace_contract =
  tc_rules :: "count_rule list"
  tc_transitions :: "(event_type \<times> event_type) list"
  tc_terminal :: task_status
  tc_max_events :: int

definition check_contract :: "trace_contract \<Rightarrow> trace_contract res" where
  "check_contract c =
     bind_res (map_res check_count_rule (tc_rules c)) (\<lambda>_.
     bind_res (require (1 \<le> tc_max_events c) ValidationError) (\<lambda>_. Inr c))"

fun sequence_from :: "int \<Rightarrow> trace_event list \<Rightarrow> bool" where
  "sequence_from i [] = True"
| "sequence_from i (e # es) = (event_sequence e = i \<and> sequence_from (i + 1) es)"

definition observed :: "trace_event list \<Rightarrow> event_type \<Rightarrow> int" where
  "observed es t = py_len (filter (\<lambda>e. type_of_event e = t) es)"

definition rule_holds :: "trace_event list \<Rightarrow> count_rule \<Rightarrow> bool" where
  "rule_holds es r \<longleftrightarrow> cr_min r \<le> observed es (cr_type r) \<and> observed es (cr_type r) \<le> cr_max r"

fun transitions_ok :: "(event_type \<times> event_type) list \<Rightarrow> trace_event list \<Rightarrow> bool" where
  "transitions_ok allowed (a # b # es) =
     ((type_of_event a, type_of_event b) \<in> set allowed \<and> transitions_ok allowed (b # es))"
| "transitions_ok allowed _ = True"

text \<open>
  \<open>events[-1] is not terminal_event\<close> compares identities; there is just one terminal event, so the
  last event is that object exactly when it is a terminal event.
\<close>

definition validate_trace :: "trace_contract \<Rightarrow> trace_event list \<Rightarrow> unit res" where
  "validate_trace c events =
     bind_res (require (py_len events \<le> tc_max_events c)
       (ValueError ''event count exceeds max_events'')) (\<lambda>_.
     bind_res (require (sequence_from 0 events)
       (ValueError ''event sequence must be continuous starting from 0'')) (\<lambda>_.
     bind_res (require (list_all (rule_holds events) (tc_rules c))
       (ValueError ''event count outside bounds'')) (\<lambda>_.
     bind_res (require (transitions_ok (tc_transitions c) events)
       (ValueError ''transition not allowed'')) (\<lambda>_.
     (case filter is_terminal_event events of
        [t] \<Rightarrow>
          bind_res (require (is_terminal_event (last events))
            (ValueError ''terminal status event must be at the end'')) (\<lambda>_.
          require (terminal_status_of t = Some (tc_terminal c))
            (ValueError ''terminal status does not match required_terminal_status''))
      | _ \<Rightarrow> Inl (ValueError ''exactly one terminal status event required''))))))"

section \<open>The view\<close>

record trace_view =
  tv_events :: "trace_event list"
  tv_terminal :: task_status

definition check_trace_view :: "trace_view \<Rightarrow> trace_view res" where
  "check_trace_view v =
     (if tv_events v = [] then Inr v
      else
        bind_res (require (is_terminal_event (last (tv_events v))) ValidationError) (\<lambda>_.
        bind_res (require (terminal_status_of (last (tv_events v)) = Some (tv_terminal v))
          ValidationError) (\<lambda>_. Inr v)))"

definition view_from_events :: "trace_event list \<Rightarrow> trace_view res" where
  "view_from_events events =
     (case filter is_terminal_event events of
        [t] \<Rightarrow>
          bind_res (require (is_terminal_event (last events))
            (ValueError ''terminal status event must be at the end'')) (\<lambda>_.
          bind_res (of_opt ValidationError (terminal_status_of t)) (\<lambda>st.
          check_trace_view \<lparr>tv_events = events, tv_terminal = st\<rparr>))
      | _ \<Rightarrow> Inl (ValueError ''events must contain exactly one terminal status event''))"

fun display_text :: "trace_event \<Rightarrow> string" where
  "display_text (ActionSelected k _) = ''action selected: '' @ demo_action_kind_value k"
| "display_text (PolicyDecided d r _) =
     ''policy decision: '' @ policy_outcome_value d @ '' ('' @ policy_reason_value r @ '')''"
| "display_text (TestCompleted x _) = ''test completed: '' @ test_run_outcome_value x"
| "display_text (FeedbackProduced f _) = ''feedback produced: '' @ demo_feedback_code_value f"
| "display_text (TerminalStatus st _) = ''terminal status: '' @ task_status_value st"

record worker_result =
  wr_scenario :: pystr
  wr_events :: "trace_event list"
  wr_terminal :: task_status

section \<open>What a contract accepts\<close>

lemma sequence_from_iff: "sequence_from i es \<longleftrightarrow> map event_sequence es = map (\<lambda>k. i + int k) [0..<length es]"
proof (induction es arbitrary: i)
  case (Cons e es)
  have "map (\<lambda>k. i + int k) [0..<Suc (length es)] = i # map (\<lambda>k. (i + 1) + int k) [0..<length es]"
    by (simp del: upt_Suc add: upt_conv_Cons map_Suc_upt[symmetric] comp_def add.assoc)
  then show ?case using Cons by simp
qed simp

lemma transitions_ok_iff:
  "transitions_ok allowed es \<longleftrightarrow>
     (\<forall>i. Suc i < length es \<longrightarrow> (type_of_event (es ! i), type_of_event (es ! Suc i)) \<in> set allowed)"
proof (induction allowed es rule: transitions_ok.induct)
  case (1 allowed a b es)
  then show ?case by (auto simp: nth_Cons split: nat.splits)
qed auto

lemma terminal_iff_type: "is_terminal_event e \<longleftrightarrow> type_of_event e = EV_TERMINAL_STATUS"
  by (cases e) (simp_all add: is_terminal_event_def)

lemma single_terminal_last:
  assumes "filter is_terminal_event es = [t]" "is_terminal_event (last es)"
  shows "es = butlast es @ [t]" "list_all (\<lambda>e. \<not> is_terminal_event e) (butlast es)"
proof -
  have ne: "es \<noteq> []" using assms(1) by auto
  then have split: "es = butlast es @ [last es]" by simp
  then have "filter is_terminal_event (butlast es) @ [last es] = [t]"
    using assms by (metis filter.simps filter_append)
  then have "filter is_terminal_event (butlast es) = []" "last es = t"
    by (auto simp: append_eq_Cons_conv)
  then show "es = butlast es @ [t]" "list_all (\<lambda>e. \<not> is_terminal_event e) (butlast es)"
    using split by (auto simp: filter_empty_conv list_all_iff)
qed


lemma terminal_split:
  "(\<exists>t. filter is_terminal_event es = [t] \<and> is_terminal_event (last es) \<and> terminal_status_of t = Some st)
   \<longleftrightarrow> (\<exists>steps n. es = steps @ [TerminalStatus st n] \<and> list_all (\<lambda>e. \<not> is_terminal_event e) steps)"
  (is "?l = ?r")
proof
  assume ?l
  then obtain t where t: "filter is_terminal_event es = [t]" "is_terminal_event (last es)"
    "terminal_status_of t = Some st" by blast
  from single_terminal_last[OF t(1,2)] t(3) show ?r
    by (cases t) (auto intro!: exI[of _ "butlast es"])
next
  assume ?r
  then obtain steps n where "es = steps @ [TerminalStatus st n]" "list_all (\<lambda>e. \<not> is_terminal_event e) steps"
    by blast
  then show ?l
    by (auto simp: is_terminal_event_def list_all_iff filter_empty_conv)
qed

lemma terminal_case:
  "(case fs of [t] \<Rightarrow> bind_res (require p e1) (\<lambda>_. require (q t) e2) | _ \<Rightarrow> Inl e3) = Inr ()
    \<longleftrightarrow> (\<exists>t. fs = [t] \<and> p \<and> q t)"
  by (auto split: list.splits)

lemma validate_trace_parts:
  "validate_trace c es = Inr () \<longleftrightarrow>
      py_len es \<le> tc_max_events c \<and> sequence_from 0 es \<and> list_all (rule_holds es) (tc_rules c)
      \<and> transitions_ok (tc_transitions c) es
      \<and> (\<exists>t. filter is_terminal_event es = [t] \<and> is_terminal_event (last es)
            \<and> terminal_status_of t = Some (tc_terminal c))"
  by (simp only: validate_trace_def bind_res_Inr require_Inr terminal_case) blast

text \<open>What a contract accepts: the validator returns exactly for the traces that number their
  events from 0 without a gap, keep the limit and every count rule, move only along allowed
  transitions, and end with their one terminal event, which carries the required status.\<close>

theorem validate_trace_iff:
  "validate_trace c es = Inr () \<longleftrightarrow>
     py_len es \<le> tc_max_events c \<and> map event_sequence es = map int [0..<length es]
     \<and> (\<forall>r \<in> set (tc_rules c). cr_min r \<le> observed es (cr_type r) \<and> observed es (cr_type r) \<le> cr_max r)
     \<and> (\<forall>i. Suc i < length es \<longrightarrow>
          (type_of_event (es ! i), type_of_event (es ! Suc i)) \<in> set (tc_transitions c))
     \<and> (\<exists>steps n. es = steps @ [TerminalStatus (tc_terminal c) n]
          \<and> list_all (\<lambda>e. \<not> is_terminal_event e) steps)"
proof -
  have "(sequence_from 0 es) = (map event_sequence es = map int [0..<length es])"
    using sequence_from_iff[of 0 es] by simp
  moreover have "list_all (rule_holds es) (tc_rules c) \<longleftrightarrow>
      (\<forall>r \<in> set (tc_rules c). cr_min r \<le> observed es (cr_type r) \<and> observed es (cr_type r) \<le> cr_max r)"
    by (simp add: list_all_iff rule_holds_def)
  ultimately show ?thesis
    by (simp only: validate_trace_parts terminal_split transitions_ok_iff)
qed

lemma validated_view:
  assumes "validate_trace c es = Inr ()"
  shows "view_from_events es = Inr \<lparr>tv_events = es, tv_terminal = tc_terminal c\<rparr>"
proof -
  obtain t where t: "filter is_terminal_event es = [t]" "is_terminal_event (last es)"
    "terminal_status_of t = Some (tc_terminal c)"
    using assms by (auto simp only: validate_trace_parts)
  moreover have "last es = t" using single_terminal_last(1)[OF t(1,2)] by (metis last_snoc)
  ultimately show ?thesis by (simp add: view_from_events_def check_trace_view_def)
qed


definition sample_contract :: trace_contract where
  "sample_contract = \<lparr>tc_rules = [\<lparr>cr_type = EV_ACTION_SELECTED, cr_min = 0, cr_max = 2\<rparr>],
     tc_transitions = [(EV_ACTION_SELECTED, EV_TERMINAL_STATUS)], tc_terminal = STOPPED,
     tc_max_events = 3\<rparr>"

definition sample_trace :: "trace_event list" where
  "sample_trace = [ActionSelected DA_READ_FILE 0, TerminalStatus STOPPED 1]"

theorem validate_trace_iff_witness:
  "validate_trace sample_contract sample_trace = Inr ()
     \<and> (\<exists>steps n. sample_trace = steps @ [TerminalStatus STOPPED n])"
proof -
  have "validate_trace sample_contract sample_trace = Inr ()" by code_simp
  moreover from this have "\<exists>steps n. sample_trace = steps @ [TerminalStatus (tc_terminal sample_contract) n]"
    using validate_trace_iff[of sample_contract sample_trace] by blast
  ultimately show ?thesis by (simp add: sample_contract_def)
qed

end
