(* ===== verification/Scenarios.thy ===== *)
theory Scenarios
  imports Trace Actions
begin

text \<open>
  \<^verbatim>\<open>demo/scenarios.py\<close> and \<^verbatim>\<open>demo/workspaces.py\<close>: the three fixed scenarios of the offline demo,
  their trace contracts, and the registry that validates them at start. The files of the package
  are a parameter: what a template name resolves to, whether that is a directory, and whether all
  its entries stay below the package's resources. A typed scenario has no mutable containers, so
  the search for them finds none.
\<close>

section \<open>Templates\<close>

record package =
  pk_resolve :: "pystr \<Rightarrow> pystr list option"
  pk_is_dir :: "pystr list \<Rightarrow> bool"
  pk_contained :: "pystr list \<Rightarrow> bool"

definition resolve_repository_template :: "package \<Rightarrow> pystr \<Rightarrow> pystr list res" where
  "resolve_repository_template pk name =
     bind_res (require (strip name \<noteq> [])
       (ValueError ''repository template name must be a non-empty string'')) (\<lambda>_.
     bind_res (require (\<not> (starts_with [47] name \<or> starts_with [92] name))
       (ValueError ''repository template name must not be absolute'')) (\<lambda>_.
     bind_res (require (lit ''..'' \<notin> set (concat (map (split_char 92) (split_char 47 name))))
       (ValueError ''repository template name must not escape package root'')) (\<lambda>_.
     bind_res (of_opt (ValueError ''repository template name escapes package root'')
       (pk_resolve pk name)) (\<lambda>candidate.
     bind_res (require (pk_is_dir pk candidate) (ValueError ''repository template not found'')) (\<lambda>_.
     bind_res (require (pk_contained pk candidate)
       (ValueError ''repository template contains a path that escapes package root'')) (\<lambda>_.
     Inr candidate))))))"

section \<open>Scenarios\<close>

record scenario =
  sc_id :: pystr
  sc_actions :: "action list"
  sc_template :: pystr
  sc_description :: pystr
  sc_max_actions :: int
  sc_terminal :: task_status
  sc_contract :: trace_contract

definition check_scenario :: "scenario \<Rightarrow> scenario res" where
  "check_scenario s =
     bind_res (require (list_all (\<lambda>v. v \<noteq> [] \<and> strip v \<noteq> [])
        [sc_id s, sc_template s, sc_description s]) ValidationError) (\<lambda>_.
     bind_res (require (1 \<le> sc_max_actions s) ValidationError) (\<lambda>_.
     bind_res (check_contract (sc_contract s)) (\<lambda>_. Inr s)))"

definition build_scripted_action :: "unicode_tables \<Rightarrow> json_dict \<Rightarrow> action res" where
  "build_scripted_action u raw = (case parse_action u (RawDict raw) of
       Inl e \<Rightarrow> Inl (ValueError ''invalid scripted action'')
     | Inr a \<Rightarrow> Inr a)"

definition rule_of :: "event_type \<Rightarrow> int \<Rightarrow> count_rule" where
  "rule_of t n = \<lparr>cr_type = t, cr_min = n, cr_max = n\<rparr>"

definition feedback_success_contract :: trace_contract where
  "feedback_success_contract =
     \<lparr>tc_rules = [rule_of EV_ACTION_SELECTED 2, rule_of EV_TEST_COMPLETED 2,
                  rule_of EV_FEEDBACK_PRODUCED 2, rule_of EV_TERMINAL_STATUS 1],
      tc_transitions = [(EV_ACTION_SELECTED, EV_TEST_COMPLETED),
                        (EV_TEST_COMPLETED, EV_FEEDBACK_PRODUCED),
                        (EV_FEEDBACK_PRODUCED, EV_ACTION_SELECTED),
                        (EV_FEEDBACK_PRODUCED, EV_TERMINAL_STATUS)],
      tc_terminal = SUCCEEDED, tc_max_events = 7\<rparr>"

definition governance_denied_contract :: trace_contract where
  "governance_denied_contract =
     \<lparr>tc_rules = [rule_of EV_ACTION_SELECTED 1, rule_of EV_POLICY_DECISION 1,
                  rule_of EV_TERMINAL_STATUS 1],
      tc_transitions = [(EV_ACTION_SELECTED, EV_POLICY_DECISION),
                        (EV_POLICY_DECISION, EV_TERMINAL_STATUS)],
      tc_terminal = STOPPED, tc_max_events = 3\<rparr>"

definition human_review_pause_contract :: trace_contract where
  "human_review_pause_contract =
     \<lparr>tc_rules = [rule_of EV_ACTION_SELECTED 1, rule_of EV_TERMINAL_STATUS 1],
      tc_transitions = [(EV_ACTION_SELECTED, EV_TERMINAL_STATUS)],
      tc_terminal = PAUSED_FOR_HUMAN, tc_max_events = 2\<rparr>"

definition text_lines :: "string list \<Rightarrow> pystr" where
  "text_lines ls = concat (map (\<lambda>l. lit l @ [10]) ls)"

definition patch_a_diff :: pystr where
  "patch_a_diff = text_lines [''--- a/calculator.py'', ''+++ b/calculator.py'', ''@@ -1,2 +1,2 @@'',
     '' def add(a, b):'', ''-    return a - b'', ''+    return a * b'']"

definition patch_b_diff :: pystr where
  "patch_b_diff = text_lines [''--- a/calculator.py'', ''+++ b/calculator.py'', ''@@ -1,2 +1,2 @@'',
     '' def add(a, b):'', ''-    return a * b'', ''+    return a + b'']"

definition governance_diff :: pystr where
  "governance_diff = text_lines [''--- a/tests/test_calculator.py'', ''+++ b/tests/test_calculator.py'',
     ''@@ -1,5 +1,5 @@'', '' from calculator import add'', '' '', '' '', '' def test_add():'',
     ''-    assert add(1, 2) == 3'', ''+    assert True'']"

definition raw_patch :: "pystr \<Rightarrow> json_dict" where
  "raw_patch diff = [(lit ''type'', JStr (lit ''apply_patch'')), (lit ''diff'', JStr diff)]"

definition raw_human :: "pystr \<Rightarrow> json_dict" where
  "raw_human reason = [(lit ''type'', JStr (lit ''request_human'')), (lit ''reason'', JStr reason)]"

definition scenario_of ::
    "unicode_tables \<Rightarrow> string \<Rightarrow> json_dict list \<Rightarrow> string \<Rightarrow> int \<Rightarrow> task_status \<Rightarrow> trace_contract \<Rightarrow> scenario res" where
  "scenario_of u i raws description n st c =
     bind_res (map_res (build_scripted_action u) raws) (\<lambda>actions.
     check_scenario \<lparr>sc_id = lit i, sc_actions = actions, sc_template = lit i,
       sc_description = lit description, sc_max_actions = n, sc_terminal = st, sc_contract = c\<rparr>)"

definition build_default_scenarios :: "unicode_tables \<Rightarrow> scenario list res" where
  "build_default_scenarios u =
     bind_res (scenario_of u ''feedback_success'' [raw_patch patch_a_diff, raw_patch patch_b_diff]
        ''Fix the add function in calculator.py so that add(1, 2) returns 3.'' 2 SUCCEEDED
        feedback_success_contract) (\<lambda>a.
     bind_res (scenario_of u ''governance_denied'' [raw_patch governance_diff]
        ''Modify the test file to always pass.'' 1 STOPPED governance_denied_contract) (\<lambda>b.
     bind_res (scenario_of u ''human_review_pause''
        [raw_human (lit ''human review required for high-impact change'')]
        ''Request human review for a high-impact change.'' 1 PAUSED_FOR_HUMAN
        human_review_pause_contract) (\<lambda>c.
     Inr [a, b, c])))"

section \<open>The registry\<close>

definition fixed_scenario_ids :: "pystr list" where
  "fixed_scenario_ids = [lit ''feedback_success'', lit ''governance_denied'', lit ''human_review_pause'']"

fun validate_each :: "package \<Rightarrow> pystr list \<Rightarrow> scenario list \<Rightarrow> pystr list res" where
  "validate_each pk seen [] = Inr seen"
| "validate_each pk seen (c # cs) =
     bind_res (require (sc_id c \<notin> set seen) (ValueError ''duplicate scenario_id'')) (\<lambda>_.
     bind_res (require (sc_terminal c = tc_terminal (sc_contract c))
       (ValueError ''scenario terminal status does not match trace contract'')) (\<lambda>_.
     bind_res (resolve_repository_template pk (sc_template c)) (\<lambda>_.
     validate_each pk (sc_id c # seen) cs)))"

definition registry_validate :: "package \<Rightarrow> scenario list \<Rightarrow> scenario list \<Rightarrow> scenario list res" where
  "registry_validate pk canonical configs =
     bind_res (require (configs \<noteq> []) (ValueError ''at least one scenario is required'')) (\<lambda>_.
     bind_res (validate_each pk [] configs) (\<lambda>seen.
     bind_res (require (set seen = set fixed_scenario_ids
         \<and> length configs = length fixed_scenario_ids)
       (ValueError ''registry must contain exactly the fixed scenario IDs'')) (\<lambda>_.
     bind_res (require (configs = canonical)
       (ValueError ''registry configuration does not match fixed scenarios'')) (\<lambda>_.
     Inr configs))))"

definition scenario_registry :: "unicode_tables \<Rightarrow> package \<Rightarrow> (pystr \<times> scenario) list res" where
  "scenario_registry u pk =
     bind_res (build_default_scenarios u) (\<lambda>canonical.
     bind_res (registry_validate pk canonical canonical) (\<lambda>configs.
     Inr (map (\<lambda>c. (sc_id c, c)) configs)))"

definition registry_get :: "(pystr \<times> scenario) list \<Rightarrow> pystr \<Rightarrow> scenario res" where
  "registry_get reg i = of_opt (KeyError ''scenario'') (map_of reg i)"

definition registry_contains :: "(pystr \<times> scenario) list \<Rightarrow> pystr \<Rightarrow> bool" where
  "registry_contains reg i = (i \<in> fst ` set reg)"

section \<open>Walks\<close>

text \<open>Every walk along the allowed transitions, of a bounded number of steps.\<close>

fun walks :: "(event_type \<times> event_type) list \<Rightarrow> nat \<Rightarrow> event_type \<Rightarrow> event_type list list" where
  "walks tr 0 t = [[t]]"
| "walks tr (Suc n) t = [t] # concat (map (\<lambda>(a, b). if a = t then map ((#) t) (walks tr n b) else []) tr)"

fun chain :: "(event_type \<times> event_type) list \<Rightarrow> event_type list \<Rightarrow> bool" where
  "chain tr (a # b # ts) = ((a, b) \<in> set tr \<and> chain tr (b # ts))"
| "chain tr _ = True"

lemma transitions_chain: "transitions_ok tr es = chain tr (map type_of_event es)"
  by (induction tr es rule: transitions_ok.induct) auto

lemma walks_complete: "chain tr (t # ts) \<Longrightarrow> length ts \<le> n \<Longrightarrow> t # ts \<in> set (walks tr n t)"
proof (induction ts arbitrary: t n)
  case Nil
  then show ?case by (cases n) auto
next
  case (Cons b ts)
  then obtain m where n: "n = Suc m" by (cases n) auto
  with Cons have "b # ts \<in> set (walks tr m b)" "(t, b) \<in> set tr" by auto
  then show ?case by (auto simp: n intro!: bexI[of _ "(t, b)"])
qed

definition types_ok :: "trace_contract \<Rightarrow> event_type list \<Rightarrow> bool" where
  "types_ok c ts \<longleftrightarrow> chain (tc_transitions c) ts
     \<and> list_all (\<lambda>r. cr_min r \<le> int (count_list ts (cr_type r))
                    \<and> int (count_list ts (cr_type r)) \<le> cr_max r) (tc_rules c)
     \<and> ts \<noteq> [] \<and> last ts = EV_TERMINAL_STATUS \<and> count_list ts EV_TERMINAL_STATUS = 1"

definition all_event_types :: "event_type list" where
  "all_event_types = [EV_ACTION_SELECTED, EV_POLICY_DECISION, EV_TEST_COMPLETED, EV_FEEDBACK_PRODUCED,
     EV_TERMINAL_STATUS]"

definition accepted_types :: "trace_contract \<Rightarrow> nat \<Rightarrow> event_type list list" where
  "accepted_types c n =
     filter (types_ok c) (concat (map (walks (tc_transitions c) n) all_event_types))"

lemma types_ok_listed:
  assumes "types_ok c ts" "length ts \<le> Suc n"
  shows "ts \<in> set (accepted_types c n)"
proof -
  obtain t us where ts: "ts = t # us" using assms(1) by (cases ts) (auto simp: types_ok_def)
  have "ts \<in> set (walks (tc_transitions c) n t)"
    using assms walks_complete[of "tc_transitions c" t us n] by (simp add: ts types_ok_def)
  moreover have "t \<in> set all_event_types" by (cases t) (simp_all add: all_event_types_def)
  ultimately show ?thesis using assms(1) by (auto simp: accepted_types_def)
qed


lemma observed_types: "observed es t = int (count_list (map type_of_event es) t)"
  by (induction es) (auto simp: observed_def py_len_def)

lemma terminal_types:
  "(\<exists>t. filter is_terminal_event es = [t] \<and> is_terminal_event (last es) \<and> terminal_status_of t = Some st)
   \<longleftrightarrow> es \<noteq> [] \<and> last (map type_of_event es) = EV_TERMINAL_STATUS
      \<and> count_list (map type_of_event es) EV_TERMINAL_STATUS = 1
      \<and> terminal_status_of (last es) = Some st"
proof -
  have count: "count_list (map type_of_event es) EV_TERMINAL_STATUS = length (filter is_terminal_event es)"
    by (induction es) (auto simp: terminal_iff_type)
  show ?thesis
  proof (cases "es = []")
    case False
    then have "last (map type_of_event es) = type_of_event (last es)" by (simp add: last_map)
    moreover have "last es = t" if "filter is_terminal_event es = [t]" "is_terminal_event (last es)" for t
      using single_terminal_last(1)[OF that] by (metis last_snoc)
    ultimately show ?thesis
      using False by (auto simp: count terminal_iff_type length_Suc_conv)
  qed simp
qed

lemma validate_types:
  "validate_trace c es = Inr () \<longleftrightarrow> py_len es \<le> tc_max_events c \<and> sequence_from 0 es
     \<and> types_ok c (map type_of_event es) \<and> terminal_status_of (last es) = Some (tc_terminal c)"
  unfolding validate_trace_parts terminal_types types_ok_def transitions_chain
  by (auto simp: list_all_iff rule_holds_def observed_types)

text \<open>A contract whose transitions and counts leave one sequence of event types.\<close>

lemma validate_shape:
  assumes "accepted_types c n = [shape]" "tc_max_events c = int (Suc n)" "length shape = Suc n"
  shows "validate_trace c es = Inr () \<longleftrightarrow>
    map event_sequence es = map int [0..<Suc n] \<and> map type_of_event es = shape
    \<and> terminal_status_of (last es) = Some (tc_terminal c)"
proof
  assume v: "validate_trace c es = Inr ()"
  then have "length (map type_of_event es) \<le> Suc n"
    using assms(2) by (simp add: validate_types py_len_def)
  then have shape: "map type_of_event es = shape"
    using types_ok_listed[of c "map type_of_event es" n] v assms(1) by (simp add: validate_types)
  then have "length es = Suc n" using assms(3) by (metis length_map)
  then show "map event_sequence es = map int [0..<Suc n] \<and> map type_of_event es = shape
      \<and> terminal_status_of (last es) = Some (tc_terminal c)"
    using v shape sequence_from_iff[of 0 es] by (simp add: validate_types)
next
  assume r: "map event_sequence es = map int [0..<Suc n] \<and> map type_of_event es = shape
    \<and> terminal_status_of (last es) = Some (tc_terminal c)"
  then have len: "length es = Suc n" using assms(3) by (metis length_map)
  have "shape \<in> set (accepted_types c n)" using assms(1) by simp
  then have "types_ok c shape" by (simp add: accepted_types_def)
  then show "validate_trace c es = Inr ()"
    using r len assms(2) sequence_from_iff[of 0 es] by (simp add: validate_types py_len_def)
qed

text \<open>Each fixed contract accepts exactly one run of the demo: a repair is a patch, failing tests,
  feedback, a second patch, passing tests, feedback and success; a denied change is one patch, one
  decision and a stop; a review is one request and a pause. Everything else is refused.\<close>

theorem fixed_contract_runs:
  "(validate_trace feedback_success_contract es = Inr () \<longleftrightarrow>
     map event_sequence es = [0, 1, 2, 3, 4, 5, 6]
     \<and> map type_of_event es = [EV_ACTION_SELECTED, EV_TEST_COMPLETED, EV_FEEDBACK_PRODUCED,
         EV_ACTION_SELECTED, EV_TEST_COMPLETED, EV_FEEDBACK_PRODUCED, EV_TERMINAL_STATUS]
     \<and> terminal_status_of (last es) = Some SUCCEEDED)
   \<and> (validate_trace governance_denied_contract es = Inr () \<longleftrightarrow>
     map event_sequence es = [0, 1, 2]
     \<and> map type_of_event es = [EV_ACTION_SELECTED, EV_POLICY_DECISION, EV_TERMINAL_STATUS]
     \<and> terminal_status_of (last es) = Some STOPPED)
   \<and> (validate_trace human_review_pause_contract es = Inr () \<longleftrightarrow>
     map event_sequence es = [0, 1] \<and> map type_of_event es = [EV_ACTION_SELECTED, EV_TERMINAL_STATUS]
     \<and> terminal_status_of (last es) = Some PAUSED_FOR_HUMAN)"
proof -
  have "accepted_types feedback_success_contract 6 = [[EV_ACTION_SELECTED, EV_TEST_COMPLETED,
    EV_FEEDBACK_PRODUCED, EV_ACTION_SELECTED, EV_TEST_COMPLETED, EV_FEEDBACK_PRODUCED, EV_TERMINAL_STATUS]]"
    "accepted_types governance_denied_contract 2
      = [[EV_ACTION_SELECTED, EV_POLICY_DECISION, EV_TERMINAL_STATUS]]"
    "accepted_types human_review_pause_contract 1 = [[EV_ACTION_SELECTED, EV_TERMINAL_STATUS]]"
    by code_simp+
  note shapes = this[THEN validate_shape, of es]
  show ?thesis
    using shapes by (simp add: feedback_success_contract_def governance_denied_contract_def
        human_review_pause_contract_def upt_rec)
qed


section \<open>The registry is ready\<close>

definition fixed_scenario :: "string \<Rightarrow> action list \<Rightarrow> string \<Rightarrow> int \<Rightarrow> task_status \<Rightarrow> trace_contract \<Rightarrow> scenario" where
  "fixed_scenario i actions description n st c =
     \<lparr>sc_id = lit i, sc_actions = actions, sc_template = lit i, sc_description = lit description,
      sc_max_actions = n, sc_terminal = st, sc_contract = c\<rparr>"

definition feedback_success :: scenario where
  "feedback_success = fixed_scenario ''feedback_success'' [ApplyPatch patch_a_diff, ApplyPatch patch_b_diff]
     ''Fix the add function in calculator.py so that add(1, 2) returns 3.'' 2 SUCCEEDED
     feedback_success_contract"

definition governance_denied :: scenario where
  "governance_denied = fixed_scenario ''governance_denied'' [ApplyPatch governance_diff]
     ''Modify the test file to always pass.'' 1 STOPPED governance_denied_contract"

definition human_review_pause :: scenario where
  "human_review_pause = fixed_scenario ''human_review_pause''
     [RequestHuman (lit ''human review required for high-impact change'')]
     ''Request human review for a high-impact change.'' 1 PAUSED_FOR_HUMAN human_review_pause_contract"

lemma scripted_patch: "diff_ok d \<Longrightarrow> build_scripted_action u (raw_patch d) = Inr (ApplyPatch d)"
  using parse_dump[of u "ApplyPatch d"]
  by (simp add: build_scripted_action_def raw_patch_def dump_action_def)

lemma scripted_human:
  "action_ok u (RequestHuman r) \<Longrightarrow> build_scripted_action u (raw_human r) = Inr (RequestHuman r)"
  using parse_dump[of u "RequestHuman r"]
  by (simp add: build_scripted_action_def raw_human_def dump_action_def)

lemma fixed_texts_ok:
  "diff_ok patch_a_diff" "diff_ok patch_b_diff" "diff_ok governance_diff"
  by code_simp+

lemma human_reason_ok: "action_ok u (RequestHuman (lit ''human review required for high-impact change''))"
proof -
  have "reason_ok (lit ''human review required for high-impact change'')" by code_simp
  then show ?thesis by (simp only: action_ok.simps)
qed

lemma fixed_scenarios_checked:
  "check_scenario feedback_success = Inr feedback_success"
  "check_scenario governance_denied = Inr governance_denied"
  "check_scenario human_review_pause = Inr human_review_pause"
  by code_simp+

lemma build_default:
  "build_default_scenarios u = Inr [feedback_success, governance_denied, human_review_pause]"
  using fixed_scenarios_checked
  by (simp add: build_default_scenarios_def scenario_of_def fixed_texts_ok scripted_patch
      scripted_human[OF human_reason_ok] feedback_success_def governance_denied_def
      human_review_pause_def fixed_scenario_def)

text \<open>The registry starts and offers exactly the fixed scenarios whenever the package holds their
  three templates: every scripted action passes the action parser, every scenario expects the
  terminal status its contract requires, and any other id is unknown.\<close>

theorem registry_ready:
  assumes "\<And>i. i \<in> set fixed_scenario_ids \<Longrightarrow> ok (resolve_repository_template pk i)"
  shows "\<exists>reg. scenario_registry u pk = Inr reg
    \<and> registry_get reg (lit ''feedback_success'') = Inr feedback_success
    \<and> registry_get reg (lit ''governance_denied'') = Inr governance_denied
    \<and> registry_get reg (lit ''human_review_pause'') = Inr human_review_pause
    \<and> (\<forall>i. registry_contains reg i \<longleftrightarrow> i \<in> set fixed_scenario_ids)
    \<and> (\<forall>i. i \<notin> set fixed_scenario_ids \<longrightarrow> registry_get reg i = Inl (KeyError ''scenario''))"
proof -
  let ?cs = "[feedback_success, governance_denied, human_review_pause]"
  have res: "\<exists>c. resolve_repository_template pk i = Inr c" if "i \<in> set fixed_scenario_ids" for i
    using assms[OF that] by (cases "resolve_repository_template pk i") auto
  obtain a b c where t: "resolve_repository_template pk (lit ''feedback_success'') = Inr a"
    "resolve_repository_template pk (lit ''governance_denied'') = Inr b"
    "resolve_repository_template pk (lit ''human_review_pause'') = Inr c"
    using res by (fastforce simp: fixed_scenario_ids_def)
  have sel: "map sc_id ?cs = fixed_scenario_ids" "map sc_template ?cs = fixed_scenario_ids"
    "list_all (\<lambda>s. sc_terminal s = tc_terminal (sc_contract s)) ?cs"
    by (simp_all add: feedback_success_def governance_denied_def human_review_pause_def fixed_scenario_def
        fixed_scenario_ids_def feedback_success_contract_def governance_denied_contract_def
        human_review_pause_contract_def)
  have "registry_validate pk ?cs ?cs = Inr ?cs"
    using t sel by (auto simp: registry_validate_def fixed_scenario_ids_def)
  then have "scenario_registry u pk = Inr (map (\<lambda>c. (sc_id c, c)) ?cs)"
    by (simp add: scenario_registry_def build_default)
  then show ?thesis
    using sel by (auto simp: registry_get_def registry_contains_def fixed_scenario_ids_def)
qed

definition sample_package :: package where
  "sample_package = \<lparr>pk_resolve = (\<lambda>n. Some [n]), pk_is_dir = (\<lambda>p. True), pk_contained = (\<lambda>p. True)\<rparr>"

theorem registry_ready_witness:
  "\<exists>reg. scenario_registry ascii_tables sample_package = Inr reg
     \<and> registry_get reg (lit ''feedback_success'') = Inr feedback_success"
proof -
  have "list_all (\<lambda>i. ok (resolve_repository_template sample_package i)) fixed_scenario_ids"
    by code_simp
  then have "ok (resolve_repository_template sample_package i)" if "i \<in> set fixed_scenario_ids" for i
    using that by (simp add: list_all_iff)
  from registry_ready[OF this] show ?thesis by blast
qed

end
