(* ===== verification/Launcher.thy ===== *)
theory Launcher
  imports Models
begin

text \<open>
  \<^verbatim>\<open>adapters/process/runner.py\<close>: bounded capture of a process's output and the launcher. The operating
  system is a parameter: a request either fails to start, or gives a process with the chunks its two
  reader threads had read when the launcher stopped waiting for them, and the exit code, which is
  missing when the time limit was hit. The threads share nothing but the process, so each stream is
  captured on its own.
\<close>

section \<open>Bounded output\<close>

definition MAX_OUTPUT_BYTES :: int where
  "MAX_OUTPUT_BYTES = 1048576"

record raw_output =
  ro_stdout :: bytes
  ro_stderr :: bytes
  ro_stdout_truncated :: bool
  ro_stderr_truncated :: bool

definition check_raw_output :: "raw_output \<Rightarrow> raw_output res" where
  "check_raw_output r =
     bind_res (require (py_len (ro_stdout r) \<le> MAX_OUTPUT_BYTES \<and> py_len (ro_stderr r) \<le> MAX_OUTPUT_BYTES)
       ValidationError) (\<lambda>_. Inr r)"

record sanitized_output =
  so_stdout :: pystr
  so_stderr :: pystr
  so_stdout_truncated :: bool
  so_stderr_truncated :: bool

definition bounded_utf8_stream :: "pystr \<Rightarrow> bool" where
  "bounded_utf8_stream s = (case utf8_encode s of None \<Rightarrow> False | Some b \<Rightarrow> py_len b \<le> MAX_OUTPUT_BYTES)"

definition check_sanitized_output :: "sanitized_output \<Rightarrow> sanitized_output res" where
  "check_sanitized_output r =
     bind_res (require (bounded_utf8_stream (so_stdout r) \<and> bounded_utf8_stream (so_stderr r))
       ValidationError) (\<lambda>_. Inr r)"

section \<open>Capture\<close>

record capture =
  cap_limit :: int
  cap_value :: bytes
  cap_truncated :: bool

definition new_capture :: "int \<Rightarrow> capture res" where
  "new_capture limit =
     (if limit < 1 then Inl (ValueError ''capture limit must be a positive integer'')
      else Inr \<lparr>cap_limit = limit, cap_value = [], cap_truncated = False\<rparr>)"

text \<open>\<open>xs[:n]\<close> and \<open>xs[-n:]\<close> for a positive \<open>n\<close>; \<open>xs[-0:]\<close> is all of \<open>xs\<close>.\<close>

definition slice_to :: "int \<Rightarrow> 'a list \<Rightarrow> 'a list" where
  "slice_to n xs = take (nat n) xs"

definition slice_last :: "int \<Rightarrow> 'a list \<Rightarrow> 'a list" where
  "slice_last n xs = (if n = 0 then xs else drop (length xs - nat n) xs)"

definition feed :: "bytes \<Rightarrow> capture \<Rightarrow> capture" where
  "feed chunk c =
     (let combined = cap_value c @ chunk
      in if py_len combined \<le> cap_limit c then c\<lparr>cap_value := combined\<rparr>
         else
           let head = cap_limit c div 2;
               tail = cap_limit c - head
           in c\<lparr>cap_value := slice_to head combined @ slice_last tail combined,
                cap_truncated := True\<rparr>)"

text \<open>\<open>drain\<close>: feed each chunk until the empty one that means end of file.\<close>

fun drain :: "bytes list \<Rightarrow> capture \<Rightarrow> capture" where
  "drain [] c = c"
| "drain (chunk # chunks) c = (if chunk = [] then c else drain chunks (feed chunk c))"

section \<open>Launch requests and results\<close>

datatype launch_status = LS_COMPLETED | LS_TIMED_OUT | LS_RESOURCE_LIMIT | LS_ENVIRONMENT_ERROR
  | LS_CANCELLED | LS_UNKNOWN

record launch_request =
  lr_argv :: "pystr list"
  lr_cwd :: pystr
  lr_env :: "(pystr \<times> pystr) list"
  lr_timeout :: int
  lr_stdout_limit :: int
  lr_stderr_limit :: int

definition check_launch_request :: "launch_request \<Rightarrow> launch_request res" where
  "check_launch_request r =
     bind_res (require (1 \<le> lr_timeout r \<and> lr_timeout r \<le> 600
         \<and> 1 \<le> lr_stdout_limit r \<and> lr_stdout_limit r \<le> MAX_OUTPUT_BYTES
         \<and> 1 \<le> lr_stderr_limit r \<and> lr_stderr_limit r \<le> MAX_OUTPUT_BYTES)
       ValidationError) (\<lambda>_. Inr r)"

record launch_result =
  la_status :: launch_status
  la_exit_code :: "int option"
  la_stdout :: bytes
  la_stderr :: bytes
  la_stdout_truncated :: bool
  la_stderr_truncated :: bool

definition check_launch_result :: "launch_result \<Rightarrow> launch_result res" where
  "check_launch_result r =
     (if la_status r \<in> {LS_TIMED_OUT, LS_CANCELLED, LS_UNKNOWN} \<and> la_exit_code r \<noteq> None
      then Inl ValidationError
      else if la_status r = LS_COMPLETED \<and> la_exit_code r = None then Inl ValidationError
      else Inr r)"

definition completed_launch :: "int \<Rightarrow> bytes \<Rightarrow> bytes \<Rightarrow> launch_result res" where
  "completed_launch code out err = check_launch_result
     \<lparr>la_status = LS_COMPLETED, la_exit_code = Some code, la_stdout = out, la_stderr = err,
      la_stdout_truncated = False, la_stderr_truncated = False\<rparr>"

record os_process =
  op_stdout :: "bytes list"
  op_stderr :: "bytes list"
  op_exit :: "int option"

definition launch :: "(launch_request \<Rightarrow> os_process option) \<Rightarrow> launch_request \<Rightarrow> launch_result res" where
  "launch popen request =
     bind_res (new_capture (lr_stdout_limit request)) (\<lambda>stdout_capture.
     bind_res (new_capture (lr_stderr_limit request)) (\<lambda>stderr_capture.
     (case popen request of
        None \<Rightarrow> check_launch_result
          \<lparr>la_status = LS_ENVIRONMENT_ERROR, la_exit_code = None, la_stdout = [], la_stderr = [],
           la_stdout_truncated = False, la_stderr_truncated = False\<rparr>
      | Some p \<Rightarrow>
          let out = drain (op_stdout p) stdout_capture;
              err = drain (op_stderr p) stderr_capture;
              status = (case op_exit p of None \<Rightarrow> LS_TIMED_OUT | Some _ \<Rightarrow> LS_COMPLETED)
          in check_launch_result
               \<lparr>la_status = status, la_exit_code = op_exit p, la_stdout = cap_value out,
                la_stderr = cap_value err, la_stdout_truncated = cap_truncated out,
                la_stderr_truncated = cap_truncated err\<rparr>)))"

section \<open>What a capture keeps\<close>

text \<open>The reference: the whole output if it fits, otherwise its first and its last bytes.\<close>

definition window :: "int \<Rightarrow> bytes \<Rightarrow> bytes" where
  "window limit out =
     (if py_len out \<le> limit then out
      else take (nat (limit div 2)) out @ drop (length out - nat (limit - limit div 2)) out)"

lemma window_cut:
  fixes out chunk :: "'a list"
  assumes "h + t < length out"
  defines "w \<equiv> take h out @ drop (length out - t) out"
  shows "length w = h + t" and "take h (w @ chunk) = take h (out @ chunk)"
    and "drop (length (w @ chunk) - t) (w @ chunk) = drop (length (out @ chunk) - t) (out @ chunk)"
proof -
  show len: "length w = h + t" using assms(1) by (simp add: w_def)
  show "take h (w @ chunk) = take h (out @ chunk)" using assms(1) by (simp add: w_def)
  have "drop (length (w @ chunk) - t) (w @ chunk) = drop (length chunk) (drop (length out - t) out @ chunk)"
    using len assms(1) by (simp add: w_def)
  also have "\<dots> = drop (length (out @ chunk) - t) (out @ chunk)"
    using assms(1) by (simp add: add.commute)
  finally show "drop (length (w @ chunk) - t) (w @ chunk) = drop (length (out @ chunk) - t) (out @ chunk)" .
qed

lemma halves: "1 \<le> limit \<Longrightarrow> nat (limit div 2) + nat (limit - limit div 2) = nat limit"
  by linarith

lemma length_window: "1 \<le> limit \<Longrightarrow> py_len (window limit out) \<le> limit"
proof (cases "py_len out \<le> limit")
  case False
  assume "1 \<le> limit"
  moreover from this False have "nat limit < length out" by (simp add: py_len_def)
  ultimately have "length (window limit out) = nat limit"
    using False window_cut(1)[of "nat (limit div 2)" "nat (limit - limit div 2)" out] halves[of limit]
    by (simp only: window_def if_False)
  then show ?thesis using \<open>1 \<le> limit\<close> by (simp add: py_len_def)
qed (simp add: window_def)

lemma window_step:
  assumes "1 \<le> limit" "limit < py_len out"
  shows "window limit (window limit out @ chunk) = window limit (out @ chunk)"
proof -
  let ?h = "nat (limit div 2)" and ?t = "nat (limit - limit div 2)"
  have big: "?h + ?t < length out" using assms halves[of limit] by (simp add: py_len_def)
  note cut = window_cut[OF big]
  have w: "window limit out = take ?h out @ drop (length out - ?t) out"
    using assms(2) by (simp only: window_def not_le[symmetric] if_False)
  have lw: "length (window limit out) = nat limit" using cut(1) halves[OF assms(1)] by (simp only: w)
  show ?thesis
  proof (cases "chunk = []")
    case True
    have "py_len (window limit out) \<le> limit" using lw assms(1) by (simp add: py_len_def)
    then show ?thesis using True by (simp only: window_def[of limit "window limit out"] append_Nil2 if_True)
  next
    case False
    then have "\<not> py_len (window limit out @ chunk) \<le> limit" "\<not> py_len (out @ chunk) \<le> limit"
      using lw assms by (simp_all add: py_len_def)
    then show ?thesis
      using cut(2,3)[of chunk] by (simp only: window_def[of limit "_ @ chunk"] if_False w)
  qed
qed

lemma feed_window:
  assumes "1 \<le> cap_limit c" "cap_value c = window (cap_limit c) out"
    "cap_truncated c \<longleftrightarrow> cap_limit c < py_len out"
  shows "cap_value (feed chunk c) = window (cap_limit c) (out @ chunk)"
    and "cap_truncated (feed chunk c) \<longleftrightarrow> cap_limit c < py_len (out @ chunk) \<or> cap_truncated c"
    and "cap_limit (feed chunk c) = cap_limit c"
proof -
  have step: "cap_value (feed chunk c) = window (cap_limit c) (cap_value c @ chunk)"
    using assms(1) by (simp add: feed_def Let_def window_def slice_to_def slice_last_def)
  show "cap_limit (feed chunk c) = cap_limit c" by (simp add: feed_def Let_def)
  show "cap_value (feed chunk c) = window (cap_limit c) (out @ chunk)"
  proof (cases "cap_limit c < py_len out")
    case True
    then show ?thesis using step window_step[OF assms(1) True] assms(2) by simp
  next
    case False
    then show ?thesis using step assms(2) by (simp add: window_def)
  qed
  show "cap_truncated (feed chunk c) \<longleftrightarrow> cap_limit c < py_len (out @ chunk) \<or> cap_truncated c"
    using assms by (auto simp: feed_def Let_def window_def py_len_def)
qed

lemma drain_window:
  assumes "1 \<le> cap_limit c" "cap_value c = window (cap_limit c) out"
    "cap_truncated c \<longleftrightarrow> cap_limit c < py_len out" "[] \<notin> set chunks"
  shows "cap_value (drain chunks c) = window (cap_limit c) (out @ concat chunks)
    \<and> (cap_truncated (drain chunks c) \<longleftrightarrow> cap_limit c < py_len (out @ concat chunks))"
  using assms
proof (induction chunks arbitrary: c out)
  case (Cons chunk chunks)
  note F = feed_window[OF Cons.prems(1,2,3), of chunk]
  have "cap_truncated (feed chunk c) \<longleftrightarrow> cap_limit (feed chunk c) < py_len (out @ chunk)"
    using F(2,3) Cons.prems(3) by (auto simp: py_len_def)
  then show ?case
    using Cons.IH[of "feed chunk c" "out @ chunk"] F Cons.prems by auto
qed simp

lemma new_capture_window:
  "new_capture limit = Inr c \<Longrightarrow> 1 \<le> cap_limit c \<and> cap_limit c = limit
     \<and> cap_value c = window limit [] \<and> \<not> cap_truncated c"
  by (auto simp: new_capture_def window_def py_len_def split: if_splits)

lemma drain_until_end: "drain chunks c = drain (takeWhile (\<lambda>x. x \<noteq> []) chunks) c"
  by (induction chunks arbitrary: c) auto

lemma drain_bounded:
  assumes "new_capture limit = Inr c"
  shows "py_len (cap_value (drain chunks c)) \<le> limit"
proof -
  have "[] \<notin> set (takeWhile (\<lambda>x. x \<noteq> []) chunks)" by (auto dest: set_takeWhileD)
  then show ?thesis
    using drain_window[of c "[]" "takeWhile (\<lambda>x. x \<noteq> []) chunks"] new_capture_window[OF assms]
      length_window[of limit] by (simp add: drain_until_end[of chunks] py_len_def)
qed

text \<open>C35. A capture does not depend on how the output arrives: whatever nonempty chunks a stream is read
  in, it keeps the whole output when that fits its limit, and otherwise exactly the first half of
  the limit and the last rest of it, never more than the limit, and it says truncated exactly then.\<close>

theorem capture_chunking:
  assumes "new_capture limit = Inr c" "[] \<notin> set chunks"
  shows "cap_value (drain chunks c) = window limit (concat chunks)
    \<and> py_len (cap_value (drain chunks c)) \<le> limit
    \<and> (cap_truncated (drain chunks c) \<longleftrightarrow> limit < py_len (concat chunks))"
  using drain_window[of c "[]" chunks] new_capture_window[OF assms(1)] assms(2) length_window[of limit]
  by (simp add: py_len_def)

theorem capture_chunking_witness:
  "\<exists>c. new_capture 3 = Inr c \<and> cap_value (drain [[1, 2], [3], [4, 5]] c) = [1, 4, 5]"
proof -
  obtain c where c: "new_capture 3 = Inr c" by (simp add: new_capture_def)
  have "cap_value (drain [[1, 2], [3], [4, 5]] c) = window 3 (concat [[1, 2], [3], [4, 5]])"
    using capture_chunking[OF c, of "[[1, 2], [3], [4, 5]]"] by simp
  then show ?thesis using c by (simp add: window_def py_len_def)
qed


definition sample_request :: launch_request where
  "sample_request = \<lparr>lr_argv = [lit ''pytest''], lr_cwd = lit ''/w'', lr_env = [], lr_timeout = 120,
     lr_stdout_limit = 2, lr_stderr_limit = 2\<rparr>"


end
