(* ===== verification/Config.thy ===== *)
theory Config
  imports Canonical Actions
begin

text \<open>
  \<^verbatim>\<open>config/\<close> and \<^verbatim>\<open>adapters/config/source_loader.py\<close>: strict configuration documents, the layered
  resolution of built-in, user and repository configuration into one frozen configuration, and the
  source that loads the layers. A document is the dictionary its model dumps to, without the
  members that are \<open>None\<close>; a section is its fields in the order of assignment. The TOML parser
  of the standard library, the file system, Git and SHA-256 are parameters.
\<close>

section \<open>Built-in values\<close>

definition MAX_TIMEOUT_SECONDS :: int where
  "MAX_TIMEOUT_SECONDS = 600"

definition BUILTIN_SENSITIVE_PATHS :: "pystr list" where
  "BUILTIN_SENSITIVE_PATHS = map lit [''.env'', ''.env.*'', ''id_rsa'', ''id_ed25519'', ''*.pem'', ''*.key'',
     ''harness-data/**'']"

definition BUILTIN_DIAGNOSTICS :: "pystr list" where
  "BUILTIN_DIAGNOSTICS = map lit [''ruff_check'', ''mypy_check'']"

definition BUILTIN_MEMORY_TYPES :: "pystr list" where
  "BUILTIN_MEMORY_TYPES = map lit [''project_rule'', ''user_constraint'', ''repair_summary'',
     ''human_decision'', ''known_issue'']"

definition jstrs :: "pystr list \<Rightarrow> json" where
  "jstrs ss = JArr (map JStr ss)"

definition jlits :: "string list \<Rightarrow> json" where
  "jlits ss = jstrs (map lit ss)"

definition jobj :: "(string \<times> json) list \<Rightarrow> json" where
  "jobj kvs = JObj (map (\<lambda>(k, v). (lit k, v)) kvs)"

definition BUILTIN_CONFIG :: json where
  "BUILTIN_CONFIG = jobj
     [(''schema_version'', JInt 1),
      (''llm'', jobj [(''provider'', JStr (lit ''openai'')), (''model'', JStr (lit ''configured-by-user''))]),
      (''tests'', jobj [(''default_command'', jlits [''python'', ''-m'', ''pytest'', ''-q'']),
                        (''timeout_seconds'', JInt 120)]),
      (''limits'', jobj [(''max_feedback_rounds'', JInt 8), (''max_actions'', JInt 40),
         (''history_window'', JInt 8), (''max_no_progress'', JInt 2), (''max_changed'', JInt 2),
         (''max_process_output_bytes'', JInt 1048576), (''max_llm_feedback_bytes'', JInt 32768),
         (''max_read_file_bytes'', JInt 524288), (''max_search_results'', JInt 200)]),
      (''patch'', jobj [(''approval_file_threshold'', JInt 5), (''approval_line_threshold'', JInt 300)]),
      (''paths'', jobj [(''protected'', jlits [''tests/**'', ''**/test_*.py'', ''**/*_test.py'', ''**/conftest.py'',
                           ''pytest.ini'', ''tox.ini'', ''pyproject.toml'', ''setup.cfg'']),
                        (''sensitive'', jstrs BUILTIN_SENSITIVE_PATHS)]),
      (''diagnostics'', jobj [(''allowed_commands'', jstrs BUILTIN_DIAGNOSTICS)]),
      (''memory'', jobj [(''allowed_types'', jstrs BUILTIN_MEMORY_TYPES), (''max_items_per_context'', JInt 10),
                         (''max_context_bytes'', JInt 8192)])]"

section \<open>Documents\<close>

datatype field_kind = KStr | KPosInt | KStrs

definition section_fields :: "(string \<times> (string \<times> field_kind) list) list" where
  "section_fields =
     [(''llm'', [(''provider'', KStr), (''model'', KStr)]),
      (''tests'', [(''default_command'', KStrs), (''timeout_seconds'', KPosInt)]),
      (''limits'', map (\<lambda>f. (f, KPosInt)) [''max_feedback_rounds'', ''max_actions'', ''history_window'',
         ''max_no_progress'', ''max_changed'', ''max_process_output_bytes'', ''max_llm_feedback_bytes'',
         ''max_read_file_bytes'', ''max_search_results'']),
      (''patch'', [(''approval_file_threshold'', KPosInt), (''approval_line_threshold'', KPosInt)]),
      (''paths'', [(''protected'', KStrs), (''sensitive'', KStrs)]),
      (''diagnostics'', [(''allowed_commands'', KStrs)]),
      (''memory'', [(''allowed_types'', KStrs), (''max_items_per_context'', KPosInt),
                    (''max_context_bytes'', KPosInt)])]"

fun kind_ok :: "field_kind \<Rightarrow> json \<Rightarrow> bool" where
  "kind_ok KStr (JStr s) = True"
| "kind_ok KPosInt (JInt n) = (1 \<le> n)"
| "kind_ok KStrs (JArr vs) = (as_strs vs \<noteq> None)"
| "kind_ok _ _ = False"

type_synonym cfg_section = "(string \<times> json) list"

text \<open>One section: known fields only, each absent, \<open>None\<close> or of its type; dumped in the model's order.\<close>

definition validate_section :: "(string \<times> field_kind) list \<Rightarrow> json \<Rightarrow> cfg_section option" where
  "validate_section known j =
     (case j of
        JObj d \<Rightarrow>
          if only_fields (map fst known) d
             \<and> list_all (\<lambda>(f, k). case field d f of None \<Rightarrow> True | Some v \<Rightarrow> v = JNull \<or> kind_ok k v) known
          then Some (concat (map (\<lambda>(f, k). case field d f of
                 None \<Rightarrow> [] | Some v \<Rightarrow> if v = JNull then [] else [(f, v)]) known))
          else None
      | _ \<Rightarrow> None)"

record config_doc =
  cd_schema_version :: int
  cd_mode :: "pystr option"
  cd_sections :: "(string \<times> cfg_section) list"

fun validate_sections :: "json_dict \<Rightarrow> (string \<times> (string \<times> field_kind) list) list \<Rightarrow>
    (string \<times> cfg_section) list option" where
  "validate_sections d [] = Some []"
| "validate_sections d ((s, known) # rest) =
     (case (case field d s of None \<Rightarrow> Some [] | Some j \<Rightarrow> validate_section known j) of
        None \<Rightarrow> None
      | Some fs \<Rightarrow> map_option (Cons (s, fs)) (validate_sections d rest))"

fun doc_mode :: "json option \<Rightarrow> pystr option option" where
  "doc_mode None = Some None"
| "doc_mode (Some JNull) = Some None"
| "doc_mode (Some (JStr s)) = Some (Some s)"
| "doc_mode _ = None"

fun doc_version :: "json option \<Rightarrow> int option" where
  "doc_version None = Some 1"
| "doc_version (Some (JInt n)) = (if 1 \<le> n then Some n else None)"
| "doc_version _ = None"

definition validate_document :: "json \<Rightarrow> config_doc option" where
  "validate_document j =
     (case j of
        JObj d \<Rightarrow>
          if \<not> only_fields (''schema_version'' # ''mode'' # map fst section_fields) d then None
          else
            (case (doc_version (field d ''schema_version''), doc_mode (field d ''mode''),
                   validate_sections d section_fields) of
               (Some n, Some m, Some ss) \<Rightarrow>
                 Some \<lparr>cd_schema_version = n, cd_mode = m, cd_sections = ss\<rparr>
             | _ \<Rightarrow> None)
      | _ \<Rightarrow> None)"

text \<open>\<open>model_dump(mode="json", exclude_none=True)\<close>: every section is there, perhaps empty.\<close>

definition dump_document :: "config_doc \<Rightarrow> json" where
  "dump_document c = jobj
     ((''schema_version'', JInt (cd_schema_version c))
      # (case cd_mode c of None \<Rightarrow> [] | Some m \<Rightarrow> [(''mode'', JStr m)])
      @ map (\<lambda>(s, fs). (s, jobj fs)) (cd_sections c))"

text \<open>\<open>load_strict_toml\<close>; a dollar-brace needs any later closing brace to be an interpolation.\<close>

definition has_interpolation :: "pystr \<Rightarrow> bool" where
  "has_interpolation s =
     (case split_at (lit ''${'') s of None \<Rightarrow> False | Some (_, rest) \<Rightarrow> 125 \<in> set rest)"

fun reject_interpolation :: "json \<Rightarrow> bool" where
  "reject_interpolation (JStr s) = has_interpolation s"
| "reject_interpolation (JArr vs) = (\<exists>v \<in> set vs. reject_interpolation v)"
| "reject_interpolation (JObj kvs) = (\<exists>kv \<in> set kvs. reject_interpolation (snd kv))"
| "reject_interpolation _ = False"

definition load_strict_toml :: "(pystr \<Rightarrow> json option) \<Rightarrow> bytes \<Rightarrow> json res" where
  "load_strict_toml toml raw =
     of_opt (ValueError ''invalid strict configuration'')
       (Option.bind (utf8_decode raw) (\<lambda>t.
        Option.bind (toml t) (\<lambda>d.
          if reject_interpolation d then None
          else map_option dump_document (validate_document d))))"

section \<open>Merging\<close>

text \<open>A merged configuration: sections with their fields, and where each field came from.\<close>

record merged =
  mg_sections :: "(string \<times> cfg_section) list"
  mg_provenance :: "(string \<times> string) list"

definition section_of :: "(string \<times> cfg_section) list \<Rightarrow> string \<Rightarrow> cfg_section" where
  "section_of ss s = (case map_of ss s of None \<Rightarrow> [] | Some fs \<Rightarrow> fs)"

definition set_field :: "string \<Rightarrow> string \<Rightarrow> json \<Rightarrow> string \<Rightarrow> merged \<Rightarrow> merged" where
  "set_field s f v who m =
     \<lparr>mg_sections = dict_update s (dict_update f v (section_of (mg_sections m) s)) (mg_sections m),
      mg_provenance = dict_update (s @ ''.'' @ f) who (mg_provenance m)\<rparr>"

definition merged_field :: "merged \<Rightarrow> string \<Rightarrow> string \<Rightarrow> json option" where
  "merged_field m s f = map_of (section_of (mg_sections m) s) f"

fun merge_user :: "string \<Rightarrow> cfg_section \<Rightarrow> merged \<Rightarrow> merged" where
  "merge_user s [] m = m"
| "merge_user s ((f, v) # fvs) m = merge_user s fvs (set_field s f v ''user'' m)"

definition repo_value :: "string \<Rightarrow> json option \<Rightarrow> json \<Rightarrow> json res" where
  "repo_value s current v =
     (case (current, v) of
        (Some (JInt c), JInt n) \<Rightarrow>
          if n > c \<and> s = ''limits'' then Inl (ConfigConflict ''repository broadens limits'')
          else Inr (if s = ''limits'' then JInt (min c n) else v)
      | _ \<Rightarrow> Inr v)"

fun merge_repo :: "string \<Rightarrow> cfg_section \<Rightarrow> merged \<Rightarrow> merged res" where
  "merge_repo s [] m = Inr m"
| "merge_repo s ((f, v) # fvs) m =
     (if f = ''timeout_seconds'' then merge_repo s fvs m
      else bind_res (repo_value s (merged_field m s f) v) (\<lambda>x.
             merge_repo s fvs (set_field s f x ''repo'' m)))"

fun merge_layers :: "string list \<Rightarrow> config_doc \<Rightarrow> config_doc \<Rightarrow> merged \<Rightarrow> merged res" where
  "merge_layers [] u r m = Inr m"
| "merge_layers (s # ss) u r m =
     bind_res (merge_repo s (section_of (cd_sections r) s)
        (merge_user s (section_of (cd_sections u) s) m))
       (merge_layers ss u r)"

definition layered_sections :: "string list" where
  "layered_sections = [''llm'', ''tests'', ''limits'', ''patch'', ''memory'']"

text \<open>Sets of strings, written back sorted.\<close>

definition doc_field :: "config_doc \<Rightarrow> string \<Rightarrow> string \<Rightarrow> json option" where
  "doc_field c s f = map_of (section_of (cd_sections c) s) f"

definition strs_of :: "json option \<Rightarrow> pystr list" where
  "strs_of v = (case v of Some (JArr vs) \<Rightarrow> (case as_strs vs of Some ss \<Rightarrow> ss | None \<Rightarrow> []) | _ \<Rightarrow> [])"

definition strs_or :: "pystr list \<Rightarrow> json option \<Rightarrow> pystr list" where
  "strs_or d v = (if v = None then d else strs_of v)"

definition sorted_set :: "pystr list \<Rightarrow> json" where
  "sorted_set ss = jstrs (sort (remdups ss))"

definition layer_of_paths :: "config_doc \<Rightarrow> config_doc \<Rightarrow> string \<Rightarrow> string" where
  "layer_of_paths u r f =
     (if strs_of (doc_field r ''paths'' f) \<noteq> [] then ''repo''
      else if strs_of (doc_field u ''paths'' f) \<noteq> [] then ''user'' else ''builtin'')"

fun int_of :: "json option \<Rightarrow> int res" where
  "int_of (Some (JInt n)) = Inr n"
| "int_of _ = Inl (KeyError ''timeout_seconds'')"

definition int_or :: "int \<Rightarrow> json option \<Rightarrow> int" where
  "int_or d v = (case v of Some (JInt n) \<Rightarrow> n | _ \<Rightarrow> d)"

section \<open>The frozen configuration\<close>

record capability_set =
  cp_mode :: pystr
  cp_openai :: bool
  cp_credentials :: bool
  cp_arbitrary_paths :: bool
  cp_diagnostic_ids :: "pystr list"
  cp_command_prefixes :: "pystr list"

record frozen_config =
  fc_schema_version :: int
  fc_mode :: pystr
  fc_sections :: "(string \<times> cfg_section) list"
  fc_capabilities :: capability_set
  fc_provenance :: "(string \<times> string) list"
  fc_sha256 :: pystr

definition capabilities_json :: "capability_set \<Rightarrow> json" where
  "capabilities_json c = jobj
     [(''mode'', JStr (cp_mode c)), (''openai_enabled'', JBool (cp_openai c)),
      (''credentials_enabled'', JBool (cp_credentials c)),
      (''arbitrary_paths_enabled'', JBool (cp_arbitrary_paths c)),
      (''diagnostic_ids'', jstrs (cp_diagnostic_ids c)), (''command_prefixes'', jstrs (cp_command_prefixes c))]"

definition capabilities_for :: "pystr \<Rightarrow> pystr list \<Rightarrow> capability_set" where
  "capabilities_for mode diagnostics =
     (let real = (mode = lit ''real'')
      in \<lparr>cp_mode = mode, cp_openai = real, cp_credentials = real, cp_arbitrary_paths = real,
          cp_diagnostic_ids = (if mode = lit ''demo'' then [] else diagnostics),
          cp_command_prefixes =
            (if real then map lit [''pytest'', ''python -m pytest''] else [lit ''pytest''])\<rparr>)"

text \<open>\<open>sha256_canonical_config\<close> of the data that is to be frozen.\<close>

definition config_json :: "int \<Rightarrow> pystr \<Rightarrow> (string \<times> cfg_section) list \<Rightarrow> capability_set \<Rightarrow>
    (string \<times> string) list \<Rightarrow> json" where
  "config_json version mode sections caps provenance = jobj
     ([(''schema_version'', JInt version), (''mode'', JStr mode)]
      @ map (\<lambda>(s, fs). (s, jobj fs)) sections
      @ [(''capabilities'', capabilities_json caps),
         (''provenance'', jobj (map (\<lambda>(f, w). (f, JStr (lit w))) provenance))])"

definition config_sha256 :: "(bytes \<Rightarrow> pystr) \<Rightarrow> json \<Rightarrow> pystr res" where
  "config_sha256 sha j = bind_res (of_opt UnicodeError (utf8_encode (json_dumps j))) (\<lambda>b. Inr (sha b))"

text \<open>\<open>resolve_config\<close>: what is no conflict already becomes one.\<close>

definition as_conflict :: "'a res \<Rightarrow> 'a res" where
  "as_conflict r = (case r of
       Inl (ConfigConflict m) \<Rightarrow> Inl (ConfigConflict m)
     | Inl _ \<Rightarrow> Inl (ConfigConflict ''configuration conflict'')
     | Inr x \<Rightarrow> Inr x)"

definition merge_timeout :: "config_doc \<Rightarrow> config_doc \<Rightarrow> config_doc \<Rightarrow> merged \<Rightarrow> merged res" where
  "merge_timeout b u r m =
     bind_res (int_of (merged_field m ''tests'' ''timeout_seconds'')) (\<lambda>current.
     let user_timeout = int_or current (doc_field u ''tests'' ''timeout_seconds'');
         repo_timeout = int_or user_timeout (doc_field r ''tests'' ''timeout_seconds'')
     in if repo_timeout > MAX_TIMEOUT_SECONDS \<or> user_timeout > MAX_TIMEOUT_SECONDS
        then Inl (ConfigConflict ''timeout exceeds hard limit'')
        else bind_res (int_of (doc_field b ''tests'' ''timeout_seconds'')) (\<lambda>base_timeout.
          let tests = dict_update ''timeout_seconds'' (JInt (min base_timeout (min user_timeout repo_timeout)))
                (section_of (mg_sections m) ''tests'');
              provenance = (if repo_timeout \<noteq> base_timeout
                 then dict_update ''tests.timeout_seconds'' ''repo'' (mg_provenance m)
               else if user_timeout \<noteq> base_timeout
                 then dict_update ''tests.timeout_seconds'' ''user'' (mg_provenance m)
               else mg_provenance m)
          in Inr \<lparr>mg_sections = dict_update ''tests'' tests (mg_sections m),
                  mg_provenance = provenance\<rparr>))"

definition merge_paths :: "config_doc \<Rightarrow> config_doc \<Rightarrow> config_doc \<Rightarrow> merged \<Rightarrow> merged" where
  "merge_paths b u r m =
     (let all_of = (\<lambda>d f. strs_of (doc_field d ''paths'' f));
          protected = all_of b ''protected'' @ all_of u ''protected'' @ all_of r ''protected'';
          sensitive = BUILTIN_SENSITIVE_PATHS @ all_of u ''sensitive'' @ all_of r ''sensitive''
      in \<lparr>mg_sections = dict_update ''paths'' [(''protected'', sorted_set protected),
                          (''sensitive'', sorted_set sensitive)] (mg_sections m),
          mg_provenance = dict_update ''paths.sensitive'' (layer_of_paths u r ''sensitive'')
            (dict_update ''paths.protected'' (layer_of_paths u r ''protected'') (mg_provenance m))\<rparr>)"

definition allowed_diagnostics :: "config_doc \<Rightarrow> config_doc \<Rightarrow> pystr list" where
  "allowed_diagnostics u r =
     filter (\<lambda>x. x \<in> set (strs_or BUILTIN_DIAGNOSTICS (doc_field u ''diagnostics'' ''allowed_commands''))
              \<and> x \<in> set (strs_or BUILTIN_DIAGNOSTICS (doc_field r ''diagnostics'' ''allowed_commands'')))
       BUILTIN_DIAGNOSTICS"

definition merge_diagnostics :: "config_doc \<Rightarrow> config_doc \<Rightarrow> merged \<Rightarrow> merged" where
  "merge_diagnostics u r m =
     (let key = ''diagnostics.allowed_commands'';
          p1 = (if doc_field u ''diagnostics'' ''allowed_commands'' \<noteq> None
                then dict_update key ''user'' (mg_provenance m) else mg_provenance m);
          p2 = (if doc_field r ''diagnostics'' ''allowed_commands'' \<noteq> None
                then dict_update key ''repo'' p1 else p1)
      in \<lparr>mg_sections = dict_update ''diagnostics''
            [(''allowed_commands'', sorted_set (allowed_diagnostics u r))] (mg_sections m),
          mg_provenance = p2\<rparr>)"

definition allowed_memory_types :: "config_doc \<Rightarrow> config_doc \<Rightarrow> pystr list" where
  "allowed_memory_types u r =
     filter (\<lambda>x. x \<in> set (strs_or BUILTIN_MEMORY_TYPES (doc_field u ''memory'' ''allowed_types''))
              \<and> x \<in> set (strs_or BUILTIN_MEMORY_TYPES (doc_field r ''memory'' ''allowed_types'')))
       BUILTIN_MEMORY_TYPES"

definition merge_memory :: "config_doc \<Rightarrow> config_doc \<Rightarrow> merged \<Rightarrow> merged" where
  "merge_memory u r m = m\<lparr>mg_sections := dict_update ''memory''
     (dict_update ''allowed_types'' (sorted_set (allowed_memory_types u r))
        (section_of (mg_sections m) ''memory'')) (mg_sections m)\<rparr>"

definition resolve_documents ::
    "(bytes \<Rightarrow> pystr) \<Rightarrow> config_doc \<Rightarrow> config_doc \<Rightarrow> config_doc \<Rightarrow> pystr \<Rightarrow> frozen_config res" where
  "resolve_documents sha b u r mode =
     bind_res (require (mode \<in> {lit ''real'', lit ''demo''})
       (ConfigConflict ''unsupported mode'')) (\<lambda>_.
     bind_res (require (cd_mode r = None \<or> cd_mode r = Some mode)
       (ConfigConflict ''repository cannot change execution mode'')) (\<lambda>_.
     bind_res (merge_layers layered_sections u r
       \<lparr>mg_sections = cd_sections b, mg_provenance = []\<rparr>) (\<lambda>m1.
     bind_res (merge_timeout b u r m1) (\<lambda>m2.
     bind_res (require (\<not> (allowed_diagnostics u r = [] \<and> mode = lit ''real''))
       (ConfigConflict ''diagnostic whitelist intersection is empty'')) (\<lambda>_.
     let m = merge_memory u r (merge_diagnostics u r (merge_paths b u r m2));
         caps = capabilities_for mode (sort (remdups (allowed_diagnostics u r)))
     in bind_res (config_sha256 sha (config_json (cd_schema_version b) mode (mg_sections m) caps
            (mg_provenance m))) (\<lambda>h.
        bind_res (require (hash_pattern h) ValidationError) (\<lambda>_.
        Inr \<lparr>fc_schema_version = cd_schema_version b, fc_mode = mode, fc_sections = mg_sections m,
             fc_capabilities = caps, fc_provenance = mg_provenance m, fc_sha256 = h\<rparr>)))))))"

definition resolve_config ::
    "(bytes \<Rightarrow> pystr) \<Rightarrow> json \<Rightarrow> json \<Rightarrow> json \<Rightarrow> pystr \<Rightarrow> frozen_config res" where
  "resolve_config sha builtin user repo mode = as_conflict
     (bind_res (of_opt ValidationError (validate_document builtin)) (\<lambda>b.
      bind_res (of_opt ValidationError (validate_document user)) (\<lambda>u.
      bind_res (of_opt ValidationError (validate_document repo)) (\<lambda>r.
      resolve_documents sha b u r mode))))"

section \<open>Loading the layers\<close>

text \<open>A user file: absent, no regular file, or its bytes.\<close>

datatype user_file = NoFile | NotAFile | FileBytes bytes

definition optional_file :: "(pystr \<Rightarrow> json option) \<Rightarrow> user_file \<Rightarrow> json res" where
  "optional_file toml f = (case f of
       NoFile \<Rightarrow> Inr (JObj [])
     | NotAFile \<Rightarrow> Inl (ValueError [])
     | FileBytes b \<Rightarrow> load_strict_toml toml b)"

definition selects_llm :: "json \<Rightarrow> bool" where
  "selects_llm repo = (case repo of
       JObj d \<Rightarrow> (case field d ''llm'' of Some (JObj kvs) \<Rightarrow> kvs \<noteq> [] | _ \<Rightarrow> False)
     | _ \<Rightarrow> False)"

text \<open>\<open>repo_raw\<close> is what the repository reader returns or raises.\<close>

definition layered_load ::
    "(bytes \<Rightarrow> pystr) \<Rightarrow> (pystr \<Rightarrow> json option) \<Rightarrow> user_file \<Rightarrow> bytes option res \<Rightarrow> frozen_config res" where
  "layered_load sha toml user_file repo_raw =
     (case
        bind_res (optional_file toml user_file) (\<lambda>user.
        bind_res repo_raw (\<lambda>raw.
        bind_res (case raw of None \<Rightarrow> Inr (JObj []) | Some b \<Rightarrow> load_strict_toml toml b) (\<lambda>repo.
        bind_res (require (\<not> selects_llm repo)
          (ConfigConflict ''repository cannot select a provider or model'')) (\<lambda>_.
        resolve_config sha BUILTIN_CONFIG user repo (lit ''real'')))))
      of Inr c \<Rightarrow> Inr c
       | Inl e \<Rightarrow> if is_value_error e \<or> is_os_error e
                  then Inl (RuntimeError ''configuration is invalid'') else Inl e)"

section \<open>What a layer contributes\<close>

lemma map_of_dict_update: "map_of (dict_update k v d) j = (if j = k then Some v else map_of d j)"
  by (induction d) auto

lemma img_fst: "(a, b) \<in> S \<Longrightarrow> a \<in> fst ` S"
  by force

lemma section_of_update: "section_of (dict_update s fs ss) t = (if t = s then fs else section_of ss t)"
  by (simp add: section_of_def map_of_dict_update)

lemma merged_field_set:
  "merged_field (set_field s f v who m) s' f' = (if s' = s \<and> f' = f then Some v else merged_field m s' f')"
  by (simp add: merged_field_def set_field_def section_of_update map_of_dict_update)

definition over :: "json option \<Rightarrow> json option \<Rightarrow> json option" where
  "over new old = (if new = None then old else new)"

lemma merge_user_field:
  "distinct (map fst fvs) \<Longrightarrow> merged_field (merge_user s fvs m) s' f =
     (if s' = s then over (map_of fvs f) (merged_field m s f) else merged_field m s' f)"
proof (induction fvs arbitrary: m)
  case (Cons fv fvs)
  moreover obtain g v where "fv = (g, v)" by (cases fv)
  ultimately show ?case
    by (auto simp: over_def merged_field_set map_of_eq_None_iff dest: img_fst split: if_splits)
qed (simp add: over_def)

text \<open>What the repository's value \<open>v\<close> leaves in a field, when it is no conflict.\<close>

definition repo_over :: "string \<Rightarrow> string \<Rightarrow> json option \<Rightarrow> json option \<Rightarrow> json option" where
  "repo_over s f new old = (case new of
       None \<Rightarrow> old
     | Some v \<Rightarrow> if f = ''timeout_seconds'' then old
                 else (case repo_value s old v of Inl _ \<Rightarrow> None | Inr x \<Rightarrow> Some x))"

lemma merge_repo_field:
  "merge_repo s fvs m = Inr m' \<Longrightarrow> distinct (map fst fvs) \<Longrightarrow>
     merged_field m' s' f = (if s' = s then repo_over s f (map_of fvs f) (merged_field m s f)
       else merged_field m s' f)
     \<and> (\<forall>v. map_of fvs f = Some v \<and> f \<noteq> ''timeout_seconds'' \<longrightarrow> ok (repo_value s (merged_field m s f) v))"
proof (induction fvs arbitrary: m)
  case (Cons fv fvs)
  obtain g v where fv: "fv = (g, v)" by (cases fv)
  show ?case
  proof (cases "g = ''timeout_seconds''")
    case True
    then show ?thesis using Cons fv by (auto simp: repo_over_def map_of_eq_None_iff split: option.splits)
  next
    case False
    then obtain x where x: "repo_value s (merged_field m s g) v = Inr x"
      "merge_repo s fvs (set_field s g x ''repo'' m) = Inr m'"
      using Cons.prems(1) fv by (auto simp: bind_res_Inr)
    then show ?thesis
      using Cons.IH[OF x(2)] Cons.prems(2) fv False
      by (auto simp: repo_over_def merged_field_set map_of_eq_None_iff dest: img_fst split: option.splits)
  qed
qed (simp add: repo_over_def)

definition doc_ok :: "config_doc \<Rightarrow> bool" where
  "doc_ok c \<longleftrightarrow> (\<forall>s. distinct (map fst (section_of (cd_sections c) s)))"

lemma merge_layers_field:
  "merge_layers ss u r m = Inr m' \<Longrightarrow> distinct ss \<Longrightarrow> doc_ok u \<Longrightarrow> doc_ok r \<Longrightarrow>
     merged_field m' s f = (if s \<in> set ss
       then repo_over s f (doc_field r s f) (over (doc_field u s f) (merged_field m s f))
       else merged_field m s f)
     \<and> (\<forall>v. s \<in> set ss \<and> doc_field r s f = Some v \<and> f \<noteq> ''timeout_seconds'' \<longrightarrow>
          ok (repo_value s (over (doc_field u s f) (merged_field m s f)) v))"
proof (induction ss arbitrary: m)
  case (Cons t ss)
  let ?mu = "merge_user t (section_of (cd_sections u) t) m"
  obtain m1 where m1: "merge_repo t (section_of (cd_sections r) t) ?mu = Inr m1"
    "merge_layers ss u r m1 = Inr m'"
    using Cons.prems(1) by (auto simp: bind_res_Inr)
  have du: "distinct (map fst (section_of (cd_sections u) t))" "distinct (map fst (section_of (cd_sections r) t))"
    using Cons.prems(3,4) by (simp_all add: doc_ok_def)
  show ?case
    using Cons.IH[OF m1(2)] Cons.prems(2-4) merge_repo_field[OF m1(1) du(2), of s f]
      merge_user_field[OF du(1), of t m s f]
    by (auto simp: doc_field_def)
qed simp

lemma distinct_picked:
  "distinct (map fst known) \<Longrightarrow>
   distinct (map fst (concat (map (\<lambda>(f, k). if p f then [] else [(f, q f)]) known)))"
proof (induction known)
  case (Cons fk known)
  then show ?case by (cases fk) (auto simp: image_iff split: if_splits)
qed simp

lemma validate_section_fields:
  assumes "validate_section known j = Some fs" "distinct (map fst known)"
  shows "distinct (map fst fs)" and "\<And>f v. map_of fs f = Some v \<Longrightarrow> \<exists>k. (f, k) \<in> set known \<and> kind_ok k v"
proof -
  obtain d where d: "j = JObj d" using assms(1) by (auto simp: validate_section_def split: json.splits)
  let ?p = "\<lambda>f. field d f = None \<or> field d f = Some JNull"
  have fs: "fs = concat (map (\<lambda>(f, k). if ?p f then [] else [(f, the (field d f))]) known)"
    and all: "list_all (\<lambda>(f, k). case field d f of None \<Rightarrow> True | Some v \<Rightarrow> v = JNull \<or> kind_ok k v) known"
    using assms(1) unfolding validate_section_def d
    by (auto split: if_splits option.splits intro!: arg_cong[of _ _ concat] map_cong)
  show "distinct (map fst fs)" unfolding fs by (rule distinct_picked[OF assms(2)])
  fix f v assume "map_of fs f = Some v"
  then have "(f, v) \<in> set fs" by (rule map_of_SomeD)
  then show "\<exists>k. (f, k) \<in> set known \<and> kind_ok k v"
    using all by (fastforce simp: fs list_all_iff split: if_splits)
qed


lemma validate_sections_spec:
  "validate_sections d sf = Some ss \<Longrightarrow> map_of ss s = Some fs \<Longrightarrow>
     \<exists>known. (s, known) \<in> set sf \<and> (fs = [] \<or> (\<exists>j. validate_section known j = Some fs))"
proof (induction d sf arbitrary: ss rule: validate_sections.induct)
  case (2 d t known rest)
  then show ?case by (fastforce split: option.splits if_splits)
qed simp

definition known_field :: "string \<Rightarrow> string \<Rightarrow> field_kind option" where
  "known_field s f = Option.bind (map_of section_fields s) (\<lambda>known. map_of known f)"

lemma section_fields_distinct:
  "distinct (map fst section_fields)" "list_all (\<lambda>(s, known). distinct (map fst known)) section_fields"
  by (simp_all add: section_fields_def)

lemma validated_document:
  assumes "validate_document j = Some c"
  shows "doc_ok c" and "doc_field c s f = Some v \<Longrightarrow> \<exists>k. known_field s f = Some k \<and> kind_ok k v"
proof -
  obtain d where ss: "validate_sections d section_fields = Some (cd_sections c)"
    using assms by (auto simp: validate_document_def split: json.splits if_splits option.splits)
  have sec: "distinct (map fst (section_of (cd_sections c) s))
    \<and> (\<forall>f v. map_of (section_of (cd_sections c) s) f = Some v \<longrightarrow> (\<exists>k. known_field s f = Some k \<and> kind_ok k v))" for s
  proof (cases "map_of (cd_sections c) s")
    case (Some fs)
    from validate_sections_spec[OF ss Some] obtain known where known: "(s, known) \<in> set section_fields"
      "fs = [] \<or> (\<exists>j. validate_section known j = Some fs)" by blast
    have "distinct (map fst known)" "map_of section_fields s = Some known"
      using known(1) section_fields_distinct by (auto simp: list_all_iff map_of_is_SomeI)
    then have kf: "known_field s f = Some k" if "(f, k) \<in> set known" for f k
      using that by (simp add: known_field_def)
    show ?thesis
      using known(2) validate_section_fields[OF _ \<open>distinct (map fst known)\<close>] kf
      by (auto simp: section_of_def Some) (metis option.discI)+
  qed (simp add: section_of_def)
  then show "doc_ok c" by (simp add: doc_ok_def)
  show "doc_field c s f = Some v \<Longrightarrow> \<exists>k. known_field s f = Some k \<and> kind_ok k v"
    using sec by (simp add: doc_field_def)
qed

lemma limit_known: "known_field ''limits'' f = Some k \<Longrightarrow> k = KPosInt"
  by (auto simp: known_field_def section_fields_def split: if_splits)

lemma known_timeout: "known_field ''tests'' ''timeout_seconds'' = Some KPosInt"
  by (simp add: known_field_def section_fields_def)

lemma kind_int: "kind_ok KPosInt v \<Longrightarrow> \<exists>n. v = JInt n \<and> 1 \<le> n"
  by (cases v) auto

text \<open>The fields of a resolved configuration, layer by layer.\<close>

lemma resolved_parts:
  assumes "resolve_documents sha b u r mode = Inr c"
  obtains m1 m2 where "merge_layers layered_sections u r \<lparr>mg_sections = cd_sections b, mg_provenance = []\<rparr> = Inr m1"
    "merge_timeout b u r m1 = Inr m2"
    "fc_sections c = mg_sections (merge_memory u r (merge_diagnostics u r (merge_paths b u r m2)))"
    "fc_capabilities c = capabilities_for mode (sort (remdups (allowed_diagnostics u r)))"
    "fc_mode c = mode" "mode = lit ''real'' \<or> mode = lit ''demo''"
    "mode = lit ''real'' \<Longrightarrow> allowed_diagnostics u r \<noteq> []"
    "cd_mode r = None \<or> cd_mode r = Some mode"
  using assms by (auto simp: resolve_documents_def bind_res_Inr Let_def split: if_splits)

definition final_field :: "frozen_config \<Rightarrow> string \<Rightarrow> string \<Rightarrow> json option" where
  "final_field c s f = map_of (section_of (fc_sections c) s) f"

definition timeout_of :: "config_doc \<Rightarrow> int \<Rightarrow> int" where
  "timeout_of u cur = int_or cur (doc_field u ''tests'' ''timeout_seconds'')"

lemma int_of_Inr: "int_of v = Inr n \<longleftrightarrow> v = Some (JInt n)"
  by (cases v rule: int_of.cases) auto

lemma timeout_fields:
  assumes "merge_timeout b u r m1 = Inr m2"
  obtains cur base where "merged_field m1 ''tests'' ''timeout_seconds'' = Some (JInt cur)"
    "doc_field b ''tests'' ''timeout_seconds'' = Some (JInt base)"
    "timeout_of u cur \<le> MAX_TIMEOUT_SECONDS" "timeout_of r (timeout_of u cur) \<le> MAX_TIMEOUT_SECONDS"
    "mg_sections m2 = dict_update ''tests'' (dict_update ''timeout_seconds''
        (JInt (min base (min (timeout_of u cur) (timeout_of r (timeout_of u cur)))))
        (section_of (mg_sections m1) ''tests'')) (mg_sections m1)"
proof -
  obtain cur where cur: "int_of (merged_field m1 ''tests'' ''timeout_seconds'') = Inr cur"
    using assms by (auto simp: merge_timeout_def bind_res_Inr)
  have lim: "timeout_of u cur \<le> MAX_TIMEOUT_SECONDS" "timeout_of r (timeout_of u cur) \<le> MAX_TIMEOUT_SECONDS"
    using assms unfolding merge_timeout_def cur bind_res.simps Let_def
      timeout_of_def[symmetric]
    by (auto split: if_splits)
  obtain base where base: "int_of (doc_field b ''tests'' ''timeout_seconds'') = Inr base"
    using assms lim unfolding merge_timeout_def cur bind_res.simps Let_def
      timeout_of_def[symmetric]
    by (auto simp: bind_res_Inr split: if_splits)
  have "mg_sections m2 = dict_update ''tests'' (dict_update ''timeout_seconds''
        (JInt (min base (min (timeout_of u cur) (timeout_of r (timeout_of u cur)))))
        (section_of (mg_sections m1) ''tests'')) (mg_sections m1)"
    using assms lim unfolding merge_timeout_def cur base bind_res.simps Let_def
      timeout_of_def[symmetric]
    by (auto split: if_splits)
  with that cur base lim show thesis by (simp add: int_of_Inr)
qed


lemma strs_sorted_set: "strs_of (Some (sorted_set ss)) = sort (remdups ss)"
  by (simp add: strs_of_def sorted_set_def jstrs_def)

lemma final_sections:
  assumes "resolve_documents sha b u r mode = Inr c" "doc_ok u" "doc_ok r"
  shows "s \<in> {''llm'', ''limits'', ''patch''} \<Longrightarrow>
      final_field c s f = repo_over s f (doc_field r s f) (over (doc_field u s f) (doc_field b s f))"
    and "f \<noteq> ''allowed_types'' \<Longrightarrow> final_field c ''memory'' f
      = repo_over ''memory'' f (doc_field r ''memory'' f) (over (doc_field u ''memory'' f) (doc_field b ''memory'' f))"
    and "doc_field r ''limits'' f = Some v \<Longrightarrow> f \<noteq> ''timeout_seconds'' \<Longrightarrow>
      ok (repo_value ''limits'' (over (doc_field u ''limits'' f) (doc_field b ''limits'' f)) v)"
proof -
  from assms(1) obtain m1 m2 where m1: "merge_layers layered_sections u r \<lparr>mg_sections = cd_sections b, mg_provenance = []\<rparr> = Inr m1"
    and m2: "merge_timeout b u r m1 = Inr m2"
    and fc: "fc_sections c = mg_sections (merge_memory u r (merge_diagnostics u r (merge_paths b u r m2)))"
    by (rule resolved_parts)
  have dl: "distinct layered_sections" by (simp add: layered_sections_def)
  note L = merge_layers_field[OF m1 dl assms(2,3)]
  have base: "merged_field \<lparr>mg_sections = cd_sections b, mg_provenance = []\<rparr> s f = doc_field b s f" for s f
    by (simp add: merged_field_def doc_field_def)
  obtain ts where ts: "mg_sections m2 = dict_update ''tests'' ts (mg_sections m1)"
    using timeout_fields[OF m2] by metis
  have keep: "section_of (fc_sections c) s = section_of (mg_sections m1) s"
    if "s \<notin> {''tests'', ''paths'', ''diagnostics'', ''memory''}" for s
    using that by (simp add: fc merge_memory_def merge_diagnostics_def merge_paths_def Let_def section_of_update ts)
  have mem: "section_of (fc_sections c) ''memory'' = dict_update ''allowed_types''
      (sorted_set (allowed_memory_types u r)) (section_of (mg_sections m1) ''memory'')"
    by (simp add: fc merge_memory_def merge_diagnostics_def merge_paths_def Let_def section_of_update ts)
  show "s \<in> {''llm'', ''limits'', ''patch''} \<Longrightarrow>
      final_field c s f = repo_over s f (doc_field r s f) (over (doc_field u s f) (doc_field b s f))"
    using L[of s f] keep[of s] base by (auto simp: final_field_def merged_field_def layered_sections_def)
  show "f \<noteq> ''allowed_types'' \<Longrightarrow> final_field c ''memory'' f
      = repo_over ''memory'' f (doc_field r ''memory'' f) (over (doc_field u ''memory'' f) (doc_field b ''memory'' f))"
    using L[of "''memory''" f] base
    by (simp add: final_field_def mem map_of_dict_update merged_field_def layered_sections_def)
  show "doc_field r ''limits'' f = Some v \<Longrightarrow> f \<noteq> ''timeout_seconds'' \<Longrightarrow>
      ok (repo_value ''limits'' (over (doc_field u ''limits'' f) (doc_field b ''limits'' f)) v)"
    using L[of "''limits''" f] base by (simp add: layered_sections_def)
qed

lemma final_timeout:
  assumes "resolve_documents sha b u r mode = Inr c" "doc_ok u" "doc_ok r"
  obtains base cur where "final_field c ''tests'' ''timeout_seconds''
      = Some (JInt (min base (min (timeout_of u cur) (timeout_of r (timeout_of u cur)))))"
    "doc_field b ''tests'' ''timeout_seconds'' = Some (JInt base)"
    "timeout_of u cur \<le> MAX_TIMEOUT_SECONDS" "timeout_of r (timeout_of u cur) \<le> MAX_TIMEOUT_SECONDS"
proof -
  from assms(1) obtain m1 m2 where m2: "merge_timeout b u r m1 = Inr m2"
    and fc: "fc_sections c = mg_sections (merge_memory u r (merge_diagnostics u r (merge_paths b u r m2)))"
    by (rule resolved_parts)
  have keep: "section_of (fc_sections c) ''tests'' = section_of (mg_sections m2) ''tests''"
    by (simp add: fc merge_memory_def merge_diagnostics_def merge_paths_def Let_def section_of_update)
  from m2 show thesis
  proof (rule timeout_fields)
    fix cur base
    assume a: "doc_field b ''tests'' ''timeout_seconds'' = Some (JInt base)"
      "timeout_of u cur \<le> MAX_TIMEOUT_SECONDS" "timeout_of r (timeout_of u cur) \<le> MAX_TIMEOUT_SECONDS"
      "mg_sections m2 = dict_update ''tests'' (dict_update ''timeout_seconds''
        (JInt (min base (min (timeout_of u cur) (timeout_of r (timeout_of u cur)))))
        (section_of (mg_sections m1) ''tests'')) (mg_sections m1)"
    show thesis
      using a(1-3) by (intro that[of base cur])
        (simp_all add: final_field_def keep a(4) section_of_update map_of_dict_update)
  qed
qed

lemma final_paths:
  assumes "resolve_documents sha b u r mode = Inr c"
  shows "set (strs_of (final_field c ''paths'' ''protected'')) = set (strs_of (doc_field b ''paths'' ''protected''))
      \<union> set (strs_of (doc_field u ''paths'' ''protected'')) \<union> set (strs_of (doc_field r ''paths'' ''protected''))"
    and "set (strs_of (final_field c ''paths'' ''sensitive'')) = set BUILTIN_SENSITIVE_PATHS
      \<union> set (strs_of (doc_field u ''paths'' ''sensitive'')) \<union> set (strs_of (doc_field r ''paths'' ''sensitive''))"
proof -
  from assms obtain m2 where
    fc: "fc_sections c = mg_sections (merge_memory u r (merge_diagnostics u r (merge_paths b u r m2)))"
    by (rule resolved_parts)
  have paths: "section_of (fc_sections c) ''paths'' = section_of (mg_sections (merge_paths b u r m2)) ''paths''"
    by (simp add: fc merge_memory_def merge_diagnostics_def Let_def section_of_update)
  show "set (strs_of (final_field c ''paths'' ''protected'')) = set (strs_of (doc_field b ''paths'' ''protected''))
      \<union> set (strs_of (doc_field u ''paths'' ''protected'')) \<union> set (strs_of (doc_field r ''paths'' ''protected''))"
    "set (strs_of (final_field c ''paths'' ''sensitive'')) = set BUILTIN_SENSITIVE_PATHS
      \<union> set (strs_of (doc_field u ''paths'' ''sensitive'')) \<union> set (strs_of (doc_field r ''paths'' ''sensitive''))"
    by (auto simp: final_field_def paths merge_paths_def Let_def section_of_update strs_sorted_set)
qed

lemma resolve_config_parts:
  assumes "resolve_config sha builtin user repo mode = Inr c"
  obtains b u r where "validate_document builtin = Some b" "validate_document user = Some u"
    "validate_document repo = Some r" "resolve_documents sha b u r mode = Inr c"
proof -
  have "\<And>x. as_conflict x = Inr c \<Longrightarrow> x = Inr c"
    by (auto simp: as_conflict_def split: sum.splits exn.splits)
  with assms that show thesis by (force simp: resolve_config_def bind_res_Inr)
qed

lemma limit_int:
  assumes "validate_document j = Some d" "doc_field d ''limits'' f = Some v"
  obtains n where "v = JInt n" "f \<noteq> ''timeout_seconds''"
proof -
  obtain k where k: "known_field ''limits'' f = Some k" "kind_ok k v"
    using validated_document(2)[OF assms] by blast
  then have "f \<noteq> ''timeout_seconds''" by (auto simp: known_field_def section_fields_def)
  with that kind_int limit_known[OF k(1)] k(2) show thesis by blast
qed

lemma timeout_int:
  "validate_document j = Some d \<Longrightarrow> doc_field d ''tests'' ''timeout_seconds'' = Some v \<Longrightarrow> \<exists>n. v = JInt n"
  using validated_document(2)[of j d "''tests''" "''timeout_seconds''" v] known_timeout kind_int by fastforce


text \<open>Approval thresholds are not limits: in a resolved configuration a repository's value for a patch
  threshold is the effective one, however much larger than the user's or the built-in value.\<close>

theorem patch_threshold_from_repository:
  assumes "resolve_config sha builtin user repo mode = Inr c" "validate_document repo = Some r"
    and "doc_field r ''patch'' f = Some v"
  shows "final_field c ''patch'' f = Some v"
proof -
  obtain b u where res: "resolve_documents sha b u r mode = Inr c" "validate_document user = Some u"
    using resolve_config_parts[OF assms(1)] assms(2) by (metis option.inject)
  have ok: "doc_ok u" "doc_ok r" using validated_document(1) assms(2) res(2) by blast+
  obtain k where "known_field ''patch'' f = Some k" using validated_document(2)[OF assms(2,3)] by blast
  then have "f \<noteq> ''timeout_seconds''" by (auto simp: known_field_def section_fields_def)
  then show ?thesis
    using final_sections(1)[OF res(1) ok, of "''patch''" f] assms(3)
    by (auto simp: repo_over_def repo_value_def split: option.splits json.splits)
qed

text \<open>The documented sample of a user configuration is refused: with an empty
  \<open>diagnostics.allowed_commands\<close> in the user's document no real configuration resolves, whatever the
  other layers say.\<close>

theorem empty_whitelist_refused:
  assumes "validate_document user = Some u"
    and "doc_field u ''diagnostics'' ''allowed_commands'' = Some (JArr [])"
  shows "\<exists>m. resolve_config sha builtin user repo (lit ''real'') = Inl (ConfigConflict m)"
proof (cases "resolve_config sha builtin user repo (lit ''real'')")
  case (Inl e)
  then have "\<exists>m. e = ConfigConflict m"
    by (auto simp: resolve_config_def as_conflict_def split: sum.splits exn.splits)
  with Inl show ?thesis by blast
next
  case (Inr c)
  then obtain b r where "resolve_documents sha b u r (lit ''real'') = Inr c"
    using resolve_config_parts[OF Inr] assms(1) by (metis option.inject)
  then have "allowed_diagnostics u r \<noteq> []" by (rule resolved_parts) simp
  then show ?thesis
    using assms(2) by (simp add: allowed_diagnostics_def strs_or_def strs_of_def filter_empty_conv)
qed


section \<open>The printed configuration can be encoded\<close>

definition ascii_text :: "pystr \<Rightarrow> bool" where
  "ascii_text s \<longleftrightarrow> list_all (\<lambda>c. 0 \<le> c \<and> c < 128) s"

lemma ascii_simps [simp]:
  "ascii_text []" "ascii_text (c # s) \<longleftrightarrow> 0 \<le> c \<and> c < 128 \<and> ascii_text s"
  "ascii_text (s @ t) \<longleftrightarrow> ascii_text s \<and> ascii_text t"
  by (auto simp: ascii_text_def)

fun chars_json :: "json \<Rightarrow> bool" where
  "chars_json (JFloat x) = ascii_text x"
| "chars_json (JStr s) = ascii_text s"
| "chars_json (JArr vs) = list_all chars_json vs"
| "chars_json (JObj kvs) = list_all (\<lambda>kv. ascii_text (fst kv) \<and> chars_json (snd kv)) kvs"
| "chars_json _ = True"

lemma escape_char_ascii: "0 \<le> c \<Longrightarrow> c < 128 \<Longrightarrow> ascii_text (escape_char c)"
  by (auto simp: escape_char_def hex_lower_def)

lemma dump_str_ascii: "ascii_text s \<Longrightarrow> ascii_text (dump_str s)"
  by (induction s) (use escape_char_ascii in \<open>auto simp: dump_str_def\<close>)

lemma nat_digits_ascii: "0 \<le> n \<Longrightarrow> ascii_text (nat_digits n)"
proof (induction n rule: nat_digits.induct)
  case (1 n)
  have "0 \<le> n mod 10" "n mod 10 < 10" by simp_all
  then show ?case using 1 by (subst nat_digits.simps) auto
qed

lemma join_ascii: "ascii_text sep \<Longrightarrow> list_all ascii_text xs \<Longrightarrow> ascii_text (join sep xs)"
  by (induction sep xs rule: join.induct) auto

lemma json_dumps_ascii: "chars_json j \<Longrightarrow> ascii_text (json_dumps j)"
proof (induction j)
  case (JInt n)
  then show ?case using nat_digits_ascii[of n] nat_digits_ascii[of "- n"] by (simp add: int_str_def)
next
  case (JStr s)
  then show ?case using dump_str_ascii by simp
next
  case (JArr vs)
  have "list_all ascii_text (map json_dumps vs)"
    using JArr by (auto simp: list_all_iff)
  then show ?case using join_ascii[of "[44]"] by simp
next
  case (JObj kvs)
  let ?m = "map (\<lambda>(k, t). dump_str k @ 58 # t) (sort_key fst (map (\<lambda>(k, v). (k, json_dumps v)) kvs))"
  have "ascii_text (dump_str k @ 58 # json_dumps v)" if "(k, v) \<in> set kvs" for k v
    using JObj.IH[OF that, of v] JObj.prems that dump_str_ascii by (auto simp: list_all_iff)
  then have "list_all ascii_text ?m" by (auto simp: list_all_iff)
  then show ?case using join_ascii[of "[44]" ?m] by simp
qed (simp_all add: str_simps)

lemma ascii_encodes: "ascii_text s \<Longrightarrow> utf8_encode s \<noteq> None"
  by (induction s) (auto simp: utf8_char_def split: option.splits)

lemma config_sha256_ok: "chars_json j \<Longrightarrow> config_sha256 (\<lambda>_. h) j = Inr h"
  using ascii_encodes[OF json_dumps_ascii, of j] by (cases "utf8_encode (json_dumps j)") (simp_all add: config_sha256_def)

definition sample_repository :: json where
  "sample_repository = jobj [(''limits'', jobj [(''max_actions'', JInt 10)]),
     (''tests'', jobj [(''timeout_seconds'', JInt 60)]),
     (''patch'', jobj [(''approval_file_threshold'', JInt 20)])]"

definition sample_frozen :: "frozen_config res" where
  "sample_frozen = resolve_config (\<lambda>_. sample_hash) BUILTIN_CONFIG (JObj []) sample_repository (lit ''real'')"

definition sample_doc :: "json \<Rightarrow> config_doc" where
  "sample_doc j = the (validate_document j)"

lemma sample_documents:
  "validate_document BUILTIN_CONFIG = Some (sample_doc BUILTIN_CONFIG)"
  "validate_document (JObj []) = Some (sample_doc (JObj []))"
  "validate_document sample_repository = Some (sample_doc sample_repository)"
  unfolding sample_doc_def by code_simp+

lemma sample_frozen_ok: "ok sample_frozen"
proof -
  let ?u = "sample_doc (JObj [])" and ?r = "sample_doc sample_repository" and ?b = "sample_doc BUILTIN_CONFIG"
  let ?m1 = "merge_layers layered_sections ?u ?r \<lparr>mg_sections = cd_sections ?b, mg_provenance = []\<rparr>"
  let ?merged = "\<lambda>m2. merge_memory ?u ?r (merge_diagnostics ?u ?r (merge_paths ?b ?u ?r m2))"
  let ?caps = "capabilities_for (lit ''real'') (sort (remdups (allowed_diagnostics ?u ?r)))"
  let ?json = "\<lambda>m2. config_json (cd_schema_version ?b) (lit ''real'') (mg_sections (?merged m2)) ?caps
    (mg_provenance (?merged m2))"
  have "case bind_res ?m1 (merge_timeout ?b ?u ?r) of Inl _ \<Rightarrow> False | Inr m \<Rightarrow> chars_json (?json m)"
    by code_simp
  then obtain m1 m2 where m: "?m1 = Inr m1" "merge_timeout ?b ?u ?r m1 = Inr m2"
    and "chars_json (?json m2)"
    by (auto simp: bind_res_Inr split: sum.splits)
  then have sha: "config_sha256 (\<lambda>_. sample_hash) (?json m2) = Inr sample_hash" by (intro config_sha256_ok)
  have rest: "allowed_diagnostics ?u ?r \<noteq> []" "cd_mode ?r = None" "hash_pattern sample_hash"
    by code_simp+
  have "ok (resolve_documents (\<lambda>_. sample_hash) ?b ?u ?r (lit ''real''))"
    by (simp add: resolve_documents_def m rest sha Let_def)
  then show ?thesis
    by (simp add: sample_frozen_def resolve_config_def sample_documents as_conflict_def ok_def split: sum.splits)
qed


theorem patch_threshold_from_repository_witness:
  "\<exists>c. sample_frozen = Inr c \<and> final_field c ''patch'' ''approval_file_threshold'' = Some (JInt 20)"
proof -
  obtain c where c: "sample_frozen = Inr c" using sample_frozen_ok by (auto simp: ok_def split: sum.splits)
  have "doc_field (sample_doc sample_repository) ''patch'' ''approval_file_threshold'' = Some (JInt 20)"
    by code_simp
  from patch_threshold_from_repository[OF c[unfolded sample_frozen_def] sample_documents(3) this] c
  show ?thesis by blast
qed

theorem empty_whitelist_refused_witness:
  "\<exists>m. resolve_config (\<lambda>_. sample_hash) BUILTIN_CONFIG
     (jobj [(''diagnostics'', jobj [(''allowed_commands'', JArr [])])]) (JObj []) (lit ''real'')
     = Inl (ConfigConflict m)"
proof -
  let ?user = "jobj [(''diagnostics'', jobj [(''allowed_commands'', JArr [])])]"
  have "validate_document ?user = Some (sample_doc ?user)"
    "doc_field (sample_doc ?user) ''diagnostics'' ''allowed_commands'' = Some (JArr [])"
    unfolding sample_doc_def by code_simp+
  from empty_whitelist_refused[OF this] show ?thesis .
qed

end
