(* ===== verification/Regex.thy ===== *)
theory Regex
  imports Prelude
begin

text \<open>
  The part of Python's \<^verbatim>\<open>re\<close> the sources use: leftmost search with backtracking, greedy repetition,
  groups, word boundaries and line anchors, and \<open>search\<close>, \<open>findall\<close> and \<open>sub\<close> on top of it. A match
  is computed as the list of its possible ends in the order the engine tries them, so the first
  one is the engine's match. The classes \<open>\w\<close> and \<open>\d\<close> beyond ASCII are the Unicode
  database's and a parameter. None of the patterns matches the empty string.
\<close>

section \<open>Patterns\<close>

record re_tables =
  rt_word :: "int \<Rightarrow> bool"
  rt_digit :: "int \<Rightarrow> bool"

datatype re =
    Ch "int \<Rightarrow> bool"
  | Eps
  | Cat re re
  | Alt re re
  | Star re
  | Grp nat re
  | Boundary
  | LineStart
  | LineEnd
  | NotAfter "int \<Rightarrow> bool"

text \<open>The character before the position, the rest of the text, and the groups so far.\<close>

type_synonym re_state = "int option \<times> pystr \<times> (nat \<times> pystr) list"

text \<open>At most \<open>n\<close> further rounds of a body that consumes something, greedy.\<close>

fun rounds :: "nat \<Rightarrow> (re_state \<Rightarrow> re_state list) \<Rightarrow> re_state \<Rightarrow> re_state list" where
  "rounds 0 f st = [st]"
| "rounds (Suc n) f st =
     concat (map (\<lambda>u. if length (fst (snd u)) < length (fst (snd st)) then rounds n f u else []) (f st)) @ [st]"

definition word_at :: "re_tables \<Rightarrow> int option \<Rightarrow> bool" where
  "word_at T c = (case c of None \<Rightarrow> False
     | Some x \<Rightarrow> 48 \<le> x \<and> x \<le> 57 \<or> 65 \<le> x \<and> x \<le> 90 \<or> x = 95 \<or> 97 \<le> x \<and> x \<le> 122 \<or> 128 \<le> x \<and> rt_word T x)"

fun head_opt :: "'a list \<Rightarrow> 'a option" where
  "head_opt [] = None"
| "head_opt (x # xs) = Some x"

primrec matches :: "re_tables \<Rightarrow> re \<Rightarrow> re_state \<Rightarrow> re_state list" where
  "matches T (Ch p) = (\<lambda>(prev, s, g). case s of [] \<Rightarrow> [] | c # r \<Rightarrow> if p c then [(Some c, r, g)] else [])"
| "matches T Eps = (\<lambda>st. [st])"
| "matches T (Cat a b) = (\<lambda>st. concat (map (matches T b) (matches T a st)))"
| "matches T (Alt a b) = (\<lambda>st. matches T a st @ matches T b st)"
| "matches T (Star a) = (\<lambda>st. rounds (length (fst (snd st))) (matches T a) st)"
| "matches T (Grp i a) = (\<lambda>(prev, s, g).
     map (\<lambda>(p, r, h). (p, r, (i, take (length s - length r) s) # h)) (matches T a (prev, s, g)))"
| "matches T Boundary = (\<lambda>(prev, s, g). if word_at T prev \<noteq> word_at T (head_opt s) then [(prev, s, g)] else [])"
| "matches T LineStart = (\<lambda>(prev, s, g). if prev = None \<or> prev = Some 10 then [(prev, s, g)] else [])"
| "matches T LineEnd = (\<lambda>(prev, s, g). if s = [] \<or> hd s = 10 then [(prev, s, g)] else [])"
| "matches T (NotAfter p) = (\<lambda>(prev, s, g). case prev of Some c \<Rightarrow> if p c then [] else [(prev, s, g)]
     | None \<Rightarrow> [(prev, s, g)])"

text \<open>The text before the leftmost match, and the state after it.\<close>

fun re_search :: "re_tables \<Rightarrow> re \<Rightarrow> int option \<Rightarrow> pystr \<Rightarrow> (pystr \<times> re_state) option" where
  "re_search T r prev [] = (case matches T r (prev, [], []) of st # _ \<Rightarrow> Some ([], st) | [] \<Rightarrow> None)"
| "re_search T r prev (c # cs) =
     (case matches T r (prev, c # cs, []) of
        st # _ \<Rightarrow> Some ([], st)
      | [] \<Rightarrow> map_option (\<lambda>(pre, st). (c # pre, st)) (re_search T r (Some c) cs))"

definition re_found :: "re_tables \<Rightarrow> re \<Rightarrow> pystr \<Rightarrow> bool" where
  "re_found T r s = (re_search T r None s \<noteq> None)"

function re_sub :: "re_tables \<Rightarrow> re \<Rightarrow> pystr \<Rightarrow> int option \<Rightarrow> pystr \<Rightarrow> pystr" where
  "re_sub T r new prev s =
     (case re_search T r prev s of
        None \<Rightarrow> s
      | Some (pre, (p, rest, g)) \<Rightarrow>
          if length rest < length s then pre @ new @ re_sub T r new p rest else s)"
  by pat_completeness auto
termination
  by (relation "measure (\<lambda>(T, r, new, prev, s). length s)") auto

function re_findall :: "re_tables \<Rightarrow> re \<Rightarrow> int option \<Rightarrow> pystr \<Rightarrow> (nat \<times> pystr) list list" where
  "re_findall T r prev s =
     (case re_search T r prev s of
        None \<Rightarrow> []
      | Some (pre, (p, rest, g)) \<Rightarrow>
          g # (if length rest < length s then re_findall T r p rest else []))"
  by pat_completeness auto
termination
  by (relation "measure (\<lambda>(T, r, prev, s). length s)") auto

declare re_sub.simps [simp del] re_findall.simps [simp del]

definition group_text :: "nat \<Rightarrow> (nat \<times> pystr) list \<Rightarrow> pystr" where
  "group_text i g = (case map_of g i of None \<Rightarrow> [] | Some s \<Rightarrow> s)"

section \<open>Abbreviated patterns\<close>

definition plus :: "re \<Rightarrow> re" where
  "plus r = Cat r (Star r)"

definition opt :: "re \<Rightarrow> re" where
  "opt r = Alt r Eps"

fun cats :: "re list \<Rightarrow> re" where
  "cats [] = Eps"
| "cats [r] = r"
| "cats (r # rs) = Cat r (cats rs)"

fun alts :: "re list \<Rightarrow> re" where
  "alts [] = Ch (\<lambda>_. False)"
| "alts [r] = r"
| "alts (r # rs) = Alt r (alts rs)"

definition word_re :: "string \<Rightarrow> re" where
  "word_re w = cats (map (\<lambda>c. Ch (\<lambda>x. x = of_char c)) w)"

text \<open>Case-insensitive matching of ASCII patterns: the two dotless and dotted i, the Kelvin sign and the
  long s match as their ASCII letters.\<close>

definition fold_case :: "int \<Rightarrow> int" where
  "fold_case c = (if 65 \<le> c \<and> c \<le> 90 then c + 32
     else if c = 304 \<or> c = 305 then 105 else if c = 8490 then 107 else if c = 383 then 115 else c)"

definition ci_letter :: "int \<Rightarrow> bool" where
  "ci_letter c \<longleftrightarrow> 97 \<le> fold_case c \<and> fold_case c \<le> 122"

definition ci_word :: "string \<Rightarrow> re" where
  "ci_word w = cats (map (\<lambda>c. Ch (\<lambda>x. fold_case x = fold_case (of_char c))) w)"

definition is_digit :: "re_tables \<Rightarrow> int \<Rightarrow> bool" where
  "is_digit T c \<longleftrightarrow> 48 \<le> c \<and> c \<le> 57 \<or> 128 \<le> c \<and> rt_digit T c"

definition non_space :: re where
  "non_space = Ch (\<lambda>c. \<not> is_space c)"

section \<open>Matches are parts of the text\<close>

definition suffix_state :: "re_state \<Rightarrow> re_state \<Rightarrow> bool" where
  "suffix_state st u \<longleftrightarrow> (\<exists>pre. fst (snd st) = pre @ fst (snd u))"

lemma suffix_refl [simp]: "suffix_state st st"
  by (simp add: suffix_state_def)

lemma suffix_trans: "suffix_state st u \<Longrightarrow> suffix_state u v \<Longrightarrow> suffix_state st v"
  unfolding suffix_state_def by (metis append.assoc)

lemma rounds_suffix:
  "(\<And>st u. u \<in> set (f st) \<Longrightarrow> suffix_state st u) \<Longrightarrow> u \<in> set (rounds n f st) \<Longrightarrow> suffix_state st u"
proof (induction n arbitrary: st)
  case (Suc n)
  from Suc.prems(2) consider "u = st" | v where "v \<in> set (f st)" "u \<in> set (rounds n f v)"
    by (auto split: if_splits)
  then show ?case
  proof cases
    case 2
    then show ?thesis using Suc.IH[OF Suc.prems(1)] Suc.prems(1) suffix_trans by blast
  qed simp
qed simp

lemma matches_suffix: "u \<in> set (matches T r st) \<Longrightarrow> suffix_state st u"
proof (induction r arbitrary: st u)
  case (Ch p)
  then show ?case by (cases st) (auto simp: suffix_state_def split: list.splits if_splits)
next
  case (Cat a b)
  then obtain v where "v \<in> set (matches T a st)" "u \<in> set (matches T b v)" by auto
  then show ?case using Cat.IH suffix_trans by blast
next
  case (Star a)
  then show ?case using rounds_suffix[of "matches T a" u] by simp
next
  case (Grp i a)
  obtain prev s g where st: "st = (prev, s, g)" by (cases st)
  then obtain p r h where "(p, r, h) \<in> set (matches T a (prev, s, g))"
    "u = (p, r, (i, take (length s - length r) s) # h)" using Grp.prems by auto
  then show ?case using Grp.IH st unfolding suffix_state_def by fastforce
next
  case (Alt a b)
  then have "u \<in> set (matches T a st) \<or> u \<in> set (matches T b st)" by simp
  then show ?case using Alt.IH by blast
next
  case Eps
  then show ?case by simp
next
  case Boundary
  then show ?case by (cases st) (simp split: if_splits)
next
  case LineStart
  then show ?case by (cases st) (simp split: if_splits)
next
  case LineEnd
  then show ?case by (cases st) (simp split: if_splits)
next
  case (NotAfter p)
  then show ?case by (cases st) (simp split: if_splits option.splits)
qed

lemma re_search_split:
  "re_search T r prev s = Some (pre, (p, rest, g)) \<Longrightarrow> \<exists>m. s = pre @ m @ rest"
proof (induction T r prev s arbitrary: pre rule: re_search.induct)
  case (1 T r prev)
  then have "(p, rest, g) \<in> set (matches T r (prev, [], []))" "pre = []" by (auto split: list.splits)
  then show ?case using matches_suffix[of "(p, rest, g)" T r "(prev, [], [])"] by (simp add: suffix_state_def)
next
  case (2 T r prev c cs)
  show ?case
  proof (cases "matches T r (prev, c # cs, [])")
    case Nil
    then obtain q where "re_search T r (Some c) cs = Some (q, (p, rest, g))" "pre = c # q"
      using 2(2) by auto
    then show ?thesis using 2(1)[OF Nil] by auto
  next
    case (Cons st sts)
    then have "(p, rest, g) \<in> set (matches T r (prev, c # cs, []))" "pre = []" using 2(2) by auto
    then show ?thesis using matches_suffix[of "(p, rest, g)" T r] by (auto simp: suffix_state_def)
  qed
qed

section \<open>Replacing parts of a text\<close>

text \<open>\<open>t\<close> is \<open>s\<close> with some of its segments replaced by the marker.\<close>

inductive spliced :: "'a list \<Rightarrow> 'a list \<Rightarrow> 'a list \<Rightarrow> bool" for m where
  spliced_Nil: "spliced m [] []"
| spliced_keep: "spliced m s t \<Longrightarrow> spliced m (c # s) (c # t)"
| spliced_cut: "spliced m s t \<Longrightarrow> spliced m (seg @ s) (m @ t)"

lemma spliced_refl: "spliced m s s"
  by (induction s) (auto intro: spliced.intros)

lemma spliced_prefix: "spliced m s t \<Longrightarrow> spliced m (u @ s) (u @ t)"
  by (induction u) (auto intro: spliced.intros)

text \<open>A text without the marker's brackets that is not part of what stands between them.\<close>

definition apart :: "'a list \<Rightarrow> 'a list \<Rightarrow> bool" where
  "apart x m \<longleftrightarrow> x \<noteq> [] \<and> 2 \<le> length m \<and> hd m \<notin> set x \<and> last m \<notin> set x
     \<and> \<not> contains x (butlast (tl m))"

lemma starts_with_sep: "r \<notin> set x \<Longrightarrow> starts_with x (a @ r # b) \<Longrightarrow> starts_with x a"
proof (induction x arbitrary: a)
  case (Cons y x)
  then show ?case by (cases a) auto
qed simp

lemma contains_sep:
  assumes "r \<notin> set x" "x \<noteq> []"
  shows "contains x (a @ r # b) \<Longrightarrow> contains x a \<or> contains x b"
proof (induction a)
  case Nil
  then show ?case using assms by (cases x) auto
next
  case (Cons c a)
  then show ?case using starts_with_sep[OF assms(1), of "c # a" b] by auto
qed

lemma apart_starts: "apart x m \<Longrightarrow> \<not> starts_with x (m @ t)"
  by (cases x; cases m) (auto simp: apart_def)

lemma apart_contains:
  assumes "apart x m" "contains x (m @ t)"
  shows "contains x t"
proof -
  obtain l r mid where m: "m = l # mid @ [r]"
    using assms(1) unfolding apart_def
    by (metis append_butlast_last_id butlast.simps(2) length_Cons list.exhaust list.size(3) not_less_eq_eq
        numeral_2_eq_2 last.simps le0)
  have x: "x \<noteq> []" "r \<notin> set x" "\<not> contains x mid" using assms(1) by (simp_all add: apart_def m)
  have "contains x (mid @ r # t)" using assms(2) apart_starts[OF assms(1), of t] by (simp add: m)
  then show ?thesis using contains_sep[OF x(2,1)] x(3) by blast
qed

lemma contains_append: "contains x s \<Longrightarrow> contains x (u @ s)"
proof (induction u)
  case (Cons a u)
  then show ?case by simp
qed simp

lemma spliced_starts:
  assumes "spliced m s t" "apart x m"
  shows "starts_with y t \<Longrightarrow> set y \<subseteq> set x \<Longrightarrow> starts_with y s"
  using assms(1)
proof (induction arbitrary: y)
  case (spliced_keep s t c)
  then show ?case by (cases y) auto
next
  case (spliced_cut s t seg)
  obtain d m' where "m = d # m'" using assms(2) by (cases m) (auto simp: apart_def)
  then have "y = []" using spliced_cut.prems assms(2) by (cases y) (auto simp: apart_def)
  then show ?case by simp
qed simp

lemma spliced_contains:
  assumes "spliced m s t" "apart x m"
  shows "contains x t \<Longrightarrow> contains x s"
  using assms(1)
proof induction
  case (spliced_keep s t c)
  then have "starts_with x (c # t) \<or> contains x t" by simp
  then show ?case
  proof
    assume "starts_with x (c # t)"
    then show ?thesis
      using spliced_starts[OF spliced.spliced_keep[OF spliced_keep.hyps, of c] assms(2)] by simp
  qed (use spliced_keep.IH in simp)
next
  case (spliced_cut s t seg)
  then show ?case using apart_contains[OF assms(2)] contains_append by blast
qed simp

lemma re_sub_spliced: "spliced new s (re_sub T r new prev s)"
proof (induction T r new prev s rule: re_sub.induct)
  case (1 T r new prev s)
  show ?case
  proof (cases "re_search T r prev s")
    case None
    then show ?thesis by (simp add: re_sub.simps[of T r new prev s] spliced_refl)
  next
    case (Some x)
    obtain pre p rest g where x: "x = (pre, (p, rest, g))" by (cases x) auto
    obtain m where s: "s = pre @ m @ rest" using re_search_split Some x by blast
    show ?thesis
    proof (cases "length rest < length s")
      case True
      then have "spliced new (pre @ m @ rest) (pre @ new @ re_sub T r new p rest)"
        using 1[OF Some] x by (intro spliced_prefix spliced_cut) auto
      moreover have "re_sub T r new prev s = pre @ new @ re_sub T r new p rest"
        using True Some x by (subst re_sub.simps) simp
      ultimately show ?thesis using s by simp
    next
      case False
      then show ?thesis using Some x by (simp add: re_sub.simps[of T r new prev s] spliced_refl)
    qed
  qed
qed

lemma replace_unfold:
  "a \<noteq> [] \<Longrightarrow> replace a b s = (case split_at a s of None \<Rightarrow> s | Some (u, v) \<Rightarrow> u @ b @ replace a b v)"
proof -
  assume "a \<noteq> []"
  have ne: "split_str a v \<noteq> []" for v by (subst split_str.simps) (auto split: option.splits)
  show ?thesis
  proof (cases "split_at a s")
    case None
    then show ?thesis by (simp add: replace_def split_str.simps[of a s])
  next
    case (Some uv)
    then show ?thesis using \<open>a \<noteq> []\<close> ne[of "snd uv"]
      by (cases uv; cases "split_str a (snd uv)") (simp_all add: replace_def split_str.simps[of a s])
  qed
qed

lemma replace_spliced: "a \<noteq> [] \<Longrightarrow> spliced b s (replace a b s)"
proof (induction s rule: length_induct)
  case (1 s)
  show ?case
  proof (cases "split_at a s")
    case None
    then show ?thesis using 1(2) by (simp add: replace_unfold spliced_refl)
  next
    case (Some uv)
    obtain u v where uv: "uv = (u, v)" by (cases uv)
    then have s: "s = u @ a @ v" "length v < length s"
      using split_at_Some split_at_shorter[OF 1(2)] Some by blast+
    then have "spliced b (u @ a @ v) (u @ b @ replace a b v)"
      using 1 by (intro spliced_prefix spliced_cut) auto
    moreover have "replace a b s = u @ b @ replace a b v"
      using Some uv 1(2) by (subst replace_unfold) auto
    ultimately show ?thesis using s(1) by simp
  qed
qed

lemma split_at_None: "split_at a s = None \<Longrightarrow> a \<noteq> [] \<Longrightarrow> \<not> contains a s"
  by (induction s) (auto simp: starts_with_def split: if_splits)

lemma split_at_first: "split_at a s = Some (u, v) \<Longrightarrow> a \<noteq> [] \<Longrightarrow> contains a (u @ w) \<Longrightarrow>
    set a \<inter> set (take 1 w) = {} \<Longrightarrow> w \<noteq> [] \<Longrightarrow> contains a w"
proof (induction a s arbitrary: u rule: split_at.induct)
  case (2 sep x xs)
  show ?case
  proof (cases "starts_with sep (x # xs)")
    case True
    then show ?thesis using 2 by simp
  next
    case False
    then obtain u' where u: "split_at sep xs = Some (u', v)" "u = x # u'" using 2(2) by auto
    have "\<not> starts_with sep (u @ w)"
    proof
      assume st: "starts_with sep (u @ w)"
      have s: "x # xs = u @ sep @ v" using split_at_Some[OF 2(2)] .
      show False
      proof (cases "length sep \<le> length u")
        case True
        then have "starts_with sep (x # xs)" using st s by (simp add: starts_with_def)
        then show False using False by simp
      next
        case long: False
        then have "hd w \<in> set sep"
        proof -
          have "take (length sep) (u @ w) = sep" using st by (simp add: starts_with_def)
          moreover have "(take (length sep) (u @ w)) ! length u = hd w"
            using long 2(6) by (simp add: nth_append hd_conv_nth)
          ultimately show ?thesis using long by (metis not_le nth_mem)
        qed
        then show False using 2(5,6) by (cases w) auto
      qed
    qed
    then have "contains sep (u' @ w)" using 2(4) u(2) by simp
    then show ?thesis using 2(1)[OF False u(1) 2(3)] 2(5,6) by blast
  qed
qed simp

lemma replace_removes:
  assumes "apart a b"
  shows "\<not> contains a (replace a b s)"
proof (induction s rule: length_induct)
  case (1 s)
  have a: "a \<noteq> []" "b \<noteq> []" "hd b \<notin> set a" using assms by (auto simp: apart_def)
  show ?case
  proof (cases "split_at a s")
    case None
    then show ?thesis using a by (simp add: replace_unfold split_at_None)
  next
    case (Some uv)
    obtain u v where uv: "uv = (u, v)" by (cases uv)
    then have IH: "\<not> contains a (replace a b v)" using 1 split_at_shorter[OF a(1)] Some by blast
    have "\<not> contains a (u @ b @ replace a b v)"
    proof
      assume c: "contains a (u @ b @ replace a b v)"
      have "set a \<inter> set (take 1 (b @ replace a b v)) = {}" using a by (cases b) auto
      then have "contains a (b @ replace a b v)"
        using split_at_first[OF _ a(1) c] Some uv a(2) by blast
      then show False using apart_contains[OF assms] IH by blast
    qed
    then show ?thesis using Some uv a(1) by (simp add: replace_unfold[of a b s])
  qed
qed

end
