(* ===== verification/Redaction.thy ===== *)
theory Redaction
  imports Regex Launcher Canonical
begin

text \<open>
  \<^verbatim>\<open>security/redaction.py\<close>, \<^verbatim>\<open>feedback/normalize.py\<close> and \<open>_safe\<close> of \<^verbatim>\<open>core/context.py\<close>: removing
  secrets, environment assignments and absolute paths from texts. The patterns are values of
  the type \<open>re\<close>; the tables of the Unicode database are a parameter. The main theorem says that a
  configured secret does not survive in a sanitized output.
\<close>

section \<open>The patterns\<close>

definition name_char :: "int \<Rightarrow> bool" where
  "name_char c \<longleftrightarrow> ci_letter c \<or> 48 \<le> c \<and> c \<le> 57 \<or> c = 95"

definition quiet :: re where
  "quiet = Ch (\<lambda>c. \<not> is_space c \<and> c \<noteq> 34 \<and> c \<noteq> 39)"

definition drive :: re where
  "drive = cats [Ch ci_letter, Ch (\<lambda>c. c = 58), Ch (\<lambda>c. c = 92)]"

definition SENSITIVE_KEY :: re where
  "SENSITIVE_KEY = alts
     [ci_word ''credential'', ci_word ''password'', ci_word ''passwd'', ci_word ''secret'', ci_word ''token'',
      cats [ci_word ''api'', opt (Ch (\<lambda>c. c = 95 \<or> c = 45)), ci_word ''key''],
      ci_word ''exception'', ci_word ''traceback'', ci_word ''environment'', ci_word ''env'']"

definition ENV_ASSIGNMENT :: re where
  "ENV_ASSIGNMENT = cats
     [Boundary, Ch ci_letter, Star (Ch name_char),
      alts [ci_word ''KEY'', ci_word ''TOKEN'', ci_word ''SECRET'', ci_word ''PASSWORD'', ci_word ''CREDENTIAL''],
      Star (Ch name_char), Ch (\<lambda>c. c = 61), plus non_space]"

definition WINDOWS_PATH :: re where
  "WINDOWS_PATH = Cat (Alt drive (cats [Ch (\<lambda>c. c = 92), Ch (\<lambda>c. c = 92)])) (plus quiet)"

definition POSIX_PATH :: "re_tables \<Rightarrow> re" where
  "POSIX_PATH T = cats
     [NotAfter (\<lambda>c. word_at T (Some c) \<or> c = 46), Ch (\<lambda>c. c = 47),
      plus (Cat (plus (Ch (\<lambda>c. \<not> is_space c \<and> c \<noteq> 47))) (Ch (\<lambda>c. c = 47))), plus quiet]"

definition ASSIGNMENT :: re where
  "ASSIGNMENT = cats
     [Boundary, alts [ci_word ''credential'', ci_word ''token'', ci_word ''secret'', ci_word ''password''],
      Star (Ch is_space), Ch (\<lambda>c. c = 61), Star (Ch is_space), plus non_space]"

section \<open>Redaction\<close>

definition REDACTED :: pystr where
  "REDACTED = lit ''[REDACTED]''"

definition PATH_MARK :: pystr where
  "PATH_MARK = lit ''[PATH]''"

text \<open>\<open>sorted(..., key=len, reverse=True)\<close> keeps the order of secrets of one length.\<close>

definition ordered_secrets :: "pystr list \<Rightarrow> pystr list" where
  "ordered_secrets secrets = sort_key (\<lambda>s. - py_len s) (filter (\<lambda>s. s \<noteq> []) secrets)"

definition redact_text :: "re_tables \<Rightarrow> pystr list \<Rightarrow> pystr \<Rightarrow> pystr" where
  "redact_text T secrets value =
     (let redacted = foldl (\<lambda>r secret. replace secret REDACTED r) value (ordered_secrets secrets);
          redacted = re_sub T ENV_ASSIGNMENT REDACTED None redacted;
          redacted = re_sub T WINDOWS_PATH PATH_MARK None redacted
      in re_sub T (POSIX_PATH T) PATH_MARK None redacted)"

definition sensitive_key :: "re_tables \<Rightarrow> pystr option \<Rightarrow> bool" where
  "sensitive_key T k = (case k of None \<Rightarrow> False | Some s \<Rightarrow> re_found T SENSITIVE_KEY s)"

text \<open>The keys of a model's dump are strings; a member of a string enumeration is a \<open>str\<close>.\<close>

fun redact_fields :: "re_tables \<Rightarrow> pystr list \<Rightarrow> py_value \<Rightarrow> py_value" where
  "redact_fields T secrets (PyDict kvs) =
     PyDict (map (\<lambda>(k, v). (k, if sensitive_key T k then PyStr REDACTED else redact_fields T secrets v)) kvs)"
| "redact_fields T secrets (PySeq vs) = PySeq (map (redact_fields T secrets) vs)"
| "redact_fields T secrets (PyStr s) = PyStr (redact_text T secrets s)"
| "redact_fields T secrets (PyEnum (PyStr s)) = PyStr (redact_text T secrets s)"
| "redact_fields T secrets v = v"

definition sanitize_output :: "re_tables \<Rightarrow> pystr list \<Rightarrow> raw_output \<Rightarrow> sanitized_output res" where
  "sanitize_output T secrets raw = check_sanitized_output
     \<lparr>so_stdout = redact_text T secrets (utf8_replace (ro_stdout raw)),
      so_stderr = redact_text T secrets (utf8_replace (ro_stderr raw)),
      so_stdout_truncated = ro_stdout_truncated raw,
      so_stderr_truncated = ro_stderr_truncated raw\<rparr>"

definition context_safe :: "re_tables \<Rightarrow> pystr \<Rightarrow> pystr" where
  "context_safe T value = re_sub T ASSIGNMENT REDACTED None (redact_text T [] value)"

section \<open>Normalised summaries\<close>

definition ANSI :: re where
  "ANSI = cats [Ch (\<lambda>c. c = 27), Ch (\<lambda>c. c = 91), Star (Ch (\<lambda>c. 48 \<le> c \<and> c \<le> 57 \<or> c = 59)), Ch (\<lambda>c. c = 109)]"

definition DURATION :: "re_tables \<Rightarrow> re" where
  "DURATION T = cats
     [Boundary, plus (Ch (is_digit T)), opt (Cat (Ch (\<lambda>c. c = 46)) (plus (Ch (is_digit T)))),
      Ch (\<lambda>c. c = 115), Boundary]"

definition TEMP :: re where
  "TEMP = Alt (Cat drive (plus non_space))
     (cats [Ch (\<lambda>c. c = 47), Alt (ci_word ''tmp'') (ci_word ''private/tmp''), Ch (\<lambda>c. c = 47), plus non_space])"

text \<open>\<open>s.split()\<close>.\<close>

fun split_space :: "pystr \<Rightarrow> pystr list" where
  "split_space [] = []"
| "split_space (c # s) =
     (if is_space c then split_space s
      else (case s of
              [] \<Rightarrow> [[c]]
            | d # _ \<Rightarrow> if is_space d then [c] # split_space s
                else (case split_space s of [] \<Rightarrow> [[c]] | w # ws \<Rightarrow> (c # w) # ws)))"

definition normalize_summary :: "re_tables \<Rightarrow> pystr \<Rightarrow> pystr" where
  "normalize_summary T value =
     (let value = replace [10] [32] (replace [13] [32] (re_sub T ANSI [] None value));
          value = re_sub T (DURATION T) (lit ''<duration>'') None value;
          value = re_sub T TEMP (lit ''<path>'') None value;
          value = join [32] (split_space value)
      in take 2000 (if value = [] then lit ''pytest result unavailable'' else value))"

section \<open>A configured secret does not survive\<close>

lemma re_sub_keeps_out: "apart x m \<Longrightarrow> \<not> contains x s \<Longrightarrow> \<not> contains x (re_sub T r m prev s)"
  using spliced_contains re_sub_spliced by blast

lemma replace_keeps_out:
  "apart x m \<Longrightarrow> secret \<noteq> [] \<Longrightarrow> \<not> contains x s \<Longrightarrow> \<not> contains x (replace secret m s)"
  using spliced_contains replace_spliced by blast

lemma replace_all_removes:
  assumes "apart x m" "x \<in> set ss" "\<And>s. s \<in> set ss \<Longrightarrow> s \<noteq> []"
  shows "\<not> contains x (foldl (\<lambda>r secret. replace secret m r) v ss)"
proof -
  have keep: "\<not> contains x w \<Longrightarrow> (\<And>s. s \<in> set us \<Longrightarrow> s \<noteq> []) \<Longrightarrow>
      \<not> contains x (foldl (\<lambda>r secret. replace secret m r) w us)" for w us
    using assms(1) by (induction us arbitrary: w) (simp_all add: replace_keeps_out)
  obtain us vs where ss: "ss = us @ x # vs" using assms(2) by (meson split_list)
  show ?thesis using keep[OF replace_removes[OF assms(1)], of vs] assms(3) by (simp add: ss)
qed

text \<open>A secret the markers cannot spell: without brackets, and no part of \<open>REDACTED\<close> or \<open>PATH\<close>.\<close>

definition plain_secret :: "pystr \<Rightarrow> bool" where
  "plain_secret x \<longleftrightarrow> x \<noteq> [] \<and> 91 \<notin> set x \<and> 93 \<notin> set x
     \<and> \<not> contains x (lit ''REDACTED'') \<and> \<not> contains x (lit ''PATH'')"

lemma plain_secret_apart:
  assumes "plain_secret x"
  shows "apart x REDACTED" and "apart x PATH_MARK"
  using assms by (simp_all add: plain_secret_def apart_def REDACTED_def PATH_MARK_def lit_Cons)

lemma set_ordered_secrets [simp]: "set (ordered_secrets ss) = {s \<in> set ss. s \<noteq> []}"
  by (simp add: ordered_secrets_def)

lemma redact_text_removes:
  assumes "plain_secret x" "x \<in> set secrets"
  shows "\<not> contains x (redact_text T secrets value)"
proof -
  note ap = plain_secret_apart[OF assms(1)]
  have "x \<noteq> []" using assms(1) by (simp add: plain_secret_def)
  then have "\<not> contains x (foldl (\<lambda>r secret. replace secret REDACTED r) value (ordered_secrets secrets))"
    using assms(2) by (intro replace_all_removes[OF ap(1)]) auto
  then show ?thesis by (simp add: redact_text_def Let_def re_sub_keeps_out ap)
qed

text \<open>The texts of a value that are not under a sensitive key, or are keys.\<close>

fun value_texts :: "py_value \<Rightarrow> pystr list" where
  "value_texts (PyDict kvs) = concat (map (\<lambda>(k, v). value_texts v) kvs)"
| "value_texts (PySeq vs) = concat (map value_texts vs)"
| "value_texts (PyStr s) = [s]"
| "value_texts (PyEnum v) = value_texts v"
| "value_texts _ = []"

fun plain_enums :: "py_value \<Rightarrow> bool" where
  "plain_enums (PyDict kvs) = list_all (\<lambda>(k, v). plain_enums v) kvs"
| "plain_enums (PySeq vs) = list_all plain_enums vs"
| "plain_enums (PyEnum v) = (case v of PyStr _ \<Rightarrow> True | PyInt _ \<Rightarrow> True | _ \<Rightarrow> False)"
| "plain_enums _ = True"

lemma redact_fields_removes:
  assumes "plain_secret x"
  shows "x \<in> set secrets \<Longrightarrow> plain_enums v \<Longrightarrow> t \<in> set (value_texts (redact_fields T secrets v)) \<Longrightarrow> \<not> contains x t"
proof (induction T secrets v arbitrary: t rule: redact_fields.induct)
  case (1 T secrets kvs)
  then obtain k v where kv: "(k, v) \<in> set kvs"
    "t \<in> set (value_texts (if sensitive_key T k then PyStr REDACTED else redact_fields T secrets v))"
    by auto
  show ?case
  proof (cases "sensitive_key T k")
    case True
    then show ?thesis using kv assms(1)
      using apart_contains[OF plain_secret_apart(1)[OF assms(1)], of "[]"] by (auto simp: plain_secret_def)
  next
    case False
    have "plain_enums v" using 1(3) kv(1) by (auto simp: list_all_iff)
    then show ?thesis using 1(1)[OF kv(1) refl False] 1(2) kv(2) False by simp
  qed
next
  case (2 T secrets vs)
  then show ?case by (auto simp: list_all_iff)
qed (use assms in \<open>auto simp: redact_text_removes split: py_value.splits\<close>)

text \<open>C12. A sanitized output, and every text of a redacted parsed result outside its sensitive keys,
  is free of each configured secret that the markers cannot spell; the sensitive keys hold the
  marker, which is free of it too.\<close>

theorem secrets_removed:
  assumes "plain_secret x" "x \<in> set secrets"
    and "sanitize_output T secrets raw = Inr out" and "plain_enums v"
  shows "\<not> contains x (so_stdout out) \<and> \<not> contains x (so_stderr out)
    \<and> list_all (\<lambda>t. \<not> contains x t) (value_texts (redact_fields T secrets v))"
  using assms(3) redact_text_removes[OF assms(1,2)] redact_fields_removes[OF assms(1,2,4)]
  by (auto simp: sanitize_output_def check_sanitized_output_def list_all_iff split: if_splits)

definition ascii_re :: re_tables where
  "ascii_re = \<lparr>rt_word = (\<lambda>_. False), rt_digit = (\<lambda>_. False)\<rparr>"

definition leaky_output :: raw_output where
  "leaky_output = \<lparr>ro_stdout = map of_char ''key=hunter2 hunter22'', ro_stderr = [255, 47],
     ro_stdout_truncated = False, ro_stderr_truncated = True\<rparr>"

lemma leaky_sanitized:
  "sanitize_output ascii_re [lit ''hunter2''] leaky_output = Inr
     \<lparr>so_stdout = lit ''key=[REDACTED] [REDACTED]2'', so_stderr = [65533, 47],
      so_stdout_truncated = False, so_stderr_truncated = True\<rparr>"
  by code_simp

theorem secrets_removed_witness:
  "\<not> contains (lit ''hunter2'') (lit ''key=[REDACTED] [REDACTED]2'')
    \<and> list_all (\<lambda>t. \<not> contains (lit ''hunter2'') t)
        (value_texts (redact_fields ascii_re [lit ''hunter2''] (PyDict [(Some (lit ''summary''), PyStr (lit ''hunter2'')) ])))"
proof -
  have p: "plain_secret (lit ''hunter2'')" by code_simp
  have e: "plain_enums (PyDict [(Some (lit ''summary''), PyStr (lit ''hunter2''))])" by simp
  show ?thesis using secrets_removed[OF p _ leaky_sanitized e] by simp
qed

end
