(* ===== verification/PytestParser.thy ===== *)
theory PytestParser
  imports Redaction Feedback
begin

text \<open>
  \<^verbatim>\<open>feedback/pytest_parser.py\<close>: from the bytes of a test run to the parsed result the feedback
  engine compares. The lemmas say which outputs can be read as a pass.
\<close>

section \<open>The patterns\<close>

definition name_start :: "int \<Rightarrow> bool" where
  "name_start c \<longleftrightarrow> 65 \<le> c \<and> c \<le> 90 \<or> 97 \<le> c \<and> c \<le> 122 \<or> c = 95"

definition spaces :: re where
  "spaces = plus (Ch is_space)"

definition FAILED_LINE :: re where
  "FAILED_LINE = cats
     [LineStart, word_re ''FAILED'', spaces, Grp 1 (plus non_space),
      opt (cats [spaces, Ch (\<lambda>c. c = 45), spaces, Grp 2 (plus (Ch (\<lambda>c. c \<noteq> 10)))]), LineEnd]"

definition EXCEPTION_NAME :: re where
  "EXCEPTION_NAME = cats
     [Boundary,
      Grp 1 (cats [Ch name_start, Star (Ch (\<lambda>c. name_start c \<or> 48 \<le> c \<and> c \<le> 57)),
                   Alt (word_re ''Error'') (word_re ''Exception'')]),
      Boundary]"

definition FRAME :: "re_tables \<Rightarrow> re" where
  "FRAME T = cats
     [LineStart, Grp 1 (Cat (plus (Ch (\<lambda>c. \<not> is_space c \<and> c \<noteq> 58))) (word_re ''.py'')),
      Ch (\<lambda>c. c = 58), plus (Ch (is_digit T))]"

definition PASSED_COUNT :: "re_tables \<Rightarrow> re" where
  "PASSED_COUNT T = cats [Boundary, plus (Ch (is_digit T)), word_re '' passed'', Boundary]"

section \<open>Parsing\<close>

definition found_exception :: "re_tables \<Rightarrow> pystr \<Rightarrow> pystr option" where
  "found_exception T s = map_option (\<lambda>(pre, p, rest, g). group_text 1 g) (re_search T EXCEPTION_NAME None s)"

fun first_detail :: "(pystr \<times> pystr) list \<Rightarrow> pystr" where
  "first_detail [] = lit ''pytest failure''"
| "first_detail ((node, detail) # fs) = (if detail \<noteq> [] then detail else first_detail fs)"

definition failures :: "re_tables \<Rightarrow> pystr \<Rightarrow> (pystr \<times> pystr) list" where
  "failures T s = map (\<lambda>g. (group_text 1 g, group_text 2 g)) (re_findall T FAILED_LINE None s)"

definition sorted_set :: "pystr list \<Rightarrow> pystr list" where
  "sorted_set xs = sort (remdups xs)"

definition frames :: "re_tables \<Rightarrow> pystr \<Rightarrow> pystr list" where
  "frames T s = take 20 (sorted_set (map (group_text 1) (re_findall T (FRAME T) None s)))"

definition plain_parsed :: "test_run \<Rightarrow> parsed_outcome \<Rightarrow> pystr option \<Rightarrow> string \<Rightarrow> bool \<Rightarrow> parsed_result" where
  "plain_parsed run out exception summary truncated =
     \<lparr>pr_run_id = tn_run_id run, pr_phase = tn_phase run, pr_outcome = out, pr_node_ids = [],
      pr_exception_type = exception, pr_summary = lit summary, pr_frames = [],
      pr_truncated = truncated, pr_revision = lit ''unknown''\<rparr>"

definition parse_pytest :: "re_tables \<Rightarrow> raw_output \<Rightarrow> test_run \<Rightarrow> parsed_result res" where
  "parse_pytest T raw run =
     (let truncated = (ro_stdout_truncated raw \<or> ro_stderr_truncated raw);
          output = utf8_replace (ro_stdout raw @ [10] @ ro_stderr raw);
          found = failures T output
      in check_parsed_result
        (if tn_outcome run \<in> {RUN_ENVIRONMENT_ERROR, RUN_TIMED_OUT, RUN_RESOURCE_LIMIT, RUN_CANCELLED,
              RUN_UNKNOWN_OUTCOME}
         then plain_parsed run PO_ENVIRONMENT_ERROR None ''pytest environment unavailable'' truncated
         else if truncated \<or> tn_outcome run = RUN_UNPARSEABLE
         then plain_parsed run PO_UNPARSEABLE None ''pytest output was not reliably parseable'' truncated
         else if found \<noteq> []
         then (let detail = first_detail found
               in \<lparr>pr_run_id = tn_run_id run, pr_phase = tn_phase run, pr_outcome = PO_FAILED,
                   pr_node_ids = sorted_set (map fst found),
                   pr_exception_type = found_exception T detail,
                   pr_summary = normalize_summary T detail, pr_frames = frames T output,
                   pr_truncated = False, pr_revision = lit ''unknown''\<rparr>)
         else if contains (lit ''ERROR collecting'') output \<or> contains (lit ''SyntaxError:'') output
         then plain_parsed run PO_COLLECTION_ERROR (found_exception T output) ''pytest collection failed'' False
         else if tn_outcome run = RUN_PASSED \<and> re_found T (PASSED_COUNT T) output
         then plain_parsed run PO_PASSED None ''pytest passed'' False
         else plain_parsed run PO_UNPARSEABLE None ''pytest output was not reliably parseable'' False))"

definition redact_parsed_result :: "re_tables \<Rightarrow> pystr list \<Rightarrow> parsed_result \<Rightarrow> parsed_result res" where
  "redact_parsed_result T secrets r = check_parsed_result
     (r\<lparr>pr_summary := redact_text T secrets (pr_summary r),
        pr_frames := map (redact_text T secrets) (pr_frames r)\<rparr>)"

section \<open>What a pass needs\<close>

lemma plain_parsed_simps [simp]:
  "pr_outcome (plain_parsed run p e s t) = p" "pr_truncated (plain_parsed run p e s t) = t"
  "pr_run_id (plain_parsed run p e s t) = tn_run_id run" "pr_phase (plain_parsed run p e s t) = tn_phase run"
  "pr_node_ids (plain_parsed run p e s t) = []" "pr_summary (plain_parsed run p e s t) = lit s"
  by (simp_all add: plain_parsed_def)

lemma check_parsed_result_Inr: "check_parsed_result r = Inr r' \<longleftrightarrow> ok (safe_summary (pr_summary r)) \<and> r' = r"
  by (auto simp: check_parsed_result_def)

lemma parse_pytest_cases:
  assumes "parse_pytest T raw run = Inr r"
  shows "pr_run_id r = tn_run_id run" "pr_phase r = tn_phase run"
    "pr_outcome r = PO_PASSED \<Longrightarrow> tn_outcome run = RUN_PASSED \<and> \<not> pr_truncated r
       \<and> \<not> ro_stdout_truncated raw \<and> \<not> ro_stderr_truncated raw
       \<and> failures T (utf8_replace (ro_stdout raw @ [10] @ ro_stderr raw)) = []
       \<and> re_found T (PASSED_COUNT T) (utf8_replace (ro_stdout raw @ [10] @ ro_stderr raw))"
    "pr_outcome r = PO_FAILED \<Longrightarrow> pr_node_ids r \<noteq> [] \<and> sorted (pr_node_ids r) \<and> distinct (pr_node_ids r)"
    "pr_outcome r \<noteq> PO_FAILED \<Longrightarrow> pr_node_ids r = []"
  using assms by (auto simp: parse_pytest_def Let_def check_parsed_result_Inr sorted_set_def
      set_empty[symmetric] simp del: set_empty split: if_splits)

end
