(* ===== verification/Artifacts.thy ===== *)
theory Artifacts
  imports Models
begin

text \<open>
  \<^verbatim>\<open>adapters/artifacts/local_store.py\<close> and \<open>_store_and_verify\<close> of \<^verbatim>\<open>adapters/process/pytest_runner.py\<close>:
  content under a fresh id with its length and hash, the interface its clients rely on
  (the locale \<open>artifact_store\<close>), and that the local store provides it.
\<close>

section \<open>The local store\<close>

text \<open>A file of the store: whether its path is a symbolic link, and its bytes. A task's directory may
  lead out of the store (\<open>ls_escapes\<close>). The ids of \<open>uuid4()\<close> are a sequence. Writing does not fail.\<close>

record artifact_file =
  af_link :: bool
  af_bytes :: bytes

record local_store =
  ls_files :: "uuid \<times> uuid \<Rightarrow> artifact_file option"
  ls_escapes :: "uuid \<Rightarrow> bool"
  ls_ids :: "nat \<Rightarrow> uuid"
  ls_used :: nat

definition validate_schema :: "pystr \<Rightarrow> unit res" where
  "validate_schema s =
     require (s \<noteq> [] \<and> \<not> starts_with (lit ''.'') s \<and> \<not> contains (lit ''/'') s \<and> \<not> contains (lit [CHR 0x5C]) s
       \<and> \<not> contains (lit ''..'') s)
       (ValueError ''schema id must be a bounded identifier'')"

text \<open>\<open>lower()\<close> of the ASCII media types the source passes.\<close>

definition ascii_lower :: "pystr \<Rightarrow> pystr" where
  "ascii_lower s = map (\<lambda>c. if 65 \<le> c \<and> c \<le> 90 then c + 32 else c) s"

definition path_for :: "artifact_ref \<Rightarrow> uuid \<times> uuid" where
  "path_for r = (tid_value (ar_task_id r), ar_artifact_id r)"

definition local_put ::
    "(bytes \<Rightarrow> pystr) \<Rightarrow> task_id \<Rightarrow> pystr \<Rightarrow> int \<Rightarrow> pystr \<Rightarrow> bytes \<Rightarrow> (local_store, artifact_ref) prog" where
  "local_put sha t schema version media content w =
     (case validate_schema schema of
        Inl e \<Rightarrow> (Inl e, w)
      | Inr _ \<Rightarrow>
          if contains (lit '';'') media \<or> \<not> contains (lit ''/'') media \<or> media \<noteq> ascii_lower media
          then (Inl (ValueError ''media type must be lowercase and parameter-free''), w)
          else
            let artifact_id = ls_ids w (ls_used w);
                v = w\<lparr>ls_files := (ls_files w)((tid_value t, artifact_id) \<mapsto> \<lparr>af_link = False, af_bytes = content\<rparr>),
                      ls_used := Suc (ls_used w)\<rparr>
            in (check_artifact_ref
                 \<lparr>ar_artifact_id = artifact_id, ar_task_id = t, ar_schema_id = schema,
                  ar_schema_version = version, ar_media_type = media, ar_byte_length = py_len content,
                  ar_sha256 = sha content\<rparr>, v))"

definition local_load :: "(bytes \<Rightarrow> pystr) \<Rightarrow> artifact_ref \<Rightarrow> (local_store, bytes) prog" where
  "local_load sha r w =
     (case ls_files w (path_for r) of
        None \<Rightarrow> (Inl (ValueError ''artifact missing''), w)
      | Some f \<Rightarrow>
          if af_link f then (Inl (ValueError ''symlinked artifact rejected''), w)
          else if ls_escapes w (tid_value (ar_task_id r)) then (Inl (ValueError ''artifact escapes store''), w)
          else if py_len (af_bytes f) \<noteq> ar_byte_length r \<or> sha (af_bytes f) \<noteq> ar_sha256 r
          then (Inl (ValueError ''artifact integrity mismatch''), w)
          else (Inr (af_bytes f), w))"

section \<open>The interface\<close>

definition store_and_verify ::
    "(task_id \<Rightarrow> pystr \<Rightarrow> int \<Rightarrow> pystr \<Rightarrow> bytes \<Rightarrow> ('w, artifact_ref) prog) \<Rightarrow> (artifact_ref \<Rightarrow> ('w, bytes) prog)
       \<Rightarrow> (bytes \<Rightarrow> pystr) \<Rightarrow> task_id \<Rightarrow> pystr \<Rightarrow> bytes \<Rightarrow> ('w, artifact_ref) prog" where
  "store_and_verify put load sha t schema content =
     bind_prog (put t schema 1 (lit ''application/json'') content) (\<lambda>ref.
       if ar_task_id ref \<noteq> t \<or> ar_schema_id ref \<noteq> schema \<or> ar_schema_version ref \<noteq> 1
          \<or> ar_media_type ref \<noteq> lit ''application/json'' \<or> ar_byte_length ref \<noteq> py_len content
          \<or> ar_sha256 ref \<noteq> sha content
       then raise (ValueError ''artifact integrity validation failed'')
       else bind_prog (load ref) (\<lambda>loaded.
         if py_len loaded \<noteq> ar_byte_length ref \<or> sha loaded \<noteq> ar_sha256 ref
         then raise (ValueError ''artifact integrity validation failed'')
         else ret ref))"

text \<open>What a store promises: a reference that describes the content and under which it is held, other
  references untouched, and loading that returns only what is held, with its length and hash.\<close>

definition describes :: "(bytes \<Rightarrow> pystr) \<Rightarrow> artifact_ref \<Rightarrow> bytes \<Rightarrow> bool" where
  "describes sha r content \<longleftrightarrow> ar_byte_length r = py_len content \<and> ar_sha256 r = sha content"

locale artifact_store =
  fixes put :: "task_id \<Rightarrow> pystr \<Rightarrow> int \<Rightarrow> pystr \<Rightarrow> bytes \<Rightarrow> ('w, artifact_ref) prog"
    and load :: "artifact_ref \<Rightarrow> ('w, bytes) prog"
    and sha :: "bytes \<Rightarrow> pystr"
    and held :: "'w \<Rightarrow> uuid \<times> uuid \<Rightarrow> bytes option"
  assumes put: "put t schema v m content w = (Inr r, w') \<Longrightarrow>
      ar_task_id r = t \<and> ar_schema_id r = schema \<and> ar_schema_version r = v \<and> ar_media_type r = m
      \<and> describes sha r content \<and> check_artifact_ref r = Inr r \<and> held w' = (held w)(path_for r \<mapsto> content)"
    and load: "load r w = (q, w') \<Longrightarrow> w' = w \<and>
      (case q of Inl e \<Rightarrow> is_value_error e | Inr c \<Rightarrow> held w (path_for r) = Some c \<and> describes sha r c)"
begin

lemma verified:
  assumes "store_and_verify put load sha t schema content w = (Inr r, w')"
  shows "ref_contract t s r \<longleftrightarrow> schema = lit s" "held w' (path_for r) = Some content"
    "describes sha r content" "check_artifact_ref r = Inr r"
proof -
  obtain u where p: "put t schema 1 (lit ''application/json'') content w = (Inr r, u)" and "w' = u"
    using assms load
    by (auto simp: store_and_verify_def bind_prog_Inr split: if_splits)
  then show "held w' (path_for r) = Some content" "describes sha r content" "check_artifact_ref r = Inr r"
    and "ref_contract t s r \<longleftrightarrow> schema = lit s"
    using put[OF p] by (auto simp: ref_contract_def)
qed

end

definition local_held :: "local_store \<Rightarrow> uuid \<times> uuid \<Rightarrow> bytes option" where
  "local_held w k = map_option af_bytes (ls_files w k)"

lemma local_put_Inr:
  assumes "local_put sha t schema v m content w = (Inr r, w')"
  shows "r = \<lparr>ar_artifact_id = ls_ids w (ls_used w), ar_task_id = t, ar_schema_id = schema,
      ar_schema_version = v, ar_media_type = m, ar_byte_length = py_len content, ar_sha256 = sha content\<rparr>"
    "check_artifact_ref r = Inr r"
    "w' = w\<lparr>ls_files := (ls_files w)(path_for r \<mapsto> \<lparr>af_link = False, af_bytes = content\<rparr>),
            ls_used := Suc (ls_used w)\<rparr>"
  using assms by (auto simp: local_put_def check_artifact_ref_def path_for_def Let_def split: sum.splits if_splits)

interpretation local_artifacts: artifact_store "local_put sha" "local_load sha" sha local_held for sha
proof unfold_locales
  fix t schema v m content w r w'
  assume "local_put sha t schema v m content w = (Inr r, w')"
  from local_put_Inr[OF this] show "ar_task_id r = t \<and> ar_schema_id r = schema \<and> ar_schema_version r = v
      \<and> ar_media_type r = m \<and> describes sha r content \<and> check_artifact_ref r = Inr r
      \<and> local_held w' = (local_held w)(path_for r \<mapsto> content)"
    by (auto simp: describes_def local_held_def)
next
  fix r w q w'
  assume "local_load sha r w = (q, w')"
  then show "w' = w \<and> (case q of Inl e \<Rightarrow> is_value_error e
      | Inr c \<Rightarrow> local_held w (path_for r) = Some c \<and> describes sha r c)"
    by (auto simp: local_load_def local_held_def describes_def split: option.splits if_splits)
qed

text \<open>C38. Content put into the local store is loaded back through its reference, also after further
  artifacts with other ids were put, unless its task's directory leads out of the store; and
  whatever happened to the files, a load returns only bytes of the recorded length and hash.\<close>

theorem artifact_roundtrip:
  assumes "local_put sha t schema v m content w = (Inr r, w1)"
    and "local_put sha t2 schema2 v2 m2 content2 w1 = (Inr r2, w2)" "path_for r2 \<noteq> path_for r"
    and "\<not> ls_escapes w (tid_value t)"
  shows "local_load sha r w1 = (Inr content, w1) \<and> local_load sha r w2 = (Inr content, w2)
    \<and> (case local_load sha r tampered of (Inl e, _) \<Rightarrow> is_value_error e
        | (Inr c, _) \<Rightarrow> py_len c = py_len content \<and> sha c = sha content)"
proof -
  note r = local_put_Inr[OF assms(1)] and r2 = local_put_Inr[OF assms(2)]
  have "describes sha r content" using local_artifacts.put[OF assms(1)] by simp
  then have "local_load sha r w1 = (Inr content, w1)" "local_load sha r w2 = (Inr content, w2)"
    using r(1,3) r2(3) assms(3,4) by (auto simp: local_load_def describes_def)
  moreover have "case local_load sha r tampered of (Inl e, _) \<Rightarrow> is_value_error e
        | (Inr c, _) \<Rightarrow> py_len c = py_len content \<and> sha c = sha content"
    using local_artifacts.load[of sha r tampered] \<open>describes sha r content\<close>
    by (auto simp: describes_def split: prod.splits sum.splits)
  ultimately show ?thesis by blast
qed

definition sample_store :: local_store where
  "sample_store = \<lparr>ls_files = (\<lambda>_. None), ls_escapes = (\<lambda>_. False),
     ls_ids = (\<lambda>n. UUID (0x123e4567e89b42d3a456426614174000 + of_nat n)), ls_used = 0\<rparr>"

definition zero_sha :: "bytes \<Rightarrow> pystr" where
  "zero_sha b = replicate 64 48"


definition sample_put :: "nat \<Rightarrow> local_store \<Rightarrow> artifact_ref res \<times> local_store" where
  "sample_put n = local_put zero_sha (TaskId sample_uuid) (lit ''parsed_result'') 1 (lit ''application/json'')
     (replicate n 7)"

lemma sample_valid:
  "validate_schema (lit ''parsed_result'') = Inr ()"
  "contains (lit '';'') (lit ''application/json'') = False"
  "contains (lit ''/'') (lit ''application/json'') = True"
  "ascii_lower (lit ''application/json'') = lit ''application/json''"
  "check_artifact_ref
     \<lparr>ar_artifact_id = UUID 0x123e4567e89b42d3a456426614174001, ar_task_id = TaskId sample_uuid,
      ar_schema_id = lit ''parsed_result'', ar_schema_version = 1, ar_media_type = lit ''application/json'',
      ar_byte_length = 0, ar_sha256 = zero_sha []\<rparr>
   = Inr \<lparr>ar_artifact_id = UUID 0x123e4567e89b42d3a456426614174001, ar_task_id = TaskId sample_uuid,
      ar_schema_id = lit ''parsed_result'', ar_schema_version = 1, ar_media_type = lit ''application/json'',
      ar_byte_length = 0, ar_sha256 = zero_sha []\<rparr>"
  by code_simp+

theorem artifact_roundtrip_witness:
  "\<exists>r w1. sample_put 2 sample_store = (Inr r, w1) \<and> local_load zero_sha r w1 = (Inr [7, 7], w1)"
proof -
  obtain r w1 where p: "sample_put 2 sample_store = (Inr r, w1)"
    by (rule that[of "\<lparr>ar_artifact_id = sample_uuid, ar_task_id = TaskId sample_uuid,
          ar_schema_id = lit ''parsed_result'', ar_schema_version = 1, ar_media_type = lit ''application/json'',
          ar_byte_length = 2, ar_sha256 = zero_sha []\<rparr>" "snd (sample_put 2 sample_store)"])
      (simp add: prod_eq_iff; code_simp)
  have "ls_used w1 = 1" "ls_ids w1 = ls_ids sample_store" "ls_escapes sample_store (tid_value (TaskId sample_uuid)) = False"
    using local_put_Inr(3)[OF p[unfolded sample_put_def]] by (simp_all add: sample_store_def)
  then have q: "local_put zero_sha (TaskId sample_uuid) (lit ''parsed_result'') 1 (lit ''application/json'') [] w1
      = (Inr \<lparr>ar_artifact_id = UUID 0x123e4567e89b42d3a456426614174001, ar_task_id = TaskId sample_uuid,
          ar_schema_id = lit ''parsed_result'', ar_schema_version = 1, ar_media_type = lit ''application/json'',
          ar_byte_length = 0, ar_sha256 = zero_sha []\<rparr>,
        w1\<lparr>ls_files := (ls_files w1)((sample_uuid, UUID 0x123e4567e89b42d3a456426614174001)
             \<mapsto> \<lparr>af_link = False, af_bytes = []\<rparr>), ls_used := 2\<rparr>)"
    using sample_valid by (simp add: local_put_def Let_def numeral_2_eq_2 sample_store_def)
  have "ar_artifact_id r = sample_uuid" using local_put_Inr(1)[OF p[unfolded sample_put_def]]
    by (simp add: sample_store_def sample_uuid_def)
  then have "path_for \<lparr>ar_artifact_id = UUID 0x123e4567e89b42d3a456426614174001, ar_task_id = TaskId sample_uuid,
          ar_schema_id = lit ''parsed_result'', ar_schema_version = 1, ar_media_type = lit ''application/json'',
          ar_byte_length = 0, ar_sha256 = zero_sha []\<rparr> \<noteq> path_for r"
    by (simp add: path_for_def sample_uuid_def)
  from artifact_roundtrip[OF p[unfolded sample_put_def] q this] show ?thesis
    using p by (auto simp: sample_store_def numeral_2_eq_2)
qed

end
