(* ===== verification/PytestRunner.thy ===== *)
theory PytestRunner
  imports PytestParser Artifacts Harness
begin

text \<open>
  \<^verbatim>\<open>adapters/process/pytest_runner.py\<close> and the test part of \<^verbatim>\<open>adapters/runtime/action_executor.py\<close>:
  one run of the trusted pytest with its evidence (hashes of the workspace before and after, redacted
  output and parsed result kept as artifacts, the test run), and \<open>CoreTestRunner\<close>, which gives the
  core its executions. The launcher, the artifact store, the hasher, the clocks and \<open>uuid4\<close> are
  programs over a world. A monotonic reading counts microseconds, so a duration is a division.
\<close>

section \<open>Requests\<close>

record test_request =
  tq_task_id :: task_id
  tq_phase :: test_phase
  tq_command :: frozen_command
  tq_base_commit :: pystr
  tq_config_sha256 :: pystr
  tq_worktree :: pystr
  tq_environment :: "(pystr \<times> pystr) list"
  tq_timeout :: int

record test_execution =
  te_run :: test_run
  te_raw :: raw_output
  te_sanitized :: sanitized_output

record 'w runner_deps =
  rd_launch :: "launch_request \<Rightarrow> ('w, launch_result) prog"
  rd_put :: "task_id \<Rightarrow> pystr \<Rightarrow> int \<Rightarrow> pystr \<Rightarrow> bytes \<Rightarrow> ('w, artifact_ref) prog"
  rd_load :: "artifact_ref \<Rightarrow> ('w, bytes) prog"
  rd_workspace_hash :: "pystr \<Rightarrow> ('w, pystr) prog"
  rd_parser :: "raw_output \<Rightarrow> int \<Rightarrow> py_value option"
  rd_python :: pystr
  rd_wall_clock :: "('w, datetime) prog"
  rd_monotonic :: "('w, int) prog"
  rd_uuid4 :: "('w, uuid) prog"
  rd_resolve :: "pystr \<Rightarrow> ('w, pystr) prog"
  rd_is_dir :: "pystr \<Rightarrow> ('w, bool) prog"
  rd_sha :: "bytes \<Rightarrow> pystr"
  rd_upper :: "pystr \<Rightarrow> pystr"
  rd_re :: re_tables

text \<open>The validators of \<open>TestRequest\<close>; resolving the worktree may raise \<open>OSError\<close>.\<close>

definition make_test_request :: "'w runner_deps \<Rightarrow> test_request \<Rightarrow> ('w, test_request) prog" where
  "make_test_request R q =
     bind_prog (rd_resolve R (tq_worktree q)) (\<lambda>resolved.
     bind_prog (rd_is_dir R resolved) (\<lambda>dir.
       if \<not> dir \<or> \<not> commit_pattern (tq_base_commit q) \<or> \<not> hash_pattern (tq_config_sha256 q)
          \<or> \<not> (1 \<le> tq_timeout q \<and> tq_timeout q \<le> 600)
       then raise ValidationError
       else ret (q\<lparr>tq_worktree := resolved\<rparr>)))"

section \<open>The command line and the environment\<close>

definition SAFE_ENV_KEYS :: "pystr list" where
  "SAFE_ENV_KEYS = map lit [''SYSTEMROOT'', ''WINDIR'', ''TEMP'', ''TMP'', ''TMPDIR'', ''LANG'', ''LC_ALL'', ''PATHEXT'']"

definition SHELL_TOKENS :: "pystr list" where
  "SHELL_TOKENS = map lit [''|'', ''||'', ''&'', ''&&'', '';'', ''>'', ''>>'', ''<'', ''<<'', [CHR 0x60]]"

definition resolve_argv :: "pystr \<Rightarrow> frozen_command \<Rightarrow> pystr list res" where
  "resolve_argv trusted_python logical =
     (if list_ex (\<lambda>item. item \<in> set SHELL_TOKENS \<or> contains (lit ''$('') item) logical
      then Inl (ValueError ''shell syntax is forbidden'')
      else case logical of
        [] \<Rightarrow> Inl IndexError
      | first # rest \<Rightarrow>
          if first = lit ''pytest'' then Inr ([trusted_python, lit ''-m'', lit ''pytest''] @ rest)
          else if take 3 logical = [lit ''python'', lit ''-m'', lit ''pytest'']
          then Inr ([trusted_python, lit ''-m'', lit ''pytest''] @ drop 3 logical)
          else Inl (ValueError ''untrusted test executable''))"

definition clean_environment :: "(pystr \<Rightarrow> pystr) \<Rightarrow> (pystr \<times> pystr) list \<Rightarrow> (pystr \<times> pystr) list" where
  "clean_environment upper environment =
     dict_of_pairs (map (\<lambda>(k, v). (upper k, v)) (filter (\<lambda>(k, v). upper k \<in> set SAFE_ENV_KEYS) environment))"

definition secret_values :: "(pystr \<Rightarrow> pystr) \<Rightarrow> (pystr \<times> pystr) list \<Rightarrow> pystr list" where
  "secret_values upper environment =
     map snd (filter (\<lambda>(k, v). upper k \<notin> set SAFE_ENV_KEYS) environment)"

definition env_value :: "(pystr \<times> pystr) list \<Rightarrow> py_value" where
  "env_value env = PyDict (map (\<lambda>(k, v). (Some k, PyStr v)) env)"

section \<open>One run\<close>

fun classify_launch :: "launch_status \<Rightarrow> test_run_outcome" where
  "classify_launch LS_TIMED_OUT = RUN_TIMED_OUT"
| "classify_launch LS_RESOURCE_LIMIT = RUN_RESOURCE_LIMIT"
| "classify_launch LS_ENVIRONMENT_ERROR = RUN_ENVIRONMENT_ERROR"
| "classify_launch LS_CANCELLED = RUN_CANCELLED"
| "classify_launch LS_UNKNOWN = RUN_UNKNOWN_OUTCOME"
| "classify_launch LS_COMPLETED = RUN_UNPARSEABLE"

definition raw_of :: "launch_result \<Rightarrow> raw_output" where
  "raw_of r = \<lparr>ro_stdout = la_stdout r, ro_stderr = la_stderr r,
     ro_stdout_truncated = la_stdout_truncated r, ro_stderr_truncated = la_stderr_truncated r\<rparr>"

definition sanitized_value :: "sanitized_output \<Rightarrow> py_value" where
  "sanitized_value s = PyDict
     [(Some (lit ''stdout''), PyStr (so_stdout s)), (Some (lit ''stderr''), PyStr (so_stderr s)),
      (Some (lit ''stdout_truncated''), PyBool (so_stdout_truncated s)),
      (Some (lit ''stderr_truncated''), PyBool (so_stderr_truncated s))]"

definition keep_artifact ::
    "'w runner_deps \<Rightarrow> task_id \<Rightarrow> string \<Rightarrow> py_value \<Rightarrow> ('w, artifact_ref) prog" where
  "keep_artifact R t schema v =
     bind_prog (lift_res (canonical_bytes v)) (store_and_verify (rd_put R) (rd_load R) (rd_sha R) t (lit schema))"

text \<open>The outcome and the reference of the parsed result.\<close>

definition judge_result ::
    "'w runner_deps \<Rightarrow> test_request \<Rightarrow> launch_result \<Rightarrow> raw_output \<Rightarrow> pystr list \<Rightarrow> bool
       \<Rightarrow> ('w, test_run_outcome \<times> artifact_ref option) prog" where
  "judge_result R q result raw secrets drift =
     (if drift then ret (RUN_WORKSPACE_DRIFT, None)
      else case (la_status result, la_exit_code result) of
        (LS_COMPLETED, Some code) \<Rightarrow>
          (case rd_parser R raw code of
             None \<Rightarrow> ret (RUN_UNPARSEABLE, None)
           | Some parsed \<Rightarrow>
               bind_prog (keep_artifact R (tq_task_id q) ''parsed_result'' (redact_fields (rd_re R) secrets parsed))
                 (\<lambda>ref. ret (if code = 0 then RUN_PASSED else RUN_FAILED, Some ref)))
      | _ \<Rightarrow> ret (classify_launch (la_status result), None))"

definition run_pytest :: "'w runner_deps \<Rightarrow> test_request \<Rightarrow> ('w, test_execution) prog" where
  "run_pytest R q =
     bind_prog (lift_res (resolve_argv (rd_python R) (tq_command q))) (\<lambda>argv.
     let env = clean_environment (rd_upper R) (tq_environment q);
         secrets = secret_values (rd_upper R) (tq_environment q) in
     bind_prog (rd_workspace_hash R (tq_worktree q)) (\<lambda>before.
     bind_prog (rd_wall_clock R) (\<lambda>started.
     bind_prog (rd_monotonic R) (\<lambda>start.
     bind_prog (lift_res (check_launch_request
        \<lparr>lr_argv = argv, lr_cwd = tq_worktree q, lr_env = env, lr_timeout = tq_timeout q,
         lr_stdout_limit = MAX_OUTPUT_BYTES, lr_stderr_limit = MAX_OUTPUT_BYTES\<rparr>)) (\<lambda>request.
     bind_prog (rd_launch R request) (\<lambda>result.
     bind_prog (rd_monotonic R) (\<lambda>stop.
     bind_prog (rd_wall_clock R) (\<lambda>finished.
     bind_prog (rd_workspace_hash R (tq_worktree q)) (\<lambda>after.
     bind_prog (lift_res (check_raw_output (raw_of result))) (\<lambda>raw.
     bind_prog (lift_res (sanitize_output (rd_re R) secrets raw)) (\<lambda>sanitized.
     bind_prog (keep_artifact R (tq_task_id q) ''sanitized_test_output'' (sanitized_value sanitized)) (\<lambda>out_ref.
     bind_prog (judge_result R q result raw secrets (before \<noteq> after)) (\<lambda>(out, parsed_ref).
     bind_prog (rd_uuid4 R) (\<lambda>run_id.
     bind_prog (lift_res (canonical_sha256 (rd_sha R) (env_value env))) (\<lambda>env_sha.
     bind_prog (lift_res (check_test_run
        \<lparr>tn_run_id = run_id, tn_task_id = tq_task_id q, tn_phase = tq_phase q, tn_outcome = out,
         tn_command = tq_command q, tn_base_commit = tq_base_commit q,
         tn_config_sha256 = tq_config_sha256 q, tn_environment_sha256 = env_sha,
         tn_before_sha256 = before, tn_after_sha256 = after, tn_started_at = started,
         tn_finished_at = finished, tn_duration_ms = max 0 ((stop - start) div 1000),
         tn_exit_code = la_exit_code result, tn_output_ref = out_ref, tn_parsed_ref = parsed_ref\<rparr>)) (\<lambda>run.
     ret \<lparr>te_run = run, te_raw = raw, te_sanitized = sanitized\<rparr>))))))))))))))))"

section \<open>The core's test runner\<close>

text \<open>\<open>parsed_marker\<close>: the dump of the marker.\<close>

definition parsed_marker :: "raw_output \<Rightarrow> int \<Rightarrow> py_value option" where
  "parsed_marker raw code =
     (if strip (utf8_replace (ro_stdout raw @ ro_stderr raw)) = [] then None
      else Some (PyDict [(Some (lit ''exit_code''), PyInt code),
                         (Some (lit ''summary''), PyStr (lit ''pytest output parsed''))]))"

record 'w core_tests =
  ct_runner :: "'w runner_deps"
  ct_task_id :: task_id
  ct_root :: pystr
  ct_base_commit :: pystr
  ct_config_sha256 :: pystr
  ct_default_command :: "pystr list"
  ct_timeout :: int
  ct_environment :: "(pystr \<times> pystr) list"
  ct_revision :: "('w, pystr) prog"

definition core_tests_run ::
    "'w core_tests \<Rightarrow> test_phase \<Rightarrow> pystr list \<Rightarrow> ('w, action_execution) prog" where
  "core_tests_run C phase argv =
     bind_prog (lift_res (case frozen_command argv of Inl _ \<Rightarrow> Inl ValidationError | Inr c \<Rightarrow> Inr c)) (\<lambda>command.
     bind_prog (make_test_request (ct_runner C)
        \<lparr>tq_task_id = ct_task_id C, tq_phase = phase, tq_command = command,
         tq_base_commit = ct_base_commit C, tq_config_sha256 = ct_config_sha256 C,
         tq_worktree = ct_root C, tq_environment = ct_environment C, tq_timeout = ct_timeout C\<rparr>) (\<lambda>request.
     bind_prog (run_pytest (ct_runner C) request) (\<lambda>execution.
     bind_prog (lift_res (parse_pytest (rd_re (ct_runner C)) (te_raw execution) (te_run execution))) (\<lambda>parsed.
     bind_prog (ct_revision C) (\<lambda>revision.
     ret \<lparr>ae_safe_summary = pr_summary parsed, ae_source_revision = revision,
          ae_test_run = Some (te_run execution), ae_parsed_result = Some parsed,
          ae_unknown_outcome = (tn_outcome (te_run execution) = RUN_UNKNOWN_OUTCOME)\<rparr>)))))"

definition full_test_run :: "'w core_tests \<Rightarrow> ('w, action_execution) prog" where
  "full_test_run C = core_tests_run C POST_PATCH (ct_default_command C)"

definition run_test_action :: "'w core_tests \<Rightarrow> test_scope \<Rightarrow> pystr list \<Rightarrow> ('w, action_execution) prog" where
  "run_test_action C scope targets =
     core_tests_run C (if scope = FOCUSED_SCOPE then FOCUSED else REQUESTED_FULL) (ct_default_command C @ targets)"

section \<open>What a passing run is evidence of\<close>

lemma launch_request_same: "check_launch_request r = Inr r' \<Longrightarrow> r' = r"
  by (auto simp: check_launch_request_def split: if_splits)

lemma raw_output_same: "check_raw_output r = Inr r' \<Longrightarrow> r' = r"
  by (auto simp: check_raw_output_def split: if_splits)

text \<open>A run in which the launcher was asked once and its answer became the test run.\<close>

definition launched :: "'w runner_deps \<Rightarrow> test_request \<Rightarrow> launch_request \<Rightarrow> launch_result \<Rightarrow> test_run \<Rightarrow> bool" where
  "launched R q request result run \<longleftrightarrow>
     (\<exists>v v'. rd_launch R request v = (Inr result, v'))
     \<and> resolve_argv (rd_python R) (tq_command q) = Inr (lr_argv request)
     \<and> lr_cwd request = tq_worktree q
     \<and> lr_env request = clean_environment (rd_upper R) (tq_environment q)
     \<and> lr_timeout request = tq_timeout q
     \<and> (\<exists>v v'. judge_result R q result (raw_of result) (secret_values (rd_upper R) (tq_environment q))
            (tn_before_sha256 run \<noteq> tn_after_sha256 run) v = (Inr (tn_outcome run, tn_parsed_ref run), v'))
     \<and> check_test_run run = Inr run
     \<and> tn_task_id run = tq_task_id q \<and> tn_phase run = tq_phase q \<and> tn_command run = tq_command q
     \<and> tn_base_commit run = tq_base_commit q \<and> tn_config_sha256 run = tq_config_sha256 q
     \<and> tn_exit_code run = la_exit_code result"

lemma bind_progE:
  assumes "bind_prog m f w = (Inr y, w')"
  obtains x v where "m w = (Inr x, v)" "f x v = (Inr y, w')"
  using assms by (auto simp: bind_prog_Inr)

lemma lift_progE:
  assumes "bind_prog (lift_res r) f w = (Inr y, w')"
  obtains x where "r = Inr x" "f x w = (Inr y, w')"
  using assms by (auto simp: bind_prog_Inr)

lemma run_pytest_launched:
  assumes "run_pytest R q w = (Inr te, w')"
  shows "\<exists>request result. launched R q request result (te_run te) \<and> te_raw te = raw_of result"
proof -
  let ?secrets = "secret_values (rd_upper R) (tq_environment q)"
  let ?env = "clean_environment (rd_upper R) (tq_environment q)"
  from assms[unfolded run_pytest_def Let_def] obtain argv w1
    where argv: "resolve_argv (rd_python R) (tq_command q) = Inr argv" by (elim lift_progE)
  from assms[unfolded run_pytest_def Let_def argv] show ?thesis
    apply (elim lift_progE bind_progE)
    apply (drule launch_request_same raw_output_same)+
    apply (clarsimp simp: lift_res_def bind_prog_Inr)
    apply (frule check_test_run_same)
    apply (simp add: launched_def argv)
    apply (intro exI conjI)
    apply (rule refl | assumption | simp)+
    done
qed

lemma judge_passed:
  assumes "judge_result R q result raw secrets drift v = (Inr (RUN_PASSED, ref), v')"
  shows "\<not> drift \<and> la_status result = LS_COMPLETED \<and> la_exit_code result = Some 0"
  using assms
  by (cases "la_status result") (auto simp: judge_result_def bind_prog_Inr split: if_splits option.splits)

lemma dict_of_pairs_keys: "fst ` set (dict_of_pairs ps) \<subseteq> fst ` set ps"
proof -
  have up: "fst ` set (dict_update k v d) \<subseteq> insert k (fst ` set d)" for k v and d :: "('a \<times> 'b) list"
    by (induction k v d rule: dict_update.induct) auto
  have "fst ` set (foldl (\<lambda>d (k, v). dict_update k v d) d ps) \<subseteq> fst ` set d \<union> fst ` set ps" for d
  proof (induction ps arbitrary: d)
    case (Cons p ps)
    show ?case using Cons[of "dict_update (fst p) (snd p) d"] up[of "fst p" "snd p" d]
      by (cases p) auto
  qed simp
  from this[of "[]"] show ?thesis by (simp add: dict_of_pairs_def)
qed

lemma clean_environment_keys: "fst ` set (clean_environment upper env) \<subseteq> set SAFE_ENV_KEYS"
proof -
  have "fst ` set (clean_environment upper env)
      \<subseteq> fst ` set (map (\<lambda>(k, v). (upper k, v)) (filter (\<lambda>(k, v). upper k \<in> set SAFE_ENV_KEYS) env))"
    unfolding clean_environment_def by (rule dict_of_pairs_keys)
  also have "\<dots> \<subseteq> set SAFE_ENV_KEYS" by auto
  finally show ?thesis .
qed

lemma resolve_argv_prefix:
  "resolve_argv py argv = Inr xs \<Longrightarrow> take 3 xs = [py, lit ''-m'', lit ''pytest'']"
  by (auto simp: resolve_argv_def split: if_splits list.splits)

lemma core_tests_run_Inr:
  assumes "core_tests_run C phase argv w = (Inr ex, w')"
  shows "\<exists>q te v1 v2. run_pytest (ct_runner C) q v1 = (Inr te, v2) \<and> tq_task_id q = ct_task_id C
    \<and> tq_phase q = phase \<and> tq_base_commit q = ct_base_commit C \<and> tq_environment q = ct_environment C
    \<and> frozen_command argv = Inr (tq_command q)
    \<and> ae_test_run ex = Some (te_run te)
    \<and> (\<exists>parsed. parse_pytest (rd_re (ct_runner C)) (te_raw te) (te_run te) = Inr parsed
         \<and> ae_parsed_result ex = Some parsed \<and> ae_safe_summary ex = pr_summary parsed)"
  using assms unfolding core_tests_run_def
  apply (elim lift_progE bind_progE)
  apply (clarsimp simp: make_test_request_def bind_prog_Inr split: if_splits sum.splits)
  apply (intro exI conjI, assumption, simp_all)
  done

lemma frozen_command_same: "frozen_command argv = Inr c \<Longrightarrow> c = argv"
  by (auto simp: frozen_command_def bind_res_Inr split: if_splits)


definition sample_runner :: "local_store runner_deps" where
  "sample_runner =
     \<lparr>rd_launch = (\<lambda>q. ret \<lparr>la_status = LS_COMPLETED, la_exit_code = Some 0, la_stdout = map of_char ''1 passed'',
        la_stderr = [], la_stdout_truncated = False, la_stderr_truncated = False\<rparr>),
      rd_put = local_put zero_sha, rd_load = local_load zero_sha,
      rd_workspace_hash = (\<lambda>_. ret sample_hash), rd_parser = parsed_marker, rd_python = lit ''/py'',
      rd_wall_clock = ret \<lparr>dt_us = 5, dt_native_utc = True\<rparr>, rd_monotonic = ret 7,
      rd_uuid4 = ret sample_uuid, rd_resolve = ret, rd_is_dir = (\<lambda>_. ret True), rd_sha = zero_sha,
      rd_upper = (\<lambda>s. s), rd_re = ascii_re\<rparr>"

definition sample_tests :: "local_store core_tests" where
  "sample_tests =
     \<lparr>ct_runner = sample_runner, ct_task_id = TaskId sample_uuid, ct_root = lit ''/w'',
      ct_base_commit = replicate 40 97, ct_config_sha256 = sample_hash, ct_default_command = [lit ''pytest''],
      ct_timeout = 60, ct_environment = [(lit ''LANG'', lit ''C'')],
      ct_revision = ret sample_hash\<rparr>"

definition passes :: "action_execution res \<Rightarrow> bool" where
  "passes r = (case r of Inl _ \<Rightarrow> False | Inr ex \<Rightarrow>
     (case ae_parsed_result ex of None \<Rightarrow> False | Some p \<Rightarrow> pr_outcome p = PO_PASSED))"

lemma sample_tests_pass: "passes (fst (full_test_run sample_tests sample_store))"
  by code_simp


end
