(* ===== verification/Ipc.thy ===== *)
theory Ipc
  imports Scenarios Config SessionStore
begin

text \<open>
  The messages between the run service and the demo worker: \<open>json.dumps\<close> without sorted keys and
  with ASCII escapes, the worker's configuration (\<open>_write_private_config\<close> of
  \<^verbatim>\<open>web/run_service.py\<close> and \<open>WorkerConfig\<close> of \<^verbatim>\<open>web/worker.py\<close>) and its result (\<open>DemoWorkerResult\<close>
  of \<^verbatim>\<open>web/trace.py\<close>, \<open>_write_result\<close> and \<open>_decode_worker_result\<close>), with the round trips.
\<close>

section \<open>Printing in the order of the fields\<close>

definition unicode_escape4 :: "int \<Rightarrow> pystr" where
  "unicode_escape4 u =
     [92, 117, hex_lower (u div 4096 mod 16), hex_lower (u div 256 mod 16), hex_lower (u div 16 mod 16),
      hex_lower (u mod 16)]"

definition escape_ascii :: "int \<Rightarrow> pystr" where
  "escape_ascii c =
     (if c < 127 then escape_char c
      else if c < 65536 then unicode_escape4 c
      else unicode_escape4 (55296 + (c - 65536) div 1024) @ unicode_escape4 (56320 + (c - 65536) mod 1024))"

definition print_str :: "pystr \<Rightarrow> pystr" where
  "print_str s = 34 # concat (map escape_ascii s) @ [34]"

fun json_print :: "json \<Rightarrow> pystr" where
  "json_print JNull = lit ''null''"
| "json_print (JBool b) = (if b then lit ''true'' else lit ''false'')"
| "json_print (JInt n) = int_str n"
| "json_print (JFloat x) = x"
| "json_print (JStr s) = print_str s"
| "json_print (JArr vs) = 91 # join [44] (map json_print vs) @ [93]"
| "json_print (JObj kvs) = 123 # join [44] (map (\<lambda>(k, t). print_str k @ 58 # t)
       (map (\<lambda>(k, v). (k, json_print v)) kvs)) @ [125]"

definition print_member :: "pystr \<times> json \<Rightarrow> pystr" where
  "print_member kv = print_str (fst kv) @ 58 # json_print (snd kv)"

text \<open>What the messages hold: printable ASCII, integers within the digit limit, distinct keys.\<close>

definition printable :: "pystr \<Rightarrow> bool" where
  "printable s \<longleftrightarrow> list_all (\<lambda>c. 0 \<le> c \<and> c < 127) s"

fun message_json :: "json \<Rightarrow> bool" where
  "message_json (JInt n) = (length (nat_digits \<bar>n\<bar>) \<le> 4300)"
| "message_json (JFloat x) = False"
| "message_json (JStr s) = printable s"
| "message_json (JArr vs) = list_all message_json vs"
| "message_json (JObj kvs) = (distinct (map fst kvs) \<and> list_all (\<lambda>kv. printable (fst kv) \<and> message_json (snd kv)) kvs)"
| "message_json _ = True"

lemma print_str_dump: "printable s \<Longrightarrow> print_str s = dump_str s"
proof -
  assume "printable s"
  then have "concat (map escape_ascii s) = concat (map escape_char s)"
    by (induction s) (auto simp: printable_def escape_ascii_def)
  then show ?thesis by (simp add: print_str_def dump_str_def)
qed

lemma print_start:
  assumes "message_json v"
  obtains c cs where "json_print v = c # cs" "json_start c"
proof (cases v)
  case (JInt n)
  have "plain_json v" using JInt assms by simp
  from dumps_start[OF this] show ?thesis using that JInt by auto
next
  case (JBool b)
  with that show ?thesis by (cases b) (simp_all add: json_start_def str_simps)
qed (use assms that in \<open>auto simp: json_start_def str_simps print_str_def\<close>)

lemma scan_elems_print:
  assumes "\<And>v r. v \<in> set vs \<Longrightarrow> stops r \<Longrightarrow> scan_value h k (json_print v @ r) = Some (v, r)"
    and "\<forall>v \<in> set vs. message_json v" and "vs \<noteq> []"
  shows "scan_elems h k (join [44] (map json_print vs) @ 93 # r) = Some (vs, r)"
  using assms
proof (induction vs)
  case (Cons v vs)
  show ?case
  proof (cases "vs = []")
    case True
    then show ?thesis using Cons.prems(1) by (simp add: scan_elems.simps)
  next
    case False
    let ?rest = "join [44] (map json_print vs) @ 93 # r"
    from Cons False have IH: "scan_elems h k ?rest = Some (vs, r)" by simp
    obtain w ws where ws: "vs = w # ws" using False by (cases vs) auto
    obtain c cs where "json_print w = c # cs" "json_start c"
      using Cons.prems(2) ws print_start by (metis list.set_intros(1) list.set_intros(2))
    then have sk: "skip_ws ?rest = ?rest"
      using ws by (cases ws) (auto simp: json_start_simps)
    have "json_print v \<noteq> []"
      using Cons.prems(2) print_start by (metis list.distinct(1) list.set_intros(1))
    moreover have "scan_value h k (json_print v @ 44 # ?rest) = Some (v, 44 # ?rest)"
      using Cons.prems(1) by simp
    ultimately have "scan_elems h k (json_print v @ 44 # ?rest) = Some (v # vs, r)"
      using IH sk by (subst scan_elems.simps) simp
    then show ?thesis using False by (simp add: join_Cons)
  qed
qed simp

lemma scan_members_print:
  assumes "\<And>kv r. kv \<in> set kvs \<Longrightarrow> stops r \<Longrightarrow> scan_value h k (json_print (snd kv) @ r) = Some (snd kv, r)"
    and "\<forall>kv \<in> set kvs. printable (fst kv) \<and> message_json (snd kv)" and "kvs \<noteq> []"
  shows "scan_members h k (join [44] (map print_member kvs) @ 125 # r) = Some (kvs, r)"
  using assms
proof (induction kvs)
  case (Cons kv kvs)
  have pk: "print_str (fst kv) = dump_str (fst kv)" "\<forall>c \<in> set (fst kv). 0 \<le> c"
    using Cons.prems(2) print_str_dump by (auto simp: printable_def list_all_iff)
  have one: "scan_members h k (print_member kv @ q) =
      (case skip_ws q of [] \<Rightarrow> None
       | e # es \<Rightarrow> if e = 125 then Some ([kv], es)
           else if e = 44 \<and> length q < length (print_member kv @ q)
           then map_option (\<lambda>(ms, p). (kv # ms, p)) (scan_members h k (skip_ws es)) else None)"
    if "stops q" for q
  proof -
    obtain c cs where "json_print (snd kv) = c # cs" "json_start c"
      using Cons.prems(2) print_start by (metis list.set_intros(1))
    then have "skip_ws (json_print (snd kv) @ q) = json_print (snd kv) @ q"
      by (simp add: json_start_simps)
    moreover have "scan_str (concat (map escape_char (fst kv)) @ 34 # 58 # json_print (snd kv) @ q)
        = Some (fst kv, 58 # json_print (snd kv) @ q)"
      using pk(2) by (rule scan_str_dump)
    moreover have "scan_value h k (json_print (snd kv) @ q) = Some (snd kv, q)"
      using Cons.prems(1) that by simp
    ultimately show ?thesis
      by (subst scan_members.simps) (simp add: print_member_def pk(1) dump_str_def split: list.split)
  qed
  show ?case
  proof (cases "kvs = []")
    case True
    then show ?thesis using one [of "125 # r"] by simp
  next
    case False
    let ?rest = "join [44] (map print_member kvs) @ 125 # r"
    from Cons False have IH: "scan_members h k ?rest = Some (kvs, r)" by simp
    obtain w ws where ws: "kvs = w # ws" using False by (cases kvs) auto
    then have sk: "skip_ws ?rest = ?rest"
      by (cases ws) (auto simp: print_member_def print_str_def)
    have "length (44 # ?rest) < length (print_member kv @ 44 # ?rest)"
      by (simp add: print_member_def print_str_def)
    then have "scan_members h k (print_member kv @ 44 # ?rest) = Some (kv # kvs, r)"
      using one [of "44 # ?rest"] IH sk by simp
    then show ?thesis using False by (simp add: join_Cons)
  qed
qed simp

text \<open>Every hook that keeps distinct pairs reads a message back.\<close>

definition keeps_distinct :: "pairs_hook \<Rightarrow> bool" where
  "keeps_distinct h \<longleftrightarrow> (\<forall>ps. distinct (map fst ps) \<longrightarrow> h ps = Some (JObj ps))"

lemma scan_value_print:
  assumes "keeps_distinct h"
  shows "message_json v \<Longrightarrow> stops r \<Longrightarrow> scan_value h k (json_print v @ r) = Some (v, r)"
proof (induction v arbitrary: r rule: json_print.induct)
  case (3 n)
  then show ?case by (simp add: scan_int)
next
  case (5 s)
  then have "print_str s = dump_str s" "\<forall>c \<in> set s. 0 \<le> c"
    by (auto simp: print_str_dump printable_def list_all_iff)
  then show ?case by (simp add: dump_str_def scan_value.simps [of _ _ "34 # _"] scan_str_dump)
next
  case (6 vs)
  show ?case
  proof (cases "vs = []")
    case True
    then show ?thesis by (simp add: scan_value.simps)
  next
    case False
    let ?body = "join [44] (map json_print vs) @ 93 # r"
    have "scan_elems h k ?body = Some (vs, r)"
      using 6 False by (intro scan_elems_print) (auto simp: list_all_iff)
    moreover have "message_json (hd vs)" using 6(2) False by (cases vs) auto
    then obtain c cs where "json_print (hd vs) = c # cs" "json_start c" by (rule print_start)
    then obtain cs' where "?body = c # cs'" "json_start c"
      using False by (cases vs; cases "tl vs") auto
    ultimately show ?thesis
      using json_start_simps [of c cs'] by (simp add: scan_value.simps [of _ _ "91 # _"])
  qed
next
  case (7 kvs)
  have pr: "json_print (JObj kvs) = 123 # join [44] (map print_member kvs) @ [125]"
    by (simp add: comp_def case_prod_beta print_member_def [abs_def])
  have hk: "h kvs = Some (JObj kvs)" "h [] = Some (JObj [])"
    using assms 7(2) by (simp_all add: keeps_distinct_def)
  show ?case
  proof (cases "kvs = []")
    case True
    then show ?thesis using hk by (simp add: scan_value.simps)
  next
    case False
    let ?body = "join [44] (map print_member kvs) @ 125 # r"
    have "scan_value h k (json_print (snd kv) @ q) = Some (snd kv, q)"
      if "kv \<in> set kvs" "stops q" for kv q
      using 7(1) [of kv "fst kv" "snd kv" q] 7(2) that by (auto simp: list_all_iff)
    then have "scan_members h k ?body = Some (kvs, r)"
      using 7(2) False by (intro scan_members_print) (auto simp: list_all_iff)
    moreover obtain cs where "?body = 34 # cs"
      using False by (cases kvs; cases "tl kvs") (auto simp: print_member_def print_str_def)
    ultimately have "scan_value h k (123 # ?body) = Some (JObj kvs, r)"
      using hk by (simp add: scan_value.simps [of _ _ "123 # _"])
    then show ?thesis unfolding pr by simp
  qed
qed (simp_all add: scan_value.simps scan_const_def str_simps)

lemma print_str_printable: "printable s \<Longrightarrow> ascii_text (print_str s)"
proof -
  assume s: "printable s"
  then have "ascii_text s" by (auto simp: printable_def ascii_text_def list_all_iff)
  then show ?thesis using s by (simp add: print_str_dump dump_str_ascii)
qed

lemma json_print_ascii: "message_json j \<Longrightarrow> ascii_text (json_print j)"
proof (induction j)
  case (JInt n)
  then show ?case using nat_digits_ascii[of n] nat_digits_ascii[of "- n"] by (simp add: int_str_def)
next
  case (JArr vs)
  then have "list_all ascii_text (map json_print vs)" by (auto simp: list_all_iff)
  then show ?case by (simp add: join_ascii)
next
  case (JObj kvs)
  have "ascii_text (print_str k @ 58 # json_print v)" if "(k, v) \<in> set kvs" for k v
  proof -
    have "printable k" "message_json v" using JObj(2) that by (auto simp: list_all_iff)
    then show ?thesis using JObj(1)[of "(k, v)" v] that print_str_printable by simp
  qed
  then have "list_all ascii_text (map (\<lambda>(k, t). print_str k @ 58 # t) (map (\<lambda>(k, v). (k, json_print v)) kvs))"
    by (auto simp: list_all_iff)
  then show ?case by (simp add: join_ascii)
qed (auto simp: print_str_printable str_simps)

lemma message_encodes:
  assumes "message_json j"
  obtains b where "utf8_encode (json_print j) = Some b" "utf8_decode b = Some (json_print j)"
  using ascii_encodes[OF json_print_ascii[OF assms]] utf8_roundtrip by auto

section \<open>The worker's configuration\<close>

definition config_message :: "pystr \<Rightarrow> json" where
  "config_message scenario_id =
     JObj [(lit ''schema_version'', JInt 1), (lit ''scenario_id'', JStr scenario_id)]"

definition CONFIG_BYTES_LIMIT :: int where
  "CONFIG_BYTES_LIMIT = 4096"

fun worker_config :: "json \<Rightarrow> pystr option" where
  "worker_config (JObj d) =
     (if \<not> only_fields [''schema_version'', ''scenario_id''] d then None
      else case (field d ''schema_version'', field d ''scenario_id'') of
        (Some (JInt v), Some (JStr s)) \<Rightarrow> if v = 1 \<and> s \<noteq> [] \<and> strip s \<noteq> [] then Some s else None
      | _ \<Rightarrow> None)"
| "worker_config _ = None"

text \<open>\<open>_read_config\<close>: every failure is the worker's one error. The JSON reader of the validation library
  is the parameter \<open>read_json\<close>.\<close>

definition read_config :: "(bytes \<Rightarrow> json option) \<Rightarrow> bytes option \<Rightarrow> pystr res" where
  "read_config read_json content =
     (case content of
        None \<Rightarrow> Inl WorkerError
      | Some b \<Rightarrow>
          if py_len b > CONFIG_BYTES_LIMIT then Inl WorkerError
          else of_opt WorkerError (Option.bind (read_json b) worker_config))"

section \<open>The worker's result\<close>

definition all_action_kinds :: "demo_action_kind list" where
  "all_action_kinds = [DA_LIST_FILES, DA_READ_FILE, DA_SEARCH_CODE, DA_APPLY_PATCH, DA_RUN_TESTS, DA_GIT_DIFF,
     DA_GIT_STATUS, DA_RUN_DIAGNOSTIC, DA_REQUEST_HUMAN]"

definition all_feedback_codes :: "demo_feedback_code list" where
  "all_feedback_codes = [DF_INITIAL_FAILURE, DF_PASSED, DF_CHANGED, DF_PROGRESS, DF_NO_PROGRESS, DF_REGRESSION,
     DF_LOOP, DF_ENVIRONMENT_ERROR, DF_UNPARSEABLE]"

definition all_policy_outcomes :: "policy_outcome list" where
  "all_policy_outcomes = [ALLOW, DENY, REQUIRE_APPROVAL]"

definition all_policy_reasons :: "policy_reason list" where
  "all_policy_reasons = [ALLOWED, TEST_ASSET_PROTECTION, PROTECTED_CONFIG, PATH_SAFETY, BINARY_UNSUPPORTED,
     SHELL_FORBIDDEN, CAPABILITY_MISSING, DEMO_ESCAPE, PATCH_HARD_LIMIT, PATCH_REQUIRES_APPROVAL,
     SOURCE_DELETE, SENSITIVE_PATH, DEPENDENCY_CONFIG]"

definition all_run_outcomes :: "test_run_outcome list" where
  "all_run_outcomes = [RUN_PASSED, RUN_FAILED, RUN_TIMED_OUT, RUN_RESOURCE_LIMIT, RUN_ENVIRONMENT_ERROR,
     RUN_UNPARSEABLE, RUN_CANCELLED, RUN_UNKNOWN_OUTCOME, RUN_WORKSPACE_DRIFT]"

definition event_message :: "string \<Rightarrow> (string \<times> string) list \<Rightarrow> int \<Rightarrow> json" where
  "event_message ty fs n = JObj
     ((lit ''event_type'', JStr (lit ty)) # map (\<lambda>(k, v). (lit k, JStr (lit v))) fs @ [(lit ''sequence'', JInt n)])"

fun event_json :: "trace_event \<Rightarrow> json" where
  "event_json (ActionSelected k n) =
     event_message ''action_selected'' [(''action_kind'', demo_action_kind_value k)] n"
| "event_json (PolicyDecided d r n) =
     event_message ''policy_decision'' [(''decision'', policy_outcome_value d), (''reason_code'', policy_reason_value r)] n"
| "event_json (TestCompleted x n) =
     event_message ''test_completed'' [(''outcome'', test_run_outcome_value x)] n"
| "event_json (FeedbackProduced f n) =
     event_message ''feedback_produced'' [(''feedback_code'', demo_feedback_code_value f)] n"
| "event_json (TerminalStatus s n) =
     event_message ''terminal_status'' [(''task_status'', task_status_value s)] n"

definition result_json :: "worker_result \<Rightarrow> json" where
  "result_json r = JObj
     [(lit ''schema_version'', JInt 1), (lit ''scenario_id'', JStr (wr_scenario r)),
      (lit ''events'', JArr (map event_json (wr_events r))),
      (lit ''terminal_code'', JStr (lit (task_status_value (wr_terminal r))))]"

definition encode_result :: "worker_result \<Rightarrow> bytes res" where
  "encode_result r = of_opt UnicodeError (utf8_encode (json_print (result_json r)))"

text \<open>Reading an event back: the tag selects the model, which forbids other fields.\<close>

definition event_fields :: "string list \<Rightarrow> json_dict \<Rightarrow> int option" where
  "event_fields ks d =
     (if only_fields (''event_type'' # ks @ [''sequence'']) d then
        (case field d ''sequence'' of Some (JInt n) \<Rightarrow> if 0 \<le> n then Some n else None | _ \<Rightarrow> None)
      else None)"

definition member_field :: "('a \<Rightarrow> string) \<Rightarrow> 'a list \<Rightarrow> json_dict \<Rightarrow> string \<Rightarrow> 'a option" where
  "member_field val members d k =
     Option.bind (field d k) (\<lambda>j. Option.bind (as_str j) (enum_of_text val members))"

fun decode_event :: "json \<Rightarrow> trace_event option" where
  "decode_event (JObj d) =
     Option.bind (Option.bind (field d ''event_type'') as_str) (\<lambda>ty.
       if ty = lit ''action_selected'' then do {
         n \<leftarrow> event_fields [''action_kind''] d;
         k \<leftarrow> member_field demo_action_kind_value all_action_kinds d ''action_kind'';
         Some (ActionSelected k n) }
       else if ty = lit ''policy_decision'' then do {
         n \<leftarrow> event_fields [''decision'', ''reason_code''] d;
         p \<leftarrow> member_field policy_outcome_value all_policy_outcomes d ''decision'';
         r \<leftarrow> member_field policy_reason_value all_policy_reasons d ''reason_code'';
         Some (PolicyDecided p r n) }
       else if ty = lit ''test_completed'' then do {
         n \<leftarrow> event_fields [''outcome''] d;
         x \<leftarrow> member_field test_run_outcome_value all_run_outcomes d ''outcome'';
         Some (TestCompleted x n) }
       else if ty = lit ''feedback_produced'' then do {
         n \<leftarrow> event_fields [''feedback_code''] d;
         f \<leftarrow> member_field demo_feedback_code_value all_feedback_codes d ''feedback_code'';
         Some (FeedbackProduced f n) }
       else if ty = lit ''terminal_status'' then do {
         n \<leftarrow> event_fields [''task_status''] d;
         s \<leftarrow> member_field task_status_value all_task_statuses d ''task_status'';
         Some (TerminalStatus s n) }
       else None)"
| "decode_event _ = None"

fun validate_result :: "json \<Rightarrow> worker_result option" where
  "validate_result (JObj d) =
     (if \<not> only_fields [''schema_version'', ''scenario_id'', ''events'', ''terminal_code''] d then None
      else do {
        version \<leftarrow> field d ''schema_version'';
        s \<leftarrow> Option.bind (field d ''scenario_id'') as_str;
        es \<leftarrow> (case field d ''events'' of Some (JArr js) \<Rightarrow> map_opt decode_event js | _ \<Rightarrow> None);
        t \<leftarrow> member_field task_status_value all_task_statuses d ''terminal_code'';
        if version = JInt 1 then Some \<lparr>wr_scenario = s, wr_events = es, wr_terminal = t\<rparr> else None })"
| "validate_result _ = None"

definition reject_duplicate_json_keys :: pairs_hook where
  "reject_duplicate_json_keys pairs = (if distinct (map fst pairs) then Some (JObj pairs) else None)"

definition decode_worker_result :: "bytes \<Rightarrow> worker_result res" where
  "decode_worker_result raw = of_opt (ValueError ''invalid worker result'') (do {
     decoded \<leftarrow> utf8_decode raw;
     (parsed, rest) \<leftarrow> scan_value reject_duplicate_json_keys default_const_hook decoded;
     if strip rest \<noteq> [] then None else validate_result parsed })"

section \<open>Round trips\<close>

lemma keeps_reject_duplicate: "keeps_distinct reject_duplicate_json_keys"
  by (simp add: keeps_distinct_def reject_duplicate_json_keys_def)

lemma lit_printable: "printable (lit s) \<longleftrightarrow> list_all (\<lambda>c. 0 \<le> (of_char c :: int) \<and> (of_char c :: int) < 127) s"
  by (simp add: printable_def lit_def list_all_iff)

lemma demo_action_kind_value_text: "enum_of_text demo_action_kind_value all_action_kinds (lit (demo_action_kind_value x)) = Some x"
  by (cases x) (simp_all add: enum_of_text_def all_action_kinds_def)

lemma demo_action_kind_value_printable: "printable (lit (demo_action_kind_value x))"
  by (cases x) (simp_all add: lit_printable)

lemma demo_feedback_code_value_text: "enum_of_text demo_feedback_code_value all_feedback_codes (lit (demo_feedback_code_value x)) = Some x"
  by (cases x) (simp_all add: enum_of_text_def all_feedback_codes_def)

lemma demo_feedback_code_value_printable: "printable (lit (demo_feedback_code_value x))"
  by (cases x) (simp_all add: lit_printable)

lemma policy_outcome_value_text: "enum_of_text policy_outcome_value all_policy_outcomes (lit (policy_outcome_value x)) = Some x"
  by (cases x) (simp_all add: enum_of_text_def all_policy_outcomes_def)

lemma policy_outcome_value_printable: "printable (lit (policy_outcome_value x))"
  by (cases x) (simp_all add: lit_printable)

lemma policy_reason_value_text: "enum_of_text policy_reason_value all_policy_reasons (lit (policy_reason_value x)) = Some x"
  by (cases x) (simp_all add: enum_of_text_def all_policy_reasons_def)

lemma policy_reason_value_printable: "printable (lit (policy_reason_value x))"
  by (cases x) (simp_all add: lit_printable)

lemma test_run_outcome_value_text: "enum_of_text test_run_outcome_value all_run_outcomes (lit (test_run_outcome_value x)) = Some x"
  by (cases x) (simp_all add: enum_of_text_def all_run_outcomes_def)

lemma test_run_outcome_value_printable: "printable (lit (test_run_outcome_value x))"
  by (cases x) (simp_all add: lit_printable)

lemma task_status_text: "enum_of_text task_status_value all_task_statuses (lit (task_status_value x)) = Some x"
  by (simp add: enum_of_text_eq task_status_roundtrip)

lemma task_status_printable: "printable (lit (task_status_value x))"
  by (cases x) (simp_all add: lit_printable)

lemmas enum_texts = demo_action_kind_value_text demo_feedback_code_value_text policy_outcome_value_text policy_reason_value_text test_run_outcome_value_text task_status_text

lemmas enum_printable = demo_action_kind_value_printable demo_feedback_code_value_printable policy_outcome_value_printable policy_reason_value_printable test_run_outcome_value_printable task_status_printable

lemma decode_event_json:
  assumes "0 \<le> event_sequence e"
  shows "decode_event (event_json e) = Some e"
  using assms
  by (cases e) (simp_all add: event_message_def event_fields_def member_field_def field_def only_fields_def enum_texts)

lemma event_message_json:
  assumes "length (nat_digits \<bar>event_sequence e\<bar>) \<le> 4300"
  shows "message_json (event_json e)"
  using assms by (cases e) (simp_all add: event_message_def enum_printable, simp_all add: lit_printable)

lemma event_json_char: "\<exists>d. event_json e = JObj d"
  by (cases e) (simp_all add: event_message_def)

definition event_ok :: "trace_event \<Rightarrow> bool" where
  "event_ok e \<longleftrightarrow> 0 \<le> event_sequence e \<and> length (nat_digits \<bar>event_sequence e\<bar>) \<le> 4300"

lemma validate_result_json:
  assumes "list_all event_ok (wr_events r)"
  shows "validate_result (result_json r) = Some r"
proof -
  have "map_opt decode_event (map event_json (wr_events r)) = Some (wr_events r)"
    using assms decode_event_json by (intro map_opt_map) (auto simp: list_all_iff event_ok_def)
  then show ?thesis
    by (simp add: result_json_def field_def only_fields_def member_field_def enum_texts)
qed

lemma result_message:
  assumes "printable (wr_scenario r)" "list_all event_ok (wr_events r)"
  shows "message_json (result_json r)"
proof -
  have "list_all message_json (map event_json (wr_events r))"
    using assms(2) event_message_json by (auto simp: list_all_iff event_ok_def)
  moreover have "length (nat_digits 1) \<le> 4300" by (simp add: nat_digits.simps)
  ultimately show ?thesis
    using assms(1) by (simp add: result_json_def enum_printable) (simp add: lit_printable)
qed

lemma decode_message:
  assumes "message_json j" "utf8_decode b = Some (json_print j)"
  shows "decode_worker_result b = of_opt (ValueError ''invalid worker result'') (validate_result j)"
  using scan_value_print[OF keeps_reject_duplicate assms(1), of "[]"] assms(2)
  by (simp add: decode_worker_result_def)

lemma result_decodes:
  assumes "printable (wr_scenario r)" "list_all event_ok (wr_events r)"
  obtains b where "encode_result r = Inr b" "decode_worker_result b = Inr r"
proof -
  from message_encodes[OF result_message[OF assms]] obtain b
    where b: "utf8_encode (json_print (result_json r)) = Some b" "utf8_decode b = Some (json_print (result_json r))" .
  show ?thesis
    using that[of b] b(1) decode_message[OF result_message[OF assms] b(2)] validate_result_json[OF assms(2)]
    by (simp add: encode_result_def)
qed

text \<open>The configuration the service writes is the one the worker reads, whenever the reader reads JSON.\<close>

lemma config_reads:
  assumes "printable s" "s \<noteq> []" "strip s \<noteq> []"
    and "utf8_encode (json_print (config_message s)) = Some b" "py_len b \<le> CONFIG_BYTES_LIMIT"
    and "read_json b = Some (config_message s)"
  shows "read_config read_json (Some b) = Inr s"
  using assms by (simp add: read_config_def config_message_def only_fields_def field_def)

end
