(* ===== verification/RunService.thy ===== *)
theory RunService
  imports Ipc
begin

text \<open>
  \<^verbatim>\<open>web/run_service.py\<close>: one demo run under the service's lock. What the service calls (the lock, the
  clock, the directories, the worker's process boundary, cleanup and quarantine) are programs over a
  world; the local variables of \<open>run_scenario\<close> and a log of the calls that matter for safety are the
  state. The theorems are about that log: what was released, deleted or kept, and what a returned
  trace or error code means. \<open>release\<close> and closing a file do not raise; the event id that is logged
  for a quarantined root is not modelled, nor are the Windows security descriptors.
\<close>

section \<open>Outcomes\<close>

datatype run_outcome =
    RO_SUCCESS | RO_BUSY | RO_TIMEOUT | RO_TRACE_INCOMPLETE | RO_WORKER_LIFECYCLE_INVALID
  | RO_TERMINATION_UNCONFIRMED | RO_CLEANUP_FAILED | RO_INTERNAL

text \<open>There is no rank for \<open>busy\<close>.\<close>

fun ERROR_RANK :: "run_outcome \<Rightarrow> int option" where
  "ERROR_RANK RO_TERMINATION_UNCONFIRMED = Some 0"
| "ERROR_RANK RO_CLEANUP_FAILED = Some 1"
| "ERROR_RANK RO_TIMEOUT = Some 2"
| "ERROR_RANK RO_TRACE_INCOMPLETE = Some 2"
| "ERROR_RANK RO_WORKER_LIFECYCLE_INVALID = Some 2"
| "ERROR_RANK RO_INTERNAL = Some 2"
| "ERROR_RANK RO_SUCCESS = Some 3"
| "ERROR_RANK RO_BUSY = None"

type_synonym pending_result = "run_outcome \<times> trace_view option"

definition prefer_result :: "pending_result \<Rightarrow> run_outcome \<Rightarrow> pending_result" where
  "prefer_result current candidate =
     (case (ERROR_RANK candidate, ERROR_RANK (fst current)) of
        (Some a, Some b) \<Rightarrow> if a < b then (candidate, None) else current
      | _ \<Rightarrow> current)"

section \<open>The service and its state\<close>

datatype run_call = CallAcquire bool | CallRelease | CallStarted bool | CallConfirm bool
  | CallCleanup bool | CallIsolate

record worker_command =
  wk_argv :: "pystr list"
  wk_cwd :: pystr
  wk_env :: "(pystr \<times> pystr) list"
  wk_creationflags :: int
  wk_new_session :: bool

record ('w, 'h) run_deps =
  rn_acquire :: "('w, bool) prog"
  rn_release :: "'w \<Rightarrow> 'w"
  rn_registry :: "(pystr \<times> scenario) list"
  rn_clock :: "('w, int) prog"
  rn_deadline :: int
  rn_termination_wait :: int
  rn_python :: pystr
  rn_environment :: "(pystr \<times> pystr) list"
  rn_windows :: bool
  rn_mkdir_parents :: "pystr \<Rightarrow> ('w, unit) prog"
  rn_uuid4_hex :: "('w, pystr) prog"
  rn_create_directory :: "pystr \<Rightarrow> ('w, unit) prog"
  rn_write_config :: "pystr \<Rightarrow> bytes \<Rightarrow> ('w, unit) prog"
  rn_start :: "worker_command \<Rightarrow> ('w, 'h) prog"
  rn_process_created :: "'h \<Rightarrow> ('w, bool) prog"
  rn_wait :: "'h \<Rightarrow> int \<Rightarrow> ('w, int option) prog"
  rn_terminate :: "'h \<Rightarrow> ('w, unit) prog"
  rn_wait_root :: "'h \<Rightarrow> int \<Rightarrow> ('w, bool) prog"
  rn_confirm :: "'h \<Rightarrow> ('w, bool) prog"
  rn_close :: "'h \<Rightarrow> ('w, unit) prog"
  rn_open_read :: "pystr \<Rightarrow> int \<Rightarrow> ('w, bytes) prog"
  rn_close_file :: "'w \<Rightarrow> 'w"
  rn_cleanup :: "pystr \<Rightarrow> ('w, unit) prog"
  rn_isolate :: "pystr \<Rightarrow> ('w, unit) prog"

record ('w, 'h) run_state =
  rs_env :: 'w
  rs_log :: "run_call list"
  rs_pending :: pending_result
  rs_worker :: "'h option"
  rs_file_open :: bool
  rs_root :: "pystr option"
  rs_lock :: bool
  rs_root_created :: bool
  rs_process_created :: bool
  rs_confirmed :: bool

definition ENV_ALLOWLIST :: "pystr list" where
  "ENV_ALLOWLIST = map lit [''PATH'', ''SYSTEMROOT'', ''WINDIR'', ''TEMP'', ''TMP'', ''TMPDIR'', ''LANG'', ''LC_ALL'', ''PATHEXT'']"

definition worker_environment :: "(pystr \<times> pystr) list \<Rightarrow> (pystr \<times> pystr) list" where
  "worker_environment source =
     concat (map (\<lambda>key. case map_of source key of None \<Rightarrow> [] | Some v \<Rightarrow> [(key, v)]) ENV_ALLOWLIST)"

section \<open>Steps\<close>

definition call :: "('a res \<Rightarrow> run_call list) \<Rightarrow> ('w, 'a) prog \<Rightarrow> (('w, 'h) run_state, 'a) prog" where
  "call note m s = (case m (rs_env s) of (r, w) \<Rightarrow> (r, s\<lparr>rs_env := w, rs_log := rs_log s @ note r\<rparr>))"

abbreviation silent :: "('w, 'a) prog \<Rightarrow> (('w, 'h) run_state, 'a) prog" where
  "silent \<equiv> call (\<lambda>_. [])"

definition modify :: "('s \<Rightarrow> 's) \<Rightarrow> ('s, unit) prog" where
  "modify f s = (Inr (), f s)"

text \<open>\<open>try: ... except Exception:\<close> with the result at hand.\<close>

definition attempt :: "('s, 'a) prog \<Rightarrow> ('s, 'a res) prog" where
  "attempt m s = (case m s of (r, t) \<Rightarrow> (Inr r, t))"

definition set_pending :: "pending_result \<Rightarrow> (('w, 'h) run_state, unit) prog" where
  "set_pending p = modify (\<lambda>s. s\<lparr>rs_pending := p\<rparr>)"

definition prefer_pending :: "run_outcome \<Rightarrow> (('w, 'h) run_state, unit) prog" where
  "prefer_pending c = modify (\<lambda>s. s\<lparr>rs_pending := prefer_result (rs_pending s) c\<rparr>)"

definition confirm :: "('w, 'h) run_deps \<Rightarrow> 'h \<Rightarrow> (('w, 'h) run_state, bool) prog" where
  "confirm R h = bind_prog (attempt (call (\<lambda>r. [CallConfirm (r = Inr True)]) (rn_confirm R h)))
     (\<lambda>r. ret (r = Inr True))"

definition terminate_and_confirm :: "('w, 'h) run_deps \<Rightarrow> 'h \<Rightarrow> (('w, 'h) run_state, bool) prog" where
  "terminate_and_confirm R h =
     bind_prog (attempt (silent (rn_terminate R h))) (\<lambda>requested.
     bind_prog (attempt (silent (rn_wait_root R h (rn_termination_wait R)))) (\<lambda>root_exited.
       if root_exited \<noteq> Inr True \<or> requested \<noteq> Inr () then ret False else confirm R h))"

datatype root_result = RootReady pystr | RootFailed bool

text \<open>The first attempt whose name is free makes the root; at most sixteen are made. A failure below
  the root removes it again and becomes \<open>_RequestRootCreationError(cleanup_failed)\<close>.\<close>

fun create_attempts ::
    "('w, 'h) run_deps \<Rightarrow> nat \<Rightarrow> pystr \<Rightarrow> (('w, 'h) run_state, root_result) prog" where
  "create_attempts R 0 parent = raise (OSError ''unable to allocate request root'')"
| "create_attempts R (Suc n) parent =
     bind_prog (silent (rn_uuid4_hex R)) (\<lambda>hex.
     let root = parent @ lit ''/cah-run-'' @ hex in
     bind_prog (attempt (silent (rn_create_directory R root))) (\<lambda>made.
       if made = Inl (OSError ''FileExistsError'') then create_attempts R n parent
       else bind_prog (lift_res made) (\<lambda>_.
         bind_prog (attempt (bind_prog (silent (rn_create_directory R (root @ lit ''/data'')))
            (\<lambda>_. silent (rn_create_directory R (root @ lit ''/cwd''))))) (\<lambda>below.
           if ok below then ret (RootReady root)
           else bind_prog (attempt (call (\<lambda>r. [CallCleanup (ok r)]) (rn_cleanup R root)))
             (\<lambda>cleaned. ret (RootFailed (\<not> ok cleaned)))))))"

definition create_request_root ::
    "('w, 'h) run_deps \<Rightarrow> pystr \<Rightarrow> (('w, 'h) run_state, root_result) prog" where
  "create_request_root R parent =
     bind_prog (silent (rn_mkdir_parents R parent)) (\<lambda>_. create_attempts R 16 parent)"

definition start_command :: "('w, 'h) run_deps \<Rightarrow> pystr \<Rightarrow> worker_command" where
  "start_command R root =
     \<lparr>wk_argv = [rn_python R, lit ''-I'', lit ''-m'', lit ''coding_agent_harness.web.worker'',
        lit ''--config'', root @ lit ''/worker-config.json'', lit ''--result'', root @ lit ''/worker-result.json''],
      wk_cwd = root @ lit ''/cwd'', wk_env = rn_environment R,
      wk_creationflags = (if rn_windows R then 4 + 512 else 0), wk_new_session = (\<not> rn_windows R)\<rparr>"

section \<open>Reading the worker's result\<close>

definition RESULT_MAX_BYTES :: int where
  "RESULT_MAX_BYTES = 65536"

definition RESULT_MAX_EVENTS :: int where
  "RESULT_MAX_EVENTS = 64"

definition check_worker_result :: "scenario \<Rightarrow> bytes \<Rightarrow> worker_result res" where
  "check_worker_result scenario raw =
     (if py_len raw > RESULT_MAX_BYTES then Inl (ValueError [])
      else bind_res (decode_worker_result raw) (\<lambda>result.
        if wr_scenario result \<noteq> sc_id scenario \<or> py_len (wr_events result) > RESULT_MAX_EVENTS
           \<or> wr_terminal result \<noteq> sc_terminal scenario \<or> wr_terminal result \<noteq> tc_terminal (sc_contract scenario)
        then Inl (ValueError [])
        else bind_res (validate_trace (sc_contract scenario) (wr_events result)) (\<lambda>_.
          if wr_events result = [] then Inl IndexError
          else if terminal_status_of (last (wr_events result)) \<noteq> Some (wr_terminal result)
          then Inl (ValueError []) else Inr result)))"

text \<open>The file stays open when the result is good.\<close>

definition read_worker_result ::
    "('w, 'h) run_deps \<Rightarrow> scenario \<Rightarrow> pystr \<Rightarrow> (('w, 'h) run_state, worker_result) prog" where
  "read_worker_result R scenario path =
     bind_prog (silent (rn_open_read R path (RESULT_MAX_BYTES + 1))) (\<lambda>raw.
       case check_worker_result scenario raw of
         Inl e \<Rightarrow> bind_prog (modify (\<lambda>s. s\<lparr>rs_env := rn_close_file R (rs_env s)\<rparr>)) (\<lambda>_. raise e)
       | Inr result \<Rightarrow> ret result)"

section \<open>One run\<close>

definition settle_worker ::
    "('w, 'h) run_deps \<Rightarrow> 'h \<Rightarrow> run_outcome \<Rightarrow> (('w, 'h) run_state, unit) prog" where
  "settle_worker R h out =
     bind_prog (terminate_and_confirm R h) (\<lambda>c.
     bind_prog (modify (\<lambda>s. s\<lparr>rs_confirmed := c\<rparr>)) (\<lambda>_.
     prefer_pending (if c then out else RO_TERMINATION_UNCONFIRMED)))"

definition collect_result ::
    "('w, 'h) run_deps \<Rightarrow> scenario \<Rightarrow> pystr \<Rightarrow> (('w, 'h) run_state, unit) prog" where
  "collect_result R scenario root =
     bind_prog (modify (\<lambda>s. s\<lparr>rs_confirmed := True\<rparr>)) (\<lambda>_.
     bind_prog (attempt
        (bind_prog (read_worker_result R scenario (root @ lit ''/worker-result.json'')) (\<lambda>result.
         bind_prog (modify (\<lambda>s. s\<lparr>rs_file_open := True\<rparr>)) (\<lambda>_.
         lift_res (view_from_events (wr_events result)))))) (\<lambda>view.
       case view of
         Inr v \<Rightarrow> set_pending (RO_SUCCESS, Some v)
       | Inl _ \<Rightarrow> prefer_pending RO_TRACE_INCOMPLETE))"

definition await_worker ::
    "('w, 'h) run_deps \<Rightarrow> scenario \<Rightarrow> int \<Rightarrow> pystr \<Rightarrow> 'h \<Rightarrow> (('w, 'h) run_state, unit) prog" where
  "await_worker R scenario deadline root h =
     bind_prog (silent (rn_wait R h deadline)) (\<lambda>exit_code.
     bind_prog (if exit_code = None then ret True
                else bind_prog (silent (rn_clock R)) (\<lambda>now. ret (deadline \<le> now))) (\<lambda>late.
     if late then settle_worker R h RO_TIMEOUT
     else bind_prog (confirm R h) (\<lambda>c.
       if c then collect_result R scenario root
       else settle_worker R h RO_WORKER_LIFECYCLE_INVALID)))"

definition watch_worker ::
    "('w, 'h) run_deps \<Rightarrow> scenario \<Rightarrow> int \<Rightarrow> pystr \<Rightarrow> 'h \<Rightarrow> (('w, 'h) run_state, unit) prog" where
  "watch_worker R scenario deadline root h =
     bind_prog (call (\<lambda>r. [CallStarted (r = Inr True)]) (rn_process_created R h)) (\<lambda>created.
     bind_prog (modify (\<lambda>s. s\<lparr>rs_process_created := created\<rparr>)) (\<lambda>_.
     if \<not> created then prefer_pending RO_INTERNAL
     else await_worker R scenario deadline root h))"

definition run_in_root ::
    "('w, 'h) run_deps \<Rightarrow> scenario \<Rightarrow> int \<Rightarrow> pystr \<Rightarrow> (('w, 'h) run_state, unit) prog" where
  "run_in_root R scenario deadline root =
     bind_prog (modify (\<lambda>s. s\<lparr>rs_root := Some root, rs_root_created := True\<rparr>)) (\<lambda>_.
     bind_prog (lift_res (of_opt UnicodeError (utf8_encode (json_print (config_message (sc_id scenario)))))) (\<lambda>content.
     bind_prog (silent (rn_write_config R (root @ lit ''/worker-config.json'') content)) (\<lambda>_.
     bind_prog (silent (rn_start R (start_command R root))) (\<lambda>h.
     bind_prog (modify (\<lambda>s. s\<lparr>rs_worker := Some h\<rparr>)) (\<lambda>_.
     watch_worker R scenario deadline root h)))))"

definition run_body ::
    "('w, 'h) run_deps \<Rightarrow> pystr \<Rightarrow> pystr \<Rightarrow> (('w, 'h) run_state, unit) prog" where
  "run_body R scenario_id parent =
     bind_prog (call (\<lambda>r. [CallAcquire (r = Inr True)]) (rn_acquire R)) (\<lambda>got.
     if \<not> got then set_pending (RO_BUSY, None)
     else bind_prog (modify (\<lambda>s. s\<lparr>rs_lock := True\<rparr>)) (\<lambda>_.
       if \<not> registry_contains (rn_registry R) scenario_id then set_pending (RO_INTERNAL, None)
       else bind_prog (lift_res (registry_get (rn_registry R) scenario_id)) (\<lambda>scenario.
         bind_prog (silent (rn_clock R)) (\<lambda>now.
         bind_prog (create_request_root R parent) (\<lambda>made.
           case made of
             RootFailed cleanup_failed \<Rightarrow>
               prefer_pending (if cleanup_failed then RO_CLEANUP_FAILED else RO_INTERNAL)
           | RootReady root \<Rightarrow> run_in_root R scenario (now + rn_deadline R) root)))))"

text \<open>The \<open>finally\<close> block, in its order.\<close>

definition finish_worker :: "('w, 'h) run_deps \<Rightarrow> (('w, 'h) run_state, unit) prog" where
  "finish_worker R s =
     (case rs_worker s of
        None \<Rightarrow> (Inr (), s)
      | Some h \<Rightarrow>
          bind_prog
            (if rs_process_created s \<and> \<not> rs_confirmed s
             then bind_prog (terminate_and_confirm R h) (\<lambda>c.
                  bind_prog (modify (\<lambda>s. s\<lparr>rs_confirmed := c\<rparr>)) (\<lambda>_.
                  if c then ret () else prefer_pending RO_TERMINATION_UNCONFIRMED))
             else ret ()) (\<lambda>_.
          bind_prog (attempt (silent (rn_close R h))) (\<lambda>closed.
            if ok closed then ret () else prefer_pending RO_INTERNAL)) s)"

definition finish_root :: "('w, 'h) run_deps \<Rightarrow> (('w, 'h) run_state, unit) prog" where
  "finish_root R s =
     (case rs_root s of
        None \<Rightarrow> (Inr (), s)
      | Some root \<Rightarrow>
          if \<not> rs_root_created s then (Inr (), s)
          else if \<not> rs_process_created s \<or> rs_confirmed s
          then bind_prog (attempt (call (\<lambda>r. [CallCleanup (ok r)]) (rn_cleanup R root))) (\<lambda>cleaned.
                 if ok cleaned then ret () else prefer_pending RO_CLEANUP_FAILED) s
          else bind_prog (prefer_pending RO_TERMINATION_UNCONFIRMED) (\<lambda>_.
                 bind_prog (attempt (call (\<lambda>_. [CallIsolate]) (rn_isolate R root))) (\<lambda>_. ret ())) s)"

definition release_lock :: "('w, 'h) run_deps \<Rightarrow> (('w, 'h) run_state, unit) prog" where
  "release_lock R = modify (\<lambda>s.
     if rs_lock s then s\<lparr>rs_env := rn_release R (rs_env s), rs_log := rs_log s @ [CallRelease]\<rparr> else s)"

definition run_finally :: "('w, 'h) run_deps \<Rightarrow> (('w, 'h) run_state, unit) prog" where
  "run_finally R =
     bind_prog (modify (\<lambda>s. if rs_file_open s then s\<lparr>rs_env := rn_close_file R (rs_env s)\<rparr> else s)) (\<lambda>_.
     bind_prog (finish_worker R) (\<lambda>_.
     bind_prog (finish_root R) (\<lambda>_.
     release_lock R)))"

definition initial_state :: "'w \<Rightarrow> ('w, 'h) run_state" where
  "initial_state w =
     \<lparr>rs_env = w, rs_log = [], rs_pending = (RO_SUCCESS, None), rs_worker = None, rs_file_open = False,
      rs_root = None, rs_lock = False, rs_root_created = False, rs_process_created = False,
      rs_confirmed = False\<rparr>"

text \<open>The result: the view, or the error whose code is the outcome (\<open>RunServiceBusyError\<close> for busy).\<close>

definition respond :: "pending_result \<Rightarrow> run_outcome + trace_view" where
  "respond p =
     (if fst p = RO_BUSY then Inl RO_BUSY
      else if fst p \<noteq> RO_SUCCESS then Inl (fst p)
      else case snd p of None \<Rightarrow> Inl RO_INTERNAL | Some v \<Rightarrow> Inr v)"

definition run_state_of :: "('w, 'h) run_deps \<Rightarrow> pystr \<Rightarrow> pystr \<Rightarrow> 'w \<Rightarrow> ('w, 'h) run_state" where
  "run_state_of R scenario_id parent w =
     snd (bind_prog (attempt (run_body R scenario_id parent)) (\<lambda>r.
       bind_prog (if ok r then ret () else prefer_pending RO_INTERNAL) (\<lambda>_. run_finally R)) (initial_state w))"

definition run_scenario ::
    "('w, 'h) run_deps \<Rightarrow> pystr \<Rightarrow> pystr \<Rightarrow> 'w \<Rightarrow> (run_outcome + trace_view) \<times> 'w" where
  "run_scenario R scenario_id parent w =
     (let s = run_state_of R scenario_id parent w in (respond (rs_pending s), rs_env s))"

section \<open>Weakest preconditions\<close>

named_theorems wp_simps \<open>weakest preconditions of the combinators\<close>

definition wp :: "('s, 'a) prog \<Rightarrow> ('a res \<Rightarrow> 's \<Rightarrow> bool) \<Rightarrow> 's \<Rightarrow> bool" where
  "wp m Q s = (case m s of (r, t) \<Rightarrow> Q r t)"

lemma wp_bind [wp_simps]:
  "wp (bind_prog m f) Q s = wp m (\<lambda>r t. case r of Inl e \<Rightarrow> Q (Inl e) t | Inr x \<Rightarrow> wp (f x) Q t) s"
  by (auto simp: wp_def bind_prog_def split: prod.splits sum.splits)

lemma wp_basic [wp_simps]:
  "wp (ret x) Q s = Q (Inr x) s" "wp (raise e) Q s = Q (Inl e) s" "wp (lift_res r) Q s = Q r s"
  by (simp_all add: wp_def)

lemma wp_modify [wp_simps]: "wp (modify f) Q s = Q (Inr ()) (f s)"
  by (simp add: wp_def modify_def)

lemma wp_attempt [wp_simps]: "wp (attempt m) Q s = wp m (\<lambda>r. Q (Inr r)) s"
  by (simp add: wp_def attempt_def split: prod.splits)

lemma wp_pending [wp_simps]:
  "wp (set_pending p) Q s = Q (Inr ()) (s\<lparr>rs_pending := p\<rparr>)"
  "wp (prefer_pending c) Q s = Q (Inr ()) (s\<lparr>rs_pending := prefer_result (rs_pending s) c\<rparr>)"
  by (simp_all add: set_pending_def prefer_pending_def wp_modify)

lemma wp_if [wp_simps]: "wp (if b then m else n) Q s = (if b then wp m Q s else wp n Q s)"
  by simp

lemma wp_bind_modify: "wp (bind_prog (modify f) g) Q s = wp (g ()) Q (f s)"
  by (simp add: wp_bind wp_modify)

lemma wp_bind_lift:
  "wp (bind_prog (lift_res r) g) Q s = (case r of Inl e \<Rightarrow> Q (Inl e) s | Inr x \<Rightarrow> wp (g x) Q s)"
  by (simp add: wp_bind wp_basic)

lemma wp_call: "(\<And>r w. Q r (s\<lparr>rs_env := w, rs_log := rs_log s @ note r\<rparr>)) \<Longrightarrow> wp (call note m) Q s"
  by (simp add: wp_def call_def split: prod.splits)

lemma wp_silent: "(\<And>r w. Q r (s\<lparr>rs_env := w\<rparr>)) \<Longrightarrow> wp (silent m) Q s"
  by (rule wp_call) simp

lemma wp_mono: "wp m Q s \<Longrightarrow> (\<And>r t. Q r t \<Longrightarrow> Q' r t) \<Longrightarrow> wp m Q' s"
  by (simp add: wp_def split: prod.splits)

lemma wp_result: "wp m Q s \<Longrightarrow> Q (fst (m s)) (snd (m s))"
  by (simp add: wp_def split: prod.splits)

lemma wp_confirm:
  "(\<And>w b. Q (Inr b) (s\<lparr>rs_env := w, rs_log := rs_log s @ [CallConfirm b]\<rparr>)) \<Longrightarrow> wp (confirm R h) Q s"
  unfolding confirm_def by (simp add: wp_simps) (rule wp_call, simp)

lemma wp_Pair [wp_simps]: "wp (Pair r) Q s = Q r s"
  by (simp add: wp_def)

lemma wp_terminate:
  assumes "\<And>w L b. L = [CallConfirm b] \<or> L = [] \<and> \<not> b \<Longrightarrow> Q (Inr b) (s\<lparr>rs_env := w, rs_log := rs_log s @ L\<rparr>)"
  shows "wp (terminate_and_confirm R h) Q s"
proof -
  have no: "Q (Inr False) (s\<lparr>rs_env := w\<rparr>)" for w using assms[of "[]" False w] by simp
  have yes: "wp (confirm R h) Q (s\<lparr>rs_env := w\<rparr>)" for w using assms by (intro wp_confirm) simp
  show ?thesis
    unfolding terminate_and_confirm_def wp_bind wp_attempt sum.case
    by (rule wp_call, rule wp_call) (simp add: wp_simps no yes)
qed

lemma wp_create_attempts:
  assumes "\<And>w root. Q (Inr (RootReady root)) (s\<lparr>rs_env := w\<rparr>)"
    and "\<And>w b. Q (Inr (RootFailed (\<not> b))) (s\<lparr>rs_env := w, rs_log := rs_log s @ [CallCleanup b]\<rparr>)"
    and "\<And>w e. Q (Inl e) (s\<lparr>rs_env := w\<rparr>)"
  shows "wp (create_attempts R n parent) Q s"
  using assms
proof (induction n arbitrary: s)
  case 0
  from this(3)[of _ "rs_env s"] show ?case by (simp add: wp_simps)
next
  case (Suc n)
  show ?case
    by (simp add: wp_simps Let_def, rule wp_call, simp add: Suc.prems wp_simps split: sum.split,
        intro allI impI, rule wp_call)
      (auto simp: wp_simps Suc.prems intro!: Suc.IH wp_call split: sum.split)
qed

lemma wp_create_root:
  assumes "\<And>w root. Q (Inr (RootReady root)) (s\<lparr>rs_env := w\<rparr>)"
    and "\<And>w b. Q (Inr (RootFailed (\<not> b))) (s\<lparr>rs_env := w, rs_log := rs_log s @ [CallCleanup b]\<rparr>)"
    and "\<And>w e. Q (Inl e) (s\<lparr>rs_env := w\<rparr>)"
  shows "wp (create_request_root R parent) Q s"
  unfolding create_request_root_def
  by (simp add: wp_simps, rule wp_call) (auto simp: assms intro!: wp_create_attempts split: sum.split)

section \<open>The body keeps its books\<close>

text \<open>A view is certified when it comes from a worker's result that the registered scenario accepts.\<close>

definition certified :: "('w, 'h) run_deps \<Rightarrow> pystr \<Rightarrow> trace_view \<Rightarrow> bool" where
  "certified R scenario_id v \<longleftrightarrow>
     (\<exists>sc raw result. registry_get (rn_registry R) scenario_id = Inr sc
        \<and> check_worker_result sc raw = Inr result \<and> view_from_events (wr_events result) = Inr v)"

text \<open>While the lock is held: the variables say what the log says, the root is deleted only by the
  attempt that failed to create it, and only a certified view of a finished worker is pending.\<close>

definition booked :: "('w, 'h) run_deps \<Rightarrow> pystr \<Rightarrow> ('w, 'h) run_state \<Rightarrow> bool" where
  "booked R i s \<longleftrightarrow>
     rs_lock s
     \<and> rs_log s \<noteq> [] \<and> hd (rs_log s) = CallAcquire True
     \<and> CallRelease \<notin> set (rs_log s) \<and> CallIsolate \<notin> set (rs_log s)
     \<and> (\<forall>c. CallCleanup c \<in> set (rs_log s) \<longrightarrow> rs_root s = None)
     \<and> (rs_process_created s \<longleftrightarrow> CallStarted True \<in> set (rs_log s))
     \<and> (rs_confirmed s \<longleftrightarrow> CallConfirm True \<in> set (rs_log s))
     \<and> (rs_process_created s \<longrightarrow> rs_worker s \<noteq> None \<and> rs_root s \<noteq> None)
     \<and> (rs_root_created s \<longleftrightarrow> rs_root s \<noteq> None)
     \<and> (rs_confirmed s \<longrightarrow> rs_process_created s)
     \<and> fst (rs_pending s) \<noteq> RO_BUSY
     \<and> (\<forall>v. snd (rs_pending s) = Some v \<longrightarrow> fst (rs_pending s) = RO_SUCCESS \<and> rs_confirmed s \<and> certified R i v)"

lemma prefer_cases: "prefer_result p c = p \<or> prefer_result p c = (c, None)"
  by (simp add: prefer_result_def split: option.splits)

lemma prefer_fst: "c \<noteq> RO_BUSY \<Longrightarrow> fst p \<noteq> RO_BUSY \<Longrightarrow> fst (prefer_result p c) \<noteq> RO_BUSY"
  using prefer_cases[of p c] by auto

lemma prefer_snd: "snd (prefer_result p c) = Some v \<Longrightarrow> prefer_result p c = p"
  using prefer_cases[of p c] by auto

lemma booked_prefer: "booked R i s \<Longrightarrow> c \<noteq> RO_BUSY \<Longrightarrow> booked R i (s\<lparr>rs_pending := prefer_result (rs_pending s) c\<rparr>)"
  using prefer_cases[of "rs_pending s" c] by (auto simp: booked_def)

lemma booked_env: "booked R i (s\<lparr>rs_env := w\<rparr>) = booked R i s"
  by (simp add: booked_def)

lemma settle_booked:
  assumes "booked R i s" "rs_process_created s" "\<not> rs_confirmed s" "out \<noteq> RO_BUSY"
  shows "wp (settle_worker R h out) (\<lambda>r t. booked R i t) s"
  unfolding settle_worker_def wp_bind
proof (rule wp_terminate, unfold sum.case wp_simps)
  fix w L b
  assume L: "L = [CallConfirm b] \<or> L = [] \<and> \<not> b"
  let ?t = "s\<lparr>rs_env := w, rs_log := rs_log s @ L, rs_confirmed := b\<rparr>"
  have "booked R i ?t" using assms L by (auto simp: booked_def)
  from booked_prefer[OF this] assms(4)
  show "booked R i (?t\<lparr>rs_pending := prefer_result (rs_pending ?t) (if b then out else RO_TERMINATION_UNCONFIRMED)\<rparr>)"
    by simp
qed

lemma wp_read_result:
  "wp (read_worker_result R sc p) (\<lambda>r t. \<exists>w. t = s\<lparr>rs_env := w\<rparr> \<and>
      (\<forall>x. r = Inr x \<longrightarrow> (\<exists>raw. check_worker_result sc raw = Inr x))) s"
  unfolding read_worker_result_def wp_bind
  by (rule wp_call) (auto simp: wp_simps split: sum.splits)

lemma booked_file: "booked R i (s\<lparr>rs_file_open := b\<rparr>) = booked R i s"
  by (simp add: booked_def)

lemma booked_view:
  "booked R i s \<Longrightarrow> rs_confirmed s \<Longrightarrow> certified R i v \<Longrightarrow> booked R i (s\<lparr>rs_pending := (RO_SUCCESS, Some v)\<rparr>)"
  by (auto simp: booked_def)

lemma collect_booked:
  assumes "booked R i (s\<lparr>rs_confirmed := True\<rparr>)" "registry_get (rn_registry R) i = Inr sc"
  shows "wp (collect_result R sc root) (\<lambda>r t. booked R i t) s"
  unfolding collect_result_def wp_bind wp_modify wp_attempt sum.case
proof (rule wp_mono[OF wp_read_result], goal_cases)
  case (1 r t)
  let ?s = "s\<lparr>rs_confirmed := True\<rparr>"
  from 1 obtain w where t: "t = ?s\<lparr>rs_env := w\<rparr>"
    and x: "\<And>x. r = Inr x \<Longrightarrow> \<exists>raw. check_worker_result sc raw = Inr x" by blast
  have b: "booked R i t" "rs_confirmed t" using assms(1) t booked_env[of R i w ?s] by simp_all
  then have bf: "booked R i (t\<lparr>rs_file_open := True\<rparr>)" "rs_confirmed (t\<lparr>rs_file_open := True\<rparr>)"
    using booked_file[of R i True t] by simp_all
  have c: "certified R i v" if "r = Inr x" "view_from_events (wr_events x) = Inr v" for x v
    using x[OF that(1)] that(2) assms(2) unfolding certified_def by blast
  show ?case
  proof (cases r)
    case (Inl e)
    then show ?thesis using booked_prefer[OF b(1), of RO_TRACE_INCOMPLETE] by (simp add: wp_simps)
  next
    case (Inr x)
    show ?thesis
    proof (cases "view_from_events (wr_events x)")
      case (Inl e)
      then show ?thesis using Inr booked_prefer[OF bf(1), of RO_TRACE_INCOMPLETE] by (simp add: wp_simps)
    next
      case (Inr v)
      then show ?thesis using \<open>r = Inr x\<close> booked_view[OF bf c[OF \<open>r = Inr x\<close> Inr]] by (simp add: wp_simps)
    qed
  qed
qed

lemma await_booked:
  assumes "booked R i s" "rs_process_created s" "\<not> rs_confirmed s" "registry_get (rn_registry R) i = Inr sc"
  shows "wp (await_worker R sc deadline root h) (\<lambda>r t. booked R i t) s"
proof -
  have settle: "wp (settle_worker R h out) (\<lambda>r t. booked R i t) (s\<lparr>rs_env := v\<rparr>)" if "out \<noteq> RO_BUSY" for v out
    using settle_booked[of R i "s\<lparr>rs_env := v\<rparr>" out h] assms(1-3) that by (simp add: booked_env)
  have conf: "wp (confirm R h) (\<lambda>r t. case r of Inl e \<Rightarrow> booked R i t
      | Inr c \<Rightarrow> wp (if c then collect_result R sc root else settle_worker R h RO_WORKER_LIFECYCLE_INVALID)
          (\<lambda>r t. booked R i t) t) (s\<lparr>rs_env := v\<rparr>)" for v
  proof (rule wp_confirm, goal_cases)
    case (1 u c)
    let ?u = "s\<lparr>rs_env := u, rs_log := rs_log s @ [CallConfirm c]\<rparr>"
    show ?case
    proof (cases c)
      case True
      have "booked R i (?u\<lparr>rs_confirmed := True\<rparr>)" using assms True by (auto simp: booked_def)
      from collect_booked[OF this assms(4)] show ?thesis using True by simp
    next
      case False
      have "booked R i ?u" using assms False by (auto simp: booked_def)
      from settle_booked[OF this] show ?thesis using False assms(2,3) by simp
    qed
  qed
  show ?thesis
    unfolding await_worker_def wp_bind
  proof (rule wp_silent, goal_cases)
    case (1 r w)
    show ?case
    proof (cases r)
      case (Inr code)
      have "wp (silent (rn_clock R)) (\<lambda>r t. case r of Inl e \<Rightarrow> booked R i t
         | Inr now \<Rightarrow> wp (if deadline \<le> now then settle_worker R h RO_TIMEOUT
             else bind_prog (confirm R h) (\<lambda>c. if c then collect_result R sc root
               else settle_worker R h RO_WORKER_LIFECYCLE_INVALID)) (\<lambda>r t. booked R i t) t) (s\<lparr>rs_env := w\<rparr>)"
        by (rule wp_silent) (use assms(1) settle conf in \<open>auto simp: wp_bind booked_env split: sum.split\<close>)
      then show ?thesis using Inr settle by (cases code) (simp_all add: wp_simps cong: sum.case_cong)
    qed (use assms(1) in \<open>simp add: booked_env\<close>)
  qed
qed

lemma watch_booked:
  assumes "booked R i s" "rs_worker s = Some h" "rs_root s = Some root" "\<not> rs_process_created s"
    and "\<not> rs_confirmed s" "registry_get (rn_registry R) i = Inr sc"
  shows "wp (watch_worker R sc deadline root h) (\<lambda>r t. booked R i t) s"
  unfolding watch_worker_def wp_bind
proof (rule wp_call, goal_cases)
  case (1 r w)
  let ?t = "s\<lparr>rs_env := w, rs_log := rs_log s @ [CallStarted (r = Inr True)], rs_process_created := (r = Inr True)\<rparr>"
  have b: "booked R i ?t" using assms by (auto simp: booked_def)
  show ?case
  proof (cases r)
    case (Inl e)
    have "?t = s\<lparr>rs_env := w, rs_log := rs_log s @ [CallStarted (r = Inr True)]\<rparr>"
      using assms(4) Inl by (cases s) simp
    then show ?thesis using b Inl by simp
  next
    case (Inr created)
    then show ?thesis
      using b booked_prefer[OF b, of RO_INTERNAL] await_booked[OF b _ _ assms(6), of deadline root h] assms(5)
      by (cases created) (simp_all add: wp_simps)
  qed
qed

lemma in_root_booked:
  assumes "booked R i s" "rs_root s = None" "\<not> rs_process_created s" "\<not> rs_confirmed s"
    and "\<forall>c. CallCleanup c \<notin> set (rs_log s)" "registry_get (rn_registry R) i = Inr sc"
  shows "wp (run_in_root R sc deadline root) (\<lambda>r t. booked R i t) s"
proof -
  let ?s = "s\<lparr>rs_root := Some root, rs_root_created := True\<rparr>"
  have b: "booked R i ?s" using assms by (auto simp: booked_def)
  have watch: "wp (watch_worker R sc deadline root h) (\<lambda>r t. booked R i t) (?s\<lparr>rs_env := v, rs_worker := Some h\<rparr>)" for v h
    using assms(3,4,6) b by (intro watch_booked) (auto simp: booked_def)
  have start: "wp (bind_prog (silent (rn_start R c)) (\<lambda>h. bind_prog (modify (\<lambda>s. s\<lparr>rs_worker := Some h\<rparr>))
      (\<lambda>_. watch_worker R sc deadline root h))) (\<lambda>r t. booked R i t) (?s\<lparr>rs_env := v\<rparr>)" for c v
    unfolding wp_bind[of "silent _"] by (rule wp_silent) (use b watch in \<open>auto simp: wp_bind_modify booked_env split: sum.split\<close>)
  have writes: "wp (bind_prog (silent (rn_write_config R p c)) (\<lambda>_. bind_prog (silent (rn_start R k)) (\<lambda>h.
      bind_prog (modify (\<lambda>s. s\<lparr>rs_worker := Some h\<rparr>)) (\<lambda>_. watch_worker R sc deadline root h))))
      (\<lambda>r t. booked R i t) ?s" for p c k
    unfolding wp_bind[of "silent (rn_write_config R p c)"]
    by (rule wp_silent) (use b start in \<open>auto simp: booked_env split: sum.split\<close>)
  show ?thesis
    unfolding run_in_root_def wp_bind_modify wp_bind_lift using b writes by (simp split: sum.split)
qed

text \<open>A state before the lock was taken, or when it was not.\<close>

definition unlocked :: "('w, 'h) run_state \<Rightarrow> bool" where
  "unlocked s \<longleftrightarrow> rs_log s = [CallAcquire False] \<and> \<not> rs_lock s \<and> rs_worker s = None \<and> rs_root s = None
     \<and> rs_pending s \<in> {(RO_SUCCESS, None), (RO_BUSY, None)}"

lemma body_booked:
  fixes R :: "('w, 'h) run_deps"
  shows "wp (run_body R i parent) (\<lambda>r t. booked R i t \<or> unlocked t \<and> (r = Inr () \<longrightarrow> rs_pending t = (RO_BUSY, None)))
     (initial_state w)"
proof -
  let ?Q = "\<lambda>(r :: unit res) (t :: ('w, 'h) run_state). booked R i t \<or> unlocked t \<and> (r = Inr () \<longrightarrow> rs_pending t = (RO_BUSY, None))"
  define s :: "('w, 'h) run_state" where "s = \<lparr>rs_env = w, rs_log = [CallAcquire True], rs_pending = (RO_SUCCESS, None), rs_worker = None,
      rs_file_open = False, rs_root = None, rs_lock = True, rs_root_created = False, rs_process_created = False,
      rs_confirmed = False\<rparr>"
  have b: "booked R i (s\<lparr>rs_env := v\<rparr>)" for v by (simp add: booked_def s_def)
  have root: "wp (create_request_root R parent) (\<lambda>r t. case r of Inl e \<Rightarrow> ?Q (Inl e) t
      | Inr made \<Rightarrow> wp (case made of RootFailed c \<Rightarrow> prefer_pending (if c then RO_CLEANUP_FAILED else RO_INTERNAL)
           | RootReady root \<Rightarrow> run_in_root R sc d root) ?Q t) (s\<lparr>rs_env := v\<rparr>)"
    if "registry_get (rn_registry R) i = Inr sc" for sc d v
  proof (rule wp_create_root, goal_cases)
    case (1 u root)
    have "wp (run_in_root R sc d root) (\<lambda>r t. booked R i t) (s\<lparr>rs_env := u\<rparr>)"
      using b that by (intro in_root_booked) (simp_all add: s_def)
    then have "wp (run_in_root R sc d root) ?Q (s\<lparr>rs_env := u\<rparr>)" by (rule wp_mono) simp
    then show ?case by simp
  next
    case (2 u c)
    have "booked R i (s\<lparr>rs_env := u, rs_log := rs_log s @ [CallCleanup c]\<rparr>)" by (simp add: booked_def s_def)
    from booked_prefer[OF this] show ?case by (simp add: wp_simps)
  next
    case (3 u e)
    then show ?case using b by simp
  qed
  have clock: "wp (bind_prog (silent (rn_clock R)) (\<lambda>now. bind_prog (create_request_root R parent) (\<lambda>made.
      case made of RootFailed c \<Rightarrow> prefer_pending (if c then RO_CLEANUP_FAILED else RO_INTERNAL)
        | RootReady root \<Rightarrow> run_in_root R sc (now + rn_deadline R) root))) ?Q (s\<lparr>rs_env := v\<rparr>)"
    if "registry_get (rn_registry R) i = Inr sc" for sc v
    unfolding wp_bind
    by (rule wp_silent) (use b root[OF that] in \<open>auto split: sum.split\<close>)
  show ?thesis
    unfolding run_body_def wp_bind
  proof (rule wp_call, goal_cases)
    case (1 r v)
    show ?case
    proof (cases "r = Inr True")
      case True
      have "booked R i (s\<lparr>rs_env := v, rs_pending := (RO_INTERNAL, None)\<rparr>)" by (simp add: booked_def s_def)
      then show ?thesis using True b[of v] clock
        by (cases "registry_get (rn_registry R) i") (simp_all add: wp_bind_modify wp_bind_lift wp_pending initial_state_def s_def)
    next
      case False
      then show ?thesis
        by (cases r) (auto simp: wp_simps initial_state_def unlocked_def)
    qed
  qed
qed

section \<open>The finally block\<close>

lemma prefer_top:
  "fst p \<noteq> RO_BUSY \<Longrightarrow> fst (prefer_result p RO_TERMINATION_UNCONFIRMED) = RO_TERMINATION_UNCONFIRMED"
  "fst p = RO_TERMINATION_UNCONFIRMED \<Longrightarrow> prefer_result p c = p"
  by (cases "fst p"; simp add: prefer_result_def) (cases c; simp add: prefer_result_def)

text \<open>After the worker was settled: confirmed, or unconfirmed for good.\<close>

definition settled :: "('w, 'h) run_state \<Rightarrow> bool" where
  "settled s \<longleftrightarrow> (rs_process_created s \<longrightarrow> rs_confirmed s \<or> fst (rs_pending s) = RO_TERMINATION_UNCONFIRMED)"

lemma close_booked:
  assumes "booked R i s" "settled s"
  shows "wp (bind_prog (attempt (silent m)) (\<lambda>closed. if ok closed then ret () else prefer_pending RO_INTERNAL))
    (\<lambda>r t. r = Inr () \<and> booked R i t \<and> settled t) s"
  unfolding wp_bind wp_attempt
proof (rule wp_silent, goal_cases)
  case (1 r w)
  have "booked R i (s\<lparr>rs_env := w\<rparr>)" using assms(1) by (simp add: booked_env)
  from this booked_prefer[OF this, of RO_INTERNAL] show ?case
    using assms(2) prefer_top(2)[of "rs_pending s" RO_INTERNAL] by (auto simp: wp_basic wp_pending settled_def)
qed

lemma finish_worker_booked:
  assumes "booked R i s"
  shows "wp (finish_worker R) (\<lambda>r t. r = Inr () \<and> booked R i t \<and> settled t) s"
proof (cases "rs_worker s")
  case None
  then have "settled s" using assms by (auto simp: booked_def settled_def)
  then show ?thesis using None assms by (simp add: wp_def finish_worker_def)
next
  case (Some h)
  let ?close = "bind_prog (attempt (silent (rn_close R h))) (\<lambda>closed. if ok closed then ret () else prefer_pending RO_INTERNAL)"
  let ?Q = "\<lambda>r t. r = Inr () \<and> booked R i t \<and> settled t"
  have close: "booked R i t \<Longrightarrow> settled t \<Longrightarrow> wp ?close ?Q t" for t by (rule close_booked)
  have "wp (bind_prog (if rs_process_created s \<and> \<not> rs_confirmed s
           then bind_prog (terminate_and_confirm R h) (\<lambda>c. bind_prog (modify (\<lambda>s. s\<lparr>rs_confirmed := c\<rparr>))
              (\<lambda>_. if c then ret () else prefer_pending RO_TERMINATION_UNCONFIRMED))
           else ret ()) (\<lambda>_. ?close)) ?Q s"
  proof (cases "rs_process_created s \<and> \<not> rs_confirmed s")
    case True
    have "wp (terminate_and_confirm R h) (\<lambda>r t. case r of Inl e \<Rightarrow> ?Q (Inl e) t
        | Inr c \<Rightarrow> wp (if c then ret () else prefer_pending RO_TERMINATION_UNCONFIRMED)
           (\<lambda>r t. case r of Inl e \<Rightarrow> ?Q (Inl e) t | Inr x \<Rightarrow> wp ?close ?Q t) (t\<lparr>rs_confirmed := c\<rparr>)) s"
    proof (rule wp_terminate, goal_cases)
      case (1 w L b)
      let ?t = "s\<lparr>rs_env := w, rs_log := rs_log s @ L, rs_confirmed := b\<rparr>"
      have t: "booked R i ?t" using assms 1 True by (auto simp: booked_def)
      have u: "booked R i (?t\<lparr>rs_pending := prefer_result (rs_pending ?t) RO_TERMINATION_UNCONFIRMED\<rparr>)"
        by (rule booked_prefer[OF t]) simp
      have p: "fst (prefer_result (rs_pending s) RO_TERMINATION_UNCONFIRMED) = RO_TERMINATION_UNCONFIRMED"
        using assms by (intro prefer_top) (simp add: booked_def)
      show ?case
      proof (cases b)
        case True
        then show ?thesis using close[OF t] by (simp add: wp_basic settled_def)
      next
        case False
        then show ?thesis using close[OF u] p by (simp add: wp_pending settled_def)
      qed
    qed
    then show ?thesis using True by (simp add: wp_bind[of "terminate_and_confirm R h"]
      wp_bind[of "bind_prog (terminate_and_confirm R h) _"] wp_bind_modify cong: sum.case_cong)
  next
    case False
    then have "settled s" by (auto simp: settled_def)
    then show ?thesis using False close[OF assms] by auto
  qed
  then show ?thesis using Some by (simp add: wp_def finish_worker_def)
qed

text \<open>What the whole run leaves behind.\<close>

definition deletes_safely :: "run_call list \<Rightarrow> bool" where
  "deletes_safely L \<longleftrightarrow> (\<forall>pre done post. L = pre @ CallCleanup done # post \<longrightarrow>
     CallStarted True \<in> set pre \<longrightarrow> CallConfirm True \<in> set pre)"

definition finished :: "('w, 'h) run_deps \<Rightarrow> pystr \<Rightarrow> ('w, 'h) run_state \<Rightarrow> bool" where
  "finished R i s \<longleftrightarrow>
     rs_lock s \<and> rs_log s \<noteq> [] \<and> hd (rs_log s) = CallAcquire True \<and> CallRelease \<notin> set (rs_log s)
     \<and> deletes_safely (rs_log s)
     \<and> (CallStarted True \<in> set (rs_log s) \<longrightarrow> CallConfirm True \<notin> set (rs_log s) \<longrightarrow>
          fst (rs_pending s) = RO_TERMINATION_UNCONFIRMED \<and> (\<forall>done. CallCleanup done \<notin> set (rs_log s)))
     \<and> fst (rs_pending s) \<noteq> RO_BUSY
     \<and> (\<forall>v. snd (rs_pending s) = Some v \<longrightarrow> fst (rs_pending s) = RO_SUCCESS
          \<and> CallConfirm True \<in> set (rs_log s) \<and> CallCleanup True \<in> set (rs_log s)
          \<and> CallIsolate \<notin> set (rs_log s) \<and> certified R i v)"

lemma deletes_never: "\<forall>done. CallCleanup done \<notin> set L \<Longrightarrow> deletes_safely L"
  by (auto simp: deletes_safely_def)

lemma deletes_unstarted: "CallStarted True \<notin> set L \<Longrightarrow> deletes_safely L"
  by (auto simp: deletes_safely_def)

lemma deletes_last:
  assumes "\<forall>done. CallCleanup done \<notin> set L" "CallStarted True \<in> set L \<Longrightarrow> CallConfirm True \<in> set L"
  shows "deletes_safely (L @ [CallCleanup b])"
  unfolding deletes_safely_def
proof (intro allI impI)
  fix pre d post
  assume "L @ [CallCleanup b] = pre @ CallCleanup d # post" "CallStarted True \<in> set pre"
  moreover from this have "post = []"
    using assms(1) by (cases post rule: rev_cases) auto
  ultimately show "CallConfirm True \<in> set pre" using assms(2) by simp
qed

lemma finish_root_finished:
  assumes "booked R i s" "settled s"
  shows "wp (finish_root R) (\<lambda>r t. r = Inr () \<and> finished R i t) s"
proof (cases "rs_root s")
  case None
  then have un: "\<not> rs_process_created s" "snd (rs_pending s) = None"
    using assms(1) by (auto simp: booked_def)
  then have "finished R i s"
    using assms(1) deletes_unstarted[of "rs_log s"] by (auto simp: finished_def booked_def)
  then show ?thesis using None by (simp add: wp_def finish_root_def)
next
  case (Some root)
  have no: "\<forall>done. CallCleanup done \<notin> set (rs_log s)" "rs_root_created s"
    using assms(1) Some by (auto simp: booked_def)
  show ?thesis
  proof (cases "\<not> rs_process_created s \<or> rs_confirmed s")
    case True
    have conf: "CallStarted True \<in> set (rs_log s) \<Longrightarrow> CallConfirm True \<in> set (rs_log s)"
      using assms(1) True by (auto simp: booked_def)
    have fin: "finished R i (s\<lparr>rs_env := w, rs_log := rs_log s @ [CallCleanup b],
        rs_pending := (if b then rs_pending s else prefer_result (rs_pending s) RO_CLEANUP_FAILED)\<rparr>)" for w b
    proof -
      have pf: "snd (prefer_result (rs_pending s) RO_CLEANUP_FAILED) = None"
      proof (cases "snd (rs_pending s)")
        case None
        then show ?thesis using prefer_cases[of "rs_pending s" RO_CLEANUP_FAILED] by auto
      next
        case (Some v)
        then have "fst (rs_pending s) = RO_SUCCESS" using assms(1) by (simp add: booked_def)
        then show ?thesis by (simp add: prefer_result_def)
      qed
      show ?thesis
        using deletes_last[OF no(1) conf] assms(1) conf pf prefer_fst[of RO_CLEANUP_FAILED "rs_pending s"]
        by (auto simp: finished_def booked_def)
    qed
    have "wp (bind_prog (attempt (call (\<lambda>r. [CallCleanup (ok r)]) (rn_cleanup R root)))
        (\<lambda>cleaned. if ok cleaned then ret () else prefer_pending RO_CLEANUP_FAILED))
        (\<lambda>r t. r = Inr () \<and> finished R i t) s"
      unfolding wp_bind wp_attempt
    proof (rule wp_call, goal_cases)
      case (1 r w)
      show ?case using fin[of "ok r" w] by (cases "ok r") (simp_all add: wp_basic wp_pending)
    qed
    then show ?thesis using Some no(2) True by (simp add: wp_def finish_root_def)
  next
    case False
    have p: "prefer_result (rs_pending s) RO_TERMINATION_UNCONFIRMED = rs_pending s"
      "fst (rs_pending s) = RO_TERMINATION_UNCONFIRMED"
      using False assms(2) prefer_top(2) by (auto simp: settled_def)
    have "finished R i (s\<lparr>rs_env := w, rs_log := rs_log s @ [CallIsolate]\<rparr>)" for w
      using assms(1) no p False deletes_never[of "rs_log s @ [CallIsolate]"] by (auto simp: finished_def booked_def)
    then have "wp (bind_prog (prefer_pending RO_TERMINATION_UNCONFIRMED)
        (\<lambda>_. bind_prog (attempt (call (\<lambda>_. [CallIsolate]) (rn_isolate R root))) (\<lambda>_. ret ())))
        (\<lambda>r t. r = Inr () \<and> finished R i t) s"
      unfolding wp_bind[of "prefer_pending _"] wp_pending p(1) sum.case
      by (simp add: wp_simps) (rule wp_call, simp)
    then show ?thesis using Some no(2) False by (simp add: wp_def finish_root_def)
  qed
qed

lemma run_finally_booked:
  assumes "booked R i s"
  shows "wp (run_finally R) (\<lambda>r t. \<exists>u. finished R i u \<and> rs_pending t = rs_pending u \<and> rs_log t = rs_log u @ [CallRelease]) s"
proof -
  let ?s = "if rs_file_open s then s\<lparr>rs_env := rn_close_file R (rs_env s)\<rparr> else s"
  let ?Q = "\<lambda>r t. \<exists>u. finished R i u \<and> rs_pending t = rs_pending u \<and> rs_log t = rs_log u @ [CallRelease]"
  have release: "wp (release_lock R) ?Q u" if "finished R i u" for u
    using that by (auto simp: release_lock_def wp_modify finished_def)
  have root: "wp (bind_prog (finish_root R) (\<lambda>_. release_lock R)) ?Q u" if "booked R i u" "settled u" for u
    unfolding wp_bind by (rule wp_mono[OF finish_root_finished[OF that]]) (simp add: release)
  have "wp (bind_prog (finish_worker R) (\<lambda>_. bind_prog (finish_root R) (\<lambda>_. release_lock R))) ?Q u" if "booked R i u" for u
    unfolding wp_bind[of "finish_worker R"] by (rule wp_mono[OF finish_worker_booked[OF that]]) (simp add: root)
  moreover have "booked R i ?s" using assms by (simp add: booked_env)
  ultimately show ?thesis unfolding run_finally_def wp_bind_modify by blast
qed

lemma run_finally_idle:
  assumes "rs_worker s = None" "rs_root s = None" "\<not> rs_lock s"
  shows "wp (run_finally R) (\<lambda>r t. rs_pending t = rs_pending s \<and> rs_log t = rs_log s) s"
  using assms
  by (auto simp: run_finally_def wp_def bind_prog_def modify_def finish_worker_def finish_root_def release_lock_def)

text \<open>What a run leaves: nothing but a refused lock, or the finished books and the released lock.\<close>

definition left_behind :: "('w, 'h) run_deps \<Rightarrow> pystr \<Rightarrow> pending_result \<Rightarrow> run_call list \<Rightarrow> bool" where
  "left_behind R i p L \<longleftrightarrow>
     L = [CallAcquire False] \<and> p \<in> {(RO_INTERNAL, None), (RO_BUSY, None)}
     \<or> (\<exists>u. finished R i u \<and> p = rs_pending u \<and> L = rs_log u @ [CallRelease])"

lemma run_leaves:
  "left_behind R i (rs_pending (run_state_of R i parent w)) (rs_log (run_state_of R i parent w))"
proof -
  let ?Q = "\<lambda>t. left_behind R i (rs_pending t) (rs_log t)"
  have booked: "wp (run_finally R) (\<lambda>r t. ?Q t) s" if "booked R i s" for s
    by (rule wp_mono[OF run_finally_booked[OF that]]) (auto simp: left_behind_def)
  have idle: "wp (run_finally R) (\<lambda>r t. ?Q t) s"
    if "rs_log s = [CallAcquire False]" "\<not> rs_lock s" "rs_worker s = None" "rs_root s = None"
      "rs_pending s \<in> {(RO_INTERNAL, None), (RO_BUSY, None)}" for s
    by (rule wp_mono[OF run_finally_idle[OF that(3,4,2)]]) (use that in \<open>auto simp: left_behind_def\<close>)
  have "wp (bind_prog (attempt (run_body R i parent)) (\<lambda>r.
      bind_prog (if ok r then ret () else prefer_pending RO_INTERNAL) (\<lambda>_. run_finally R))) (\<lambda>r t. ?Q t) (initial_state w)"
    unfolding wp_bind[of "attempt _"] wp_attempt sum.case
  proof (rule wp_mono[OF body_booked], goal_cases)
    case (1 r t)
    let ?t = "t\<lparr>rs_pending := prefer_result (rs_pending t) RO_INTERNAL\<rparr>"
    from 1 consider "booked R i t" | "unlocked t" "r = Inr ()" "rs_pending t = (RO_BUSY, None)"
      | "unlocked t" "\<not> ok r" by (cases r) auto
    then show ?case
    proof cases
      case 1
      show ?thesis using booked[OF 1] booked[OF booked_prefer[OF 1, of RO_INTERNAL]]
        by (simp add: wp_bind wp_basic wp_pending)
    next
      case 2
      then show ?thesis using idle[of t] by (simp add: wp_bind wp_basic unlocked_def)
    next
      case 3
      then have "rs_pending ?t \<in> {(RO_INTERNAL, None), (RO_BUSY, None)}"
        by (auto simp: unlocked_def prefer_result_def)
      then have "wp (run_finally R) (\<lambda>r t. ?Q t) ?t" using 3 by (intro idle) (simp_all add: unlocked_def)
      then show ?thesis using 3 by (simp add: wp_bind wp_pending)
    qed
  qed
  from wp_result[OF this] show ?thesis by (simp add: run_state_of_def)
qed

lemma run_scenario_contained:
  assumes "s = run_state_of R scenario_id parent w"
  shows "(rs_log s = [CallAcquire False] \<and> fst (run_scenario R scenario_id parent w) \<in> {Inl RO_BUSY, Inl RO_INTERNAL}
      \<or> (\<exists>M. rs_log s = CallAcquire True # M @ [CallRelease] \<and> CallRelease \<notin> set M))
    \<and> deletes_safely (rs_log s)
    \<and> (CallStarted True \<in> set (rs_log s) \<and> CallConfirm True \<notin> set (rs_log s) \<longrightarrow>
         fst (run_scenario R scenario_id parent w) = Inl RO_TERMINATION_UNCONFIRMED
         \<and> (\<forall>deleted. CallCleanup deleted \<notin> set (rs_log s)))"
proof -
  have r: "fst (run_scenario R scenario_id parent w) = respond (rs_pending s)"
    by (simp add: run_scenario_def assms Let_def)
  from run_leaves[of R scenario_id parent w] show ?thesis
    unfolding left_behind_def assms[symmetric]
  proof (elim disjE exE conjE, goal_cases)
    case 1
    then show ?thesis by (auto simp: r respond_def intro: deletes_never)
  next
    case (2 u)
    then obtain M where M: "rs_log u = CallAcquire True # M" "CallRelease \<notin> set M"
      by (cases "rs_log u") (auto simp: finished_def)
    have "deletes_safely (rs_log u @ [CallRelease])"
      unfolding deletes_safely_def
    proof (intro allI impI)
      fix pre d post
      assume e: "rs_log u @ [CallRelease] = pre @ CallCleanup d # post" and st: "CallStarted True \<in> set pre"
      from e obtain post' where "rs_log u = pre @ CallCleanup d # post'" by (cases post rule: rev_cases) auto
      then show "CallConfirm True \<in> set pre" using 2(1) st by (auto simp: finished_def deletes_safely_def)
    qed
    then show ?thesis using 2 M by (auto simp: r respond_def finished_def)
  qed
qed

text \<open>C13. Whatever the world answers, a run that got the lock releases it as its last call and only
  then, and one that did not leaves everything alone; a request root is never deleted while a created
  worker is not confirmed to have ended; and when that never is confirmed, nothing is deleted and the
  error is \<open>termination_unconfirmed\<close>.\<close>

theorem run_scenario_safe:
  assumes "s = run_state_of R scenario_id parent w"
  shows "(rs_log s = [CallAcquire False] \<and> fst (run_scenario R scenario_id parent w) \<in> {Inl RO_BUSY, Inl RO_INTERNAL}
      \<or> (\<exists>M. rs_log s = CallAcquire True # M @ [CallRelease] \<and> CallRelease \<notin> set M))
    \<and> deletes_safely (rs_log s)
    \<and> (CallStarted True \<in> set (rs_log s) \<and> CallConfirm True \<notin> set (rs_log s) \<longrightarrow>
         fst (run_scenario R scenario_id parent w) = Inl RO_TERMINATION_UNCONFIRMED
         \<and> (\<forall>deleted. CallCleanup deleted \<notin> set (rs_log s)))"
  by (rule run_scenario_contained[OF assms])

text \<open>C22. A returned view is the events of a result file of the worker, for the registered scenario, that
  satisfy its contract and end in its expected status; by then the worker was confirmed to have ended
  and the request root was deleted.\<close>

theorem run_scenario_result:
  assumes "s = run_state_of R scenario_id parent w" "fst (run_scenario R scenario_id parent w) = Inr view"
  shows "CallConfirm True \<in> set (rs_log s) \<and> CallCleanup True \<in> set (rs_log s) \<and> CallIsolate \<notin> set (rs_log s)
    \<and> (\<exists>sc raw result. registry_get (rn_registry R) scenario_id = Inr sc
         \<and> py_len raw \<le> RESULT_MAX_BYTES \<and> decode_worker_result raw = Inr result
         \<and> wr_scenario result = sc_id sc \<and> validate_trace (sc_contract sc) (wr_events result) = Inr ()
         \<and> tv_events view = wr_events result \<and> tv_terminal view = sc_terminal sc)"
proof -
  have r: "respond (rs_pending s) = Inr view"
    using assms by (simp add: run_scenario_def Let_def)
  then have p: "rs_pending s = (RO_SUCCESS, Some view)"
    by (cases "rs_pending s") (auto simp: respond_def split: if_splits option.splits)
  then obtain u where u: "finished R scenario_id u" "rs_pending u = (RO_SUCCESS, Some view)"
      "rs_log s = rs_log u @ [CallRelease]"
    using run_leaves[of R scenario_id parent w] assms(1) by (auto simp: left_behind_def)
  then obtain sc raw result where c: "registry_get (rn_registry R) scenario_id = Inr sc"
      "check_worker_result sc raw = Inr result" "view_from_events (wr_events result) = Inr view"
    by (auto simp: finished_def certified_def)
  have v: "validate_trace (sc_contract sc) (wr_events result) = Inr ()" "decode_worker_result raw = Inr result"
    "py_len raw \<le> RESULT_MAX_BYTES" "wr_scenario result = sc_id sc" "tc_terminal (sc_contract sc) = sc_terminal sc"
    using c(2) by (auto simp: check_worker_result_def bind_res_Inr split: if_splits)
  have "view = \<lparr>tv_events = wr_events result, tv_terminal = sc_terminal sc\<rparr>"
    using validated_view[OF v(1)] c(3) v(5) by simp
  then show ?thesis using u c(1) v by (auto simp: finished_def)
qed

definition sample_scenario :: scenario where
  "sample_scenario = \<lparr>sc_id = lit ''demo'', sc_actions = [], sc_template = lit ''t'', sc_description = lit ''d'',
     sc_max_actions = 1, sc_terminal = STOPPED, sc_contract = sample_contract\<rparr>"

definition sample_result :: worker_result where
  "sample_result = \<lparr>wr_scenario = lit ''demo'', wr_events = sample_trace, wr_terminal = STOPPED\<rparr>"

definition sample_bytes :: bytes where
  "sample_bytes = (case encode_result sample_result of Inl _ \<Rightarrow> [] | Inr b \<Rightarrow> b)"

definition sample_service :: "bool \<Rightarrow> (unit, unit) run_deps" where
  "sample_service confirmed =
     \<lparr>rn_acquire = ret True, rn_release = (\<lambda>w. w), rn_registry = [(lit ''demo'', sample_scenario)],
      rn_clock = ret 0, rn_deadline = 60, rn_termination_wait = 5, rn_python = lit ''python'', rn_environment = [],
      rn_windows = False, rn_mkdir_parents = (\<lambda>_. ret ()), rn_uuid4_hex = ret (lit ''ab''),
      rn_create_directory = (\<lambda>_. ret ()), rn_write_config = (\<lambda>_ _. ret ()), rn_start = (\<lambda>_. ret ()),
      rn_process_created = (\<lambda>_. ret True), rn_wait = (\<lambda>_ _. ret (Some 0)), rn_terminate = (\<lambda>_. ret ()),
      rn_wait_root = (\<lambda>_ _. ret True), rn_confirm = (\<lambda>_. ret confirmed), rn_close = (\<lambda>_. ret ()),
      rn_open_read = (\<lambda>_ _. ret sample_bytes), rn_close_file = (\<lambda>w. w), rn_cleanup = (\<lambda>_. ret ()),
      rn_isolate = (\<lambda>_. ret ())\<rparr>"

lemma sample_bytes_length: "py_len sample_bytes \<le> RESULT_MAX_BYTES"
  by code_simp

lemma sample_checked: "check_worker_result sample_scenario sample_bytes = Inr sample_result"
proof -
  have "printable (wr_scenario sample_result)" "list_all event_ok (wr_events sample_result)"
    by code_simp+
  then obtain b where "encode_result sample_result = Inr b" "decode_worker_result b = Inr sample_result"
    by (rule result_decodes)
  then have "decode_worker_result sample_bytes = Inr sample_result" by (simp add: sample_bytes_def)
  moreover have "validate_trace sample_contract sample_trace = Inr ()" by code_simp
  ultimately show ?thesis
    using sample_bytes_length
    by (simp add: check_worker_result_def sample_scenario_def sample_result_def RESULT_MAX_EVENTS_def
        sample_contract_def sample_trace_def)
qed

lemmas run_simps = run_body_def create_request_root_def run_in_root_def watch_worker_def await_worker_def
  collect_result_def settle_worker_def read_worker_result_def run_finally_def finish_worker_def finish_root_def
  release_lock_def terminate_and_confirm_def confirm_def call_def modify_def attempt_def set_pending_def
  prefer_pending_def bind_prog_def prefer_result_def

lemma sample_run:
  "respond (rs_pending (run_state_of (sample_service True) (lit ''demo'') [] ()))
     = Inr \<lparr>tv_events = sample_trace, tv_terminal = STOPPED\<rparr>"
proof -
  have "view_from_events sample_trace = Inr \<lparr>tv_events = sample_trace, tv_terminal = STOPPED\<rparr>" by code_simp
  moreover have "utf8_encode (json_print (config_message (lit ''demo''))) \<noteq> None" by code_simp
  ultimately show ?thesis
    using sample_checked
    by (auto simp: run_state_of_def run_simps initial_state_def sample_service_def registry_contains_def registry_get_def
        numeral_eq_Suc Let_def respond_def sample_result_def sample_scenario_def)
qed

lemma sample_unconfirmed:
  "rs_log (run_state_of (sample_service False) (lit ''demo'') [] ())
     = [CallAcquire True, CallStarted True, CallConfirm False, CallConfirm False, CallConfirm False, CallIsolate,
        CallRelease]"
proof -
  have "utf8_encode (json_print (config_message (lit ''demo''))) \<noteq> None" by code_simp
  then show ?thesis
    by (auto simp: run_state_of_def run_simps initial_state_def sample_service_def registry_contains_def registry_get_def
        numeral_eq_Suc Let_def sample_scenario_def)
qed

theorem run_scenario_safe_witness:
  "fst (run_scenario (sample_service False) (lit ''demo'') [] ()) = Inl RO_TERMINATION_UNCONFIRMED"
  using run_scenario_safe[OF refl, of "sample_service False" "lit ''demo''" "[]" "()"] sample_unconfirmed by simp

theorem run_scenario_result_witness:
  "CallCleanup True \<in> set (rs_log (run_state_of (sample_service True) (lit ''demo'') [] ()))"
  using run_scenario_result[OF refl, of "sample_service True" "lit ''demo''" "[]" "()"
      "\<lparr>tv_events = sample_trace, tv_terminal = STOPPED\<rparr>"] sample_run
  by (simp add: run_scenario_def Let_def)

end
