(* ===== verification/Worker.thy ===== *)
theory Worker
  imports RunService
begin

text \<open>
  \<^verbatim>\<open>web/worker.py\<close>: the isolated worker of one demo scenario, from its two paths to the result file, and
  the typed trace it builds from the history of the finished session. The file system, git, the demo
  runtime and \<open>str.casefold\<close> are parameters. The main theorem says that the run service accepts what
  a worker wrote for a registered scenario.
\<close>

section \<open>The request paths\<close>

text \<open>What \<open>lstat\<close> says of each component of an absolute path, from the root to the leaf.\<close>

datatype component = Missing | Linked | Plain

fun no_links :: "bool \<Rightarrow> component list \<Rightarrow> bool" where
  "no_links allow_missing_leaf [] = True"
| "no_links allow_missing_leaf (c # cs) =
     ((case c of Missing \<Rightarrow> allow_missing_leaf \<and> cs = [] | Linked \<Rightarrow> False | Plain \<Rightarrow> True)
      \<and> no_links allow_missing_leaf cs)"

record path_facts =
  pf_parts :: "pystr list"
  pf_components :: "component list"
  pf_exists :: bool
  pf_resolved_parent :: "pystr list"

definition assert_no_links :: "bool \<Rightarrow> path_facts \<Rightarrow> unit res" where
  "assert_no_links allow_missing_leaf p =
     require (lit ''..'' \<notin> set (pf_parts p) \<and> no_links allow_missing_leaf (pf_components p)) (ValueError [])"

text \<open>The request root is the resolved parent of the configuration.\<close>

definition request_paths :: "path_facts \<Rightarrow> path_facts \<Rightarrow> pystr list res" where
  "request_paths config result =
     (if ok (assert_no_links False config) \<and> ok (assert_no_links True result)
         \<and> pf_parts config \<noteq> [] \<and> last (pf_parts config) = lit ''worker-config.json''
         \<and> pf_parts result \<noteq> [] \<and> last (pf_parts result) = lit ''worker-result.json''
         \<and> butlast (pf_parts config) = butlast (pf_parts result) \<and> \<not> pf_exists result
         \<and> pf_resolved_parent result = pf_resolved_parent config
      then Inr (pf_resolved_parent config) else Inl WorkerError)"

section \<open>The repository\<close>

definition GIT_ENV_ALLOWLIST :: "pystr list" where
  "GIT_ENV_ALLOWLIST = map lit [''PATH'', ''SYSTEMROOT'', ''WINDIR'', ''TEMP'', ''TMP'', ''TMPDIR'', ''LANG'', ''LC_ALL'', ''PATHEXT'']"

definition git_environment :: "pystr \<Rightarrow> (pystr \<times> pystr) list \<Rightarrow> (pystr \<times> pystr) list" where
  "git_environment devnull environ =
     foldl (\<lambda>d (k, v). dict_update k v d)
       (concat (map (\<lambda>key. case map_of environ key of None \<Rightarrow> [] | Some v \<Rightarrow> [(key, v)]) GIT_ENV_ALLOWLIST))
       [(lit ''GIT_CONFIG_COUNT'', lit ''0''), (lit ''GIT_CONFIG_GLOBAL'', devnull),
        (lit ''GIT_CONFIG_NOSYSTEM'', lit ''1''), (lit ''GIT_TERMINAL_PROMPT'', lit ''0''),
        (lit ''GIT_ASKPASS'', devnull), (lit ''SSH_ASKPASS'', devnull)]"

definition git_commands :: "pystr \<Rightarrow> pystr \<Rightarrow> pystr list list" where
  "git_commands template hooks =
     [[lit ''git'', lit ''-c'', lit ''core.hooksPath='' @ hooks, lit ''init'', lit ''--template='' @ template],
      [lit ''git'', lit ''-c'', lit ''core.hooksPath='' @ hooks, lit ''add'', lit ''--all''],
      [lit ''git'', lit ''-c'', lit ''core.hooksPath='' @ hooks, lit ''-c'', lit ''user.name=Coding Agent Harness Demo'',
       lit ''-c'', lit ''user.email=demo@example.invalid'', lit ''commit'', lit ''-m'', lit ''demo baseline'']]"

record ('w) worker_deps =
  wd_read_config :: "('w, bytes option) prog"
  wd_read_json :: "bytes \<Rightarrow> json option"
  wd_registry :: "(pystr \<times> scenario) list"
  wd_repository_exists :: "pystr \<Rightarrow> ('w, bool) prog"
  wd_copy_template :: "pystr \<Rightarrow> pystr \<Rightarrow> ('w, unit) prog"
  wd_mkdir :: "pystr \<Rightarrow> ('w, unit) prog"
  wd_git :: "pystr list \<Rightarrow> (pystr \<times> pystr) list \<Rightarrow> pystr \<Rightarrow> ('w, unit) prog"
  wd_devnull :: pystr
  wd_environ :: "(pystr \<times> pystr) list"
  wd_runtime :: "scenario \<Rightarrow> pystr \<Rightarrow> pystr \<Rightarrow> ('w, task_status \<times> core_session) prog"
  wd_casefold :: "pystr \<Rightarrow> pystr"
  wd_write_result :: "bytes \<Rightarrow> ('w, unit) prog"

text \<open>\<open>except (...): raise WorkerError\<close>: the exceptions file and process calls raise are all caught.\<close>

definition or_worker_error :: "('w, 'a) prog \<Rightarrow> ('w, 'a) prog" where
  "or_worker_error m w = (case m w of (Inl _, v) \<Rightarrow> (Inl WorkerError, v) | (Inr x, v) \<Rightarrow> (Inr x, v))"

fun run_commands :: "'w worker_deps \<Rightarrow> pystr \<Rightarrow> pystr list list \<Rightarrow> ('w, unit) prog" where
  "run_commands W repository [] = ret ()"
| "run_commands W repository (c # cs) =
     bind_prog (wd_git W c (git_environment (wd_devnull W) (wd_environ W)) repository)
       (\<lambda>_. run_commands W repository cs)"

definition initialize_repository :: "'w worker_deps \<Rightarrow> pystr \<Rightarrow> pystr \<Rightarrow> ('w, unit) prog" where
  "initialize_repository W root repository =
     or_worker_error
       (bind_prog (wd_mkdir W (root @ lit ''/git-template'')) (\<lambda>_.
        bind_prog (wd_mkdir W (root @ lit ''/git-hooks'')) (\<lambda>_.
        run_commands W repository (git_commands (root @ lit ''/git-template'') (root @ lit ''/git-hooks'')))))"

definition prepare_repository :: "'w worker_deps \<Rightarrow> pystr \<Rightarrow> pystr \<Rightarrow> pystr \<Rightarrow> ('w, unit) prog" where
  "prepare_repository W root repository template =
     bind_prog (or_worker_error
       (bind_prog (wd_repository_exists W repository) (\<lambda>e.
          if e then raise (ValueError []) else wd_copy_template W template repository))) (\<lambda>_.
     initialize_repository W root repository)"

section \<open>The trace of a session\<close>

definition test_outcome :: "(pystr \<Rightarrow> pystr) \<Rightarrow> pystr \<Rightarrow> test_run_outcome res" where
  "test_outcome casefold safe_result =
     (let result = casefold safe_result
      in if result = lit ''pytest passed'' then Inr RUN_PASSED
         else if result = [] \<or> result = lit ''pytest environment unavailable''
              \<or> result = lit ''pytest output was not reliably parseable''
         then Inl WorkerError else Inr RUN_FAILED)"

definition feedback_code :: "test_run_outcome option \<Rightarrow> test_run_outcome \<Rightarrow> demo_feedback_code" where
  "feedback_code previous out =
     (if previous = None \<and> out = RUN_FAILED then DF_INITIAL_FAILURE
      else if out = RUN_PASSED then DF_PASSED else DF_CHANGED)"

text \<open>The events of one entry, numbered from \<open>n\<close>, and the outcome of the last test.\<close>

definition entry_events ::
    "(pystr \<Rightarrow> pystr) \<Rightarrow> int \<Rightarrow> test_run_outcome option \<Rightarrow> history_entry
       \<Rightarrow> (trace_event list \<times> test_run_outcome option) res" where
  "entry_events casefold n previous e =
     (if he_action_type e = lit ''apply_patch'' then Inr ([ActionSelected DA_APPLY_PATCH n], previous)
      else if he_action_type e = lit ''request_human'' then Inr ([ActionSelected DA_REQUEST_HUMAN n], previous)
      else if he_action_type e = lit ''full_test'' then
        bind_res (test_outcome casefold (he_safe_result e)) (\<lambda>out.
          Inr ([TestCompleted out n, FeedbackProduced (feedback_code previous out) (n + 1)], Some out))
      else if he_action_type e = lit ''policy_deny'' then
        (if he_safe_result e \<noteq> lit (policy_reason_value TEST_ASSET_PROTECTION) then Inl WorkerError
         else Inr ([ActionSelected DA_APPLY_PATCH n, PolicyDecided DENY TEST_ASSET_PROTECTION (n + 1)], previous))
      else Inl WorkerError)"

fun trace_entries ::
    "(pystr \<Rightarrow> pystr) \<Rightarrow> int \<Rightarrow> test_run_outcome option \<Rightarrow> history_entry list \<Rightarrow> trace_event list res" where
  "trace_entries casefold n previous [] = Inr []"
| "trace_entries casefold n previous (e # es) =
     bind_res (entry_events casefold n previous e) (\<lambda>(events, previous').
     bind_res (trace_entries casefold (n + py_len events) previous' es) (\<lambda>rest. Inr (events @ rest)))"

definition build_trace_events :: "(pystr \<Rightarrow> pystr) \<Rightarrow> core_session \<Rightarrow> trace_event list res" where
  "build_trace_events casefold s =
     bind_res (trace_entries casefold 0 None (cs_history s)) (\<lambda>events.
     Inr (events @ [TerminalStatus (cs_status s) (py_len events)]))"

section \<open>One worker run\<close>

text \<open>What is checked after the runtime has returned; every failure is the one \<open>WorkerError\<close>.\<close>

definition conclude :: "(pystr \<Rightarrow> pystr) \<Rightarrow> scenario \<Rightarrow> task_status \<Rightarrow> core_session \<Rightarrow> worker_result res" where
  "conclude casefold sc view_status s =
     bind_res (build_trace_events casefold s) (\<lambda>events.
     bind_res (validate_trace (sc_contract sc) events) (\<lambda>_.
       if view_status \<noteq> cs_status s \<or> view_status \<noteq> sc_terminal sc
          \<or> terminal_status_of (last events) \<noteq> Some view_status
       then Inl WorkerError
       else Inr \<lparr>wr_scenario = sc_id sc, wr_events = events, wr_terminal = view_status\<rparr>))"

definition worker_run :: "'w worker_deps \<Rightarrow> path_facts \<Rightarrow> path_facts \<Rightarrow> (pystr list \<Rightarrow> pystr) \<Rightarrow> ('w, worker_result) prog" where
  "worker_run W config_path result_path as_text =
     bind_prog (lift_res (request_paths config_path result_path)) (\<lambda>root_parts.
     let root = as_text root_parts; repository = root @ lit ''/repository'' in
     bind_prog (wd_read_config W) (\<lambda>content.
     bind_prog (lift_res (read_config (wd_read_json W) content)) (\<lambda>scenario_id.
     bind_prog (lift_res (if registry_contains (wd_registry W) scenario_id then registry_get (wd_registry W) scenario_id
                          else Inl WorkerError)) (\<lambda>sc.
     bind_prog (prepare_repository W root repository (sc_template sc)) (\<lambda>_.
     bind_prog (or_worker_error
        (bind_prog (wd_runtime W sc repository (root @ lit ''/data'')) (\<lambda>(view_status, session).
         lift_res (conclude (wd_casefold W) sc view_status session)))) (\<lambda>result.
     bind_prog (or_worker_error (bind_prog (lift_res (encode_result result)) (wd_write_result W))) (\<lambda>_.
     ret result)))))))"

text \<open>\<open>main\<close>: the exit code.\<close>

definition worker_main :: "'w worker_deps \<Rightarrow> path_facts \<Rightarrow> path_facts \<Rightarrow> (pystr list \<Rightarrow> pystr) \<Rightarrow> 'w \<Rightarrow> int \<times> 'w" where
  "worker_main W config_path result_path as_text w =
     (case worker_run W config_path result_path as_text w of (Inl _, v) \<Rightarrow> (1, v) | (Inr _, v) \<Rightarrow> (0, v))"

section \<open>The service accepts what a worker wrote\<close>

lemma small_digits: "0 \<le> n \<Longrightarrow> n < 100 \<Longrightarrow> length (nat_digits n) \<le> 2"
  by (subst nat_digits.simps, subst nat_digits.simps) auto

lemma validated_events_ok:
  assumes "validate_trace c es = Inr ()" "tc_max_events c \<le> 64"
  shows "list_all event_ok es \<and> py_len es \<le> RESULT_MAX_EVENTS \<and> es \<noteq> []
    \<and> terminal_status_of (last es) = Some (tc_terminal c)"
proof -
  have p: "py_len es \<le> 64" "sequence_from 0 es" using assms by (auto simp only: validate_trace_parts)
  have "event_ok e" if "e \<in> set es" for e
  proof -
    from that obtain k where k: "k < length es" "es ! k = e" by (meson in_set_conv_nth)
    have "map event_sequence es ! k = int k" using p(2) k(1) by (simp add: sequence_from_iff)
    then have "event_sequence e = int k" using k by simp
    moreover have "int k < 100" using p(1) k(1) by (simp add: py_len_def)
    ultimately show ?thesis using small_digits[of "int k"] by (simp add: event_ok_def)
  qed
  moreover obtain t where t: "filter is_terminal_event es = [t]" "is_terminal_event (last es)"
    "terminal_status_of t = Some (tc_terminal c)" using assms(1) by (auto simp only: validate_trace_parts)
  moreover have "last es = t" using single_terminal_last(1)[OF t(1,2)] by (metis last_snoc)
  ultimately show ?thesis using p(1) by (auto simp: list_all_iff RESULT_MAX_EVENTS_def)
qed

lemma registry_scenarios:
  assumes "scenario_registry u pk = Inr reg" "registry_get reg i = Inr sc"
  shows "sc \<in> {feedback_success, governance_denied, human_review_pause}"
  using assms by (auto simp: scenario_registry_def build_default registry_validate_def registry_get_def bind_res_Inr
      split: if_splits dest!: map_of_SomeD)

lemma fixed_scenario_bounds:
  "sc \<in> {feedback_success, governance_denied, human_review_pause} \<Longrightarrow>
     printable (sc_id sc) \<and> tc_max_events (sc_contract sc) \<le> 64"
  by (auto simp: feedback_success_def governance_denied_def human_review_pause_def fixed_scenario_def lit_printable
      feedback_success_contract_def governance_denied_contract_def human_review_pause_contract_def)

lemma or_worker_error_Inr: "or_worker_error m w = (Inr x, v) \<longleftrightarrow> m w = (Inr x, v)"
  by (auto simp: or_worker_error_def split: prod.splits sum.splits)

lemma conclude_checked:
  assumes "conclude casefold sc st s = Inr result" "printable (sc_id sc)" "tc_max_events (sc_contract sc) \<le> 64"
    and "encode_result result = Inr b" "py_len b \<le> RESULT_MAX_BYTES"
  shows "check_worker_result sc b = Inr result \<and> wr_terminal result = cs_status s"
proof -
  have c: "validate_trace (sc_contract sc) (wr_events result) = Inr ()" "wr_scenario result = sc_id sc"
    "wr_terminal result = st" "st = cs_status s" "st = sc_terminal sc"
    "terminal_status_of (last (wr_events result)) = Some st"
    using assms(1) by (auto simp: conclude_def bind_res_Inr split: if_splits)
  note v = validated_events_ok[OF c(1) assms(3)]
  obtain b' where "encode_result result = Inr b'" "decode_worker_result b' = Inr result"
    using result_decodes[of result] assms(2) c(2) v by auto
  then show ?thesis
    using assms(4,5) c v by (auto simp: check_worker_result_def)
qed

text \<open>C21. What a worker writes for the scenario of its configuration, the run service accepts as that
  worker's result: a finished worker run hands its result over unchanged, it is a fixed scenario of
  the registry, its trace satisfies the scenario's contract, and its terminal code is the expected one.\<close>

theorem worker_result_accepted:
  assumes "scenario_registry u pk = Inr (wd_registry W)"
    and "worker_run W config_path result_path as_text w = (Inr result, v)"
    and "encode_result result = Inr b" "py_len b \<le> RESULT_MAX_BYTES"
  shows "\<exists>sc \<in> {feedback_success, governance_denied, human_review_pause}.
    check_worker_result sc b = Inr result \<and> wr_scenario result = sc_id sc \<and> wr_terminal result = sc_terminal sc
    \<and> validate_trace (sc_contract sc) (wr_events result) = Inr ()
    \<and> view_from_events (wr_events result) = Inr \<lparr>tv_events = wr_events result, tv_terminal = tc_terminal (sc_contract sc)\<rparr>"
proof -
  from assms(2) obtain i sc st s where sc: "registry_get (wd_registry W) i = Inr sc"
      and c: "conclude (wd_casefold W) sc st s = Inr result"
    by (auto simp: worker_run_def Let_def bind_prog_Inr or_worker_error_Inr split: if_splits)
  have fixed: "sc \<in> {feedback_success, governance_denied, human_review_pause}"
    using registry_scenarios[OF assms(1) sc] .
  have "check_worker_result sc b = Inr result"
    using conclude_checked[OF c _ _ assms(3,4)] fixed_scenario_bounds[OF fixed] by blast
  moreover have "validate_trace (sc_contract sc) (wr_events result) = Inr ()" "wr_scenario result = sc_id sc"
    "wr_terminal result = sc_terminal sc"
    using c by (auto simp: conclude_def bind_res_Inr split: if_splits)
  ultimately show ?thesis using fixed validated_view by (intro bexI[of _ sc]) auto
qed

definition sample_registry :: "(pystr \<times> scenario) list" where
  "sample_registry = map (\<lambda>c. (sc_id c, c)) [feedback_success, governance_denied, human_review_pause]"

lemma sample_registry_built: "scenario_registry ascii_tables sample_package = Inr sample_registry"
proof -
  have "list_all (\<lambda>i. ok (resolve_repository_template sample_package i)) fixed_scenario_ids" by code_simp
  then obtain a b c where "resolve_repository_template sample_package (lit ''feedback_success'') = Inr a"
    "resolve_repository_template sample_package (lit ''governance_denied'') = Inr b"
    "resolve_repository_template sample_package (lit ''human_review_pause'') = Inr c"
    by (auto simp: fixed_scenario_ids_def ok_def split: sum.splits)
  then show ?thesis
    by (simp add: scenario_registry_def build_default registry_validate_def sample_registry_def
        feedback_success_def governance_denied_def human_review_pause_def fixed_scenario_def
        feedback_success_contract_def governance_denied_contract_def human_review_pause_contract_def fixed_scenario_ids_def)
      auto
qed

definition denied_session :: core_session where
  "denied_session =
     \<lparr>cs_task_id = TaskId sample_uuid, cs_user_task = [], cs_config_summary = [], cs_workspace_summary = [],
      cs_status = STOPPED,
      cs_history = [\<lparr>he_action_type = lit ''policy_deny'', he_safe_result = lit ''test_asset_protection''\<rparr>],
      cs_previous_result = None, cs_result_history = [], cs_feedback_summary = None, cs_action_count = 1,
      cs_feedback_count = 0\<rparr>"

definition denied_result :: worker_result where
  "denied_result =
     \<lparr>wr_scenario = lit ''governance_denied'',
      wr_events = [ActionSelected DA_APPLY_PATCH 0, PolicyDecided DENY TEST_ASSET_PROTECTION 1, TerminalStatus STOPPED 2],
      wr_terminal = STOPPED\<rparr>"

definition sample_worker :: "unit worker_deps" where
  "sample_worker =
     \<lparr>wd_read_config = ret (Some []), wd_read_json = (\<lambda>_. Some (config_message (lit ''governance_denied''))),
      wd_registry = sample_registry, wd_repository_exists = (\<lambda>_. ret False), wd_copy_template = (\<lambda>_ _. ret ()),
      wd_mkdir = (\<lambda>_. ret ()), wd_git = (\<lambda>_ _ _. ret ()), wd_devnull = lit ''/dev/null'', wd_environ = [],
      wd_runtime = (\<lambda>_ _ _. ret (STOPPED, denied_session)), wd_casefold = (\<lambda>s. s), wd_write_result = (\<lambda>_. ret ())\<rparr>"

definition sample_path :: "string \<Rightarrow> path_facts" where
  "sample_path name = \<lparr>pf_parts = [lit ''r'', lit name], pf_components = [Plain, Plain], pf_exists = False,
     pf_resolved_parent = [lit ''r'']\<rparr>"

lemma denied_concluded: "conclude (\<lambda>s. s) governance_denied STOPPED denied_session = Inr denied_result"
  by code_simp

lemma sample_worker_run:
  assumes "encode_result denied_result = Inr b"
  shows "worker_run sample_worker (sample_path ''worker-config.json'') (sample_path ''worker-result.json'') concat ()
    = (Inr denied_result, ())"
proof -
  have "request_paths (sample_path ''worker-config.json'') (sample_path ''worker-result.json'') = Inr [lit ''r'']"
    "read_config (wd_read_json sample_worker) (Some []) = Inr (lit ''governance_denied'')"
    "registry_contains sample_registry (lit ''governance_denied'')"
    by code_simp+
  moreover have "registry_get sample_registry (lit ''governance_denied'') = Inr governance_denied"
    by (simp add: registry_get_def sample_registry_def feedback_success_def governance_denied_def human_review_pause_def
        fixed_scenario_def)
  ultimately show ?thesis
    using assms denied_concluded
    by (simp add: worker_run_def sample_worker_def Let_def prepare_repository_def initialize_repository_def
        git_commands_def bind_prog_def or_worker_error_def lift_res_def)
qed

theorem worker_result_accepted_witness:
  "\<exists>b. encode_result denied_result = Inr b \<and> (\<exists>sc. check_worker_result sc b = Inr denied_result \<and> sc_terminal sc = STOPPED)"
proof -
  have "case encode_result denied_result of Inl _ \<Rightarrow> False | Inr b \<Rightarrow> py_len b \<le> RESULT_MAX_BYTES" by code_simp
  then obtain b where b: "encode_result denied_result = Inr b" "py_len b \<le> RESULT_MAX_BYTES"
    by (auto split: sum.splits)
  have "scenario_registry ascii_tables sample_package = Inr (wd_registry sample_worker)"
    using sample_registry_built by (simp add: sample_worker_def)
  from worker_result_accepted[OF this sample_worker_run[OF b(1)] b] b(1) show ?thesis
    by (auto simp: denied_result_def)
qed

end
