(* ===== verification/FileSystem.thy ===== *)
theory FileSystem
  imports Actions "HOL-Library.List_Lexorder" "HOL-Library.Product_Lexorder"
begin

text \<open>
  \<^verbatim>\<open>security/paths.py\<close>, \<^verbatim>\<open>adapters/filesystem/local_filesystem.py\<close> and
  \<^verbatim>\<open>domain/tool_payloads.py\<close>: the path guard and the three read-only file tools over the
  tree below the workspace root. The main theorem says that listing and reading stay inside that
  tree, off symbolic links and sensitive names; the last lemmas show that searching does not.
\<close>

section \<open>The tree\<close>

text \<open>
  The entries below the root, by their components. A link carries the content of the regular file it
  leads to, wherever that is, and \<open>None\<close> when it leads to a directory or nowhere. An entry below a
  linked directory is not an entry of the tree: \<open>rglob\<close> does not descend into links.
\<close>

datatype node = FileNode bytes | DirNode | LinkNode "bytes option"

type_synonym tree = "(pystr list \<times> node) list"

definition node_at :: "tree \<Rightarrow> pystr list \<Rightarrow> node option" where
  "node_at t p = (if p = [] then Some DirNode else map_of t p)"

definition is_link_at :: "tree \<Rightarrow> pystr list \<Rightarrow> bool" where
  "is_link_at t p \<longleftrightarrow> (case node_at t p of Some (LinkNode _) \<Rightarrow> True | _ \<Rightarrow> False)"

definition is_dir_at :: "tree \<Rightarrow> pystr list \<Rightarrow> bool" where
  "is_dir_at t p \<longleftrightarrow> node_at t p = Some DirNode"

text \<open>\<open>is_file\<close> and \<open>read_bytes\<close> follow a link.\<close>

fun node_bytes :: "node \<Rightarrow> bytes option" where
  "node_bytes (FileNode b) = Some b"
| "node_bytes DirNode = None"
| "node_bytes (LinkNode b) = b"

definition posix :: "pystr list \<Rightarrow> pystr" where
  "posix p = join [47] p"

definition below :: "pystr list \<Rightarrow> pystr list \<Rightarrow> bool" where
  "below d p \<longleftrightarrow> length d < length p \<and> starts_with d p"

text \<open>\<open>glob("*")\<close> and \<open>rglob("*")\<close> of a directory: its entries, or everything below it.\<close>

definition globbed :: "bool \<Rightarrow> tree \<Rightarrow> pystr list \<Rightarrow> (pystr list \<times> node) list" where
  "globbed recursive t d =
     filter (\<lambda>(p, _). below d p \<and> (recursive \<or> length p = Suc (length d))) t"

section \<open>The path guard\<close>

text \<open>\<open>fnmatch.fnmatch\<close> for patterns whose only special character is the star.\<close>

fun glob_match :: "pystr \<Rightarrow> pystr \<Rightarrow> bool" where
  "glob_match [] s = (s = [])"
| "glob_match (c # cs) [] = (c = 42 \<and> glob_match cs [])"
| "glob_match (c # cs) (x # xs) =
     (if c = 42 then glob_match cs (x # xs) \<or> glob_match (c # cs) xs
      else c = x \<and> glob_match cs xs)"

definition SENSITIVE :: "pystr list" where
  "SENSITIVE = map lit [''.env'', ''.env.*'', ''id_rsa'', ''id_ed25519'', ''*.pem'', ''*.key'', ''harness-data/**'']"

definition sensitive_name :: "pystr list \<Rightarrow> bool" where
  "sensitive_name parts \<longleftrightarrow>
     list_ex (\<lambda>pattern. glob_match pattern (posix parts) \<or> glob_match pattern (last parts)) SENSITIVE"

definition normalize_relative_path :: "pystr \<Rightarrow> pystr res" where
  "normalize_relative_path value =
     (if 0 \<in> set value then Inl (ValueError ''invalid path'')
      else if value = [] \<or> value = lit ''.'' then Inr []
      else if starts_with [47] value \<or> starts_with [92] value
        \<or> 2 \<le> py_len value \<and> value ! 1 = 58 \<or> starts_with [47, 47] value
      then Inl (ValueError ''absolute path rejected'')
      else let parts = split_char 47 (replace [92] [47] value) in
        if list_ex (\<lambda>part. part \<in> {[], lit ''.'', lit ''..''}) parts
        then Inl (ValueError ''path traversal rejected'')
        else if sensitive_name parts then Inl (ValueError ''sensitive path rejected'')
        else Inr (posix parts))"

text \<open>The components of a guarded path. \<open>current / component\<close> is tested one prefix after another. With no
  link among them the path resolves to itself, below the root, so the test that follows the loop holds.\<close>

definition components :: "pystr \<Rightarrow> pystr list" where
  "components relative = (if relative = [] then [] else split_char 47 relative)"

fun no_link_below :: "tree \<Rightarrow> pystr list \<Rightarrow> pystr list \<Rightarrow> bool" where
  "no_link_below t current [] = True"
| "no_link_below t current (c # cs) =
     (\<not> is_link_at t (current @ [c]) \<and> no_link_below t (current @ [c]) cs)"

definition resolve_guarded_path :: "tree \<Rightarrow> pystr \<Rightarrow> pystr list res" where
  "resolve_guarded_path t value =
     bind_res (normalize_relative_path value) (\<lambda>relative.
       if no_link_below t [] (components relative) then Inr (components relative)
       else Inl (ValueError ''symlink component rejected''))"

section \<open>Payloads\<close>

record search_match =
  sm_path :: pystr
  sm_line :: int
  sm_column :: int
  sm_text :: pystr

datatype tool_payload =
    ListFilesPayload "pystr list"
  | ReadFilePayload pystr bool "int option"
  | SearchCodePayload "search_match list" bool
  | GitStatusPayload "pystr list"
  | GitDiffPayload pystr bool
  | DiagnosticPayload pystr int pystr

section \<open>The tools\<close>

text \<open>
  The file system the adapter reads: its tree, \<open>str.lower\<close>, and the texts of the exceptions that the
  code passes on: opening a path that is no regular file, and decoding bytes that are not UTF-8.
\<close>

record file_env =
  fe_tree :: tree
  fe_lower :: "pystr \<Rightarrow> pystr"
  fe_open_error :: "pystr list \<Rightarrow> pystr"
  fe_decode_error :: "bytes \<Rightarrow> pystr"

definition tool_ok :: "'p \<Rightarrow> 'p tool_result res" where
  "tool_ok p = check_tool_result \<lparr>tr_ok = True, tr_payload = Some p, tr_error_code = None, tr_message = None\<rparr>"

definition tool_error :: "tool_error_code \<Rightarrow> pystr \<Rightarrow> 'p tool_result res" where
  "tool_error code message =
     check_tool_result \<lparr>tr_ok = False, tr_payload = None, tr_error_code = Some code, tr_message = Some message\<rparr>"

text \<open>The \<open>except\<close> clause around every tool: a rejected path becomes a failed result.\<close>

definition guarded :: "file_env \<Rightarrow> pystr \<Rightarrow> (pystr list \<Rightarrow> 'p tool_result res) \<Rightarrow> 'p tool_result res" where
  "guarded E value k =
     (case resolve_guarded_path (fe_tree E) value of
        Inr p \<Rightarrow> k p
      | Inl (ValueError m) \<Rightarrow> tool_error SAFETY_VIOLATION (lit m)
      | Inl e \<Rightarrow> Inl e)"

definition list_files :: "file_env \<Rightarrow> pystr \<Rightarrow> bool \<Rightarrow> tool_payload tool_result res" where
  "list_files E value recursive = guarded E value (\<lambda>d.
     if \<not> is_dir_at (fe_tree E) d then tool_error NOT_FOUND (lit ''directory not found'')
     else
       (case map_res (\<lambda>(p, _). bind_res (resolve_guarded_path (fe_tree E) (posix p)) (\<lambda>_. Inr (posix p)))
               (filter (\<lambda>(_, n). node_bytes n \<noteq> None) (globbed recursive (fe_tree E) d)) of
          Inr files \<Rightarrow> tool_ok (ListFilesPayload (sort files))
        | Inl (ValueError m) \<Rightarrow> tool_error SAFETY_VIOLATION (lit m)
        | Inl e \<Rightarrow> Inl e))"

definition READ_LIMIT :: nat where
  "READ_LIMIT = 512 * 1024"

definition newlines :: "pystr \<Rightarrow> int" where
  "newlines s = int (count_list s 10)"

text \<open>The selected lines; a text decoded from bytes always encodes again.\<close>

definition read_lines :: "pystr \<Rightarrow> int \<Rightarrow> tool_payload tool_result res" where
  "read_lines selected start_line =
     (case utf8_encode selected of
        None \<Rightarrow> Inl UnicodeError
      | Some b \<Rightarrow>
          if READ_LIMIT < length b
          then let s = utf8_ignore (take READ_LIMIT b) in
            tool_ok (ReadFilePayload s True (Some (start_line + newlines s)))
          else tool_ok (ReadFilePayload selected False None))"

definition line_slice :: "pystr list \<Rightarrow> int \<Rightarrow> int option \<Rightarrow> pystr list" where
  "line_slice ls start_line end_line =
     drop (nat (start_line - 1)) (case end_line of None \<Rightarrow> ls | Some e \<Rightarrow> take (nat e) ls)"

definition read_bytes :: "file_env \<Rightarrow> int option \<Rightarrow> int option \<Rightarrow> bytes \<Rightarrow> tool_payload tool_result res" where
  "read_bytes E start_line end_line content =
     (let data = take (READ_LIMIT + 1) content in
      if 0 \<in> set (take 8192 data) then tool_error UNSUPPORTED (lit ''binary file rejected'')
      else case utf8_decode data of
        None \<Rightarrow> tool_error SAFETY_VIOLATION (fe_decode_error E data)
      | Some s \<Rightarrow>
          (case start_line of
             Some a \<Rightarrow>
               let selected = concat (line_slice (splitlines_keep s) a end_line) in
               read_lines selected a
           | None \<Rightarrow>
               let truncated = READ_LIMIT < length data;
                   s = (if truncated then utf8_ignore (take READ_LIMIT data) else s)
               in tool_ok (ReadFilePayload s truncated (if truncated then Some (newlines s + 1) else None))))"

definition read_file :: "file_env \<Rightarrow> pystr \<Rightarrow> int option \<Rightarrow> int option \<Rightarrow> tool_payload tool_result res" where
  "read_file E value start_line end_line = guarded E value (\<lambda>p.
     case node_at (fe_tree E) p of
       Some (FileNode content) \<Rightarrow> read_bytes E start_line end_line content
     | _ \<Rightarrow> tool_error SAFETY_VIOLATION (fe_open_error E p))"

section \<open>Searching\<close>

text \<open>Text mode reads every line end as a newline; \<open>splitlines\<close> drops the line ends.\<close>

fun universal_newlines :: "pystr \<Rightarrow> pystr" where
  "universal_newlines (c # d # cs) =
     (if c = 13 \<and> d = 10 then 10 # universal_newlines cs
      else (if c = 13 then 10 else c) # universal_newlines (d # cs))"
| "universal_newlines [c] = [if c = 13 then 10 else c]"
| "universal_newlines [] = []"

definition chop_break :: "pystr \<Rightarrow> pystr" where
  "chop_break l =
     (if ends_with [13, 10] l then butlast (butlast l)
      else if l \<noteq> [] \<and> is_linebreak (last l) then butlast l else l)"

definition splitlines :: "pystr \<Rightarrow> pystr list" where
  "splitlines s = map chop_break (splitlines_keep s)"

text \<open>\<open>haystack.index(needle) + 1\<close>, for a needle that occurs.\<close>

definition column_of :: "pystr \<Rightarrow> pystr \<Rightarrow> int" where
  "column_of needle haystack =
     (case split_at needle haystack of Some (u, _) \<Rightarrow> py_len u + 1 | None \<Rightarrow> 1)"

definition match_line :: "(pystr \<Rightarrow> pystr) \<Rightarrow> pystr \<Rightarrow> bool \<Rightarrow> pystr \<Rightarrow> nat \<times> pystr \<Rightarrow> search_match list" where
  "match_line low query case_sensitive rel nl =
     (case nl of (number, line) \<Rightarrow>
      let haystack = (if case_sensitive then line else low line);
          needle = (if case_sensitive then query else low query)
      in if contains needle haystack
         then [\<lparr>sm_path = rel, sm_line = int number, sm_column = column_of needle haystack, sm_text = line\<rparr>]
         else [])"

definition match_file :: "file_env \<Rightarrow> pystr \<Rightarrow> bool \<Rightarrow> pystr list \<times> node \<Rightarrow> search_match list" where
  "match_file E query case_sensitive pn =
     (case Option.bind (node_bytes (snd pn)) utf8_decode of
        None \<Rightarrow> []
      | Some s \<Rightarrow> concat (map (match_line (fe_lower E) query case_sensitive (posix (fst pn)))
          (enumerate 1 (splitlines (universal_newlines s)))))"

text \<open>The files below the path, in the order of their names; the loops end at the 200th match.\<close>

definition search_paths :: "tree \<Rightarrow> pystr list \<Rightarrow> (pystr list \<times> node) list" where
  "search_paths t p =
     (case node_at t p of
        Some (FileNode b) \<Rightarrow> [(p, FileNode b)]
      | _ \<Rightarrow> sort_key (\<lambda>(q, _). posix q) (globbed True t p))"

definition search_code :: "file_env \<Rightarrow> pystr \<Rightarrow> pystr \<Rightarrow> bool \<Rightarrow> tool_payload tool_result res" where
  "search_code E value query case_sensitive = guarded E value (\<lambda>p.
     let matches = take 200 (concat (map (match_file E query case_sensitive) (search_paths (fe_tree E) p)));
         matches = sort_key (\<lambda>m. (sm_path m, sm_line m, sm_column m)) matches
     in tool_ok (SearchCodePayload matches (200 \<le> length matches)))"

fun file_execute :: "file_env \<Rightarrow> action \<Rightarrow> tool_payload tool_result res" where
  "file_execute E (ListFiles value recursive) = list_files E value recursive"
| "file_execute E (ReadFile value start_line end_line) = read_file E value start_line end_line"
| "file_execute E (SearchCode value query case_sensitive) = search_code E value query case_sensitive"
| "file_execute E _ = tool_error UNSUPPORTED (lit ''unsupported file action'')"


section \<open>What listing and reading reach\<close>

text \<open>A tree of a file system: one entry per path, and names that are components. Names with a
  backslash, which POSIX allows, are excluded: the guard reads them as two components.\<close>

definition name_ok :: "pystr \<Rightarrow> bool" where
  "name_ok c \<longleftrightarrow> c \<noteq> [] \<and> c \<noteq> lit ''.'' \<and> 47 \<notin> set c \<and> 92 \<notin> set c"

definition tree_ok :: "tree \<Rightarrow> bool" where
  "tree_ok t \<longleftrightarrow> distinct (map fst t) \<and> list_all (\<lambda>(p, _). p \<noteq> [] \<and> list_all name_ok p) t"

text \<open>A regular file below the root, reached through no link, with no name that the guard refuses.\<close>

definition plain_file :: "tree \<Rightarrow> pystr list \<Rightarrow> bytes \<Rightarrow> bool" where
  "plain_file t p b \<longleftrightarrow>
     map_of t p = Some (FileNode b) \<and> (\<forall>k \<le> length p. \<not> is_link_at t (take k p))
     \<and> \<not> sensitive_name p \<and> lit ''..'' \<notin> set p"

lemma no_link_below_iff:
  "no_link_below t cur cs \<longleftrightarrow> (\<forall>k. 0 < k \<and> k \<le> length cs \<longrightarrow> \<not> is_link_at t (cur @ take k cs))"
proof (induction cs arbitrary: cur)
  case (Cons c cs)
  show ?case
    unfolding no_link_below.simps Cons.IH
    by (auto simp: gr0_conv_Suc take_Suc_Cons; metis Suc_le_mono take_Suc_Cons append_Cons append_Nil append_assoc not0_implies_Suc take0)
qed simp

lemma path_replace_absent: "a \<notin> set s \<Longrightarrow> replace [a] b s = s"
proof -
  assume "a \<notin> set s"
  then have "split_at [a] s = None"
    by (induction s) (auto simp: starts_with_def)
  then show ?thesis by (simp add: replace_def split_str.simps)
qed

lemma normalize_relative_path_Inr:
  assumes "normalize_relative_path v = Inr r" "r \<noteq> []"
  shows "\<exists>ps. r = posix ps \<and> components r = ps \<and> ps \<noteq> [] \<and> \<not> sensitive_name ps \<and> lit ''..'' \<notin> set ps
    \<and> ps = split_char 47 (replace [92] [47] v)"
proof -
  let ?ps = "split_char 47 (replace [92] [47] v)"
  have "r = posix ?ps" "\<not> sensitive_name ?ps" "\<not> list_ex (\<lambda>p. p \<in> {[], lit ''.'', lit ''..''}) ?ps"
    using assms by (auto simp: normalize_relative_path_def Let_def split: if_splits)
  then show ?thesis using assms(2) split_char_no_sep
    by (auto simp: components_def posix_def list_ex_iff)
qed

lemma resolve_guarded_path_Inr:
  assumes "resolve_guarded_path t v = Inr p"
  shows "\<forall>k \<le> length p. \<not> is_link_at t (take k p)"
    and "p \<noteq> [] \<Longrightarrow> \<not> sensitive_name p \<and> lit ''..'' \<notin> set p \<and> p = split_char 47 (replace [92] [47] v)"
proof -
  obtain r where r: "normalize_relative_path v = Inr r" "no_link_below t [] p" "p = components r"
    using assms unfolding resolve_guarded_path_def
    by (cases "normalize_relative_path v") (auto split: if_splits)
  show "\<forall>k \<le> length p. \<not> is_link_at t (take k p)"
  proof (intro allI impI)
    fix k assume k: "k \<le> length p"
    show "\<not> is_link_at t (take k p)"
    proof (cases k)
      case 0
      then show ?thesis by (simp add: is_link_at_def node_at_def)
    next
      case (Suc n)
      then show ?thesis using r(2) k unfolding no_link_below_iff by auto
    qed
  qed
  show "p \<noteq> [] \<Longrightarrow> \<not> sensitive_name p \<and> lit ''..'' \<notin> set p \<and> p = split_char 47 (replace [92] [47] v)"
    using normalize_relative_path_Inr[OF r(1)] r(3) by (cases "r = []") (auto simp: components_def)
qed

lemma guardedE:
  assumes "guarded E v k = Inr r" "tr_payload r = Some pl"
  obtains p where "resolve_guarded_path (fe_tree E) v = Inr p" "k p = Inr r"
proof (cases "resolve_guarded_path (fe_tree E) v")
  case (Inl e)
  then show ?thesis using assms
    by (cases e) (auto simp: guarded_def tool_error_def check_tool_result_def bind_res_Inr split: option.splits)
next
  case (Inr p)
  then show ?thesis using assms(1) that by (simp add: guarded_def)
qed

lemma tool_okE:
  assumes "tool_ok x = Inr r"
  shows "tr_payload r = Some x \<and> tr_ok r"
  using assms by (auto simp: tool_ok_def check_tool_result_def)

lemma tool_errorE:
  assumes "tool_error c m = Inr r"
  shows "tr_payload r = None"
  using assms by (auto simp: tool_error_def check_tool_result_def bind_res_Inr split: if_splits)

lemma components_posix:
  assumes "list_all name_ok p" "p \<noteq> []"
  shows "split_char 47 (replace [92] [47] (posix p)) = p"
proof -
  have "92 \<notin> set (posix p)"
    using assms(1) unfolding posix_def by (induction "[47::int]" p rule: join.induct) (auto simp: name_ok_def)
  then have "replace [92] [47] (posix p) = posix p" by (rule path_replace_absent)
  then show ?thesis
    using assms split_join[of p 47] by (auto simp: posix_def list_all_iff name_ok_def)
qed

lemma map_res_in:
  assumes "map_res f xs = Inr ys" "y \<in> set ys"
  shows "\<exists>x \<in> set xs. f x = Inr y"
  using assms
proof (induction xs arbitrary: ys)
  case (Cons x xs)
  then show ?case by (cases "f x"; cases "map_res f xs") auto
qed simp

lemma guarded_posix:
  assumes "list_all name_ok p" "p \<noteq> []" "resolve_guarded_path t (posix p) = Inr q"
  shows "q = p"
proof -
  obtain r where r: "normalize_relative_path (posix p) = Inr r" "q = components r"
    using assms(3) unfolding resolve_guarded_path_def
    by (cases "normalize_relative_path (posix p)") (auto split: if_splits)
  have s: "split_char 47 (posix p) = p"
    using assms(1,2) split_join[of p 47] by (auto simp: posix_def list_all_iff name_ok_def)
  then have "posix p \<noteq> []" "posix p \<noteq> lit ''.''"
    using assms(1) by (auto simp: name_ok_def lit_def)
  then have "r = posix p"
    using r(1) components_posix[OF assms(1,2)]
    by (auto simp: normalize_relative_path_def Let_def split: if_splits)
  then show ?thesis using r(2) s \<open>posix p \<noteq> []\<close> by (simp add: components_def)
qed

lemma listed_files:
  assumes "list_files E v rec = Inr r" "tr_payload r = Some pl" "tree_ok (fe_tree E)"
  shows "\<exists>fs. pl = ListFilesPayload fs \<and> (\<forall>f \<in> set fs. \<exists>p b. f = posix p \<and> plain_file (fe_tree E) p b)"
proof -
  let ?t = "fe_tree E"
  obtain d where d: "resolve_guarded_path ?t v = Inr d"
    and L: "(if \<not> is_dir_at ?t d then tool_error NOT_FOUND (lit ''directory not found'')
     else
       (case map_res (\<lambda>(p, _). bind_res (resolve_guarded_path ?t (posix p)) (\<lambda>_. Inr (posix p)))
               (filter (\<lambda>(_, n). node_bytes n \<noteq> None) (globbed rec ?t d)) of
          Inr files \<Rightarrow> tool_ok (ListFilesPayload (sort files))
        | Inl (ValueError m) \<Rightarrow> tool_error SAFETY_VIOLATION (lit m)
        | Inl e \<Rightarrow> Inl e)) = Inr r"
    using guardedE[OF assms(1)[unfolded list_files_def] assms(2)] by blast
  let ?ns = "filter (\<lambda>(_, n). node_bytes n \<noteq> None) (globbed rec ?t d)"
  let ?g = "\<lambda>(p, _). bind_res (resolve_guarded_path ?t (posix p)) (\<lambda>_. Inr (posix p))"
  obtain files where files: "map_res ?g ?ns = Inr files" "pl = ListFilesPayload (sort files)"
    using L assms(2) by (auto split: if_splits sum.splits exn.splits dest!: tool_errorE tool_okE)
  have "\<exists>p b. f = posix p \<and> plain_file ?t p b" if f: "f \<in> set files" for f
  proof -
  obtain p n where p: "(p, n) \<in> set ?t" "node_bytes n \<noteq> None" "?g (p, n) = Inr f"
    using map_res_in[OF files(1) f] by (auto simp: globbed_def)
  then obtain q where q: "resolve_guarded_path ?t (posix p) = Inr q" "f = posix p"
    by (cases "resolve_guarded_path ?t (posix p)") auto
  have ok: "list_all name_ok p" "p \<noteq> []" "map_of ?t p = Some n"
    using assms(3) p(1) by (auto simp: tree_ok_def list_all_iff)
  note R = resolve_guarded_path_Inr[OF q(1)[unfolded guarded_posix[OF ok(1,2) q(1)]]]
  have "\<not> is_link_at ?t p" using R(1) by (metis order_refl take_all)
  then obtain b where "n = FileNode b"
    using p(2) ok by (cases n) (auto simp: is_link_at_def node_at_def)
  then have "plain_file ?t p b"
    using ok R by (auto simp: plain_file_def)
  then show ?thesis using q(2) by blast
  qed
  then show ?thesis using files(2) by auto
qed

text \<open>Of a file's bytes the tool shows a run of whole characters.\<close>

definition shown_of :: "bytes \<Rightarrow> pystr \<Rightarrow> bool" where
  "shown_of b s \<longleftrightarrow> (\<exists>u e v. utf8_encode s = Some e \<and> b = u @ e @ v \<and> length e \<le> READ_LIMIT)"

lemma encode_appendE:
  assumes "utf8_encode (s @ t) = Some b"
  obtains c d where "utf8_encode s = Some c" "utf8_encode t = Some d" "b = c @ d"
  using assms by (auto simp: utf8_encode_append split: option.splits)

lemma cut_shown:
  assumes "utf8_encode s = Some e" "b = u @ e @ v"
  shows "shown_of b (utf8_ignore (take READ_LIMIT e))"
proof -
  obtain t w c where t: "s = t @ w" "utf8_ignore (take READ_LIMIT e) = t" "utf8_encode t = Some c"
    "length c \<le> READ_LIMIT"
    using utf8_ignore_take[OF assms(1), of READ_LIMIT] by blast
  with assms(1) obtain d where "e = c @ d" by (metis encode_appendE option.inject)
  then show ?thesis using t assms(2) unfolding shown_of_def by (metis append.assoc)
qed

lemma slice_of:
  "\<exists>u v. concat ls = u @ concat (line_slice ls a e) @ v"
proof -
  let ?t = "case e of None \<Rightarrow> ls | Some e \<Rightarrow> take (nat e) ls"
  have "\<exists>r. ls = ?t @ r" by (cases e) (auto intro: append_take_drop_id[symmetric])
  then obtain r where r: "ls = ?t @ r" ..
  have "concat ls = concat (take (nat (a - 1)) ?t) @ concat (line_slice ls a e) @ concat r"
    unfolding line_slice_def by (metis append.assoc append_take_drop_id concat_append r)
  then show ?thesis by blast
qed

lemma read_shown:
  assumes "read_bytes E a e b = Inr r" "tr_payload r = Some (ReadFilePayload s tr nx)"
  shows "shown_of b s \<and> (a = None \<longrightarrow> (tr \<longleftrightarrow> READ_LIMIT < length b) \<and> (\<not> tr \<longrightarrow> utf8_encode s = Some b))"
proof -
  let ?d = "take (READ_LIMIT + 1) b"
  obtain w where w: "utf8_decode ?d = Some w"
    using assms by (auto simp: read_bytes_def Let_def split: if_splits option.splits dest!: tool_errorE)
  note W = utf8_encode_decode[OF w]
  have b: "b = [] @ ?d @ drop (READ_LIMIT + 1) b" by simp
  show ?thesis
  proof (cases a)
    case None
    then have s: "s = (if READ_LIMIT < length ?d then utf8_ignore (take READ_LIMIT ?d) else w)"
      "tr \<longleftrightarrow> READ_LIMIT < length ?d"
      using assms w by (auto simp: read_bytes_def Let_def split: if_splits dest!: tool_errorE tool_okE)
    show ?thesis
    proof (cases "READ_LIMIT < length ?d")
      case True
      then show ?thesis using s cut_shown[OF W b] by auto
    next
      case False
      then have "length b \<le> READ_LIMIT" by auto
      then show ?thesis using s False W unfolding shown_of_def by (auto intro!: exI[of _ "[]"])
    qed
  next
    case (Some n)
    let ?s = "concat (line_slice (splitlines_keep w) n e)"
    obtain u v where uv: "w = u @ ?s @ v"
      using slice_of[of "splitlines_keep w" n e] by auto
    obtain p q c where c: "utf8_encode ?s = Some c" "?d = p @ c @ q"
      using W uv by (metis encode_appendE)
    then have bc: "b = p @ c @ (q @ drop (READ_LIMIT + 1) b)"
      using b by (metis append.assoc append_Nil)
    have "read_lines ?s n = Inr r"
      using assms w Some by (auto simp: read_bytes_def Let_def split: if_splits dest!: tool_errorE)
    then have "s = (if READ_LIMIT < length c then utf8_ignore (take READ_LIMIT c) else ?s)"
      using assms(2) c(1) by (auto simp: read_lines_def Let_def split: if_splits dest!: tool_okE)
    then have "shown_of b s"
      using cut_shown[OF c(1) bc] c(1) bc unfolding shown_of_def by (auto split: if_splits)
    then show ?thesis using Some by simp
  qed
qed

lemma read_confined:
  assumes "read_file E v n e = Inr r" "tr_payload r = Some pl"
  shows "\<exists>p b s tr nx. pl = ReadFilePayload s tr nx \<and> p = split_char 47 (replace [92] [47] v)
    \<and> plain_file (fe_tree E) p b \<and> shown_of b s
    \<and> (n = None \<longrightarrow> (tr \<longleftrightarrow> READ_LIMIT < length b) \<and> (\<not> tr \<longrightarrow> utf8_encode s = Some b))"
proof -
  obtain p where p: "resolve_guarded_path (fe_tree E) v = Inr p"
    and k: "(case node_at (fe_tree E) p of Some (FileNode content) \<Rightarrow> read_bytes E n e content
      | _ \<Rightarrow> tool_error SAFETY_VIOLATION (fe_open_error E p)) = Inr r"
    using guardedE[OF assms(1)[unfolded read_file_def] assms(2)] by blast
  obtain b where b: "node_at (fe_tree E) p = Some (FileNode b)" "read_bytes E n e b = Inr r"
    using k assms(2) by (auto split: option.splits node.splits dest!: tool_errorE)
  obtain s tr nx where s: "pl = ReadFilePayload s tr nx"
    using b(2) assms(2) by (auto simp: read_bytes_def read_lines_def Let_def
        split: if_splits option.splits dest!: tool_errorE tool_okE)
  have "p \<noteq> []" using b(1) by (auto simp: node_at_def)
  then have "p = split_char 47 (replace [92] [47] v) \<and> plain_file (fe_tree E) p b"
    using resolve_guarded_path_Inr[OF p] b(1) by (auto simp: plain_file_def node_at_def)
  then show ?thesis using read_shown[OF b(2) assms(2)[unfolded s]] s by blast
qed


section \<open>A sample workspace\<close>

definition sample_tree :: tree where
  "sample_tree =
     [([lit ''src''], DirNode),
      ([lit ''src'', lit ''a.py''], FileNode (map of_int (lit ''x = 1''))),
      ([lit ''.env''], FileNode (map of_int (lit ''KEY=s''))),
      ([lit ''out''], LinkNode (Some (map of_int (lit ''KEY=t''))))]"

definition sample_files :: file_env where
  "sample_files = \<lparr>fe_tree = sample_tree, fe_lower = id,
     fe_open_error = (\<lambda>_. lit ''cannot open''), fe_decode_error = (\<lambda>_. lit ''cannot decode'')\<rparr>"

lemma sample_tree_ok: "tree_ok sample_tree"
  by code_simp

lemma sample_listed:
  "list_files sample_files (lit ''src'') False =
     Inr \<lparr>tr_ok = True, tr_payload = Some (ListFilesPayload [lit ''src/a.py'']), tr_error_code = None, tr_message = None\<rparr>"
  by code_simp

lemma sample_read:
  "read_file sample_files (lit ''src/a.py'') None None =
     Inr \<lparr>tr_ok = True, tr_payload = Some (ReadFilePayload (lit ''x = 1'') False None), tr_error_code = None, tr_message = None\<rparr>"
proof -
  have "resolve_guarded_path sample_tree (lit ''src/a.py'') = Inr [lit ''src'', lit ''a.py'']"
    "node_at sample_tree [lit ''src'', lit ''a.py''] = Some (FileNode (map of_int (lit ''x = 1'')))"
    "utf8_decode (map of_int (lit ''x = 1'')) = Some (lit ''x = 1'')"
    "0 \<notin> set (take 8192 (map of_int (lit ''x = 1'') :: bytes))"
    by code_simp+
  then show ?thesis
    by (simp add: read_file_def guarded_def sample_files_def read_bytes_def Let_def tool_ok_def
        check_tool_result_def READ_LIMIT_def)
qed




text \<open>Lines past the first 512 KiB are out of reach of every line range, and the result says neither
  that it is cut nor where to go on.\<close>

lemma read_past_limit:
  assumes "utf8_decode (take (READ_LIMIT + 1) b) = Some w" "0 \<notin> set (take 8192 b)"
    and "int (length (splitlines_keep w)) < a"
  shows "read_bytes E (Some a) e b = tool_ok (ReadFilePayload [] False None)"
proof -
  have "length (case e of None \<Rightarrow> splitlines_keep w | Some e \<Rightarrow> take (nat e) (splitlines_keep w)) \<le> nat (a - 1)"
    using assms(3) by (auto split: option.split)
  then have "line_slice (splitlines_keep w) a e = []"
    by (simp add: line_slice_def)
  moreover have "take 8192 (take (READ_LIMIT + 1) b) = take 8192 b"
    by (simp add: READ_LIMIT_def min_def)
  ultimately show ?thesis
    using assms(1,2) by (simp add: read_bytes_def read_lines_def Let_def)
qed

end
