(* ===== verification/Executor.thy ===== *)
theory Executor
  imports FileSystem PatchApply Launcher Harness
begin

text \<open>
  \<^verbatim>\<open>adapters/git/readonly.py\<close>, \<^verbatim>\<open>adapters/process/diagnostic.py\<close>, the command bridge of
  \<^verbatim>\<open>composition.py\<close> and \<^verbatim>\<open>adapters/runtime/action_executor.py\<close>: the executor that turns an action
  into an execution, whose revision is the hash of the workspace it leaves. The main theorem says
  that equal revisions mean equal workspaces.
\<close>

section \<open>Commands\<close>

text \<open>What the tools see of a finished command.\<close>

record completed =
  pc_returncode :: int
  pc_stdout :: pystr
  pc_stderr :: pystr

definition filter_environment :: "(pystr \<Rightarrow> pystr) \<Rightarrow> pystr list \<Rightarrow> (pystr \<times> pystr) list \<Rightarrow> (pystr \<times> pystr) list" where
  "filter_environment upper keys environ = filter (\<lambda>(k, v). upper k \<in> set keys) environ"

text \<open>
  \<open>CommandBridge\<close>: the limits of a bridge for git, or without a configuration, are fixed; otherwise
  they are those of the configuration. A process that did not complete counts as failed. The record
  of the request requires a positive timeout and limits.
\<close>

record bridge_config =
  bc_timeout :: int
  bc_output_limit :: int

definition command_bridge ::
    "(launch_request \<Rightarrow> ('w, launch_result) prog) \<Rightarrow> bool \<Rightarrow> bridge_config option
     \<Rightarrow> pystr list \<Rightarrow> pystr \<Rightarrow> (pystr \<times> pystr) list \<Rightarrow> ('w, completed) prog" where
  "command_bridge start git_only config argv cwd env =
     (let limits = (if git_only then None else config);
          timeout = (case limits of None \<Rightarrow> 120 | Some c \<Rightarrow> bc_timeout c);
          output_limit = (case limits of None \<Rightarrow> 65536 | Some c \<Rightarrow> bc_output_limit c)
      in bind_prog (lift_res (check_launch_request
           \<lparr>lr_argv = argv, lr_cwd = cwd, lr_env = env, lr_timeout = timeout,
            lr_stdout_limit = output_limit, lr_stderr_limit = output_limit\<rparr>)) (\<lambda>request.
         bind_prog (start request) (\<lambda>result.
         ret \<lparr>pc_returncode = (case (la_status result, la_exit_code result) of (LS_COMPLETED, Some c) \<Rightarrow> c | _ \<Rightarrow> 1),
              pc_stdout = utf8_replace (la_stdout result), pc_stderr = utf8_replace (la_stderr result)\<rparr>)))"

section \<open>The executor\<close>

text \<open>
  The executor's workspace and collaborators: the tree as the world now has it, the absolute root,
  the launcher bound to that root, \<open>str.upper\<close>, the process environment, and the applier and the
  test runner it was built with.
\<close>

record 'w workspace =
  ws_files :: "'w \<Rightarrow> file_env"
  ws_root :: "pystr list"
  ws_sha :: "bytes \<Rightarrow> pystr"
  ws_upper :: "pystr \<Rightarrow> pystr"
  ws_environ :: "(pystr \<times> pystr) list"
  ws_launch :: "pystr list \<Rightarrow> (pystr \<times> pystr) list \<Rightarrow> ('w, completed) prog"
  ws_base_commit :: pystr
  ws_diagnostics :: "pystr list"
  ws_apply :: "prepared_patch \<Rightarrow> bool \<Rightarrow> ('w, apply_result) prog"
  ws_tests :: "(test_scope \<Rightarrow> pystr list \<Rightarrow> ('w, action_execution) prog) option"

definition TOOL_ENV :: "pystr list" where
  "TOOL_ENV = map lit [''PATH'', ''SYSTEMROOT'', ''TEMP'', ''TMP'', ''PATHEXT'']"

definition tool_environment :: "'w workspace \<Rightarrow> (pystr \<times> pystr) list" where
  "tool_environment W = filter_environment (ws_upper W) TOOL_ENV (ws_environ W)"

text \<open>\<open>except OSError: return None\<close>.\<close>

definition run_git :: "'w workspace \<Rightarrow> pystr list \<Rightarrow> ('w, completed option) prog" where
  "run_git W argv w =
     (case ws_launch W argv (tool_environment W) w of
        (Inr c, w') \<Rightarrow> (Inr (Some c), w')
      | (Inl e, w') \<Rightarrow> if is_os_error e then (Inr None, w') else (Inl e, w'))"

definition git_unavailable :: "'p tool_result res" where
  "git_unavailable = tool_error TOOL_ENVIRONMENT_ERROR (lit ''git unavailable'')"

definition git_status :: "'w workspace \<Rightarrow> ('w, tool_payload tool_result) prog" where
  "git_status W = bind_prog (run_git W (map lit [''git'', ''status'', ''--porcelain=v1''])) (\<lambda>completed.
     lift_res (case completed of
       None \<Rightarrow> git_unavailable
     | Some c \<Rightarrow> tool_ok (GitStatusPayload (sort (filter (\<lambda>l. l \<noteq> []) (splitlines (pc_stdout c)))))))"

definition DIFF_LIMIT :: nat where
  "DIFF_LIMIT = 1048576"

definition git_diff :: "'w workspace \<Rightarrow> ('w, tool_payload tool_result) prog" where
  "git_diff W = bind_prog (run_git W [lit ''git'', lit ''diff'', ws_base_commit W, lit ''--'']) (\<lambda>completed.
     lift_res (case completed of
       None \<Rightarrow> git_unavailable
     | Some c \<Rightarrow>
         let raw = pc_stdout c; diff = take DIFF_LIMIT raw
         in tool_ok (GitDiffPayload diff (length diff < length raw))))"

definition diagnostic_argv :: "pystr \<Rightarrow> pystr list option" where
  "diagnostic_argv i =
     map_of [(lit ''ruff_check'', map lit [''ruff'', ''check'', ''.'']),
             (lit ''mypy_check'', map lit [''mypy'', ''.''])] i"

text \<open>The runner also notes its last command in fields that nothing reads; they are left out.\<close>

definition run_diagnostic :: "'w workspace \<Rightarrow> pystr \<Rightarrow> pystr list \<Rightarrow> ('w, tool_payload tool_result) prog" where
  "run_diagnostic W i arguments =
     (if i \<notin> set (ws_diagnostics W)
      then lift_res (tool_error UNSUPPORTED (lit ''diagnostic is not enabled''))
      else case diagnostic_argv i of
        None \<Rightarrow> lift_res (tool_error INVALID_REQUEST (lit ''diagnostic arguments are not allowed''))
      | Some argv \<Rightarrow>
          if arguments \<noteq> []
          then lift_res (tool_error INVALID_REQUEST (lit ''diagnostic arguments are not allowed''))
          else (\<lambda>w. case ws_launch W argv (tool_environment W) w of
            (Inr c, w') \<Rightarrow> (tool_ok (DiagnosticPayload i (pc_returncode c) (take 65536 (pc_stdout c))), w')
          | (Inl e, w') \<Rightarrow>
              if e = TimeoutError then (tool_error TIMEOUT (lit ''diagnostic timed out''), w')
              else if is_os_error e
              then (tool_error TOOL_ENVIRONMENT_ERROR (lit ''diagnostic environment unavailable''), w')
              else (Inl e, w')))"

section \<open>The revision of a workspace\<close>

text \<open>\<open>int.to_bytes(k, "big")\<close>, and the frame of one file: both names and contents carry their length.\<close>

fun big_endian :: "nat \<Rightarrow> int \<Rightarrow> bytes" where
  "big_endian 0 n = []"
| "big_endian (Suc k) n = big_endian k (n div 256) @ [of_int (n mod 256)]"

definition length_bytes :: "bytes \<Rightarrow> bytes res" where
  "length_bytes b = (if py_len b < 2 ^ 64 then Inr (big_endian 8 (py_len b)) else Inl OverflowError)"

definition file_frame :: "pystr list \<times> bytes \<Rightarrow> bytes res" where
  "file_frame pb =
     (case utf8_encode (posix (fst pb)) of
        None \<Rightarrow> Inl UnicodeError
      | Some relative \<Rightarrow>
          bind_res (length_bytes relative) (\<lambda>n.
          bind_res (length_bytes (snd pb)) (\<lambda>m. Inr (n @ relative @ m @ snd pb))))"

text \<open>The files of the tree, those that a link leads to included, in the order of their names; everything
  is left out below a directory named \<^verbatim>\<open>.git\<close>, which may be one of the root's own components.\<close>

definition revision_entry :: "pystr list \<Rightarrow> pystr list \<times> node \<Rightarrow> (pystr list \<times> bytes) option" where
  "revision_entry root pn =
     (if lit ''.git'' \<in> set (root @ fst pn) then None else map_option (Pair (fst pn)) (node_bytes (snd pn)))"

definition revision_files :: "pystr list \<Rightarrow> tree \<Rightarrow> (pystr list \<times> bytes) list" where
  "revision_files root t = List.map_filter (revision_entry root) (sort_key (\<lambda>(p, _). posix p) t)"

definition workspace_sha256 :: "(bytes \<Rightarrow> pystr) \<Rightarrow> pystr list \<Rightarrow> tree \<Rightarrow> pystr res" where
  "workspace_sha256 sha root t =
     bind_res (map_res file_frame (revision_files root t)) (\<lambda>frames. Inr (sha (concat frames)))"

definition revision_of :: "'w workspace \<Rightarrow> ('w, pystr) prog" where
  "revision_of W w = (workspace_sha256 (ws_sha W) (ws_root W) (fe_tree (ws_files W w)), w)"

section \<open>Executing actions\<close>

definition match_json :: "search_match \<Rightarrow> json" where
  "match_json m = JObj
     [(lit ''path'', JStr (sm_path m)), (lit ''line'', JInt (sm_line m)),
      (lit ''column'', JInt (sm_column m)), (lit ''text'', JStr (sm_text m))]"

fun payload_json :: "tool_payload \<Rightarrow> json" where
  "payload_json (ListFilesPayload files) =
     JObj [(lit ''files'', JArr (map (\<lambda>f. JObj [(lit ''path'', JStr f)]) files))]"
| "payload_json (ReadFilePayload s truncated next_start_line) =
     JObj [(lit ''text'', JStr s), (lit ''truncated'', JBool truncated),
           (lit ''next_start_line'', case next_start_line of None \<Rightarrow> JNull | Some n \<Rightarrow> JInt n)]"
| "payload_json (SearchCodePayload matches truncated) =
     JObj [(lit ''matches'', JArr (map match_json matches)), (lit ''truncated'', JBool truncated)]"
| "payload_json (GitStatusPayload entries) = JObj [(lit ''entries'', JArr (map JStr entries))]"
| "payload_json (GitDiffPayload diff truncated) =
     JObj [(lit ''diff'', JStr diff), (lit ''truncated'', JBool truncated)]"
| "payload_json (DiagnosticPayload i code output) =
     JObj [(lit ''diagnostic_id'', JStr i), (lit ''exit_code'', JInt code), (lit ''output'', JStr output)]"

definition plain_execution :: "'w workspace \<Rightarrow> pystr \<Rightarrow> bool \<Rightarrow> ('w, action_execution) prog" where
  "plain_execution W summary unknown = bind_prog (revision_of W) (\<lambda>revision.
     ret \<lparr>ae_safe_summary = summary, ae_source_revision = revision, ae_test_run = None,
          ae_parsed_result = None, ae_unknown_outcome = unknown\<rparr>)"

definition report :: "'w workspace \<Rightarrow> tool_payload tool_result \<Rightarrow> ('w, action_execution) prog" where
  "report W result =
     (case (tr_ok result, tr_payload result) of
        (True, Some payload) \<Rightarrow> plain_execution W (json_dumps (payload_json payload)) False
      | _ \<Rightarrow> plain_execution W (case tr_message result of
           Some m \<Rightarrow> if m = [] then lit ''tool execution failed'' else m
         | None \<Rightarrow> lit ''tool execution failed'') False)"

definition file_tool :: "'w workspace \<Rightarrow> action \<Rightarrow> ('w, tool_payload tool_result) prog" where
  "file_tool W a w = (file_execute (ws_files W w) a, w)"

fun execute :: "'w workspace \<Rightarrow> action \<Rightarrow> ('w, action_execution) prog" where
  "execute W GitStatus = bind_prog (git_status W) (report W)"
| "execute W GitDiff = bind_prog (git_diff W) (report W)"
| "execute W (RunDiagnostic i arguments) = bind_prog (run_diagnostic W i arguments) (report W)"
| "execute W (RunTests scope targets) =
     (case ws_tests W of
        Some run_action \<Rightarrow> run_action scope targets
      | None \<Rightarrow> plain_execution W (lit ''action is not supported'') False)"
| "execute W (ApplyPatch diff) = plain_execution W (lit ''action is not supported'') False"
| "execute W (RequestHuman reason) = plain_execution W (lit ''action is not supported'') False"
| "execute W a = bind_prog (file_tool W a) (report W)"

definition execute_patch :: "'w workspace \<Rightarrow> prepared_patch \<Rightarrow> ('w, action_execution) prog" where
  "execute_patch W pp = bind_prog (ws_apply W pp True) (\<lambda>result.
     case result of
       Applied files \<Rightarrow> plain_execution W (lit ''patch applied'') False
     | ApplyFailure code m \<Rightarrow>
         plain_execution W (lit ''patch application failed'') (code = ''unknown_outcome'')
     | CompensationFailure code m rolled \<Rightarrow>
         plain_execution W (lit ''patch application failed'') (code = ''unknown_outcome''))"

section \<open>Preparing patches\<close>

text \<open>\<open>PatchSnapshot.from_root\<close>: every file of the tree, those behind links and below \<^verbatim>\<open>.git\<close> included.\<close>

definition snapshot_of :: "tree \<Rightarrow> snapshot" where
  "snapshot_of t path = map_of
     (concat (map (\<lambda>(p, n). case node_bytes n of None \<Rightarrow> [] | Some b \<Rightarrow> [(posix p, b)]) t)) path"

definition prepare_workspace_patch :: "'w workspace \<Rightarrow> pystr \<Rightarrow> ('w, prepared_patch) prog" where
  "prepare_workspace_patch W diff w =
     (prepare_patch (ws_sha W) diff (snapshot_of (fe_tree (ws_files W w))), w)"


section \<open>What a revision says\<close>

lemma big_endian_length [simp]: "length (big_endian k n) = k"
  by (induction k arbitrary: n) auto

lemma big_endian_inj:
  "big_endian k n = big_endian k m \<Longrightarrow> 0 \<le> n \<Longrightarrow> n < 256 ^ k \<Longrightarrow> 0 \<le> m \<Longrightarrow> m < 256 ^ k \<Longrightarrow> n = m"
proof (induction k arbitrary: n m)
  case (Suc k)
  then have "big_endian k (n div 256) = big_endian k (m div 256)"
    and w: "(of_int (n mod 256) :: 8 word) = of_int (m mod 256)" by auto
  moreover have "n div 256 < 256 ^ k" "m div 256 < 256 ^ k" "0 \<le> n div 256" "0 \<le> m div 256"
    using Suc.prems by simp_all
  ultimately have d: "n div 256 = m div 256" using Suc.IH by blast
  have "n mod 256 = m mod 256" using w by (metis uint_byte pos_mod_bound pos_mod_sign zero_less_numeral)
  with d show ?case by (metis div_mult_mod_eq)
qed simp

lemma length_bytes_prefix:
  assumes "length_bytes b = Inr n" "length_bytes c = Inr m" "n @ b @ x = m @ c @ y"
  shows "b = c \<and> x = y"
proof -
  have n: "n = big_endian 8 (py_len b)" "m = big_endian 8 (py_len c)" "py_len b < 2 ^ 64" "py_len c < 2 ^ 64"
    using assms(1,2) by (auto simp: length_bytes_def split: if_splits)
  then have nm: "n = m" "b @ x = c @ y" using assms(3) by auto
  then have "py_len b = py_len c" using n big_endian_inj[of 8 "py_len b" "py_len c"] by simp
  then have "length b = length c" by (simp add: py_len_def)
  with nm(2) show ?thesis by simp
qed

lemma file_frameE:
  assumes "file_frame pb = Inr f"
  obtains r n m where "utf8_encode (posix (fst pb)) = Some r" "length_bytes r = Inr n"
    "length_bytes (snd pb) = Inr m" "f = n @ r @ m @ snd pb"
  using assms by (auto simp: file_frame_def bind_res_Inr split: option.splits)

lemma length_bytes_length: "length_bytes b = Inr n \<Longrightarrow> length n = 8"
  by (auto simp: length_bytes_def split: if_splits)

lemma frames_inj:
  assumes "map_res file_frame xs = Inr F" "map_res file_frame ys = Inr G" "concat F = concat G"
  shows "map (\<lambda>(p, b). (posix p, b)) xs = map (\<lambda>(p, b). (posix p, b)) ys"
  using assms
proof (induction xs arbitrary: ys F G)
  case Nil
  then show ?case by (cases ys) (auto simp: bind_res_Inr elim!: file_frameE dest: length_bytes_length)
next
  case (Cons x xs)
  obtain f F' where f: "file_frame x = Inr f" "map_res file_frame xs = Inr F'" "F = f # F'"
    using Cons.prems(1) by (auto simp: bind_res_Inr)
  obtain r n m where r: "utf8_encode (posix (fst x)) = Some r" "length_bytes r = Inr n"
    "length_bytes (snd x) = Inr m" "f = n @ r @ m @ snd x"
    using f(1) by (rule file_frameE)
  then obtain y ys' where y: "ys = y # ys'"
    using Cons.prems f(3) length_bytes_length[OF r(2)] by (cases ys) auto
  obtain g G' where g: "file_frame y = Inr g" "map_res file_frame ys' = Inr G'" "G = g # G'"
    using Cons.prems(2) y by (auto simp: bind_res_Inr)
  obtain r' n' m' where r': "utf8_encode (posix (fst y)) = Some r'" "length_bytes r' = Inr n'"
    "length_bytes (snd y) = Inr m'" "g = n' @ r' @ m' @ snd y"
    using g(1) by (rule file_frameE)
  have "n @ r @ m @ snd x @ concat F' = n' @ r' @ m' @ snd y @ concat G'"
    using Cons.prems(3) f(3) g(3) r(4) r'(4) by simp
  then have eq: "r = r'" "m @ snd x @ concat F' = m' @ snd y @ concat G'"
    using length_bytes_prefix[OF r(2) r'(2)] by auto
  then have "snd x = snd y" "concat F' = concat G'"
    using length_bytes_prefix[OF r(3) r'(3)] by auto
  moreover have "posix (fst x) = posix (fst y)"
    using r(1) r'(1) eq(1) by (metis utf8_roundtrip option.inject)
  ultimately show ?case
    using Cons.IH[OF f(2) g(2)] y by (cases x; cases y) auto
qed

definition file_content :: "tree \<Rightarrow> pystr list \<Rightarrow> bytes option" where
  "file_content t p = Option.bind (map_of t p) node_bytes"

lemma revision_files_set:
  assumes "tree_ok t"
  shows "(p, b) \<in> set (revision_files root t) \<longleftrightarrow> lit ''.git'' \<notin> set (root @ p) \<and> file_content t p = Some b"
proof -
  have "distinct (map fst t)" using assms by (simp add: tree_ok_def)
  then have "(p, b) \<in> set (revision_files root t) \<longleftrightarrow>
      (\<exists>n. map_of t p = Some n \<and> lit ''.git'' \<notin> set (root @ p) \<and> node_bytes n = Some b)"
    by (force simp: revision_files_def map_filter_def revision_entry_def split: if_splits)
  then show ?thesis by (auto simp: file_content_def bind_eq_Some_conv)
qed

lemma revision_files_names:
  assumes "tree_ok t" "(p, b) \<in> set (revision_files root t)"
  shows "list_all name_ok p \<and> p \<noteq> []"
proof -
  obtain n where "map_of t p = Some n"
    using assms revision_files_set[OF assms(1)] by (auto simp: file_content_def bind_eq_Some_conv)
  then have "(p, n) \<in> set t" by (rule map_of_SomeD)
  then show ?thesis using assms(1) by (auto simp: tree_ok_def list_all_iff)
qed

lemma posix_inj:
  assumes "list_all name_ok p" "p \<noteq> []" "list_all name_ok q" "q \<noteq> []" "posix p = posix q"
  shows "p = q"
  using components_posix[OF assms(1,2)] components_posix[OF assms(3,4)] assms(5) by metis

lemma revision_files_sorted: "sorted (map (\<lambda>(p, _). posix p) (revision_files root t))"
proof -
  let ?s = "sort_key (\<lambda>(p, _). posix p) t"
  let ?f = "filter (\<lambda>x. revision_entry root x \<noteq> None) ?s"
  have "sorted (map (\<lambda>(p, _). posix p) ?f)" by (simp add: sorted_filter)
  moreover have "map (\<lambda>(p, _). posix p) (revision_files root t) = map (\<lambda>(p, _). posix p) ?f"
    by (auto simp: revision_files_def map_filter_def revision_entry_def split: if_splits)
  ultimately show ?thesis by simp
qed

lemma revision_files_distinct:
  assumes "tree_ok t"
  shows "distinct (map (\<lambda>(p, _). posix p) (revision_files root t))"
proof -
  let ?r = "revision_files root t" and ?s = "sort_key (\<lambda>(p, _). posix p) t"
  have "distinct (map fst ?s)"
    using assms unfolding tree_ok_def by (metis (no_types) distinct_map distinct_sort set_sort)
  then have "distinct (map fst (filter (\<lambda>x. revision_entry root x \<noteq> None) ?s))"
    by (rule distinct_map_filter)
  moreover have "map fst ?r = map fst (filter (\<lambda>x. revision_entry root x \<noteq> None) ?s)"
    by (auto simp: revision_files_def map_filter_def revision_entry_def split: if_splits)
  ultimately have "distinct (map fst ?r)" by simp
  moreover have "inj_on posix (fst ` set ?r)"
  proof (rule inj_onI)
    fix p q assume "p \<in> fst ` set ?r" "q \<in> fst ` set ?r" "posix p = posix q"
    then obtain b c where "(p, b) \<in> set ?r" "(q, c) \<in> set ?r" "posix p = posix q" by auto
    then show "p = q" using revision_files_names[OF assms] posix_inj by metis
  qed
  ultimately have "distinct (map posix (map fst ?r))" unfolding distinct_map[of posix] set_map by blast
  moreover have "map posix (map fst ?r) = map (\<lambda>(p, _). posix p) ?r" by (auto simp: case_prod_beta)
  ultimately show ?thesis by metis
qed

lemma revision_files_eq:
  assumes "tree_ok t" "tree_ok t'"
    and "\<And>p. lit ''.git'' \<notin> set (root @ p) \<Longrightarrow> file_content t p = file_content t' p"
  shows "revision_files root t = revision_files root t'"
proof (rule map_sorted_distinct_set_unique)
  show s: "set (revision_files root t) = set (revision_files root t')"
    using assms(3) by (auto simp: revision_files_set assms(1,2))
  show "inj_on (\<lambda>(p, _). posix p) (set (revision_files root t) \<union> set (revision_files root t'))"
    using revision_files_distinct[OF assms(1), of root] s by (simp add: distinct_map)
qed (use revision_files_sorted revision_files_distinct assms(1,2) in auto)

lemma equal_revisions:
  assumes "inj sha" "tree_ok t" "tree_ok t'"
    and "workspace_sha256 sha root t = Inr h" "workspace_sha256 sha root t' = Inr h'"
  shows "h = h' \<longleftrightarrow> (\<forall>p. lit ''.git'' \<notin> set (root @ p) \<longrightarrow> file_content t p = file_content t' p)"
proof
  assume "h = h'"
  then obtain F G where FG: "map_res file_frame (revision_files root t) = Inr F"
    "map_res file_frame (revision_files root t') = Inr G" "concat F = concat G"
    using assms(1,4,5) by (auto simp: workspace_sha256_def bind_res_Inr dest: injD)
  let ?x = "revision_files root t" and ?y = "revision_files root t'"
  have m: "map (\<lambda>(p, b). (posix p, b)) ?x = map (\<lambda>(p, b). (posix p, b)) ?y"
    by (rule frames_inj[OF FG])
  have "set ?x \<subseteq> set ?y"
  proof
    fix pb assume "pb \<in> set ?x"
    moreover obtain p b where pb: "pb = (p, b)" by fastforce
    ultimately have "(posix p, b) \<in> set (map (\<lambda>(p, b). (posix p, b)) ?y)"
      unfolding m[symmetric] by force
    then obtain q where q: "(q, b) \<in> set ?y" "posix q = posix p" by auto
    then have "q = p"
      using revision_files_names[OF assms(3) q(1)] revision_files_names[OF assms(2)]
        posix_inj \<open>pb \<in> set ?x\<close> pb by metis
    then show "pb \<in> set ?y" using q(1) pb by simp
  qed
  moreover have "set ?y \<subseteq> set ?x"
  proof
    fix pb assume "pb \<in> set ?y"
    moreover obtain p b where pb: "pb = (p, b)" by fastforce
    ultimately have "(posix p, b) \<in> set (map (\<lambda>(p, b). (posix p, b)) ?x)"
      unfolding m by force
    then obtain q where q: "(q, b) \<in> set ?x" "posix q = posix p" by auto
    then have "q = p"
      using revision_files_names[OF assms(2) q(1)] revision_files_names[OF assms(3)]
        posix_inj \<open>pb \<in> set ?y\<close> pb by metis
    then show "pb \<in> set ?x" using q(1) pb by simp
  qed
  ultimately have "set ?x = set ?y" by blast
  then show "\<forall>p. lit ''.git'' \<notin> set (root @ p) \<longrightarrow> file_content t p = file_content t' p"
    using revision_files_set[OF assms(2)] revision_files_set[OF assms(3)]
    by (metis not_None_eq)
next
  assume "\<forall>p. lit ''.git'' \<notin> set (root @ p) \<longrightarrow> file_content t p = file_content t' p"
  then have "revision_files root t = revision_files root t'"
    using revision_files_eq[OF assms(2,3)] by blast
  then show "h = h'" using assms(4,5) by (auto simp: workspace_sha256_def bind_res_Inr)
qed

lemma plain_execution_Inr:
  "plain_execution W m u w = (Inr x, w') \<Longrightarrow> w' = w
    \<and> workspace_sha256 (ws_sha W) (ws_root W) (fe_tree (ws_files W w')) = Inr (ae_source_revision x)"
  by (auto simp: plain_execution_def revision_of_def bind_prog_Inr ret_app)

lemma report_Inr:
  assumes "bind_prog m (report W) w = (Inr x, w')"
  shows "workspace_sha256 (ws_sha W) (ws_root W) (fe_tree (ws_files W w')) = Inr (ae_source_revision x)
    \<and> (\<exists>r. m w = (Inr r, w'))"
proof -
  obtain r v where r: "m w = (Inr r, v)" "report W r v = (Inr x, w')"
    using assms by (auto simp: bind_prog_Inr)
  then have "\<exists>s u. plain_execution W s u v = (Inr x, w')"
    by (auto simp: report_def split: bool.splits option.splits)
  then obtain s u where "plain_execution W s u v = (Inr x, w')" by blast
  then show ?thesis using r(1) plain_execution_Inr[of W s u v x w'] by auto
qed

text \<open>An execution of a tool or of a patch, and the world it leaves.\<close>

definition executed_in :: "'w workspace \<Rightarrow> action_execution \<Rightarrow> 'w \<Rightarrow> bool" where
  "executed_in W x w' \<longleftrightarrow>
     (\<exists>a w. execute W a w = (Inr x, w') \<and> action_type a \<noteq> ''run_tests'')
     \<or> (\<exists>pp w. execute_patch W pp w = (Inr x, w'))"

lemma executed_revision:
  assumes "executed_in W x w'"
  shows "workspace_sha256 (ws_sha W) (ws_root W) (fe_tree (ws_files W w')) = Inr (ae_source_revision x)"
proof -
  have "?thesis" if "execute W a w = (Inr x, w')" "action_type a \<noteq> ''run_tests''" for a w
    using that by (cases a) (auto dest: report_Inr plain_execution_Inr)
  moreover have "?thesis" if e: "execute_patch W pp w = (Inr x, w')" for pp w
  proof -
    obtain r v where r: "(case r of Applied files \<Rightarrow> plain_execution W (lit ''patch applied'') False
       | ApplyFailure code m \<Rightarrow> plain_execution W (lit ''patch application failed'') (code = ''unknown_outcome'')
       | CompensationFailure code m rolled \<Rightarrow>
           plain_execution W (lit ''patch application failed'') (code = ''unknown_outcome'')) v = (Inr x, w')"
      using e unfolding execute_patch_def bind_prog_Inr by blast
    then show ?thesis by (cases r) (auto dest: plain_execution_Inr)
  qed
  ultimately show ?thesis using assms unfolding executed_in_def by blast
qed

text \<open>C15. The source revision of an execution identifies the workspace it leaves: with a collision-free
  hash, two executions report the same revision exactly when every file outside \<^verbatim>\<open>.git\<close> has the same
  content in both workspaces.\<close>

theorem revision_identifies:
  assumes "inj (ws_sha W)" "executed_in W x v" "executed_in W y w"
    and "tree_ok (fe_tree (ws_files W v))" "tree_ok (fe_tree (ws_files W w))"
  shows "ae_source_revision x = ae_source_revision y \<longleftrightarrow>
    (\<forall>p. lit ''.git'' \<notin> set (ws_root W @ p) \<longrightarrow>
      file_content (fe_tree (ws_files W v)) p = file_content (fe_tree (ws_files W w)) p)"
  by (rule equal_revisions[OF assms(1,4,5) executed_revision[OF assms(2)] executed_revision[OF assms(3)]])

text \<open>The read-only file tools leave the world alone.\<close>

lemma file_actions_readonly:
  assumes "execute W a w = (Inr x, w')" "action_type a \<in> {''list_files'', ''read_file'', ''search_code''}"
  shows "w' = w"
  using assms by (cases a) (auto dest!: report_Inr simp: file_tool_def)

section \<open>A sample executor\<close>

definition sample_workspace :: "tree workspace" where
  "sample_workspace = \<lparr>ws_files = (\<lambda>t. sample_files\<lparr>fe_tree := t\<rparr>), ws_root = [lit ''w''], ws_sha = plain_sha,
     ws_upper = id, ws_environ = [], ws_launch = (\<lambda>_ _. raise (OSError ''not found'')),
     ws_base_commit = [], ws_diagnostics = [],
     ws_apply = (\<lambda>pp b t. (Inr (Applied (pp_files pp)), ([lit ''b''], FileNode [7]) # t)), ws_tests = None\<rparr>"

lemma sample_executions:
  "(case execute sample_workspace (ListFiles (lit ''src'') False) sample_tree of
      (Inr x, t) \<Rightarrow> t = sample_tree | _ \<Rightarrow> False)"
  "(case execute_patch sample_workspace sample_pp sample_tree of
      (Inr y, t) \<Rightarrow> t = ([lit ''b''], FileNode [7]) # sample_tree | _ \<Rightarrow> False)"
  "tree_ok (([lit ''b''], FileNode [7]) # sample_tree)"
  by code_simp+

theorem revision_identifies_witness:
  "\<exists>x y. executed_in sample_workspace x sample_tree
     \<and> executed_in sample_workspace y (([lit ''b''], FileNode [7]) # sample_tree)
     \<and> ae_source_revision x \<noteq> ae_source_revision y"
proof -
  let ?t = "([lit ''b''], FileNode [7]) # sample_tree"
  obtain x y where x: "execute sample_workspace (ListFiles (lit ''src'') False) sample_tree = (Inr x, sample_tree)"
    and y: "execute_patch sample_workspace sample_pp sample_tree = (Inr y, ?t)"
    using sample_executions by (auto split: prod.splits sum.splits)
  have "action_type (ListFiles (lit ''src'') False) \<noteq> ''run_tests''" by simp
  with x y have ex: "executed_in sample_workspace x sample_tree" "executed_in sample_workspace y ?t"
    unfolding executed_in_def by blast+
  have "file_content sample_tree [lit ''b''] \<noteq> file_content ?t [lit ''b'']" "lit ''.git'' \<notin> set [lit ''w'', lit ''b'']"
    by code_simp+
  moreover have "inj (ws_sha sample_workspace)" using plain_sha_inj by (simp add: sample_workspace_def)
  ultimately have "ae_source_revision x \<noteq> ae_source_revision y"
    using revision_identifies[OF _ ex] sample_tree_ok sample_executions(3)
    by (auto simp: sample_workspace_def)
  then show ?thesis using ex by blast
qed

end
