(* ===== verification/Workspaces.thy ===== *)
theory Workspaces
  imports Executor Config
begin

text \<open>
  \<^verbatim>\<open>application/preflight.py\<close> and \<^verbatim>\<open>adapters/git/worktree.py\<close>: inspecting a repository, and preparing and
  revalidating the isolated worktree of a task. Git and the file system are parameters. The main
  theorems say what a prepared workspace guarantees, and that every command that is launched for it
  is a git command with the hardened environment.
\<close>

section \<open>The host\<close>

text \<open>
  Absolute paths are lists of components. \<open>gh_resolve\<close> is \<open>Path(text).resolve(strict=True)\<close>, \<open>gh_real\<close>
  resolves a path that need not exist.
\<close>

record 'w git_host =
  gh_resolve :: "'w \<Rightarrow> pystr \<Rightarrow> pystr list res"
  gh_real :: "'w \<Rightarrow> pystr list \<Rightarrow> pystr list"
  gh_exists :: "'w \<Rightarrow> pystr list \<Rightarrow> bool"
  gh_is_dir :: "'w \<Rightarrow> pystr list \<Rightarrow> bool"
  gh_is_link :: "'w \<Rightarrow> pystr list \<Rightarrow> bool"
  gh_start :: "pystr list \<Rightarrow> pystr list \<Rightarrow> (pystr \<times> pystr) list \<Rightarrow> ('w, completed) prog"
  gh_upper :: "pystr \<Rightarrow> pystr"
  gh_environ :: "(pystr \<times> pystr) list"
  gh_devnull :: pystr
  gh_sha :: "bytes \<Rightarrow> pystr"

type_synonym 'w git_launcher =
  "pystr list \<Rightarrow> pystr list \<Rightarrow> (pystr \<times> pystr) list \<Rightarrow> ('w, completed) prog"

definition path_text :: "pystr list \<Rightarrow> pystr" where
  "path_text p = 47 # join [47] p"

definition GIT_SAFE_ENV :: "pystr list" where
  "GIT_SAFE_ENV = map lit [''PATH'', ''SYSTEMROOT'', ''WINDIR'', ''TEMP'', ''TMP'', ''PATHEXT'', ''LANG'', ''LC_ALL'']"

definition git_env :: "'w git_host \<Rightarrow> (pystr \<times> pystr) list" where
  "git_env G = filter_environment (gh_upper G) GIT_SAFE_ENV (gh_environ G)"

section \<open>Preflight\<close>

record verified_repository =
  vr_root :: "pystr list"
  vr_identity_sha256 :: pystr
  vr_base_commit :: pystr

definition MAX_GIT_OUTPUT :: int where
  "MAX_GIT_OUTPUT = 65536"

definition within_output :: "pystr \<Rightarrow> bool res" where
  "within_output s = bind_res (of_opt UnicodeError (utf8_encode s)) (\<lambda>b. Inr (py_len b \<le> MAX_GIT_OUTPUT))"

text \<open>Whatever the launcher raises becomes the message, and so does a failure of git or too much output.\<close>

definition preflight_run ::
    "'w git_host \<Rightarrow> 'w git_launcher \<Rightarrow> pystr list \<Rightarrow> pystr list \<Rightarrow> string \<Rightarrow> ('w, pystr) prog" where
  "preflight_run G start argv cwd message w =
     (case start argv cwd (git_env G) w of
        (Inl _, w') \<Rightarrow> (Inl (PreflightError message), w')
      | (Inr c, w') \<Rightarrow>
          (bind_res (require (pc_returncode c = 0) (PreflightError message)) (\<lambda>_.
           bind_res (within_output (pc_stdout c)) (\<lambda>fits.
           bind_res (require fits (PreflightError message)) (\<lambda>_.
           bind_res (within_output (pc_stderr c)) (\<lambda>fits.
           bind_res (require fits (PreflightError message)) (\<lambda>_.
           Inr (strip (pc_stdout c))))))), w'))"

text \<open>\<open>Path(text).resolve(strict=True)\<close> inside \<open>except (OSError, ValueError)\<close>.\<close>

definition resolve_or_fail :: "'w git_host \<Rightarrow> pystr \<Rightarrow> ('w, pystr list) prog" where
  "resolve_or_fail G s w =
     (case gh_resolve G w s of
        Inr p \<Rightarrow> (Inr p, w)
      | Inl e \<Rightarrow> (Inl (if is_os_error e \<or> is_value_error e
          then PreflightError ''repository preflight failed'' else e), w))"

definition commit_hash :: "pystr \<Rightarrow> bool" where
  "commit_hash s \<longleftrightarrow> py_len s = 40 \<and> list_all (\<lambda>c. c \<in> set (lit ''0123456789abcdef'')) s"

definition fail_unless :: "bool \<Rightarrow> exn \<Rightarrow> ('w, unit) prog" where
  "fail_unless b e = lift_res (require b e)"

text \<open>The validators of the verified facts resolve the root once more.\<close>

definition check_verified_repository :: "'w git_host \<Rightarrow> verified_repository \<Rightarrow> ('w, verified_repository) prog" where
  "check_verified_repository G facts w =
     (bind_res (gh_resolve G w (path_text (vr_root facts))) (\<lambda>root.
      bind_res (require (gh_is_dir G w root \<and> hash_pattern (vr_identity_sha256 facts)
          \<and> commit_hash (vr_base_commit facts)) ValidationError) (\<lambda>_.
      Inr (facts\<lparr>vr_root := root\<rparr>))), w)"

definition inspect_repository ::
    "'w git_host \<Rightarrow> 'w git_launcher \<Rightarrow> pystr \<Rightarrow> ('w, verified_repository) prog" where
  "inspect_repository G start repository =
     (let failed = PreflightError ''repository preflight failed'' in
      bind_prog (resolve_or_fail G repository) (\<lambda>root.
      bind_prog (\<lambda>w. fail_unless (gh_is_dir G w root) failed w) (\<lambda>_.
      bind_prog (preflight_run G start (map lit [''git'', ''rev-parse'', ''--show-toplevel'']) root
          ''repository preflight failed'') (\<lambda>shown_root.
      bind_prog (resolve_or_fail G shown_root) (\<lambda>verified_root.
      bind_prog (fail_unless (verified_root = root) failed) (\<lambda>_.
      bind_prog (preflight_run G start (map lit [''git'', ''status'', ''--porcelain'']) root
          ''repository preflight failed'') (\<lambda>status.
      bind_prog (fail_unless (strip status = []) (PreflightError ''repository has uncommitted changes'')) (\<lambda>_.
      bind_prog (preflight_run G start (map lit [''git'', ''rev-parse'', ''HEAD'']) root
          ''repository preflight failed'') (\<lambda>head.
      bind_prog (fail_unless (commit_hash (strip head)) failed) (\<lambda>_.
      bind_prog (lift_res (of_opt UnicodeError (utf8_encode (path_text root)))) (\<lambda>name.
      check_verified_repository G \<lparr>vr_root = root, vr_identity_sha256 = gh_sha G name,
        vr_base_commit = strip head\<rparr>)))))))))))"

section \<open>Worktrees\<close>

record verified_workspace =
  vw_task_id :: task_id
  vw_root :: "pystr list"
  vw_repository_root :: "pystr list"
  vw_repository_identity_sha256 :: pystr
  vw_base_commit :: pystr
  vw_config_sha256 :: pystr
  vw_capability_sha256 :: pystr
  vw_isolated :: bool

definition check_workspace :: "'w git_host \<Rightarrow> verified_workspace \<Rightarrow> ('w, verified_workspace) prog" where
  "check_workspace G ws w =
     (bind_res (require (hash_pattern (vw_repository_identity_sha256 ws) \<and> commit_hash (vw_base_commit ws)
          \<and> hash_pattern (vw_config_sha256 ws) \<and> hash_pattern (vw_capability_sha256 ws)) ValidationError) (\<lambda>_.
      Inr (ws\<lparr>vw_root := gh_real G w (vw_root ws), vw_repository_root := gh_real G w (vw_repository_root ws)\<rparr>)), w)"

definition hardened_variables :: "pystr \<Rightarrow> (pystr \<times> pystr) list" where
  "hardened_variables devnull =
     [(lit ''GIT_CONFIG_NOSYSTEM'', lit ''1''), (lit ''GIT_CONFIG_GLOBAL'', devnull),
      (lit ''GIT_CONFIG_COUNT'', lit ''1''), (lit ''GIT_CONFIG_KEY_0'', lit ''core.hooksPath''),
      (lit ''GIT_CONFIG_VALUE_0'', devnull), (lit ''GIT_TERMINAL_PROMPT'', lit ''0''),
      (lit ''GIT_ASKPASS'', devnull), (lit ''SSH_ASKPASS'', devnull)]"

definition hardened_env :: "'w git_host \<Rightarrow> (pystr \<times> pystr) list \<Rightarrow> (pystr \<times> pystr) list" where
  "hardened_env G env =
     foldl (\<lambda>d (k, v). dict_update k v d) (filter_environment (gh_upper G) GIT_SAFE_ENV env)
       (hardened_variables (gh_devnull G))"

definition launch_hardened :: "'w git_host \<Rightarrow> 'w git_launcher" where
  "launch_hardened G argv cwd env =
     (if argv = [] \<or> hd argv \<noteq> lit ''git'' then raise (WorkspaceError ''workspace creation failed'')
      else gh_start G argv cwd (hardened_env G env))"

definition workspace_run :: "'w git_host \<Rightarrow> pystr list \<Rightarrow> pystr list \<Rightarrow> ('w, unit) prog" where
  "workspace_run G argv cwd w =
     (let failed = WorkspaceError ''workspace creation failed'' in
      case launch_hardened G argv cwd (git_env G) w of
        (Inl (WorkspaceError m), w') \<Rightarrow> (Inl (WorkspaceError m), w')
      | (Inl _, w') \<Rightarrow> (Inl failed, w')
      | (Inr c, w') \<Rightarrow>
          (if pc_returncode c = 0 \<and> within_output (pc_stdout c) = Inr True
              \<and> within_output (pc_stderr c) = Inr True then Inr () else Inl failed, w'))"

text \<open>\<open>except PreflightError\<close>.\<close>

definition reworded :: "(string \<Rightarrow> string) \<Rightarrow> ('w, 'a) prog \<Rightarrow> ('w, 'a) prog" where
  "reworded message m w =
     (case m w of (Inl (PreflightError text), w') \<Rightarrow> (Inl (WorkspaceError (message text)), w') | x \<Rightarrow> x)"

definition capabilities_value :: "capability_set \<Rightarrow> py_value" where
  "capabilities_value c = PyDict
     [(Some (lit ''mode''), PyStr (cp_mode c)), (Some (lit ''openai_enabled''), PyBool (cp_openai c)),
      (Some (lit ''credentials_enabled''), PyBool (cp_credentials c)),
      (Some (lit ''arbitrary_paths_enabled''), PyBool (cp_arbitrary_paths c)),
      (Some (lit ''diagnostic_ids''), PySeq (map PyStr (cp_diagnostic_ids c))),
      (Some (lit ''command_prefixes''), PySeq (map PyStr (cp_command_prefixes c)))]"

definition capability_sha256 :: "'w git_host \<Rightarrow> frozen_config \<Rightarrow> pystr res" where
  "capability_sha256 G config = canonical_sha256 (gh_sha G) (capabilities_value (fc_capabilities config))"

text \<open>The worktree of a task below the resolved data root.\<close>

definition worktrees_root :: "pystr list \<Rightarrow> pystr list" where
  "worktrees_root data_root = data_root @ [lit ''worktrees'']"

definition task_root :: "pystr list \<Rightarrow> task_id \<Rightarrow> pystr list" where
  "task_root data_root t = worktrees_root data_root @ [uuid_str (tid_value t)]"

definition worktree_argv :: "pystr list \<Rightarrow> pystr \<Rightarrow> pystr list" where
  "worktree_argv root commit =
     [lit ''git'', lit ''worktree'', lit ''add'', lit ''--detach'', path_text root, commit]"

definition prepare_workspace ::
    "'w git_host \<Rightarrow> pystr list \<Rightarrow> pystr \<Rightarrow> task_id \<Rightarrow> frozen_config \<Rightarrow> bool \<Rightarrow> ('w, verified_workspace) prog" where
  "prepare_workspace G data_root repository t config trust_repo =
     (if \<not> trust_repo then raise (WorkspaceError ''repository trust is required'')
      else bind_prog (reworded id (inspect_repository G (launch_hardened G) repository)) (\<lambda>facts.
        bind_prog (\<lambda>w. (Inr (gh_real G w (task_root data_root t), gh_real G w (worktrees_root data_root)), w)) (\<lambda>(root, top).
        bind_prog (fail_unless (below top root \<and> root \<noteq> vr_root facts \<and> \<not> below (vr_root facts) root)
            (WorkspaceError ''workspace path is invalid'')) (\<lambda>_.
        bind_prog (workspace_run G (worktree_argv root (vr_base_commit facts)) (vr_root facts)) (\<lambda>_.
        bind_prog (\<lambda>w. fail_unless (gh_exists G w root \<and> gh_is_dir G w root \<and> \<not> gh_is_link G w root)
            (WorkspaceError ''workspace creation failed'') w) (\<lambda>_.
        bind_prog (lift_res (capability_sha256 G config)) (\<lambda>capability.
        check_workspace G
          \<lparr>vw_task_id = t, vw_root = root, vw_repository_root = vr_root facts,
           vw_repository_identity_sha256 = vr_identity_sha256 facts, vw_base_commit = vr_base_commit facts,
           vw_config_sha256 = fc_sha256 config, vw_capability_sha256 = capability, vw_isolated = True\<rparr>)))))))"

definition validate_resume ::
    "'w git_host \<Rightarrow> pystr list \<Rightarrow> verified_workspace \<Rightarrow> frozen_config \<Rightarrow> ('w, verified_workspace) prog" where
  "validate_resume G data_root ws config =
     (let failed = WorkspaceError ''workspace validation failed'' in
      bind_prog (\<lambda>w. let root = gh_real G w (vw_root ws) in
        fail_unless (gh_exists G w root \<and> gh_is_dir G w root \<and> \<not> gh_is_link G w root
          \<and> below (gh_real G w (worktrees_root data_root)) root) failed w) (\<lambda>_.
      bind_prog (fail_unless (vw_config_sha256 ws = fc_sha256 config) failed) (\<lambda>_.
      bind_prog (lift_res (capability_sha256 G config)) (\<lambda>capability.
      bind_prog (fail_unless (vw_capability_sha256 ws = capability) failed) (\<lambda>_.
      bind_prog (reworded (\<lambda>_. ''workspace validation failed'')
          (inspect_repository G (launch_hardened G) (path_text (vw_repository_root ws)))) (\<lambda>facts.
      bind_prog (fail_unless (vr_identity_sha256 facts = vw_repository_identity_sha256 ws
          \<and> vr_base_commit facts = vw_base_commit ws) failed) (\<lambda>_.
      ret ws)))))))"


section \<open>What a prepared workspace guarantees\<close>

lemma fail_unless_Inr: "fail_unless b e w = (Inr x, w') \<longleftrightarrow> b \<and> w' = w"
  by (auto simp: fail_unless_def lift_res_app)

lemma lift_res_Inr: "lift_res r w = (Inr x, w') \<longleftrightarrow> r = Inr x \<and> w' = w"
  by (auto simp: lift_res_app)

lemma reworded_Inr: "reworded f m w = (Inr x, w') \<longleftrightarrow> m w = (Inr x, w')"
  by (auto simp: reworded_def split: prod.splits sum.splits exn.splits)

lemma preflight_run_Inr:
  assumes "preflight_run G start argv cwd message w = (Inr out, w')"
  shows "\<exists>c. start argv cwd (git_env G) w = (Inr c, w') \<and> pc_returncode c = 0 \<and> out = strip (pc_stdout c)"
  using assms by (auto simp: preflight_run_def bind_res_Inr split: prod.splits sum.splits if_splits)

text \<open>A command that git answered with success.\<close>

definition git_answers :: "'w git_host \<Rightarrow> 'w git_launcher \<Rightarrow> string list \<Rightarrow> pystr list \<Rightarrow> pystr \<Rightarrow> bool" where
  "git_answers G start argv cwd out \<longleftrightarrow>
     (\<exists>c w w'. start (map lit argv) cwd (git_env G) w = (Inr c, w') \<and> pc_returncode c = 0 \<and> strip (pc_stdout c) = out)"

lemma rstrip_prefix: "\<exists>u. t = rstrip t @ u"
  unfolding rstrip_def by (metis rev_append rev_rev_ident takeWhile_dropWhile_id)

lemma strip_strip [simp]: "strip (strip s) = strip s"
proof -
  let ?r = "strip s"
  have "lstrip ?r = ?r"
  proof (cases "?r = []")
    case False
    then have "lstrip s \<noteq> []" by (auto simp: strip_def rstrip_def)
    then have "\<not> is_space (hd (lstrip s))"
      unfolding lstrip_def using hd_dropWhile by blast
    moreover have "hd ?r = hd (lstrip s)"
      using rstrip_prefix[of "lstrip s"] False unfolding strip_def by (metis hd_append2)
    ultimately show ?thesis using False by (cases ?r) (auto simp: lstrip_def)
  qed (simp add: lstrip_def)
  moreover have "rstrip ?r = ?r" by (simp add: strip_def rstrip_def dropWhile_idem)
  ultimately show ?thesis by (simp add: strip_def[of ?r])
qed

lemma resolve_or_fail_Inr: "resolve_or_fail G s w = (Inr p, w') \<longleftrightarrow> gh_resolve G w s = Inr p \<and> w' = w"
  by (auto simp: resolve_or_fail_def split: sum.splits)

lemma check_verified_repository_Inr:
  "check_verified_repository G facts w = (Inr r, w') \<Longrightarrow> w' = w
    \<and> gh_resolve G w (path_text (vr_root facts)) = Inr (vr_root r) \<and> gh_is_dir G w (vr_root r)
    \<and> vr_base_commit r = vr_base_commit facts \<and> commit_hash (vr_base_commit r)"
  by (auto simp: check_verified_repository_def bind_res_Inr split: if_splits)

lemma inspect_repository_Inr:
  assumes "inspect_repository G start repository w = (Inr facts, w')"
  shows "\<exists>root. gh_resolve G w repository = Inr root \<and> gh_is_dir G w root
    \<and> git_answers G start [''git'', ''status'', ''--porcelain''] root []
    \<and> git_answers G start [''git'', ''rev-parse'', ''HEAD''] root (vr_base_commit facts)
    \<and> commit_hash (vr_base_commit facts)
    \<and> gh_resolve G w' (path_text root) = Inr (vr_root facts) \<and> gh_is_dir G w' (vr_root facts)"
proof -
  obtain root shown v1 status v2 head v3 name where
    r: "gh_resolve G w repository = Inr root" "gh_is_dir G w root"
      "preflight_run G start (map lit [''git'', ''status'', ''--porcelain'']) root
          ''repository preflight failed'' v1 = (Inr status, v2)" "strip status = []"
      "preflight_run G start (map lit [''git'', ''rev-parse'', ''HEAD'']) root
          ''repository preflight failed'' v2 = (Inr head, v3)"
    and c: "check_verified_repository G \<lparr>vr_root = root, vr_identity_sha256 = gh_sha G name,
        vr_base_commit = strip head\<rparr> v3 = (Inr facts, w')"
    using assms unfolding inspect_repository_def Let_def bind_prog_Inr
    by (auto simp: resolve_or_fail_Inr fail_unless_Inr lift_res_Inr)
  have "git_answers G start [''git'', ''status'', ''--porcelain''] root []"
    using preflight_run_Inr[OF r(3)] r(4) unfolding git_answers_def by force
  moreover have "git_answers G start [''git'', ''rev-parse'', ''HEAD''] root (vr_base_commit facts)"
    using preflight_run_Inr[OF r(5)] check_verified_repository_Inr[OF c] unfolding git_answers_def by force
  ultimately show ?thesis using r(1,2) check_verified_repository_Inr[OF c] by auto
qed

lemma workspace_run_Inr:
  "workspace_run G argv cwd w = (Inr (), w') \<Longrightarrow>
    \<exists>c. launch_hardened G argv cwd (git_env G) w = (Inr c, w') \<and> pc_returncode c = 0"
  by (auto simp: workspace_run_def Let_def split: prod.splits sum.splits exn.splits if_splits)

lemma check_workspace_Inr:
  "check_workspace G ws w = (Inr r, w') \<Longrightarrow> w' = w
    \<and> r = ws\<lparr>vw_root := gh_real G w (vw_root ws), vw_repository_root := gh_real G w (vw_repository_root ws)\<rparr>"
  by (auto simp: check_workspace_def bind_res_Inr split: if_splits)

text \<open>What the record of a prepared workspace says.\<close>

lemma prepared_workspace_laws:
  assumes "prepare_workspace G data_root repository t config trust_repo w = (Inr ws, w')"
  shows "trust_repo \<and> vw_isolated ws \<and> vw_task_id ws = t \<and> vw_config_sha256 ws = fc_sha256 config"
proof -
  have "trust_repo" using assms by (auto simp: prepare_workspace_def raise_app split: if_splits)
  with assms show ?thesis
    by (auto simp: prepare_workspace_def bind_prog_Inr fail_unless_Inr reworded_Inr lift_res_Inr
        dest!: check_workspace_Inr)
qed


section \<open>The commands that are launched\<close>

definition keeps :: "('w \<Rightarrow> bool) \<Rightarrow> ('w, 'a) prog \<Rightarrow> bool" where
  "keeps I m \<longleftrightarrow> (\<forall>w. I w \<longrightarrow> I (snd (m w)))"

lemma keeps_bind: "keeps I m \<Longrightarrow> (\<And>x. keeps I (f x)) \<Longrightarrow> keeps I (bind_prog m f)"
  unfolding keeps_def bind_prog_def by (auto split: prod.splits sum.splits)

lemma keeps_still: "(\<And>w. snd (m w) = w) \<Longrightarrow> keeps I m"
  by (simp add: keeps_def)

lemma keeps_reworded: "keeps I m \<Longrightarrow> keeps I (reworded f m)"
  unfolding keeps_def reworded_def by (auto split: prod.splits sum.splits exn.splits)

named_theorems keeping \<open>programs that keep an invariant of the world\<close>
declare keeps_bind [keeping] keeps_reworded [keeping]

lemma keeps_plain [keeping]:
  "keeps I (fail_unless b e)" "keeps I (lift_res r)" "keeps I (ret x)" "keeps I (raise e)"
  "keeps I (resolve_or_fail G s)" "keeps I (check_verified_repository G facts)" "keeps I (check_workspace G ws)"
  "keeps I (\<lambda>w. fail_unless (P w) e w)" "keeps I (\<lambda>w. (q w, w))"
  by (rule keeps_still; simp add: fail_unless_def resolve_or_fail_def check_verified_repository_def
      check_workspace_def split: sum.split)+

text \<open>An environment in which git reads no configuration of the machine or the user, runs no hooks and asks
  nothing, and which holds nothing of the caller's but the variables git needs.\<close>

definition hardened :: "'w git_host \<Rightarrow> (pystr \<times> pystr) list \<Rightarrow> bool" where
  "hardened G env \<longleftrightarrow>
     (\<forall>(k, v) \<in> set (hardened_variables (gh_devnull G)). map_of env k = Some v)
     \<and> (\<forall>k \<in> fst ` set env. gh_upper G k \<in> set GIT_SAFE_ENV \<or> k \<in> fst ` set (hardened_variables (gh_devnull G)))"

lemma fst_dict_update: "fst ` set (dict_update k v d) = insert k (fst ` set d)"
  by (induction k v d rule: dict_update.induct) auto

lemma fold_updates_keys:
  "fst ` set (foldl (\<lambda>d (k, v). dict_update k v d) d kvs) = fst ` set d \<union> fst ` set kvs"
  by (induction kvs arbitrary: d) (simp_all add: split_beta fst_dict_update)

lemma fold_updates_other:
  "k \<notin> fst ` set kvs \<Longrightarrow> map_of (foldl (\<lambda>d (k, v). dict_update k v d) d kvs) k = map_of d k"
  by (induction kvs arbitrary: d) (auto simp: map_of_dict_update)

lemma fold_updates:
  assumes "distinct (map fst kvs)" "(k, v) \<in> set kvs"
  shows "map_of (foldl (\<lambda>d (k, v). dict_update k v d) d kvs) k = Some v"
  using assms by (induction kvs arbitrary: d) (auto simp: fold_updates_other map_of_dict_update)

lemma hardened_env_ok: "hardened G (hardened_env G env)"
proof -
  have d: "distinct (map fst (hardened_variables dn))" for dn
    unfolding hardened_variables_def by simp
  show ?thesis
    unfolding hardened_def hardened_env_def fold_updates_keys
    using fold_updates[OF d] by (auto simp: filter_environment_def)
qed

lemma keeps_run:
  assumes "\<And>argv cwd env w. I w \<Longrightarrow> argv \<noteq> [] \<Longrightarrow> hd argv = lit ''git'' \<Longrightarrow> hardened G env \<Longrightarrow>
    I (snd (gh_start G argv cwd env w))"
  shows "keeps I (launch_hardened G argv cwd env)"
    and "keeps I (preflight_run G (launch_hardened G) argv cwd m)"
    and "keeps I (workspace_run G argv cwd)"
proof -
  show L: "keeps I (launch_hardened G argv cwd env)" for env
    using assms[OF _ _ _ hardened_env_ok] by (auto simp: keeps_def launch_hardened_def raise_app)
  show "keeps I (preflight_run G (launch_hardened G) argv cwd m)" "keeps I (workspace_run G argv cwd)"
    using L[of "git_env G"] unfolding keeps_def preflight_run_def workspace_run_def Let_def
    by (auto split: prod.splits sum.splits exn.splits)
qed

text \<open>C20. Preparing and revalidating a workspace launches nothing but git, and always with the hardened
  environment: an invariant of the world that such commands keep is kept by both, whether they
  succeed or fail.\<close>

theorem commands_hardened:
  assumes "\<And>argv cwd env w. I w \<Longrightarrow> argv \<noteq> [] \<Longrightarrow> hd argv = lit ''git'' \<Longrightarrow> hardened G env \<Longrightarrow>
      I (snd (gh_start G argv cwd env w))"
    and "I w"
  shows "I (snd (prepare_workspace G data_root repository t config trust_repo w))
    \<and> I (snd (validate_resume G data_root ws config w))"
proof -
  note R = keeps_run[of I G, OF assms(1)]
  have i: "keeps I (inspect_repository G (launch_hardened G) r)" for r
    unfolding inspect_repository_def Let_def by (intro keeping R)
  have "keeps I (prepare_workspace G data_root repository t config trust_repo)"
    unfolding prepare_workspace_def by (auto intro!: keeping R i split: prod.split)
  moreover have "keeps I (validate_resume G data_root ws config)"
    unfolding validate_resume_def Let_def by (intro keeping R i)
  ultimately show ?thesis using assms(2) by (simp add: keeps_def)
qed

text \<open>A resumed workspace is the recorded one, under the recorded configuration and at the recorded commit.\<close>

lemma validate_resume_Inr:
  assumes "validate_resume G data_root ws config w = (Inr ws', w')"
  shows "ws' = ws \<and> vw_config_sha256 ws = fc_sha256 config
    \<and> capability_sha256 G config = Inr (vw_capability_sha256 ws)
    \<and> (let root = gh_real G w (vw_root ws) in gh_is_dir G w root \<and> \<not> gh_is_link G w root
        \<and> below (gh_real G w (worktrees_root data_root)) root)
    \<and> (\<exists>facts. inspect_repository G (launch_hardened G) (path_text (vw_repository_root ws)) w = (Inr facts, w')
        \<and> vr_identity_sha256 facts = vw_repository_identity_sha256 ws \<and> vr_base_commit facts = vw_base_commit ws)"
  using assms by (auto simp: validate_resume_def Let_def bind_prog_Inr fail_unless_Inr reworded_Inr lift_res_Inr ret_app)

section \<open>A sample host\<close>

type_synonym git_log = "(pystr list \<times> (pystr \<times> pystr) list) list"

definition sample_answer :: "pystr list \<Rightarrow> pystr" where
  "sample_answer argv =
     (if lit ''--show-toplevel'' \<in> set argv then lit ''/repo''
      else if lit ''HEAD'' \<in> set argv then replicate 40 97 else [])"

definition sample_host :: "git_log git_host" where
  "sample_host = \<lparr>gh_resolve = (\<lambda>w s. if s = lit ''/repo'' then Inr [lit ''repo''] else Inl (OSError ''not found'')),
     gh_real = (\<lambda>w p. p), gh_exists = (\<lambda>w p. True),
     gh_is_dir = (\<lambda>w p. p = [lit ''repo''] \<or> list_ex (\<lambda>(argv, env). lit ''worktree'' \<in> set argv) w),
     gh_is_link = (\<lambda>w p. False),
     gh_start = (\<lambda>argv cwd env w. (Inr \<lparr>pc_returncode = 0, pc_stdout = sample_answer argv, pc_stderr = []\<rparr>, (argv, env) # w)),
     gh_upper = id, gh_environ = [(lit ''PATH'', lit ''/bin''), (lit ''TOKEN'', lit ''t'')],
     gh_devnull = lit ''/dev/null'', gh_sha = (\<lambda>b. replicate 64 97)\<rparr>"

definition sample_config :: frozen_config where
  "sample_config = \<lparr>fc_schema_version = 1, fc_mode = lit ''real'', fc_sections = [],
     fc_capabilities = capabilities_for (lit ''real'') [], fc_provenance = [], fc_sha256 = replicate 64 98\<rparr>"

definition sample_task :: task_id where
  "sample_task = TaskId (UUID 0x123e4567e89b42d3a456426614174000)"

lemma sample_prepared:
  "case prepare_workspace sample_host [lit ''data''] (lit ''/repo'') sample_task sample_config True [] of
     (Inr ws, w') \<Rightarrow> vw_base_commit ws = replicate 40 97 \<and> length w' = 4 | _ \<Rightarrow> False"
  by code_simp


definition log_hardened :: "git_log \<Rightarrow> bool" where
  "log_hardened w \<longleftrightarrow>
     list_all (\<lambda>(argv, env). argv \<noteq> [] \<and> hd argv = lit ''git'' \<and> hardened sample_host env) w"

theorem commands_hardened_witness:
  "length (snd (prepare_workspace sample_host [lit ''data''] (lit ''/repo'') sample_task sample_config True [])) = 4
   \<and> log_hardened (snd (prepare_workspace sample_host [lit ''data''] (lit ''/repo'') sample_task sample_config True []))"
proof -
  have "log_hardened (snd (prepare_workspace sample_host [lit ''data''] (lit ''/repo'') sample_task sample_config True []))"
    by (rule commands_hardened[where I = log_hardened, THEN conjunct1])
      (auto simp: log_hardened_def sample_host_def)
  then show ?thesis using sample_prepared by (auto split: prod.splits sum.splits)
qed

text \<open>The root of a recorded workspace is resolved before it is tested for being a link, so a task whose
  worktree became a link to the worktree of another task is resumed in that one.\<close>

lemma resume_follows_link:
  "let G = sample_host\<lparr>gh_real := (\<lambda>w p. if p = [lit ''data'', lit ''worktrees'', lit ''a''] then [lit ''data'', lit ''worktrees'', lit ''b''] else p),
        gh_is_dir := (\<lambda>w p. True), gh_is_link := (\<lambda>w p. p = [lit ''data'', lit ''worktrees'', lit ''a''])\<rparr>;
      ws = \<lparr>vw_task_id = sample_task, vw_root = [lit ''data'', lit ''worktrees'', lit ''a''], vw_repository_root = [lit ''repo''],
        vw_repository_identity_sha256 = replicate 64 97, vw_base_commit = replicate 40 97,
        vw_config_sha256 = replicate 64 98, vw_capability_sha256 = replicate 64 97, vw_isolated = True\<rparr>
   in fst (validate_resume G [lit ''data''] ws sample_config []) = Inr ws"
  by code_simp

end
