(* ===== verification/Providers.thy ===== *)
theory Providers
  imports Context Config
begin

text \<open>
  \<^verbatim>\<open>security/provider_errors.py\<close>, \<^verbatim>\<open>adapters/credentials/keyring_store.py\<close>,
  \<^verbatim>\<open>adapters/llm/openai_client.py\<close> and \<^verbatim>\<open>adapters/llm/openai_factory.py\<close>: the credential store over a
  keyring, and the client of the provider. The keyring and the provider's library are parameters.
  The main theorem says that no exception of the keyring gets out, and what each operation does.
\<close>

section \<open>Provider errors\<close>

datatype provider_error_code =
  CREDENTIAL_MISSING | CREDENTIAL_UNAVAILABLE | PROVIDER_UNAVAILABLE | INVALID_PROVIDER_RESPONSE

primrec provider_message :: "provider_error_code \<Rightarrow> string" where
  "provider_message CREDENTIAL_MISSING = ''credential is not configured''"
| "provider_message CREDENTIAL_UNAVAILABLE = ''credential store unavailable''"
| "provider_message PROVIDER_UNAVAILABLE = ''provider request failed''"
| "provider_message INVALID_PROVIDER_RESPONSE = ''provider response is invalid''"

text \<open>The exception is identified by its message; the messages differ.\<close>

definition provider_error :: "provider_error_code \<Rightarrow> exn" where
  "provider_error code = ProviderError (provider_message code)"

lemma provider_error_inj: "provider_error c = provider_error d \<longleftrightarrow> c = d"
  by (cases c; cases d) (simp_all add: provider_error_def)

section \<open>Credentials\<close>

text \<open>What the keyring answers, for the service and the user of the store; it may raise anything.\<close>

datatype keyring_value = NoPassword | Password pystr | NotText

record 'w keyring =
  kr_get :: "('w, keyring_value) prog"
  kr_set :: "pystr \<Rightarrow> ('w, unit) prog"
  kr_delete :: "('w, unit) prog"

text \<open>\<open>except Exception: raise ProviderError(code) from None\<close>.\<close>

definition or_unavailable :: "provider_error_code \<Rightarrow> ('w, 'a) prog \<Rightarrow> ('w, 'a) prog" where
  "or_unavailable code m w = (case m w of (Inl _, w') \<Rightarrow> (Inl (provider_error code), w') | x \<Rightarrow> x)"

definition read_optional :: "'w keyring \<Rightarrow> ('w, pystr option) prog" where
  "read_optional K = bind_prog (or_unavailable CREDENTIAL_UNAVAILABLE (kr_get K)) (\<lambda>v.
     case v of
       NoPassword \<Rightarrow> ret None
     | Password s \<Rightarrow> if s = [] then raise (provider_error CREDENTIAL_UNAVAILABLE) else ret (Some s)
     | NotText \<Rightarrow> raise (provider_error CREDENTIAL_UNAVAILABLE))"

definition write_value :: "'w keyring \<Rightarrow> pystr \<Rightarrow> ('w, unit) prog" where
  "write_value K value = or_unavailable CREDENTIAL_UNAVAILABLE (kr_set K value)"

definition validate_value :: "pystr \<Rightarrow> unit res" where
  "validate_value value =
     require (value \<noteq> [] \<and> \<not> has_any [13, 10, 0] value) (provider_error CREDENTIAL_UNAVAILABLE)"

definition credential_set :: "'w keyring \<Rightarrow> pystr \<Rightarrow> ('w, unit) prog" where
  "credential_set K value =
     bind_prog (lift_res (validate_value value)) (\<lambda>_.
     bind_prog (read_optional K) (\<lambda>v.
       if v \<noteq> None then raise (provider_error CREDENTIAL_UNAVAILABLE) else write_value K value))"

definition credential_status :: "'w keyring \<Rightarrow> ('w, bool) prog" where
  "credential_status K = bind_prog (read_optional K) (\<lambda>v. ret (v \<noteq> None))"

definition credential_update :: "'w keyring \<Rightarrow> pystr \<Rightarrow> ('w, unit) prog" where
  "credential_update K value =
     bind_prog (lift_res (validate_value value)) (\<lambda>_.
     bind_prog (read_optional K) (\<lambda>v.
       if v = None then raise (provider_error CREDENTIAL_MISSING) else write_value K value))"

definition credential_clear :: "'w keyring \<Rightarrow> ('w, unit) prog" where
  "credential_clear K = bind_prog (read_optional K) (\<lambda>v.
     if v = None then ret () else or_unavailable CREDENTIAL_UNAVAILABLE (kr_delete K))"

definition read_for_provider :: "'w keyring \<Rightarrow> ('w, pystr) prog" where
  "read_for_provider K = bind_prog (read_optional K) (\<lambda>v.
     case v of None \<Rightarrow> raise (provider_error CREDENTIAL_MISSING) | Some s \<Rightarrow> ret s)"

section \<open>The client\<close>

text \<open>\<open>json.dumps(context.model_dump(mode="json"), ensure_ascii=False, ...)\<close>: the fields in their order.\<close>

fun json_in_order :: "json \<Rightarrow> pystr" where
  "json_in_order (JArr vs) = 91 # join [44] (map json_in_order vs) @ [93]"
| "json_in_order (JObj kvs) =
     123 # join [44] (map (\<lambda>(k, t). dump_str k @ 58 # t) (map (\<lambda>(k, v). (k, json_in_order v)) kvs)) @ [125]"
| "json_in_order j = json_dumps j"

definition context_json :: "prompt_context \<Rightarrow> json" where
  "context_json c = JObj
     [(lit ''user_task'', JStr (pc_user_task c)), (lit ''config_summary'', JStr (pc_config_summary c)),
      (lit ''action_schema'', JArr (map JStr (pc_action_schema c))),
      (lit ''workspace_summary'', JStr (pc_workspace_summary c)),
      (lit ''history'', JArr (map (\<lambda>h. JObj [(lit ''action_type'', JStr (he_action_type h)),
         (lit ''safe_result'', JStr (he_safe_result h))]) (pc_history c))),
      (lit ''feedback_summary'', case pc_feedback_summary c of None \<Rightarrow> JNull | Some f \<Rightarrow> JStr f),
      (lit ''remaining_actions'', JInt (pc_remaining_actions c)),
      (lit ''remaining_feedback'', JInt (pc_remaining_feedback c)), (lit ''sha256'', JStr (pc_sha256 c))]"

text \<open>A request to the provider, and its answer: the \<open>output_text\<close>, if it is a string.\<close>

record provider_request =
  rq_model :: pystr
  rq_input :: pystr
  rq_max_output_tokens :: int
  rq_timeout :: int

record 'w llm_client =
  lc_create :: "provider_request \<Rightarrow> ('w, pystr option) prog"
  lc_model :: pystr
  lc_timeout :: int
  lc_max_output_tokens :: int

definition positive_int :: "int \<Rightarrow> string \<Rightarrow> int res" where
  "positive_int n name = (if 0 < n then Inr n else Inl (ValueError (name @ '' must be a positive integer'')))"

definition new_client ::
    "(provider_request \<Rightarrow> ('w, pystr option) prog) \<Rightarrow> pystr option \<Rightarrow> int \<Rightarrow> int \<Rightarrow> 'w llm_client res" where
  "new_client create model timeout max_tokens =
     (case model of
        None \<Rightarrow> Inl (ValueError ''provider model is not configured'')
      | Some m \<Rightarrow>
          if m = [] then Inl (ValueError ''provider model is not configured'')
          else bind_res (positive_int timeout ''timeout_seconds'') (\<lambda>t.
               bind_res (positive_int max_tokens ''max_output_tokens'') (\<lambda>k.
               Inr \<lparr>lc_create = create, lc_model = m, lc_timeout = t, lc_max_output_tokens = k\<rparr>)))"

definition generate :: "'w llm_client \<Rightarrow> prompt_context \<Rightarrow> ('w, pystr) prog" where
  "generate C c =
     bind_prog (or_unavailable PROVIDER_UNAVAILABLE (lc_create C
         \<lparr>rq_model = lc_model C, rq_input = json_in_order (context_json c),
          rq_max_output_tokens = lc_max_output_tokens C, rq_timeout = lc_timeout C\<rparr>)) (\<lambda>output.
     case output of
       Some s \<Rightarrow> if strip s \<noteq> [] then ret s else raise (provider_error INVALID_PROVIDER_RESPONSE)
     | None \<Rightarrow> raise (provider_error INVALID_PROVIDER_RESPONSE))"

text \<open>\<open>OpenAIClientFactory.create\<close>: the library's constructor takes the key and the timeout, without retries.\<close>

definition create_client ::
    "'w keyring \<Rightarrow> (pystr \<Rightarrow> int \<Rightarrow> int \<Rightarrow> ('w, provider_request \<Rightarrow> ('w, pystr option) prog) prog)
     \<Rightarrow> pystr option \<Rightarrow> int \<Rightarrow> int \<Rightarrow> ('w, 'w llm_client) prog" where
  "create_client K sdk model timeout max_tokens =
     bind_prog (\<lambda>w. case bind_prog (read_for_provider K) (\<lambda>api_key. sdk api_key timeout 0) w of
         (Inl (ProviderError m), w') \<Rightarrow> (Inl (ProviderError m), w')
       | (Inl _, w') \<Rightarrow> (Inl (provider_error PROVIDER_UNAVAILABLE), w')
       | x \<Rightarrow> x) (\<lambda>create.
     lift_res (new_client create model timeout max_tokens))"

definition PROVIDER_TIMEOUT_SECONDS :: int where
  "PROVIDER_TIMEOUT_SECONDS = 60"

definition PROVIDER_MAX_OUTPUT_TOKENS :: int where
  "PROVIDER_MAX_OUTPUT_TOKENS = 4096"

definition config_model :: "frozen_config \<Rightarrow> pystr option" where
  "config_model c =
     (case Option.bind (map_of (fc_sections c) ''llm'') (\<lambda>s. map_of s ''model'') of
        Some (JStr m) \<Rightarrow> Some m | _ \<Rightarrow> None)"

definition build_real_llm ::
    "'w keyring \<Rightarrow> (pystr \<Rightarrow> int \<Rightarrow> int \<Rightarrow> ('w, provider_request \<Rightarrow> ('w, pystr option) prog) prog)
     \<Rightarrow> frozen_config \<Rightarrow> ('w, 'w llm_client) prog" where
  "build_real_llm K sdk config =
     create_client K sdk (config_model config) PROVIDER_TIMEOUT_SECONDS PROVIDER_MAX_OUTPUT_TOKENS"

section \<open>What the operations do\<close>

lemma or_unavailable_cases:
  assumes "or_unavailable code m w = (r, w')"
  obtains (ok) x where "m w = (Inr x, w')" "r = Inr x"
  | (failed) e where "m w = (Inl e, w')" "r = Inl (provider_error code)"
  using assms by (auto simp: or_unavailable_def split: prod.splits sum.splits)

lemma read_optional_cases:
  assumes "read_optional K w = (r, w')"
  obtains (none) "kr_get K w = (Inr NoPassword, w')" "r = Inr None"
  | (some) s where "kr_get K w = (Inr (Password s), w')" "s \<noteq> []" "r = Inr (Some s)"
  | (failed) "r = Inl (provider_error CREDENTIAL_UNAVAILABLE)"
  using assms
  by (auto simp: read_optional_def bind_prog_def ret_app raise_app split: prod.splits sum.splits keyring_value.splits if_splits
      elim!: or_unavailable_cases)

text \<open>The outcomes of the store's operations, with the keyring's own exceptions replaced.\<close>

definition sanitized :: "'a res \<Rightarrow> bool" where
  "sanitized r \<longleftrightarrow> (case r of Inr _ \<Rightarrow> True | Inl e \<Rightarrow> (\<exists>code. e = provider_error code))"

lemma sanitized_simps [simp]: "sanitized (Inr x)" "sanitized (Inl (provider_error c))"
  by (auto simp: sanitized_def)

lemma validate_value_cases:
  "validate_value v = (if v = [] \<or> has_any [13, 10, 0] v then Inl (provider_error CREDENTIAL_UNAVAILABLE) else Inr ())"
  by (auto simp: validate_value_def require_def)

lemma read_outcome:
  assumes "read_for_provider K w = (r, w')"
  shows "sanitized r \<and> (\<forall>key. r = Inr key \<longrightarrow> kr_get K w = (Inr (Password key), w') \<and> key \<noteq> [])"
proof -
  obtain q v where q: "read_optional K w = (q, v)" by fastforce
  from q show ?thesis
    using assms by (cases rule: read_optional_cases)
      (auto simp: read_for_provider_def bind_prog_def q ret_app raise_app split: option.splits)
qed

lemma clear_outcome:
  assumes "credential_clear K w = (r, w')"
  shows "sanitized r \<and> (r = Inr () \<longrightarrow> kr_get K w = (Inr NoPassword, w')
    \<or> (\<exists>s u. kr_get K w = (Inr (Password s), u) \<and> kr_delete K u = (Inr (), w')))"
proof -
  obtain q v where q: "read_optional K w = (q, v)" by fastforce
  from q show ?thesis
    using assms by (cases rule: read_optional_cases)
      (auto simp: credential_clear_def bind_prog_def q ret_app raise_app elim!: or_unavailable_cases)
qed

lemma set_outcome:
  assumes "credential_set K v w = (r, w')"
  shows "sanitized r \<and> (r = Inr () \<longrightarrow> v \<noteq> [] \<and> 10 \<notin> set v
    \<and> (\<exists>u. kr_get K w = (Inr NoPassword, u) \<and> kr_set K v u = (Inr (), w')))"
proof -
  obtain q x where q: "read_optional K w = (q, x)" by fastforce
  from q show ?thesis
    using assms by (cases rule: read_optional_cases)
      (auto simp: credential_set_def write_value_def bind_prog_def q ret_app raise_app
        validate_value_cases has_any_iff split: if_splits elim!: or_unavailable_cases)
qed

lemma update_outcome:
  assumes "credential_update K v w = (r, w')"
  shows "sanitized r \<and> (r = Inr () \<longrightarrow> v \<noteq> [] \<and> 10 \<notin> set v
    \<and> (\<exists>s u. kr_get K w = (Inr (Password s), u) \<and> kr_set K v u = (Inr (), w')))"
proof -
  obtain q x where q: "read_optional K w = (q, x)" by fastforce
  from q show ?thesis
    using assms by (cases rule: read_optional_cases)
      (auto simp: credential_update_def write_value_def bind_prog_def q ret_app raise_app
        validate_value_cases has_any_iff split: if_splits elim!: or_unavailable_cases)
qed

text \<open>C31. Each operation of the credential store succeeds or raises one of the fixed provider errors,
  whatever the keyring raises. A successful \<open>set\<close> found no credential and stored a valid value; a
  successful \<open>update\<close> found one; \<open>clear\<close> without a credential touches nothing; and a key is given to
  the provider only as the keyring holds it.\<close>

theorem credential_operations:
  assumes "credential_set K v w = (r1, w1)" "credential_update K v w = (r2, w2)"
    and "credential_clear K w = (r3, w3)" "read_for_provider K w = (r4, w4)"
  shows "sanitized r1 \<and> sanitized r2 \<and> sanitized r3 \<and> sanitized r4
    \<and> (r1 = Inr () \<longrightarrow> v \<noteq> [] \<and> 10 \<notin> set v
        \<and> (\<exists>u. kr_get K w = (Inr NoPassword, u) \<and> kr_set K v u = (Inr (), w1)))
    \<and> (r2 = Inr () \<longrightarrow> v \<noteq> [] \<and> 10 \<notin> set v
        \<and> (\<exists>s u. kr_get K w = (Inr (Password s), u) \<and> kr_set K v u = (Inr (), w2)))
    \<and> (r3 = Inr () \<longrightarrow> kr_get K w = (Inr NoPassword, w3)
        \<or> (\<exists>s u. kr_get K w = (Inr (Password s), u) \<and> kr_delete K u = (Inr (), w3)))
    \<and> (\<forall>key. r4 = Inr key \<longrightarrow> kr_get K w = (Inr (Password key), w4) \<and> key \<noteq> [])"
  using set_outcome[OF assms(1)] update_outcome[OF assms(2)] clear_outcome[OF assms(3)] read_outcome[OF assms(4)]
  by blast

section \<open>A sample keyring\<close>

definition sample_keyring :: "pystr option keyring" where
  "sample_keyring = \<lparr>kr_get = (\<lambda>w. (Inr (case w of None \<Rightarrow> NoPassword | Some s \<Rightarrow> Password s), w)),
     kr_set = (\<lambda>v w. (Inr (), Some v)), kr_delete = (\<lambda>w. (Inr (), None))\<rparr>"

theorem credential_operations_witness:
  "credential_set sample_keyring (lit ''k'') None = (Inr (), Some (lit ''k''))
   \<and> (\<exists>u. kr_get sample_keyring None = (Inr NoPassword, u) \<and> kr_set sample_keyring (lit ''k'') u = (Inr (), Some (lit ''k'')))"
proof -
  have s: "credential_set sample_keyring (lit ''k'') None = (Inr (), Some (lit ''k''))" by code_simp
  obtain r2 w2 r3 w3 r4 w4 where
    "credential_update sample_keyring (lit ''k'') None = (r2, w2)"
    "credential_clear sample_keyring None = (r3, w3)" "read_for_provider sample_keyring None = (r4, w4)"
    by fastforce
  from credential_operations[OF s this] s show ?thesis by blast
qed

end
