(* ===== verification/StoreRefinement.thy ===== *)
theory StoreRefinement
  imports SessionStore
begin

text \<open>
  The core over the SQLite store refines the core over a map. The map's store is the in-memory one
  with the two checks the database adds: a session is loaded only if its models validate, and saved
  only if its envelope can be printed and encoded. Both cores are the same programs over different
  collaborators, so the refinement is proved once for each way the core combines programs.
\<close>

section \<open>The store as a checked map\<close>

text \<open>What \<open>session_store.save\<close> accepts, for a session with the given bound workspace.\<close>

definition storable :: "json \<Rightarrow> core_session \<Rightarrow> bool" where
  "storable ws s \<longleftrightarrow> json_printable (envelope_json s ws) \<and> json_encodable (envelope_json s ws)"

definition map_load :: "task_id \<Rightarrow> ('x mem_world, core_session) prog" where
  "map_load t = bind_prog (mem_load t) (\<lambda>s.
     if valid_session s then ret s else raise (ValueError ''session state is invalid''))"

definition map_save :: "(task_id \<Rightarrow> json) \<Rightarrow> core_session \<Rightarrow> ('x mem_world, unit) prog" where
  "map_save workspaces s =
     (if storable (workspaces (cs_task_id s)) s then mem_save s
      else raise (ValueError ''session state could not be saved''))"

definition map_core :: "(task_id \<Rightarrow> json) \<Rightarrow> 'x components \<Rightarrow> 'x mem_world core_deps" where
  "map_core workspaces C = (in_memory_core C)\<lparr>dp_load := map_load, dp_save := map_save workspaces\<rparr>"

text \<open>A map and a database that hold the same: the database's rows are readable, its sessions are the map's,
  its workspaces the given ones, and the status column agrees with the sessions.\<close>

definition holds_same :: "(task_id \<Rightarrow> json) \<Rightarrow> 'x mem_world \<Rightarrow> 'x db_world \<Rightarrow> bool" where
  "holds_same workspaces v w \<longleftrightarrow> store_ok (dw_db w) \<and> mw_sessions v = db_sessions (dw_db w)
     \<and> db_workspace (dw_db w) = workspaces \<and> mw_rest v = dw_rest w
     \<and> (\<forall>t s. db_sessions (dw_db w) t = Some s \<longrightarrow>
          map_option tk_status (map_of (db_tasks (dw_db w)) t) = Some (cs_status s))"

section \<open>Programs that agree\<close>

definition fails :: "'a res \<Rightarrow> bool" where
  "fails r \<longleftrightarrow> (case r of Inl _ \<Rightarrow> True | Inr _ \<Rightarrow> False)"

lemma fails_simps [simp]: "fails (Inl e)" "\<not> fails (Inr x)"
  by (simp_all add: fails_def)

text \<open>From related worlds, two programs lead to related worlds, with the same result or both failing; with
  \<open>exact\<close>, always with the same result.\<close>

definition agree :: "bool \<Rightarrow> ('v \<Rightarrow> 'w \<Rightarrow> bool) \<Rightarrow> ('v, 'a) prog \<Rightarrow> ('w, 'a) prog \<Rightarrow> bool" where
  "agree exact R m p \<longleftrightarrow> (\<forall>v w. R v w \<longrightarrow> R (snd (m v)) (snd (p w))
     \<and> (fst (m v) = fst (p w) \<or> \<not> exact \<and> fails (fst (m v)) \<and> fails (fst (p w))))"

named_theorems agreeing

lemma agree_weaken: "agree True R m p \<Longrightarrow> agree False R m p"
  by (auto simp: agree_def)

lemma agreeD:
  assumes "agree exact R m p" "R v w" "m v = (q, v')" "p w = (r, w')"
  shows "R v' w' \<and> (q = r \<or> \<not> exact \<and> fails q \<and> fails r)"
  using assms unfolding agree_def by (metis fst_conv snd_conv)

lemma agree_bind [agreeing]:
  assumes "agree exact R m p" "\<And>x. agree exact R (f x) (g x)"
  shows "agree exact R (bind_prog m f) (bind_prog p g)"
  unfolding agree_def
proof (intro allI impI)
  fix v w assume R: "R v w"
  obtain q v' r w' where mp: "m v = (q, v')" "p w = (r, w')" by fastforce
  note a = agreeD[OF assms(1) R mp]
  show "R (snd (bind_prog m f v)) (snd (bind_prog p g w)) \<and>
      (fst (bind_prog m f v) = fst (bind_prog p g w) \<or>
       \<not> exact \<and> fails (fst (bind_prog m f v)) \<and> fails (fst (bind_prog p g w)))"
  proof (cases q)
    case (Inl e)
    then show ?thesis using a mp by (cases r) (auto simp: bind_prog_def fails_def)
  next
    case (Inr x)
    then have "r = Inr x" using a by auto
    then show ?thesis using a mp Inr assms(2)[of x] by (simp add: bind_prog_def agree_def)
  qed
qed

lemma agree_catch [agreeing]:
  assumes "agree True R m p" "agree False R h k" "\<And>x. agree False R (f x) (g x)"
  shows "agree False R (catch_value m h f) (catch_value p k g)"
  unfolding agree_def
proof (intro allI impI)
  fix v w assume R: "R v w"
  obtain q v' r w' where mp: "m v = (q, v')" "p w = (r, w')" by fastforce
  then have R': "R v' w'" and q: "q = r" using agreeD[OF assms(1) R mp] by auto
  have h: "R (snd (h v')) (snd (k w')) \<and> (fst (h v') = fst (k w') \<or> fails (fst (h v')) \<and> fails (fst (k w')))"
    using assms(2) R' unfolding agree_def by blast
  have f: "R (snd (f x v')) (snd (g x w')) \<and> (fst (f x v') = fst (g x w') \<or> fails (fst (f x v')) \<and> fails (fst (g x w')))" for x
    using assms(3)[of x] R' unfolding agree_def by blast
  then show "R (snd (catch_value m h f v)) (snd (catch_value p k g w)) \<and>
      (fst (catch_value m h f v) = fst (catch_value p k g w) \<or>
       \<not> False \<and> fails (fst (catch_value m h f v)) \<and> fails (fst (catch_value p k g w)))"
    using mp q R' h f by (cases r) (simp_all add: catch_value_def)
qed

lemma agree_plain [agreeing]:
  "agree exact R (ret x) (ret x)" "agree exact R (lift_res r) (lift_res r)" "agree exact R (raise e) (raise e)"
  by (simp_all add: agree_def ret_def raise_def)

lemma agree_if [agreeing]:
  "agree exact R m p \<Longrightarrow> agree exact R m' p' \<Longrightarrow> agree exact R (if b then m else m') (if b then p else p')"
  by simp

lemma agree_rest [agreeing]: "agree exact (holds_same W) (on_rest m) (on_other m)"
  by (auto simp: agree_def holds_same_def on_rest_def on_other_def split: prod.splits)

section \<open>The two stores agree\<close>

lemma agree_load: "agree False (holds_same W) (map_load t) (on_db (store_load t))"
  unfolding agree_def
proof (intro allI impI)
  fix v :: "'x mem_world" and w :: "'x db_world"
  assume R: "holds_same W v w"
  note same = R[unfolded holds_same_def]
  show "holds_same W (snd (map_load t v)) (snd (on_db (store_load t) w)) \<and>
      (fst (map_load t v) = fst (on_db (store_load t) w) \<or>
       \<not> False \<and> fails (fst (map_load t v)) \<and> fails (fst (on_db (store_load t) w)))"
  proof (cases "map_of (db_feedback (dw_db w)) t")
    case None
    then have "mw_sessions v t = None" using same by (simp add: db_sessions_def)
    then show ?thesis using None R by (simp add: map_load_def mem_load_def bind_prog_def on_db_def store_load_def)
  next
    case (Some row)
    then obtain s ws where "row_of t s ws row" using same unfolding store_ok_def by blast
    then have s: "row_session row = Some s" "cs_task_id s = t" "mw_sessions v t = Some s"
      using row_of_reads[of t s ws row] Some same by (auto simp: row_of_def db_sessions_def)
    then have "fst (get_task_status t (dw_db w)) = Inr (cs_status s)"
      using same by (fastforce simp: get_task_status_def split: option.splits)
    then show ?thesis using s Some R
      by (simp add: map_load_def mem_load_def bind_prog_def on_db_def store_load_def ret_app raise_app)
  qed
qed

lemma store_save_storable:
  assumes "store_ok d" "store_save s d = (Inr (), d')"
  shows "storable (db_workspace d (cs_task_id s)) s"
proof (cases "map_of (db_feedback d) (cs_task_id s)")
  case (Some row)
  then obtain s0 ws where "row_of (cs_task_id s) s0 ws row" using assms(1) unfolding store_ok_def by blast
  from row_of_reads[OF this] Some show ?thesis
    using assms(2) by (auto simp: store_save_def Let_def storable_def db_workspace_def split: if_splits)
qed (use assms(2) in \<open>auto simp: store_save_def Let_def storable_def db_workspace_def split: if_splits\<close>)

lemma agree_save: "agree False (holds_same W) (map_save W s) (on_db (store_save s))"
  unfolding agree_def
proof (intro allI impI)
  fix v :: "'x mem_world" and w :: "'x db_world"
  assume R: "holds_same W v w"
  note same = R[unfolded holds_same_def]
  then have "store_ok (dw_db w)" by simp
  then show "holds_same W (snd (map_save W s v)) (snd (on_db (store_save s) w)) \<and>
      (fst (map_save W s v) = fst (on_db (store_save s) w) \<or>
       \<not> False \<and> fails (fst (map_save W s v)) \<and> fails (fst (on_db (store_save s) w)))"
  proof (cases rule: store_save_cases[of "dw_db w" s])
    case (1 e)
    then have "\<not> storable (W (cs_task_id s)) s" using same by (auto simp: storable_def)
    then show ?thesis using 1 R by (simp add: map_save_def on_db_def raise_app)
  next
    case (2 d')
    note put = store_ok_put[OF \<open>store_ok (dw_db w)\<close> 2(3,2)]
    have "storable (W (cs_task_id s)) s"
      using store_save_storable[OF _ 2(1)] same by auto
    then show ?thesis using 2 put same
      by (auto simp: map_save_def mem_save_def on_db_def holds_same_def)
  qed
qed
section \<open>The two cores agree\<close>

text \<open>Cores over agreeing collaborators.\<close>

definition cores_agree :: "('v \<Rightarrow> 'w \<Rightarrow> bool) \<Rightarrow> 'v core_deps \<Rightarrow> 'w core_deps \<Rightarrow> bool" where
  "cores_agree R D E \<longleftrightarrow>
     (\<forall>t. agree False R (dp_load D t) (dp_load E t)) \<and> (\<forall>s. agree False R (dp_save D s) (dp_save E s))
     \<and> dp_build D = dp_build E \<and> (\<forall>c. agree False R (dp_generate D c) (dp_generate E c))
     \<and> dp_tables D = dp_tables E \<and> dp_evaluate D = dp_evaluate E
     \<and> rel_option (rel_fun (=) (agree True R)) (dp_prepare D) (dp_prepare E)
     \<and> rel_option (rel_fun (=) (agree True R)) (dp_resolve D) (dp_resolve E)
     \<and> (\<forall>a. agree False R (dp_execute D a) (dp_execute E a))
     \<and> (\<forall>p. agree False R (dp_execute_patch D p) (dp_execute_patch E p))
     \<and> agree False R (dp_full_tests D) (dp_full_tests E)
     \<and> dp_analyze D = dp_analyze E \<and> dp_max_actions D = dp_max_actions E
     \<and> dp_max_feedback D = dp_max_feedback E"

lemma agree_cases [agreeing]:
  "(x = None \<Longrightarrow> agree exact R m p) \<Longrightarrow> (\<And>y. x = Some y \<Longrightarrow> agree exact R (f y) (g y)) \<Longrightarrow>
    agree exact R (case x of None \<Rightarrow> m | Some y \<Rightarrow> f y) (case x of None \<Rightarrow> p | Some y \<Rightarrow> g y)"
  by (cases x) auto

lemma core_step_agree:
  assumes "cores_agree R D E"
  shows "agree False R (core_step D t) (core_step E t)"
proof -
  note [simp] = assms[unfolded cores_agree_def]
  have save: "agree False R (save_as D s r) (save_as E s r)" for s r
    unfolding save_as_def by (intro agreeing) simp
  have gate: "agree False R (feedback_gate D s ph k) (feedback_gate E s ph k)" for s ph k
    unfolding feedback_gate_def by (auto intro!: agreeing save)
  have tests: "agree False R (consider_tests D s ex) (consider_tests E s ex)" for s ex
    unfolding consider_tests_def Let_def by (auto intro!: agreeing save gate)
  have perform: "agree False R (perform D s a p) (perform E s a p)" for s a p
    unfolding perform_def by (cases p) (auto intro!: agreeing save tests)
  have refuse: "agree False R (refuse D s r) (refuse E s r)" for s r
    unfolding refuse_def by (auto intro!: agreeing save)
  have govern: "agree False R (govern D s a p f) (govern E s a p f)" for s a p f
    unfolding govern_def Let_def
    by (auto intro!: agreeing save refuse perform split: policy_outcome.split)
  have failed: "agree False R (prepare_failed D s m) (prepare_failed E s m)" for s m
    unfolding prepare_failed_def by (intro agreeing save)
  have patch: "agree False R (govern_patch D s diff) (govern_patch E s diff)" for s diff
  proof (cases "dp_prepare D = None \<or> dp_resolve D = None")
    case True
    then have "dp_prepare E = None \<or> dp_resolve E = None"
      using assms unfolding cores_agree_def by (cases "dp_prepare E"; cases "dp_resolve E") auto
    with True show ?thesis unfolding govern_patch_def
      by (auto intro!: failed split: option.split)
  next
    case False
    then obtain m n p q where "dp_prepare D = Some m" "dp_resolve D = Some n" "dp_prepare E = Some p"
      "dp_resolve E = Some q" "\<And>x. agree True R (m x) (p x)" "\<And>x. agree True R (n x) (q x)"
      using assms unfolding cores_agree_def by (auto simp: rel_fun_def option_rel_Some1)
    then show ?thesis unfolding govern_patch_def
      by (auto intro!: agreeing failed govern)
  qed
  have decide: "agree False R (decide D s raw) (decide E s raw)" for s raw
    unfolding decide_def by (auto intro!: agreeing refuse save patch govern split: sum.split action.split)
  have "session_snapshot D = session_snapshot E"
    by (simp add: session_snapshot_def fun_eq_iff)
  then show ?thesis
    unfolding core_step_def by (auto intro!: agreeing save decide)
qed

lemma core_run_agree: "cores_agree R D E \<Longrightarrow> agree False R (core_run D fuel t) (core_run E fuel t)"
  by (induction fuel) (auto intro!: agreeing core_step_agree)


lemma resume_task_agree:
  assumes "cores_agree R D E"
  shows "agree False R (resume_task (service_of D) fuel t) (resume_task (service_of E) fuel t)"
  using assms core_run_agree[OF assms]
  by (auto simp: resume_task_def service_of_def cores_agree_def intro!: agreeing)

lemma map_core_agrees: "cores_agree (holds_same W) (map_core W C) (persistent_core C)"
  unfolding cores_agree_def map_core_def in_memory_core_def persistent_core_def
  by (auto simp: rel_fun_def option.rel_map intro!: agreeing agree_load agree_save option.rel_refl_strong)

text \<open>C10. The database adds nothing but its checks: from a map and a database that hold the same sessions, the
  core over the SQLite store and the core over the checked map return the same outcome or both
  raise, and leave the two holding the same sessions, the bound workspaces and the collaborators'
  world included.\<close>

theorem sqlite_core_refines_map:
  assumes "holds_same W v w" "core_run (persistent_core C) fuel t w = (r, w')"
    and "core_run (map_core W C) fuel t v = (q, v')"
  shows "holds_same W v' w' \<and> (q = r \<or> fails q \<and> fails r)"
  using agreeD[OF core_run_agree[OF map_core_agrees] assms(1,3,2)] by simp
text \<open>The demo over the database.\<close>

lemma demo_over_map:
  "fst (core_run (map_core (\<lambda>_. JNull) plain_components) 41 demo_task_id (demo_world demo_script (lit ''fix'')))
     = Inr (Some \<lparr>co_status = SUCCEEDED, co_action_count = 1, co_feedback_count = 1, co_reason = ''tests_passed''\<rparr>)"
  by code_simp

lemma empty_same: "holds_same (\<lambda>_. JNull) \<lparr>mw_sessions = (\<lambda>_. None), mw_rest = x\<rparr> \<lparr>dw_db = empty_db, dw_rest = x\<rparr>"
  using empty_db_sessions by (auto simp: holds_same_def)

lemma demo_same:
  assumes "store_save (demo_session (lit ''fix'')) empty_db = (r, d)"
  shows "holds_same (\<lambda>_. JNull) (demo_world script (lit ''fix'')) \<lparr>dw_db = d, dw_rest = scripted script\<rparr>"
  using agreeD[OF agree_save empty_same, of "demo_session (lit ''fix'')" "scripted script"] assms
    demo_session_printable(1,2)
  by (simp add: map_save_def storable_def mem_save_def on_db_def demo_world_def demo_session_def)

theorem sqlite_core_refines_map_witness:
  "fst (core_run (persistent_core plain_components) 41 demo_task_id
      \<lparr>dw_db = snd (store_save (demo_session (lit ''fix'')) empty_db), dw_rest = scripted demo_script\<rparr>)
    = Inr (Some \<lparr>co_status = SUCCEEDED, co_action_count = 1, co_feedback_count = 1, co_reason = ''tests_passed''\<rparr>)"
proof -
  let ?w = "\<lparr>dw_db = snd (store_save (demo_session (lit ''fix'')) empty_db), dw_rest = scripted demo_script\<rparr>"
  obtain r w' where r: "core_run (persistent_core plain_components) 41 demo_task_id ?w = (r, w')" by fastforce
  obtain q v' where q: "core_run (map_core (\<lambda>_. JNull) plain_components) 41 demo_task_id
      (demo_world demo_script (lit ''fix'')) = (q, v')" by fastforce
  from sqlite_core_refines_map[OF demo_same[OF surjective_pairing] r q] demo_over_map r q show ?thesis by auto
qed

end
