(* ===== verification/Composition.thy ===== *)
theory Composition
  imports Workspaces Providers StoreRefinement PytestRunner
begin

text \<open>
  \<^verbatim>\<open>composition.py\<close>: the real runtime (\<open>run\<close>, \<open>status\<close>, \<open>resume\<close>), how the default one is wired from the
  adapters, and the offline demo runtime and its router. A command line builds a runtime object per
  command, so the object's configuration is the one it was built with or the one it loads. The
  world is the database and whatever the collaborators use. The workspace boundary is an interface:
  its laws are proved for the git worktrees, and the theorems on \<open>run\<close> and \<open>resume\<close> rest on them.
\<close>

section \<open>The collaborators\<close>

text \<open>What \<open>component_factory\<close> makes for a workspace.\<close>

record 'x tools =
  to_execute :: "action \<Rightarrow> ('x, action_execution) prog"
  to_execute_patch :: "prepared_patch \<Rightarrow> ('x, action_execution) prog"
  to_full_tests :: "('x, action_execution) prog"
  to_prepare :: "pystr \<Rightarrow> ('x, prepared_patch) prog"
  to_resolve :: "prepared_patch \<Rightarrow> ('x, patch_safety) prog"

text \<open>\<open>_UnavailableDependency\<close>: every attribute raises.\<close>

definition unavailable :: "('x, 'a) prog" where
  "unavailable = raise (RuntimeError ''runtime dependency is unavailable'')"

definition unavailable_tools :: "'x tools" where
  "unavailable_tools = \<lparr>to_execute = (\<lambda>_. unavailable), to_execute_patch = (\<lambda>_. unavailable),
     to_full_tests = unavailable, to_prepare = (\<lambda>_. unavailable), to_resolve = (\<lambda>_. unavailable)\<rparr>"

record 'x runtime =
  rt_resolve :: "'x \<Rightarrow> pystr \<Rightarrow> pystr list res"
  rt_real :: "'x \<Rightarrow> pystr list \<Rightarrow> pystr list"
  rt_inspect :: "(pystr \<Rightarrow> ('x, verified_repository) prog) option"
  rt_load_config :: "(pystr \<Rightarrow> pystr \<Rightarrow> ('x, frozen_config) prog) option"
  rt_config :: "frozen_config option"
  rt_provider :: "frozen_config \<Rightarrow> ('x, prompt_context \<Rightarrow> ('x, raw_action) prog) prog"
  rt_new_task :: "('x, task_id) prog"
  rt_prepare :: "pystr \<Rightarrow> task_id \<Rightarrow> frozen_config \<Rightarrow> bool \<Rightarrow> ('x, verified_workspace) prog"
  rt_check :: "verified_workspace \<Rightarrow> ('x, verified_workspace) prog"
  rt_validate :: "verified_workspace \<Rightarrow> frozen_config \<Rightarrow> ('x, verified_workspace) prog"
  rt_tools :: "verified_workspace \<Rightarrow> task_id \<Rightarrow> frozen_config \<Rightarrow> ('x, 'x tools) prog"
  rt_safe :: "pystr \<Rightarrow> pystr"
  rt_sha :: "bytes \<Rightarrow> pystr"
  rt_tables :: unicode_tables

section \<open>Reading the configuration\<close>

definition config_json_field :: "frozen_config \<Rightarrow> string \<Rightarrow> string \<Rightarrow> json option" where
  "config_json_field c s f = Option.bind (map_of (fc_sections c) s) (\<lambda>fs. map_of fs f)"

text \<open>\<open>value or default\<close>: missing and zero both give the default.\<close>

definition int_or_default :: "frozen_config \<Rightarrow> string \<Rightarrow> string \<Rightarrow> int \<Rightarrow> int" where
  "int_or_default c s f d =
     (case config_json_field c s f of Some (JInt n) \<Rightarrow> if n = 0 then d else n | _ \<Rightarrow> d)"

definition model_configured :: "frozen_config option \<Rightarrow> bool" where
  "model_configured c =
     (case Option.bind c config_model of
        None \<Rightarrow> False
      | Some m \<Rightarrow> strip m \<noteq> [] \<and> m \<noteq> lit ''configured-by-user'')"

section \<open>The core of a task\<close>

definition components_of ::
    "'x runtime \<Rightarrow> frozen_config \<Rightarrow> 'x tools \<Rightarrow> (prompt_context \<Rightarrow> ('x, raw_action) prog) \<Rightarrow> 'x components res" where
  "components_of R config T llm =
     bind_res (check_max_history (int_or_default config ''limits'' ''history_window'' 8)) (\<lambda>max_history.
     Inr \<lparr>cm_safe = rt_safe R, cm_sha = rt_sha R, cm_tables = rt_tables R, cm_max_history = max_history,
          cm_generate = llm, cm_prepare = Some (to_prepare T), cm_resolve = Some (to_resolve T),
          cm_execute = to_execute T, cm_execute_patch = to_execute_patch T, cm_full_tests = to_full_tests T,
          cm_max_actions = int_or_default config ''limits'' ''max_actions'' 40,
          cm_max_feedback = int_or_default config ''limits'' ''max_feedback_rounds'' 8\<rparr>)"

text \<open>What a command shows.\<close>

record task_view =
  tv_task_id :: pystr
  tv_status :: task_status
  tv_summary :: pystr

definition outcome_view :: "task_id \<Rightarrow> core_outcome \<Rightarrow> task_view" where
  "outcome_view t out =
     \<lparr>tv_task_id = uuid_str (tid_value t), tv_status = co_status out, tv_summary = lit (co_reason out)\<rparr>"

definition session_view :: "task_id \<Rightarrow> core_session \<Rightarrow> task_view" where
  "session_view t s =
     \<lparr>tv_task_id = uuid_str (tid_value t), tv_status = cs_status s, tv_summary = lit ''task state loaded''\<rparr>"

definition new_session :: "task_id \<Rightarrow> pystr \<Rightarrow> frozen_config \<Rightarrow> core_session" where
  "new_session t description config =
     \<lparr>cs_task_id = t, cs_user_task = description, cs_config_summary = lit ''real:'' @ fc_sha256 config,
      cs_workspace_summary = lit ''verified isolated workspace'', cs_status = DECIDING,
      cs_history = [], cs_previous_result = None, cs_result_history = [],
      cs_feedback_summary = None, cs_action_count = 0, cs_feedback_count = 0\<rparr>"

section \<open>The recorded workspace\<close>

text \<open>\<open>model_dump(mode="json")\<close>, in key order, and \<open>model_validate\<close> without the path validators.\<close>

definition workspace_json :: "verified_workspace \<Rightarrow> json_dict" where
  "workspace_json ws =
     [(lit ''base_commit'', JStr (vw_base_commit ws)), (lit ''capability_sha256'', JStr (vw_capability_sha256 ws)),
      (lit ''config_sha256'', JStr (vw_config_sha256 ws)), (lit ''isolated'', JBool (vw_isolated ws)),
      (lit ''repository_identity_sha256'', JStr (vw_repository_identity_sha256 ws)),
      (lit ''repository_root'', JStr (path_text (vw_repository_root ws))),
      (lit ''root'', JStr (path_text (vw_root ws))),
      (lit ''task_id'', JObj [(lit ''value'', JStr (uuid_str (tid_value (vw_task_id ws))))])]"

definition parse_path :: "pystr \<Rightarrow> pystr list option" where
  "parse_path s = (case s of c # cs \<Rightarrow> if c = 47 then Some (if cs = [] then [] else split_char 47 cs) else None | [] \<Rightarrow> None)"

definition as_path :: "json \<Rightarrow> pystr list option" where
  "as_path j = (case j of JStr s \<Rightarrow> parse_path s | _ \<Rightarrow> None)"

definition as_flag :: "json \<Rightarrow> bool option" where
  "as_flag j = (case j of JBool b \<Rightarrow> Some b | _ \<Rightarrow> None)"

definition workspace_of_json :: "json_dict \<Rightarrow> verified_workspace option" where
  "workspace_of_json d = do {
     guard_opt (only_fields [''base_commit'', ''capability_sha256'', ''config_sha256'', ''isolated'',
       ''repository_identity_sha256'', ''repository_root'', ''root'', ''task_id''] d);
     t \<leftarrow> required decode_task_id d ''task_id'';
     root \<leftarrow> required as_path d ''root'';
     repository \<leftarrow> required as_path d ''repository_root'';
     identity \<leftarrow> required as_str d ''repository_identity_sha256'';
     commit \<leftarrow> required as_str d ''base_commit'';
     config \<leftarrow> required as_str d ''config_sha256'';
     capability \<leftarrow> required as_str d ''capability_sha256'';
     isolated \<leftarrow> required as_flag d ''isolated'';
     Some \<lparr>vw_task_id = t, vw_root = root, vw_repository_root = repository,
           vw_repository_identity_sha256 = identity, vw_base_commit = commit, vw_config_sha256 = config,
           vw_capability_sha256 = capability, vw_isolated = isolated\<rparr> }"


section \<open>Running a task\<close>

definition config_failed :: exn where
  "config_failed = RuntimeError ''configuration is invalid''"

text \<open>\<open>except Exception: raise RuntimeError\<close>.\<close>

definition or_config_failed :: "('w, 'a) prog \<Rightarrow> ('w, 'a) prog" where
  "or_config_failed m w = (case m w of (Inl _, w') \<Rightarrow> (Inl config_failed, w') | x \<Rightarrow> x)"

text \<open>The configuration of a run. Without a preflight there is no base commit to load it at, and
  \<open>facts.base_commit\<close> raises inside the \<open>try\<close>.\<close>

definition runtime_config ::
    "'x runtime \<Rightarrow> pystr list \<Rightarrow> verified_repository option \<Rightarrow> ('x, frozen_config option) prog" where
  "runtime_config R repository facts =
     (case rt_load_config R of
        None \<Rightarrow> ret (rt_config R)
      | Some load \<Rightarrow>
          (case facts of
             None \<Rightarrow> raise config_failed
           | Some f \<Rightarrow> bind_prog (or_config_failed (load (path_text repository) (vr_base_commit f))) (\<lambda>c. ret (Some c))))"

definition given :: "'a option \<Rightarrow> ('w, 'a) prog" where
  "given v = (case v of None \<Rightarrow> raise AttributeError | Some x \<Rightarrow> ret x)"

text \<open>Everything before the stores are opened: the configuration, the client of the provider, the task and
  its isolated workspace.\<close>

definition governed_start ::
    "'x runtime \<Rightarrow> pystr \<Rightarrow> pystr \<Rightarrow> bool
     \<Rightarrow> ('x, frozen_config \<times> (prompt_context \<Rightarrow> ('x, raw_action) prog) \<times> task_id \<times> verified_workspace) prog" where
  "governed_start R repository mode trust_repo =
     bind_prog (\<lambda>x. (rt_resolve R x repository, x)) (\<lambda>root.
     bind_prog (case rt_inspect R of None \<Rightarrow> ret None
         | Some inspect \<Rightarrow> bind_prog (inspect (path_text root)) (\<lambda>f. ret (Some f))) (\<lambda>facts.
     bind_prog (runtime_config R root facts) (\<lambda>loaded.
     bind_prog (fail_unless (mode = lit ''real'' \<and> trust_repo) (ValueError ''real runtime trust is required'')) (\<lambda>_.
     bind_prog (fail_unless (model_configured loaded) (RuntimeError ''provider model is not configured'')) (\<lambda>_.
     bind_prog (given loaded) (\<lambda>config.
     bind_prog (rt_provider R config) (\<lambda>llm.
     bind_prog (rt_new_task R) (\<lambda>t.
     bind_prog (rt_prepare R (path_text root) t config trust_repo) (\<lambda>ws.
     bind_prog (\<lambda>x. fail_unless (vw_isolated ws \<and> rt_real R x (vw_root ws) \<noteq> root)
         (ValueError ''verified isolated workspace is required'') x) (\<lambda>_.
     ret (config, llm, t, ws)))))))))))"

text \<open>The rest: the tools of the workspace, the core, the stored session with its workspace, the loop. The
  fuel is the loop's; without enough of it there is no view.\<close>

definition runtime_run ::
    "'x runtime \<Rightarrow> nat \<Rightarrow> pystr \<Rightarrow> pystr \<Rightarrow> pystr \<Rightarrow> bool \<Rightarrow> ('x db_world, task_view option) prog" where
  "runtime_run R fuel repository description mode trust_repo =
     bind_prog (on_other (governed_start R repository mode trust_repo)) (\<lambda>(config, llm, t, ws).
     bind_prog (on_other (rt_tools R ws t config)) (\<lambda>T.
     bind_prog (lift_res (components_of R config T llm)) (\<lambda>C.
     bind_prog (on_db (store_save (new_session t description config))) (\<lambda>_.
     bind_prog (on_db (bind_workspace t (JObj (workspace_json ws)))) (\<lambda>_.
     bind_prog (run_task (service_of (persistent_core C)) fuel t) (\<lambda>out.
     ret (map_option (outcome_view t) out)))))))"

definition runtime_status :: "task_id \<Rightarrow> ('x db_world, task_view) prog" where
  "runtime_status t = bind_prog (on_db (store_load t)) (\<lambda>s. ret (session_view t s))"

text \<open>The recorded workspace, validated again; a record that does not parse raises, and without a record the
  runtime's tools stay unavailable.\<close>

definition resumed_workspace ::
    "'x runtime \<Rightarrow> json_dict option \<Rightarrow> ('x, frozen_config option \<times> verified_workspace option) prog" where
  "resumed_workspace R payload =
     (case payload of
        None \<Rightarrow> ret (rt_config R, None)
      | Some d \<Rightarrow>
          bind_prog (case rt_load_config R of
              None \<Rightarrow> ret (rt_config R)
            | Some load \<Rightarrow> bind_prog (or_config_failed
                 (case (field d ''repository_root'', field d ''base_commit'') of
                    (Some (JStr repository), Some (JStr commit)) \<Rightarrow> load repository commit
                  | _ \<Rightarrow> raise config_failed)) (\<lambda>c. ret (Some c))) (\<lambda>loaded.
          bind_prog (given loaded) (\<lambda>config.
          bind_prog (lift_res (of_opt ValidationError (workspace_of_json d))) (\<lambda>recorded.
          bind_prog (rt_check R recorded) (\<lambda>ws.
          bind_prog (rt_validate R ws config) (\<lambda>valid. ret (loaded, Some valid)))))))"

definition resumed_tools ::
    "'x runtime \<Rightarrow> verified_workspace option \<Rightarrow> task_id \<Rightarrow> frozen_config \<Rightarrow> ('x, 'x tools) prog" where
  "resumed_tools R workspace t config =
     (case workspace of None \<Rightarrow> ret unavailable_tools | Some ws \<Rightarrow> rt_tools R ws t config)"

definition runtime_resume :: "'x runtime \<Rightarrow> nat \<Rightarrow> task_id \<Rightarrow> ('x db_world, task_view option) prog" where
  "runtime_resume R fuel t =
     bind_prog (on_db (store_load t)) (\<lambda>s.
     bind_prog (fail_unless (cs_status s = PAUSED_FOR_HUMAN) (ValueError ''task is not resumable'')) (\<lambda>_.
     bind_prog (on_db (load_workspace t)) (\<lambda>payload.
     bind_prog (on_other (resumed_workspace R payload)) (\<lambda>(loaded, workspace).
     bind_prog (given loaded) (\<lambda>config.
     bind_prog (on_other (resumed_tools R workspace t config)) (\<lambda>T.
     bind_prog (on_other (rt_provider R config)) (\<lambda>llm.
     bind_prog (lift_res (components_of R config T llm)) (\<lambda>C.
     bind_prog (resume_task (service_of (persistent_core C)) fuel t) (\<lambda>out.
     ret (map_option (outcome_view t) out))))))))))"

section \<open>The workspace stays bound\<close>

lemma store_save_workspace:
  assumes "store_ok d" "store_save s d = (q, d')"
  shows "db_workspace d' = db_workspace d"
  using assms(1)
proof (cases rule: store_save_cases[of d s])
  case (1 e)
  then show ?thesis using assms(2) by simp
next
  case (2 d'')
  show ?thesis
  proof
    fix t
    have "d' = d''" using 2(1) assms(2) by simp
    then show "db_workspace d' t = db_workspace d t"
      using row_of_reads[OF 2(2)] 2(3) by (cases "t = cs_task_id s") (simp_all add: db_workspace_def map_of_put_row)
  qed
qed

definition dw_bound :: "task_id \<Rightarrow> json \<Rightarrow> 'x db_world \<Rightarrow> bool" where
  "dw_bound t ws w \<longleftrightarrow> dw_ok w \<and> db_workspace (dw_db w) t = ws"

lemma frame_other_bound [simp]: "frame (dw_bound t ws) dw_sessions (on_other m)"
  by (auto simp: frame_def on_other_def dw_bound_def dw_ok_def dw_sessions_def split: prod.splits)

interpretation bound: core_env "persistent_core C" dw_sessions "dw_bound t ws" for C t ws
proof (unfold_locales, goal_cases)
  case (1 w u r v)
  then show ?case using persistent.load[OF _ 1(2)] by (auto simp: dw_bound_def)
next
  case (2 w s q v)
  obtain p d where p: "store_save s (dw_db w) = (p, d)" by fastforce
  then have "dw_db v = d" using 2 by (simp add: persistent_core_def on_db_def) auto
  then have "db_workspace (dw_db v) = db_workspace (dw_db w)"
    using store_save_workspace[OF _ p] 2 by (simp add: dw_bound_def dw_ok_def)
  then show ?case using persistent.save[OF _ 2(2)] 2(1) by (auto simp: dw_bound_def)
next
  case (3 w u s)
  then show ?case using persistent.own by (auto simp: dw_bound_def)
qed (auto simp: persistent_core_def)

lemma workspace_json_plain: "no_floats (JObj (workspace_json ws))"
  by (simp add: workspace_json_def) code_simp

section \<open>The workspace boundary\<close>

text \<open>What the runtime relies on: a prepared workspace is an isolated one of the task, prepared under trust and
  under the given configuration; a validated one is the recorded one, under the given configuration.\<close>

locale workspace_boundary =
  fixes R :: "'x runtime"
  assumes prepared: "rt_prepare R r t c b x = (Inr ws, x') \<Longrightarrow>
      b \<and> vw_isolated ws \<and> vw_task_id ws = t \<and> vw_config_sha256 ws = fc_sha256 c"
    and validated: "rt_validate R ws c x = (Inr ws', x') \<Longrightarrow> ws' = ws \<and> vw_config_sha256 ws = fc_sha256 c"
begin

lemma governed_start_Inr:
  assumes "governed_start R repository mode trust_repo x = (Inr (config, llm, t, ws), x')"
  shows "mode = lit ''real'' \<and> trust_repo \<and> model_configured (Some config)
    \<and> vw_isolated ws \<and> vw_task_id ws = t \<and> vw_config_sha256 ws = fc_sha256 config
    \<and> (\<exists>root. rt_resolve R x repository = Inr root \<and> rt_real R x' (vw_root ws) \<noteq> root)"
  using assms unfolding governed_start_def bind_prog_Inr
  by (auto simp: fail_unless_Inr given_def ret_app raise_app split: option.splits dest: prepared)

end

lemma on_other_Inr: "on_other m w = (Inr a, w') \<longleftrightarrow> (\<exists>x. m (dw_rest w) = (Inr a, x) \<and> w' = w\<lparr>dw_rest := x\<rparr>)"
  by (auto simp: on_other_def split: prod.splits)

lemma on_db_Inr: "on_db m w = (Inr a, w') \<longleftrightarrow> (\<exists>d. m (dw_db w) = (Inr a, d) \<and> w' = w\<lparr>dw_db := d\<rparr>)"
  by (auto simp: on_db_def split: prod.splits)

text \<open>A saved and bound session is stored as it is, and so is its workspace.\<close>

lemma save_and_bind:
  assumes "store_ok d" "store_save s d = (Inr (), d1)" "bind_workspace (cs_task_id s) (JObj m) d1 = (Inr (), d2)"
    and "no_floats (JObj m)"
  shows "store_ok d2 \<and> db_sessions d2 = (db_sessions d)(cs_task_id s \<mapsto> s) \<and> db_workspace d2 (cs_task_id s) = JObj m"
proof -
  have d1: "store_ok d1" "db_sessions d1 = (db_sessions d)(cs_task_id s \<mapsto> s)"
    using sqlite.save[OF assms(1,2)] by auto
  obtain s' d' where s': "store_load (cs_task_id s) d1 = (Inr s', d')"
    using assms(3) by (auto simp: bind_workspace_def bind_prog_Inr)
  have "d' = d1" "db_sessions d1 (cs_task_id s) = Some s'"
    using sqlite.load[OF d1(1) s'] by auto
  then have "d' = d1" "s' = s" using d1(2) by auto
  with s' have ld: "store_load (cs_task_id s) d1 = (Inr s, d1)" by simp
  then have "json_printable (envelope_json s (JObj m))" "json_encodable (envelope_json s (JObj m))"
    using assms(3) by (auto simp: bind_workspace_def bind_prog_def Let_def split: if_splits)
  from bind_workspace_roundtrip[OF d1(1) ld assms(4) this] assms(3) d1 show ?thesis by auto
qed

lemma components_of_limits:
  "components_of R config T llm = Inr C \<Longrightarrow>
    cm_max_actions C = int_or_default config ''limits'' ''max_actions'' 40"
  by (auto simp: components_of_def bind_res_Inr)

lemma persistent_limits [simp]:
  "dp_max_actions (persistent_core C) = cm_max_actions C" "dp_max_feedback (persistent_core C) = cm_max_feedback C"
  by (simp_all add: persistent_core_def)

text \<open>A run of the core over the store, for a task whose workspace is bound.\<close>

lemma bound_run:
  assumes "store_ok (dw_db w)" "db_sessions (dw_db w) t = Some s" "db_workspace (dw_db w) t = ws"
    and "nat (cm_max_actions C - cs_action_count s) < fuel"
    and "core_run (persistent_core C) fuel t w = (Inr out, v)"
  shows "store_ok (dw_db v) \<and> db_workspace (dw_db v) t = ws
    \<and> (\<forall>t'. t' \<noteq> t \<longrightarrow> db_sessions (dw_db v) t' = db_sessions (dw_db w) t')
    \<and> (\<exists>s' o'. db_sessions (dw_db v) t = Some s' \<and> same_task s s' \<and> out = Some o'
        \<and> cs_status s' \<noteq> DECIDING \<and> co_status o' = cs_status s')"
proof -
  have g: "dw_bound t ws w" "dw_sessions w t = Some s"
    using assms(1-3) by (simp_all add: dw_bound_def dw_ok_def dw_sessions_def)
  note r = bound.run_result[OF g, of C fuel "Inr out" v]
  then obtain s' where "dw_bound t ws v" "\<forall>t'. t' \<noteq> t \<longrightarrow> dw_sessions v t' = dw_sessions w t'"
    "dw_sessions v t = Some s'" "run_post (persistent_core C) s s'"
    "case out of None \<Rightarrow> False | Some o' \<Rightarrow> cs_status s' \<noteq> DECIDING \<and> o' = outcome_of s' (co_reason o')"
    using assms(4,5) by auto
  moreover from this obtain o' where "out = Some o'" "cs_status s' \<noteq> DECIDING" "o' = outcome_of s' (co_reason o')"
    by (cases out) auto
  moreover from this(3) have "co_status o' = cs_status s'"
    by (metis outcome_of_def core_outcome.select_convs(1))
  ultimately show ?thesis
    by (auto simp: dw_bound_def dw_ok_def dw_sessions_def run_post_def)
qed

context workspace_boundary begin

lemma run_governed:
  assumes "store_ok (dw_db w)"
    and "runtime_run R fuel repository description mode trust_repo w = (Inr v, w')"
    and "\<forall>c l t ws x. governed_start R repository mode trust_repo (dw_rest w) = (Inr (c, l, t, ws), x) \<longrightarrow>
      nat (int_or_default c ''limits'' ''max_actions'' 40) < fuel"
  shows "mode = lit ''real'' \<and> trust_repo \<and> (\<exists>config llm t ws x s view.
      governed_start R repository mode trust_repo (dw_rest w) = (Inr (config, llm, t, ws), x)
      \<and> model_configured (Some config) \<and> vw_isolated ws \<and> vw_task_id ws = t
      \<and> vw_config_sha256 ws = fc_sha256 config
      \<and> store_ok (dw_db w') \<and> db_workspace (dw_db w') t = JObj (workspace_json ws)
      \<and> (\<forall>t'. t' \<noteq> t \<longrightarrow> db_sessions (dw_db w') t' = db_sessions (dw_db w) t')
      \<and> db_sessions (dw_db w') t = Some s \<and> cs_user_task s = description
      \<and> cs_config_summary s = lit ''real:'' @ fc_sha256 config
      \<and> v = Some view \<and> tv_task_id view = uuid_str (tid_value t)
      \<and> tv_status view = cs_status s \<and> cs_status s \<noteq> DECIDING)"
proof -
  obtain config llm t ws x T C d1 d2 out y where
    g: "governed_start R repository mode trust_repo (dw_rest w) = (Inr (config, llm, t, ws), x)"
    and C: "components_of R config T llm = Inr C"
    and s1: "store_save (new_session t description config) (dw_db w) = (Inr (), d1)"
    and s2: "bind_workspace t (JObj (workspace_json ws)) d1 = (Inr (), d2)"
    and run: "core_run (persistent_core C) fuel t (w\<lparr>dw_rest := y, dw_db := d2\<rparr>) = (Inr out, w')"
    and v: "v = map_option (outcome_view t) out"
    using assms(2) unfolding runtime_run_def bind_prog_Inr
    by (auto simp: bind_prog_Inr on_other_Inr on_db_Inr lift_res_Inr run_task_def service_of_def ret_app)
  let ?s = "new_session t description config"
  have id: "cs_task_id ?s = t" "cs_action_count ?s = 0" by (simp_all add: new_session_def)
  have sb: "store_ok d2" "db_sessions d2 = (db_sessions (dw_db w))(t \<mapsto> ?s)" "db_workspace d2 t = JObj (workspace_json ws)"
    using save_and_bind[OF assms(1) s1, of "workspace_json ws" d2] s2 workspace_json_plain id by auto
  have "nat (cm_max_actions C - cs_action_count ?s) < fuel"
    using assms(3) g components_of_limits[OF C] id by simp
  from bound_run[OF _ _ _ this run] sb
  obtain s' o' where s': "store_ok (dw_db w')" "db_workspace (dw_db w') t = JObj (workspace_json ws)"
    "\<forall>t'. t' \<noteq> t \<longrightarrow> db_sessions (dw_db w') t' = db_sessions d2 t'"
    "db_sessions (dw_db w') t = Some s'" "same_task ?s s'" "out = Some o'" "cs_status s' \<noteq> DECIDING"
    "co_status o' = cs_status s'"
    by auto
  have "cs_user_task s' = description" "cs_config_summary s' = lit ''real:'' @ fc_sha256 config"
    using s'(5) by (simp_all add: same_task_def new_session_def)
  then show ?thesis
    using governed_start_Inr[OF g] g s' sb(2) v by (auto simp: outcome_view_def)
qed

lemma resumed_workspace_Inr:
  assumes "resumed_workspace R (Some d) x = (Inr (loaded, workspace), x')"
  shows "\<exists>config recorded ws. loaded = Some config \<and> workspace_of_json d = Some recorded
    \<and> (\<exists>y z. rt_check R recorded y = (Inr ws, z)) \<and> (\<exists>y. rt_validate R ws config y = (Inr ws, x'))
    \<and> workspace = Some ws \<and> vw_config_sha256 ws = fc_sha256 config"
proof -
  obtain config recorded ws valid y z where
    "loaded = Some config" "workspace_of_json d = Some recorded" "rt_check R recorded y = (Inr ws, z)"
    and v: "rt_validate R ws config z = (Inr valid, x')" "workspace = Some valid"
    using assms unfolding resumed_workspace_def option.case bind_prog_Inr
    by (auto simp: bind_prog_Inr given_def ret_app raise_app lift_res_Inr of_opt_Inr split: option.splits)
  with validated[OF v(1)] show ?thesis by blast
qed

lemma load_workspace_Inr:
  "load_workspace t d = (Inr p, d') \<Longrightarrow> d' = d \<and> p = as_dict (db_workspace d t)"
  by (auto simp: load_workspace_def db_workspace_def split: option.splits)

lemma resume_governed:
  assumes "store_ok (dw_db w)" "runtime_resume R fuel t w = (Inr v, w')"
    and "\<forall>p c ws x y s. resumed_workspace R p x = (Inr (Some c, ws), y) \<longrightarrow> db_sessions (dw_db w) t = Some s \<longrightarrow>
      nat (int_or_default c ''limits'' ''max_actions'' 40 - cs_action_count s) < fuel"
  shows "\<exists>s s' view. db_sessions (dw_db w) t = Some s \<and> cs_status s = PAUSED_FOR_HUMAN
    \<and> db_sessions (dw_db w') t = Some s' \<and> same_task s s' \<and> cs_status s' \<noteq> DECIDING
    \<and> v = Some view \<and> tv_status view = cs_status s'
    \<and> store_ok (dw_db w') \<and> db_workspace (dw_db w') t = db_workspace (dw_db w) t
    \<and> (\<forall>t'. t' \<noteq> t \<longrightarrow> db_sessions (dw_db w') t' = db_sessions (dw_db w) t')
    \<and> (\<forall>d. db_workspace (dw_db w) t = JObj d \<longrightarrow> (\<exists>config recorded ws. workspace_of_json d = Some recorded
        \<and> (\<exists>y z. rt_check R recorded y = (Inr ws, z)) \<and> (\<exists>y z. rt_validate R ws config y = (Inr ws, z))
        \<and> vw_config_sha256 ws = fc_sha256 config))"
proof -
  obtain s d p d' config workspace x y T llm C s1 u u' out where
    ld: "store_load t (dw_db w) = (Inr s, d)" and st: "cs_status s = PAUSED_FOR_HUMAN"
    and p: "load_workspace t d = (Inr p, d')"
    and rw: "resumed_workspace R p (dw_rest w) = (Inr (Some config, workspace), x)"
    and C: "components_of R config T llm = Inr C"
    and re: "dp_load (persistent_core C) t (w\<lparr>dw_db := d', dw_rest := y\<rparr>) = (Inr s1, u)"
    and sv: "dp_save (persistent_core C) (s1\<lparr>cs_status := DECIDING\<rparr>) u = (Inr (), u')"
    and run: "core_run (persistent_core C) fuel t u' = (Inr out, w')"
    and v: "v = map_option (outcome_view t) out"
    using assms(2) unfolding runtime_resume_def bind_prog_Inr
    by (auto simp: bind_prog_Inr on_other_Inr on_db_Inr lift_res_Inr fail_unless_Inr resume_task_def
        service_of_def ret_app given_def raise_app split: option.splits if_splits)
  have d: "d = dw_db w" "db_sessions (dw_db w) t = Some s" "cs_task_id s = t"
    using sqlite.load_Inr[OF assms(1) ld] by auto
  note P = load_workspace_Inr[OF p]
  let ?w = "w\<lparr>dw_db := d', dw_rest := y\<rparr>"
  have w1: "dw_ok ?w" "dw_sessions ?w = db_sessions (dw_db w)" "dw_db ?w = dw_db w"
    using assms(1) P d by (simp_all add: dw_ok_def dw_sessions_def)
  have u: "u = ?w" "s1 = s" using persistent.load[OF w1(1) re] w1(2) d(2) by auto
  let ?s = "s\<lparr>cs_status := DECIDING\<rparr>"
  obtain d1 where d1: "store_save ?s (dw_db w) = (Inr (), d1)" "dw_db u' = d1"
    using sv u w1(3) P(1) d(1) by (auto simp: persistent_core_def on_db_Inr)
  have ok1: "store_ok (dw_db u')" "db_sessions (dw_db u') = (db_sessions (dw_db w))(t \<mapsto> ?s)"
    "db_workspace (dw_db u') = db_workspace (dw_db w)"
    using sqlite.save[OF assms(1) d1(1)] store_save_workspace[OF assms(1) d1(1)] d1(2) d(3) by auto
  have "nat (int_or_default config ''limits'' ''max_actions'' 40 - cs_action_count s) < fuel"
    using assms(3) rw d(2) by blast
  then have "nat (cm_max_actions C - cs_action_count ?s) < fuel"
    using components_of_limits[OF C] by simp
  from bound_run[OF ok1(1) _ refl this run] ok1
  obtain s' o' where s': "store_ok (dw_db w')" "db_workspace (dw_db w') t = db_workspace (dw_db w) t"
    "\<forall>t'. t' \<noteq> t \<longrightarrow> db_sessions (dw_db w') t' = db_sessions (dw_db w) t'"
    "db_sessions (dw_db w') t = Some s'" "same_task ?s s'" "out = Some o'" "cs_status s' \<noteq> DECIDING"
    "co_status o' = cs_status s'"
    by auto
  have "\<exists>config recorded ws. workspace_of_json m = Some recorded
        \<and> (\<exists>y z. rt_check R recorded y = (Inr ws, z)) \<and> (\<exists>y z. rt_validate R ws config y = (Inr ws, z))
        \<and> vw_config_sha256 ws = fc_sha256 config" if "db_workspace (dw_db w) t = JObj m" for m
  proof -
    have "p = Some m" using P d(1) that by simp
    from resumed_workspace_Inr[OF rw[unfolded this]] show ?thesis by blast
  qed
  moreover have "same_task s s'" using s'(5) by (simp add: same_task_def)
  ultimately show ?thesis using d(2) st s' v by (auto simp: outcome_view_def)
qed

end

section \<open>The default wiring\<close>

text \<open>
  The platform of the default runtime: git and the file system as the worktrees see them, the process
  launcher, the tree below a root and where a path of it leads, the pytest runner, the keyring and the
  provider's library, the user's configuration file, and what the interpreter and the database of
  Unicode say.
\<close>

record 'x platform =
  pf_host :: "'x git_host"
  pf_launch :: "launch_request \<Rightarrow> ('x, launch_result) prog"
  pf_files :: "'x \<Rightarrow> pystr list \<Rightarrow> file_env"
  pf_escapes :: "'x \<Rightarrow> pystr list \<Rightarrow> pystr \<Rightarrow> bool"
  pf_apply :: "pystr list \<Rightarrow> prepared_patch \<Rightarrow> bool \<Rightarrow> ('x, apply_result) prog"
  pf_runner :: "'x runner_deps"
  pf_keyring :: "'x keyring"
  pf_sdk :: "pystr \<Rightarrow> int \<Rightarrow> int \<Rightarrow> ('x, provider_request \<Rightarrow> ('x, pystr option) prog) prog"
  pf_toml :: "pystr \<Rightarrow> json option"
  pf_user_file :: "'x \<Rightarrow> user_file"
  pf_uuid4 :: "('x, task_id) prog"
  pf_re :: re_tables
  pf_tables :: unicode_tables

text \<open>The bridges: the one of the actions uses the limits of the configuration, the one of git does not.\<close>

definition bridge_limits :: "frozen_config \<Rightarrow> bridge_config" where
  "bridge_limits c =
     \<lparr>bc_timeout = int_or_default c ''tests'' ''timeout_seconds'' 0,
      bc_output_limit = int_or_default c ''limits'' ''max_process_output_bytes'' 0\<rparr>"

definition git_bridge :: "(launch_request \<Rightarrow> ('x, launch_result) prog) \<Rightarrow> 'x git_launcher" where
  "git_bridge start argv cwd env = command_bridge start True None argv (path_text cwd) env"

text \<open>\<open>repository_reader\<close>: the configuration file of the repository at the commit, read with git's own
  environment.\<close>

definition repository_reader :: "'x platform \<Rightarrow> pystr \<Rightarrow> pystr \<Rightarrow> ('x, bytes option) prog" where
  "repository_reader P repository commit =
     (let name = lit ''.coding-harness.toml'';
          git = (\<lambda>argv. command_bridge (pf_launch P) True None argv repository (git_env (pf_host P)))
      in bind_prog (git [lit ''git'', lit ''ls-tree'', lit ''--name-only'', commit, lit ''--'', name]) (\<lambda>listed.
         bind_prog (fail_unless (pc_returncode listed = 0) config_failed) (\<lambda>_.
         if strip (pc_stdout listed) = [] then ret None
         else bind_prog (fail_unless (strip (pc_stdout listed) = name) config_failed) (\<lambda>_.
         bind_prog (git [lit ''git'', lit ''show'', commit @ 58 # name]) (\<lambda>result.
         bind_prog (fail_unless (pc_returncode result = 0) config_failed) (\<lambda>_.
         bind_prog (lift_res (of_opt UnicodeError (utf8_encode (pc_stdout result)))) (\<lambda>b. ret (Some b))))))))"

text \<open>\<open>LayeredConfigSource.load\<close> reads the user's file before the repository's.\<close>

definition load_layers :: "'x platform \<Rightarrow> pystr \<Rightarrow> pystr \<Rightarrow> ('x, frozen_config) prog" where
  "load_layers P repository commit x =
     (if ok (optional_file (pf_toml P) (pf_user_file P x)) then
        (case repository_reader P repository commit x of
           (raw, x') \<Rightarrow> (layered_load (gh_sha (pf_host P)) (pf_toml P) (pf_user_file P x) raw, x'))
      else (layered_load (gh_sha (pf_host P)) (pf_toml P) (pf_user_file P x) (Inr None), x))"

definition workspace_of :: "'x platform \<Rightarrow> verified_workspace \<Rightarrow> frozen_config \<Rightarrow> 'x core_tests \<Rightarrow> 'x workspace" where
  "workspace_of P ws c tests =
     \<lparr>ws_files = (\<lambda>x. pf_files P x (vw_root ws)), ws_root = vw_root ws, ws_sha = gh_sha (pf_host P),
      ws_upper = gh_upper (pf_host P), ws_environ = gh_environ (pf_host P),
      ws_launch = (\<lambda>argv env. command_bridge (pf_launch P) False (Some (bridge_limits c)) argv (path_text (vw_root ws)) env),
      ws_base_commit = vw_base_commit ws, ws_diagnostics = cp_diagnostic_ids (fc_capabilities c),
      ws_apply = pf_apply P (vw_root ws), ws_tests = Some (run_test_action tests)\<rparr>"

definition default_command :: "frozen_config \<Rightarrow> pystr list" where
  "default_command c =
     (case config_json_field c ''tests'' ''default_command'' of
        Some (JArr vs) \<Rightarrow> (case as_strs vs of Some ss \<Rightarrow> ss | None \<Rightarrow> []) | _ \<Rightarrow> [])"

definition tests_of :: "'x platform \<Rightarrow> verified_workspace \<Rightarrow> task_id \<Rightarrow> frozen_config \<Rightarrow> 'x core_tests" where
  "tests_of P ws t c =
     \<lparr>ct_runner = pf_runner P, ct_task_id = t, ct_root = path_text (vw_root ws),
      ct_base_commit = vw_base_commit ws, ct_config_sha256 = fc_sha256 c, ct_default_command = default_command c,
      ct_timeout = int_or_default c ''tests'' ''timeout_seconds'' 0, ct_environment = gh_environ (pf_host P),
      ct_revision = (\<lambda>x. (workspace_sha256 (gh_sha (pf_host P)) (vw_root ws) (fe_tree (pf_files P x (vw_root ws))), x))\<rparr>"

definition default_tools :: "'x platform \<Rightarrow> verified_workspace \<Rightarrow> task_id \<Rightarrow> frozen_config \<Rightarrow> 'x tools" where
  "default_tools P ws t c =
     (let tests = tests_of P ws t c;
          W = workspace_of P ws c tests;
          mode = (if cp_mode (fc_capabilities c) = lit ''real'' then RealMode else DemoMode)
      in \<lparr>to_execute = execute W, to_execute_patch = execute_patch W, to_full_tests = full_test_run tests,
          to_prepare = prepare_workspace_patch W,
          to_resolve = (\<lambda>pp x. (Inr (resolve_patch_safety (pf_escapes P x (vw_root ws))
             (\<lambda>p. is_link_at (fe_tree (pf_files P x (vw_root ws))) (components p)) mode pp), x))\<rparr>)"

text \<open>\<open>build_default_real_runtime\<close> without a configuration: preflight and loader are given, the git of the
  preflight and of the loader is the bare bridge, the worktrees harden it. With one, both are absent.\<close>

definition default_runtime :: "'x platform \<Rightarrow> pystr list \<Rightarrow> frozen_config option \<Rightarrow> 'x runtime" where
  "default_runtime P data_root config =
     (let G = (pf_host P)\<lparr>gh_start := git_bridge (pf_launch P)\<rparr>
      in \<lparr>rt_resolve = gh_resolve G, rt_real = gh_real G,
          rt_inspect = (if config = None then Some (inspect_repository G (gh_start G)) else None),
          rt_load_config = (if config = None then Some (load_layers P) else None),
          rt_config = config,
          rt_provider = (\<lambda>c. bind_prog (build_real_llm (pf_keyring P) (pf_sdk P) c) (\<lambda>client.
             ret (\<lambda>context. bind_prog (generate client context) (\<lambda>s. ret (RawText s))))),
          rt_new_task = pf_uuid4 P,
          rt_prepare = prepare_workspace G data_root, rt_check = check_workspace G,
          rt_validate = validate_resume G data_root,
          rt_tools = (\<lambda>ws t c. ret (default_tools P ws t c)),
          rt_safe = context_safe (pf_re P), rt_sha = gh_sha G, rt_tables = pf_tables P\<rparr>)"

interpretation worktrees: workspace_boundary "default_runtime P data_root config" for P data_root config
proof (unfold_locales, goal_cases)
  case (1 r t c b x ws x')
  then have "prepare_workspace ((pf_host P)\<lparr>gh_start := git_bridge (pf_launch P)\<rparr>) data_root r t c b x = (Inr ws, x')"
    by (simp add: default_runtime_def Let_def)
  from prepared_workspace_laws[OF this] show ?case by simp
next
  case (2 ws c x ws' x')
  then have "validate_resume ((pf_host P)\<lparr>gh_start := git_bridge (pf_launch P)\<rparr>) data_root ws c x = (Inr ws', x')"
    by (simp add: default_runtime_def Let_def)
  from validate_resume_Inr[OF this] show ?case by simp
qed
section \<open>Properties\<close>

text \<open>C4. A real run that returns was governed: the mode was real and trust given, a model is configured,
  the task works in an isolated worktree prepared for it under the run's configuration, and at the
  end the database holds the task's session, paused or ended, with its description and the hash of
  the configuration, and that workspace; what the command shows is the stored status, and no other
  task's session changed. With fuel beyond the configured number of actions there is always a view.\<close>

theorem run_is_governed:
  assumes "store_ok (dw_db w)"
    and "runtime_run (default_runtime P data_root config) fuel repository description mode trust_repo w = (Inr v, w')"
    and "\<forall>c l t ws x. governed_start (default_runtime P data_root config) repository mode trust_repo (dw_rest w)
        = (Inr (c, l, t, ws), x) \<longrightarrow> nat (int_or_default c ''limits'' ''max_actions'' 40) < fuel"
  shows "mode = lit ''real'' \<and> trust_repo \<and> (\<exists>c llm t ws x s view.
      governed_start (default_runtime P data_root config) repository mode trust_repo (dw_rest w) = (Inr (c, llm, t, ws), x)
      \<and> model_configured (Some c) \<and> vw_isolated ws \<and> vw_task_id ws = t \<and> vw_config_sha256 ws = fc_sha256 c
      \<and> store_ok (dw_db w') \<and> db_workspace (dw_db w') t = JObj (workspace_json ws)
      \<and> (\<forall>t'. t' \<noteq> t \<longrightarrow> db_sessions (dw_db w') t' = db_sessions (dw_db w) t')
      \<and> db_sessions (dw_db w') t = Some s \<and> cs_user_task s = description
      \<and> cs_config_summary s = lit ''real:'' @ fc_sha256 c
      \<and> v = Some view \<and> tv_task_id view = uuid_str (tid_value t)
      \<and> tv_status view = cs_status s \<and> cs_status s \<noteq> DECIDING)"
  by (rule worktrees.run_governed[OF assms])

text \<open>C19. A resumed task that returns was paused for a human, and is paused or ended again: its stored
  session is the same task carried on, the command shows its stored status, its recorded workspace
  and every other task's session are unchanged, and if a workspace was recorded it was validated
  again, under a configuration with the recorded hash.\<close>

theorem resume_is_governed:
  assumes "store_ok (dw_db w)" "runtime_resume (default_runtime P data_root config) fuel t w = (Inr v, w')"
    and "\<forall>p c ws x y s. resumed_workspace (default_runtime P data_root config) p x = (Inr (Some c, ws), y) \<longrightarrow>
      db_sessions (dw_db w) t = Some s \<longrightarrow>
      nat (int_or_default c ''limits'' ''max_actions'' 40 - cs_action_count s) < fuel"
  shows "\<exists>s s' view. db_sessions (dw_db w) t = Some s \<and> cs_status s = PAUSED_FOR_HUMAN
    \<and> db_sessions (dw_db w') t = Some s' \<and> same_task s s' \<and> cs_status s' \<noteq> DECIDING
    \<and> v = Some view \<and> tv_status view = cs_status s'
    \<and> store_ok (dw_db w') \<and> db_workspace (dw_db w') t = db_workspace (dw_db w) t
    \<and> (\<forall>t'. t' \<noteq> t \<longrightarrow> db_sessions (dw_db w') t' = db_sessions (dw_db w) t')
    \<and> (\<forall>d. db_workspace (dw_db w) t = JObj d \<longrightarrow> (\<exists>c recorded ws. workspace_of_json d = Some recorded
        \<and> (\<exists>y z. rt_check (default_runtime P data_root config) recorded y = (Inr ws, z))
        \<and> (\<exists>y z. rt_validate (default_runtime P data_root config) ws c y = (Inr ws, z))
        \<and> vw_config_sha256 ws = fc_sha256 c))"
  by (rule worktrees.resume_governed[OF assms])

text \<open>The path of a workspace reads back when its parts are names.\<close>

lemma parse_path_text:
  "list_all (\<lambda>s. s \<noteq> [] \<and> 47 \<notin> set s) p \<Longrightarrow> parse_path (path_text p) = Some p"
proof (cases p)
  case (Cons s ss)
  assume a: "list_all (\<lambda>s. s \<noteq> [] \<and> 47 \<notin> set s) p"
  have "join [47] p \<noteq> []" using a Cons by (cases ss) auto
  moreover have "split_char 47 (join [47] p) = p"
    using a Cons by (intro split_join) (auto simp: list_all_iff)
  ultimately show ?thesis by (simp add: parse_path_def path_text_def)
qed (simp add: parse_path_def path_text_def)

text \<open>The recorded workspace is the prepared one: the record stored with a task parses back to exactly the
  workspace it was written from, when the parts of its paths are file names.\<close>

theorem workspace_record_roundtrip:
  assumes "list_all (\<lambda>s. s \<noteq> [] \<and> 47 \<notin> set s) (vw_root ws)"
    and "list_all (\<lambda>s. s \<noteq> [] \<and> 47 \<notin> set s) (vw_repository_root ws)"
  shows "workspace_of_json (workspace_json ws) = Some ws"
proof -
  have "only_fields [''base_commit'', ''capability_sha256'', ''config_sha256'', ''isolated'',
       ''repository_identity_sha256'', ''repository_root'', ''root'', ''task_id''] (workspace_json ws)"
    by (simp add: workspace_json_def only_fields_def)
  then show ?thesis
    by (simp add: workspace_of_json_def guard_opt_def required_def field_def workspace_json_def
        as_path_def as_flag_def decode_task_id_json parse_path_text[OF assms(1)] parse_path_text[OF assms(2)])
qed
section \<open>A sample platform\<close>

text \<open>A model that asks for a human, on the sample host.\<close>

definition sample_reply :: pystr where
  "sample_reply = concat [lit ''{'', [34], lit ''type'', [34], lit '':'', [34], lit ''request_human'', [34],
     lit '','', [34], lit ''reason'', [34], lit '':'', [34], lit ''unsure'', [34], lit ''}'']"

definition logged :: "launch_request \<Rightarrow> (git_log, launch_result) prog" where
  "logged r w = (Inr \<lparr>la_status = LS_COMPLETED, la_exit_code = Some 0, la_stdout = map of_int (sample_answer (lr_argv r)),
     la_stderr = [], la_stdout_truncated = False, la_stderr_truncated = False\<rparr>, (lr_argv r, lr_env r) # w)"

definition absent_runner :: "git_log runner_deps" where
  "absent_runner =
     \<lparr>rd_launch = logged, rd_put = (\<lambda>_ _ _ _ _. raise (OSError ''absent'')), rd_load = (\<lambda>_. raise (OSError ''absent'')),
      rd_workspace_hash = ret, rd_parser = (\<lambda>_ _. None), rd_python = lit ''/py'',
      rd_wall_clock = ret \<lparr>dt_us = 5, dt_native_utc = True\<rparr>, rd_monotonic = ret 7, rd_uuid4 = ret sample_uuid,
      rd_resolve = ret, rd_is_dir = (\<lambda>_. ret True), rd_sha = (\<lambda>_. replicate 64 97), rd_upper = id, rd_re = ascii_re\<rparr>"

definition sample_platform :: "git_log platform" where
  "sample_platform =
     \<lparr>pf_host = sample_host, pf_launch = logged, pf_files = (\<lambda>_ _. sample_files), pf_escapes = (\<lambda>_ _ _. False),
      pf_apply = (\<lambda>_ _ _. raise (OSError ''read-only'')), pf_runner = absent_runner,
      pf_keyring = \<lparr>kr_get = ret (Password (lit ''k'')), kr_set = (\<lambda>_. ret ()), kr_delete = ret ()\<rparr>,
      pf_sdk = (\<lambda>_ _ _. ret (\<lambda>_. ret (Some sample_reply))), pf_toml = (\<lambda>_. None), pf_user_file = (\<lambda>_. NoFile),
      pf_uuid4 = ret Workspaces.sample_task, pf_re = ascii_re, pf_tables = ascii_tables\<rparr>"

definition model_config :: frozen_config where
  "model_config = Workspaces.sample_config
     \<lparr>fc_sections := [(''llm'', [(''model'', JStr (lit ''m''))]), (''limits'', [(''max_actions'', JInt 2)])]\<rparr>"

abbreviation sample_runtime :: "git_log runtime" where
  "sample_runtime \<equiv> default_runtime sample_platform [lit ''data''] (Some model_config)"

definition new_world :: "git_log db_world" where
  "new_world = \<lparr>dw_db = empty_db, dw_rest = []\<rparr>"

lemma bind_same:
  assumes "holds_same W v w" "mw_sessions v t = Some s" "valid_session s" "no_floats (JObj m)" "storable (JObj m) s"
  shows "\<exists>d. bind_workspace t (JObj m) (dw_db w) = (Inr (), d) \<and> holds_same (W(t := JObj m)) v (w\<lparr>dw_db := d\<rparr>)"
proof -
  note same = assms(1)[unfolded holds_same_def]
  have "map_load t v = (Inr s, v)"
    using assms(2,3) by (simp add: map_load_def mem_load_def bind_prog_def ret_app)
  then have "on_db (store_load t) w = (Inr s, snd (on_db (store_load t) w))"
    using agreeD[OF agree_load assms(1), of t "Inr s" v] by (cases "on_db (store_load t) w") auto
  then have "fst (store_load t (dw_db w)) = Inr s"
    unfolding on_db_def by (cases "store_load t (dw_db w)") simp
  then have ld: "store_load t (dw_db w) = (Inr s, dw_db w)"
    using store_load_law[of t "dw_db w"] by (cases "store_load t (dw_db w)") auto
  have ck: "json_printable (envelope_json s (JObj m))" "json_encodable (envelope_json s (JObj m))"
    using assms(5) by (simp_all add: storable_def)
  from bind_workspace_roundtrip[OF _ ld assms(4) ck] same obtain d where
    d: "bind_workspace t (JObj m) (dw_db w) = (Inr (), d)" "db_workspace d = (db_workspace (dw_db w))(t := JObj m)"
      "db_sessions d = db_sessions (dw_db w)" "store_ok d"
    by blast
  have "db_tasks d = db_tasks (dw_db w)"
    using d(1) ld by (auto simp: bind_workspace_def bind_prog_def Let_def split: if_splits)
  then show ?thesis using d same by (auto simp: holds_same_def)
qed

definition isolated_sample :: verified_workspace where
  "isolated_sample =
     \<lparr>vw_task_id = Workspaces.sample_task, vw_root = [lit ''data'', lit ''worktrees'', uuid_str (tid_value Workspaces.sample_task)],
      vw_repository_root = [lit ''repo''], vw_repository_identity_sha256 = replicate 64 97,
      vw_base_commit = replicate 40 97, vw_config_sha256 = replicate 64 98,
      vw_capability_sha256 = replicate 64 97, vw_isolated = True\<rparr>"

definition sample_git :: "git_log git_host" where
  "sample_git = (pf_host sample_platform)\<lparr>gh_start := git_bridge (pf_launch sample_platform)\<rparr>"

definition sample_log :: git_log where
  "sample_log = snd (prepare_workspace sample_git [lit ''data''] (lit ''/repo'') Workspaces.sample_task model_config True [])"

lemma sample_prepares:
  "prepare_workspace sample_git [lit ''data''] (lit ''/repo'') Workspaces.sample_task model_config True []
     = (Inr isolated_sample, sample_log)"
proof -
  have "fst (prepare_workspace sample_git [lit ''data''] (lit ''/repo'') Workspaces.sample_task model_config True [])
      = Inr isolated_sample"
    by code_simp
  then show ?thesis by (simp add: sample_log_def prod_eq_iff)
qed

definition sample_client :: "git_log llm_client" where
  "sample_client = \<lparr>lc_create = (\<lambda>_. ret (Some sample_reply)), lc_model = lit ''m'', lc_timeout = 60,
     lc_max_output_tokens = 4096\<rparr>"

lemma sample_builds:
  "build_real_llm (pf_keyring sample_platform) (pf_sdk sample_platform) model_config w = (Inr sample_client, w)"
  by (simp add: build_real_llm_def create_client_def read_for_provider_def read_optional_def or_unavailable_def
      bind_prog_def sample_platform_def ret_app new_client_def positive_int_def config_model_def model_config_def
      PROVIDER_TIMEOUT_SECONDS_def PROVIDER_MAX_OUTPUT_TOKENS_def sample_client_def has_any_iff validate_value_cases lit_def require_def)

definition sample_llm :: "prompt_context \<Rightarrow> (git_log, raw_action) prog" where
  "sample_llm context = bind_prog (generate sample_client context) (\<lambda>s. ret (RawText s))"

lemma sample_start:
  "governed_start sample_runtime (lit ''/repo'') (lit ''real'') True []
     = (Inr (model_config, sample_llm, Workspaces.sample_task, isolated_sample), sample_log)"
proof -
  have "model_configured (Some model_config)" by code_simp
  moreover have "gh_resolve sample_git [] (lit ''/repo'') = Inr [lit ''repo'']" "path_text [lit ''repo''] = lit ''/repo''"
    "vw_isolated isolated_sample" "gh_real sample_git sample_log (vw_root isolated_sample) \<noteq> [lit ''repo'']"
    by code_simp+
  moreover have "pf_uuid4 sample_platform [] = (Inr Workspaces.sample_task, [])"
    by (simp add: sample_platform_def ret_app)
  ultimately show ?thesis
    using sample_prepares sample_builds
    by (simp add: governed_start_def default_runtime_def Let_def sample_git_def[symmetric] runtime_config_def
        given_def bind_prog_def ret_app fail_unless_def require_def sample_llm_def[abs_def] del: inj_lit)
qed
definition sample_components :: "git_log tools \<Rightarrow> git_log components" where
  "sample_components T =
     \<lparr>cm_safe = context_safe ascii_re, cm_sha = (\<lambda>_. replicate 64 97), cm_tables = ascii_tables, cm_max_history = 8,
      cm_generate = sample_llm, cm_prepare = Some (to_prepare T), cm_resolve = Some (to_resolve T),
      cm_execute = to_execute T, cm_execute_patch = to_execute_patch T, cm_full_tests = to_full_tests T,
      cm_max_actions = 2, cm_max_feedback = 8\<rparr>"

lemma sample_components_of: "components_of sample_runtime model_config T sample_llm = Inr (sample_components T)"
proof -
  have "int_or_default model_config ''limits'' ''history_window'' 8 = 8"
    "int_or_default model_config ''limits'' ''max_actions'' 40 = 2"
    "int_or_default model_config ''limits'' ''max_feedback_rounds'' 8 = 8" "check_max_history 8 = Inr 8"
    by code_simp+
  then show ?thesis
    by (simp add: components_of_def sample_components_def default_runtime_def Let_def sample_platform_def sample_host_def)
qed

definition sample_session :: core_session where
  "sample_session = new_session Workspaces.sample_task (lit ''fix'') model_config"

definition sample_bound :: "task_id \<Rightarrow> json" where
  "sample_bound = (\<lambda>_. JNull)(Workspaces.sample_task := JObj (workspace_json isolated_sample))"

definition paused_session :: core_session where
  "paused_session = sample_session\<lparr>cs_status := PAUSED_FOR_HUMAN, cs_action_count := 1,
     cs_history := [\<lparr>he_action_type = lit ''request_human'', he_safe_result = lit ''human review requested''\<rparr>]\<rparr>"

lemma sample_pauses:
  "case core_run (map_core sample_bound (sample_components T)) 3 Workspaces.sample_task
      \<lparr>mw_sessions = (\<lambda>_. None)(Workspaces.sample_task \<mapsto> sample_session), mw_rest = x\<rparr> of
     (Inr (Some out), v) \<Rightarrow> co_status out = PAUSED_FOR_HUMAN
         \<and> mw_sessions v Workspaces.sample_task = Some paused_session \<and> mw_rest v = x
     | _ \<Rightarrow> False"
  by code_simp

lemma sample_resumes:
  "case resume_task (service_of (map_core sample_bound (sample_components T))) 2 Workspaces.sample_task
      \<lparr>mw_sessions = f(Workspaces.sample_task \<mapsto> paused_session), mw_rest = x\<rparr> of
     (Inr (Some out), v) \<Rightarrow> co_status out = PAUSED_FOR_HUMAN | _ \<Rightarrow> False"
  by code_simp

lemma sample_storable: "storable JNull sample_session" "storable (JObj (workspace_json isolated_sample)) sample_session"
  "valid_session sample_session" "no_floats (JObj (workspace_json isolated_sample))"
  by code_simp+
lemma sample_saved:
  obtains d1 d2 where "store_save sample_session empty_db = (Inr (), d1)" "store_ok d1"
    "bind_workspace Workspaces.sample_task (JObj (workspace_json isolated_sample)) d1 = (Inr (), d2)"
    "holds_same sample_bound \<lparr>mw_sessions = (\<lambda>_. None)(Workspaces.sample_task \<mapsto> sample_session), mw_rest = x\<rparr>
       \<lparr>dw_db = d2, dw_rest = x\<rparr>"
proof -
  let ?v = "\<lparr>mw_sessions = (\<lambda>_. None)(Workspaces.sample_task \<mapsto> sample_session), mw_rest = x\<rparr>"
  have t: "cs_task_id sample_session = Workspaces.sample_task" by (simp add: sample_session_def new_session_def)
  obtain r d1 where s: "store_save sample_session empty_db = (r, d1)" by fastforce
  have "map_save (\<lambda>_. JNull) sample_session \<lparr>mw_sessions = (\<lambda>_. None), mw_rest = x\<rparr> = (Inr (), ?v)"
    using sample_storable(1) t by (simp add: map_save_def mem_save_def)
  moreover have "on_db (store_save sample_session) \<lparr>dw_db = empty_db, dw_rest = x\<rparr> = (r, \<lparr>dw_db = d1, dw_rest = x\<rparr>)"
    using s by (simp add: on_db_def)
  ultimately have a: "holds_same (\<lambda>_. JNull) ?v \<lparr>dw_db = d1, dw_rest = x\<rparr>" "r = Inr ()"
    using agreeD[OF agree_save empty_same] by fastforce+
  then have "store_ok d1" by (simp add: holds_same_def)
  moreover obtain d2 where "bind_workspace Workspaces.sample_task (JObj (workspace_json isolated_sample)) d1 = (Inr (), d2)"
    "holds_same sample_bound ?v \<lparr>dw_db = d2, dw_rest = x\<rparr>"
    using bind_same[OF a(1), of Workspaces.sample_task sample_session "workspace_json isolated_sample"] sample_storable
    by (auto simp: sample_bound_def)
  ultimately show ?thesis using that s a(2) by blast
qed

lemma sample_run_pauses:
  "\<exists>view w'. runtime_run sample_runtime 3 (lit ''/repo'') (lit ''fix'') (lit ''real'') True new_world = (Inr (Some view), w')
     \<and> tv_status view = PAUSED_FOR_HUMAN
     \<and> (\<exists>v'. holds_same sample_bound v' w' \<and> mw_sessions v' Workspaces.sample_task = Some paused_session \<and> mw_rest v' = sample_log)"
proof -
  let ?T = "default_tools sample_platform isolated_sample Workspaces.sample_task model_config"
  obtain d1 d2 where d: "store_save sample_session empty_db = (Inr (), d1)"
    "bind_workspace Workspaces.sample_task (JObj (workspace_json isolated_sample)) d1 = (Inr (), d2)"
    and same: "holds_same sample_bound \<lparr>mw_sessions = (\<lambda>_. None)(Workspaces.sample_task \<mapsto> sample_session), mw_rest = sample_log\<rparr>
       \<lparr>dw_db = d2, dw_rest = sample_log\<rparr>" (is "holds_same _ ?v ?w")
    using sample_saved by metis
  obtain out v' where m: "core_run (map_core sample_bound (sample_components ?T)) 3 Workspaces.sample_task ?v
      = (Inr (Some out), v')" "co_status out = PAUSED_FOR_HUMAN"
      "mw_sessions v' Workspaces.sample_task = Some paused_session" "mw_rest v' = sample_log"
    using sample_pauses[where T = ?T and x = sample_log] by (auto split: prod.splits sum.splits option.splits)
  obtain r w' where p: "core_run (persistent_core (sample_components ?T)) 3 Workspaces.sample_task ?w = (r, w')"
    by fastforce
  have r: "r = Inr (Some out)" "holds_same sample_bound v' w'"
    using agreeD[OF core_run_agree[OF map_core_agrees] same m(1) p] by auto
  have tools: "rt_tools sample_runtime ws t c = ret (default_tools sample_platform ws t c)" for ws t c
    by (simp add: default_runtime_def Let_def)
  have "runtime_run sample_runtime 3 (lit ''/repo'') (lit ''fix'') (lit ''real'') True new_world
      = (Inr (Some (outcome_view Workspaces.sample_task out)), w')"
    using d p r sample_start
    by (simp add: runtime_run_def new_world_def on_other_def on_db_def bind_prog_def tools ret_app
        sample_components_of sample_session_def[symmetric] run_task_def service_of_def)
  then show ?thesis using m(2-4) r(2) by (auto simp: outcome_view_def)
qed

lemma sample_fuel: "governed_start sample_runtime (lit ''/repo'') (lit ''real'') True [] = (Inr (c, l, t, ws), x) \<Longrightarrow>
    nat (int_or_default c ''limits'' ''max_actions'' 40) < 3"
proof -
  have "nat (int_or_default model_config ''limits'' ''max_actions'' 40) < 3" by code_simp
  then show "governed_start sample_runtime (lit ''/repo'') (lit ''real'') True [] = (Inr (c, l, t, ws), x) \<Longrightarrow> ?thesis"
    using sample_start by simp
qed

theorem run_is_governed_witness:
  "\<exists>(w' :: git_log db_world) s. db_sessions (dw_db w') Workspaces.sample_task = Some s \<and> cs_user_task s = lit ''fix''
     \<and> cs_status s \<noteq> DECIDING \<and> db_workspace (dw_db w') Workspaces.sample_task = JObj (workspace_json isolated_sample)"
proof -
  obtain view w' where r: "runtime_run sample_runtime 3 (lit ''/repo'') (lit ''fix'') (lit ''real'') True new_world
      = (Inr (Some view), w')"
    using sample_run_pauses by blast
  have w: "store_ok (dw_db new_world)" "dw_rest new_world = []" by (simp_all add: new_world_def empty_db_sessions)
  have "\<forall>c l t ws x. governed_start sample_runtime (lit ''/repo'') (lit ''real'') True (dw_rest new_world)
      = (Inr (c, l, t, ws), x) \<longrightarrow> nat (int_or_default c ''limits'' ''max_actions'' 40) < 3"
    using sample_fuel w(2) by simp
  from run_is_governed[OF w(1) r this, unfolded w(2)] obtain c llm t ws x s where g:
    "governed_start sample_runtime (lit ''/repo'') (lit ''real'') True [] = (Inr (c, llm, t, ws), x)"
    "db_workspace (dw_db w') t = JObj (workspace_json ws)" "db_sessions (dw_db w') t = Some s"
    "cs_user_task s = lit ''fix''" "cs_status s \<noteq> DECIDING"
    by blast
  then have "t = Workspaces.sample_task" "ws = isolated_sample" using sample_start by simp_all
  with g show ?thesis by blast
qed
lemma load_workspace_of_store:
  "store_ok d \<Longrightarrow> db_sessions d t = Some s \<Longrightarrow> load_workspace t d = (Inr (as_dict (db_workspace d t)), d)"
proof -
  assume d: "store_ok d" "db_sessions d t = Some s"
  then obtain row where row: "map_of (db_feedback d) t = Some row"
    by (cases "map_of (db_feedback d) t") (auto simp: db_sessions_def)
  then obtain s' ws where "row_of t s' ws row" using d(1) unfolding store_ok_def by blast
  from row_of_reads[OF this] row show ?thesis by (simp add: load_workspace_def db_workspace_def)
qed

lemma sample_resumed:
  "rt_check sample_runtime isolated_sample x = (Inr isolated_sample, x)"
  "fst (rt_validate sample_runtime isolated_sample model_config sample_log) = Inr isolated_sample"
  "workspace_of_json (workspace_json isolated_sample) = Some isolated_sample"
proof -
  have "check_workspace sample_git isolated_sample x = (Inr isolated_sample, x)"
    "fst (validate_resume sample_git [lit ''data''] isolated_sample model_config sample_log) = Inr isolated_sample"
    by code_simp+
  then show "rt_check sample_runtime isolated_sample x = (Inr isolated_sample, x)"
    "fst (rt_validate sample_runtime isolated_sample model_config sample_log) = Inr isolated_sample"
    by (simp_all add: default_runtime_def Let_def sample_git_def)
qed code_simp

lemma paused_fuel:
  assumes "resumed_workspace sample_runtime p x = (Inr (Some c, ws), y)"
  shows "nat (int_or_default c ''limits'' ''max_actions'' 40 - cs_action_count paused_session) < 2"
proof -
  have "rt_load_config sample_runtime = None" "rt_config sample_runtime = Some model_config"
    by (simp_all add: default_runtime_def Let_def)
  then have "c = model_config"
    using assms unfolding resumed_workspace_def
    by (auto simp: ret_app bind_prog_Inr given_def split: option.splits)
  moreover have "nat (int_or_default model_config ''limits'' ''max_actions'' 40 - cs_action_count paused_session) < 2"
    by code_simp
  ultimately show ?thesis by simp
qed

lemma sample_resume:
  "\<exists>w view w'. runtime_resume sample_runtime 2 Workspaces.sample_task w = (Inr (Some view), w')
     \<and> store_ok (dw_db w) \<and> db_sessions (dw_db w) Workspaces.sample_task = Some paused_session
     \<and> db_workspace (dw_db w) Workspaces.sample_task = JObj (workspace_json isolated_sample)"
proof -
  obtain w v where same: "holds_same sample_bound v w" "mw_sessions v Workspaces.sample_task = Some paused_session"
    "mw_rest v = sample_log"
    using sample_run_pauses by blast
  then have w: "store_ok (dw_db w)" "db_sessions (dw_db w) Workspaces.sample_task = Some paused_session"
    "db_workspace (dw_db w) Workspaces.sample_task = JObj (workspace_json isolated_sample)" "dw_rest w = sample_log"
    by (auto simp: holds_same_def sample_bound_def)
  have "valid_session paused_session" by code_simp
  then have "map_load Workspaces.sample_task v = (Inr paused_session, v)"
    using same(2) by (simp add: map_load_def mem_load_def bind_prog_def ret_app)
  moreover obtain r w0 where ld: "store_load Workspaces.sample_task (dw_db w) = (r, w0)" by fastforce
  ultimately have "r = Inr paused_session"
    using agreeD[OF agree_load same(1), of Workspaces.sample_task "Inr paused_session" v r "w\<lparr>dw_db := w0\<rparr>"]
    by (simp add: on_db_def)
  then have ld: "store_load Workspaces.sample_task (dw_db w) = (Inr paused_session, dw_db w)"
    using ld store_load_law by fastforce
  have ws: "load_workspace Workspaces.sample_task (dw_db w) = (Inr (Some (workspace_json isolated_sample)), dw_db w)"
    using load_workspace_of_store[OF w(1,2)] w(3) by simp
  obtain log where log: "rt_validate sample_runtime isolated_sample model_config sample_log = (Inr isolated_sample, log)"
    using sample_resumed(2) by (metis prod.collapse)
  have rw: "resumed_workspace sample_runtime (Some (workspace_json isolated_sample)) sample_log
      = (Inr (Some model_config, Some isolated_sample), log)"
  proof -
    have "rt_load_config sample_runtime = None" "rt_config sample_runtime = Some model_config"
      by (simp_all add: default_runtime_def Let_def)
    then show ?thesis
      using log sample_resumed(1,3) by (simp add: resumed_workspace_def bind_prog_def ret_app given_def)
  qed
  let ?T = "default_tools sample_platform isolated_sample Workspaces.sample_task model_config"
  let ?w = "w\<lparr>dw_rest := log\<rparr>" and ?v = "v\<lparr>mw_rest := log\<rparr>"
  have same': "holds_same sample_bound ?v ?w" using same(1) by (simp add: holds_same_def)
  have v: "?v = \<lparr>mw_sessions = (mw_sessions v)(Workspaces.sample_task \<mapsto> paused_session), mw_rest = log\<rparr>"
    using same(2) by (simp add: fun_upd_idem)
  obtain out v' where m: "resume_task (service_of (map_core sample_bound (sample_components ?T))) 2 Workspaces.sample_task ?v
      = (Inr (Some out), v')"
    using sample_resumes[where T = ?T and f = "mw_sessions v" and x = log] unfolding v
    by (auto split: prod.splits sum.splits option.splits)
  obtain q w' where p: "resume_task (service_of (persistent_core (sample_components ?T))) 2 Workspaces.sample_task ?w = (q, w')"
    by fastforce
  have q: "q = Inr (Some out)"
    using agreeD[OF resume_task_agree[OF map_core_agrees] same' m p] by auto
  have tools: "rt_tools sample_runtime ws t c = ret (default_tools sample_platform ws t c)"
    "rt_provider sample_runtime model_config = ret sample_llm" for ws t c
    using sample_builds by (auto simp: default_runtime_def Let_def bind_prog_def sample_llm_def[abs_def] ret_def)
  have "cs_status paused_session = PAUSED_FOR_HUMAN" by (simp add: paused_session_def)
  then have "runtime_resume sample_runtime 2 Workspaces.sample_task w
      = (Inr (Some (outcome_view Workspaces.sample_task out)), w')"
    using ld ws rw p q w(4)
    by (simp add: runtime_resume_def on_other_def on_db_def bind_prog_def tools ret_app fail_unless_def require_def
        given_def resumed_tools_def sample_components_of)
  then show ?thesis using w by blast
qed

theorem resume_is_governed_witness:
  "\<exists>(w' :: git_log db_world) s. db_sessions (dw_db w') Workspaces.sample_task = Some s \<and> same_task paused_session s \<and> cs_status s \<noteq> DECIDING"
proof -
  obtain w view w' where r: "runtime_resume sample_runtime 2 Workspaces.sample_task w = (Inr (Some view), w')"
    and w: "store_ok (dw_db w)" "db_sessions (dw_db w) Workspaces.sample_task = Some paused_session"
    using sample_resume by blast
  have "\<forall>p c ws x y s. resumed_workspace sample_runtime p x = (Inr (Some c, ws), y) \<longrightarrow>
      db_sessions (dw_db w) Workspaces.sample_task = Some s \<longrightarrow>
      nat (int_or_default c ''limits'' ''max_actions'' 40 - cs_action_count s) < 2"
    using paused_fuel w(2) by simp
  from resume_is_governed[OF w(1) r this] w(2) show ?thesis by auto
qed

theorem workspace_record_roundtrip_witness:
  "workspace_of_json (workspace_json isolated_sample) = Some isolated_sample"
  by (rule workspace_record_roundtrip) (code_simp+)
text \<open>A run without trust is refused only after the preflight and the configuration loader have run, and
  the preflight starts git in the repository without the hardened environment.\<close>

lemma refused_after_preflight:
  assumes "rt_resolve R x repository = Inr root" "rt_inspect R = Some inspect" "inspect (path_text root) x = (Inr f, y)"
    and "rt_load_config R = Some load" "load (path_text root) (vr_base_commit f) y = (Inr c, z)" "\<not> trust_repo"
  shows "governed_start R repository mode trust_repo x = (Inl (ValueError ''real runtime trust is required''), z)"
  using assms by (simp add: governed_start_def runtime_config_def bind_prog_def ret_app fail_unless_def require_def
      or_config_failed_def)

lemma preflight_unhardened:
  "let log = snd (inspect_repository sample_git (gh_start sample_git) (lit ''/repo'') []) in
     length log = 3 \<and> list_all (\<lambda>(argv, env). hd argv = lit ''git'' \<and> \<not> hardened sample_host env) log"
  by code_simp

end
