(* ===== verification/OfflineDemo.thy ===== *)
theory OfflineDemo
  imports Composition Demo
begin

text \<open>
  The offline demo of \<^verbatim>\<open>composition.py\<close>: the real runtime with a scripted model in the place of the
  provider (\<open>_OfflineDemoRuntime\<close>), the runtime of the fixed patch (\<open>_DemoRuntime\<close>) and the router
  between them (\<open>_DemoRouter\<close>). The script of the last client made is part of the world.
\<close>

section \<open>The demo's revision\<close>

definition demo_ignored :: "pystr list \<Rightarrow> bool" where
  "demo_ignored path \<longleftrightarrow>
     list_ex (\<lambda>part. part \<in> {lit ''.git'', lit ''.pytest_cache'', lit ''__pycache__''}) path
     \<or> (path \<noteq> [] \<and> 4 < length (last path) \<and> (ends_with (lit ''.pyc'') (last path) \<or> ends_with (lit ''.pyo'') (last path)))"

definition demo_entry :: "pystr list \<Rightarrow> pystr list \<times> node \<Rightarrow> (pystr list \<times> bytes) option" where
  "demo_entry root pn =
     (if demo_ignored (root @ fst pn) then None else map_option (Pair (fst pn)) (node_bytes (snd pn)))"

definition demo_workspace_sha256 :: "(bytes \<Rightarrow> pystr) \<Rightarrow> pystr list \<Rightarrow> tree \<Rightarrow> pystr res" where
  "demo_workspace_sha256 sha root t =
     bind_res (map_res file_frame (List.map_filter (demo_entry root) (sort_key (\<lambda>(p, _). posix p) t)))
       (\<lambda>frames. Inr (sha (concat frames)))"

section \<open>The offline runtime\<close>

record 'x offline_world =
  ow_rest :: 'x
  ow_script :: scripted_llm

definition on_script :: "(scripted_llm, 'a) prog \<Rightarrow> ('x offline_world, 'a) prog" where
  "on_script m w = (case m (ow_script w) of (r, s) \<Rightarrow> (r, w\<lparr>ow_script := s\<rparr>))"

text \<open>\<open>_ScriptedProviderFactory.create\<close>: a new client, at the start of the script.\<close>

definition scripted_provider ::
    "raw_action list \<Rightarrow> frozen_config \<Rightarrow> ('x offline_world, prompt_context \<Rightarrow> ('x offline_world, raw_action) prog) prog" where
  "scripted_provider actions config w =
     (Inr (\<lambda>context. on_script (scripted_generate context)), w\<lparr>ow_script := scripted actions\<rparr>)"

definition offline_config :: "(bytes \<Rightarrow> pystr) \<Rightarrow> int option \<Rightarrow> frozen_config res" where
  "offline_config sha max_actions =
     resolve_config sha BUILTIN_CONFIG
       (jobj [(''llm'', jobj [(''model'', JStr (lit ''offline-scripted''))]),
              (''limits'', jobj (case max_actions of None \<Rightarrow> [] | Some n \<Rightarrow> [(''max_actions'', JInt n)]))])
       (JObj []) (lit ''real'')"

definition demo_hasher :: "'w platform \<Rightarrow> pystr \<Rightarrow> ('w, pystr) prog" where
  "demo_hasher P root w =
     (case parse_path root of
        None \<Rightarrow> (Inl (OSError ''not found''), w)
      | Some p \<Rightarrow> (demo_workspace_sha256 (gh_sha (pf_host P)) p (fe_tree (pf_files P w p)), w))"

definition hashing :: "'w platform \<Rightarrow> 'w platform" where
  "hashing P = P\<lparr>pf_runner := (pf_runner P)\<lparr>rd_workspace_hash := demo_hasher P\<rparr>\<rparr>"

definition offline_runtime ::
    "'x offline_world platform \<Rightarrow> pystr list \<Rightarrow> raw_action list \<Rightarrow> frozen_config \<Rightarrow> 'x offline_world runtime" where
  "offline_runtime P data_root actions config =
     (default_runtime (hashing P) data_root (Some config))
       \<lparr>rt_provider := scripted_provider actions\<rparr>"

text \<open>The counters the demo reports.\<close>

definition EXTERNAL_ACTIONS :: "pystr list" where
  "EXTERNAL_ACTIONS = map lit [''list_files'', ''read_file'', ''search_code'', ''run_tests'', ''git_diff'',
     ''git_status'', ''run_diagnostic'']"

definition action_calls :: "core_session \<Rightarrow> nat \<times> nat" where
  "action_calls s =
     (length (List.filter (\<lambda>h. he_action_type h \<in> set EXTERNAL_ACTIONS) (cs_history s)),
      length (List.filter (\<lambda>h. he_action_type h = lit ''apply_patch'') (cs_history s)))"

definition counted :: "task_view option \<Rightarrow> ('x db_world, (task_view \<times> nat \<times> nat) option) prog" where
  "counted v =
     (case v of
        None \<Rightarrow> ret None
      | Some view \<Rightarrow>
          bind_prog (lift_res (bind_res (uuid_of_str (tv_task_id view)) check_uuid4)) (\<lambda>u.
          bind_prog (on_db (store_load (TaskId u))) (\<lambda>s. ret (Some (view, action_calls s)))))"

definition offline_run ::
    "'x runtime \<Rightarrow> nat \<Rightarrow> pystr \<Rightarrow> pystr \<Rightarrow> pystr \<Rightarrow> bool
       \<Rightarrow> ('x db_world, (task_view \<times> nat \<times> nat) option) prog" where
  "offline_run R fuel repository description mode trust_repo =
     (if mode \<noteq> lit ''demo'' then raise (ValueError ''demo mode is required'')
      else bind_prog (runtime_run R fuel repository description (lit ''real'') trust_repo) counted)"

definition offline_resume ::
    "'x runtime \<Rightarrow> nat \<Rightarrow> task_id \<Rightarrow> ('x db_world, (task_view \<times> nat \<times> nat) option) prog" where
  "offline_resume R fuel t = bind_prog (runtime_resume R fuel t) counted"

section \<open>The fixed runtime and the router\<close>

type_synonym demo_views = "(pystr \<times> task_view) list"

definition legacy_run ::
    "scripted_llm components \<Rightarrow> pystr \<Rightarrow> pystr \<Rightarrow> bool \<Rightarrow> demo_views \<Rightarrow> task_view option res \<times> demo_views" where
  "legacy_run C description mode trust_repo views =
     (case demo_run C (mode = lit ''demo'') trust_repo description of
        Inl e \<Rightarrow> (Inl e, views)
      | Inr None \<Rightarrow> (Inr None, views)
      | Inr (Some out) \<Rightarrow>
          let view = outcome_view demo_task_id out in (Inr (Some view), dict_update (tv_task_id view) view views))"

definition legacy_status :: "uuid \<Rightarrow> demo_views \<Rightarrow> task_view res" where
  "legacy_status u views = of_opt (KeyError ''task not found'') (map_of views (uuid_str u))"

definition legacy_resume :: "uuid \<Rightarrow> demo_views \<Rightarrow> task_view res" where
  "legacy_resume u views =
     bind_res (legacy_status u views) (\<lambda>view.
     if tv_status view = PAUSED_FOR_HUMAN then Inr view else Inl (ValueError ''task is not resumable''))"

definition REPAIR_DEMO_PATCH :: pystr where
  "REPAIR_DEMO_PATCH = concat (map (\<lambda>l. lit l @ [10]) [''--- a/calculator.py'', ''+++ b/calculator.py'',
     ''@@ -1,2 +1,2 @@'', '' def add(a: int, b: int) -> int:'', ''-    return a - b'', ''+    return a + b''])"

definition REPAIR_DEMO_ACTIONS :: "raw_action list" where
  "REPAIR_DEMO_ACTIONS =
     [RawDict [(lit ''type'', JStr (lit ''read_file'')), (lit ''path'', JStr (lit ''calculator.py''))],
      RawDict [(lit ''type'', JStr (lit ''search_code'')), (lit ''path'', JStr (lit ''.'')),
               (lit ''query'', JStr (lit ''return a - b'')), (lit ''case_sensitive'', JBool True)],
      RawDict [(lit ''type'', JStr (lit ''apply_patch'')), (lit ''diff'', JStr REPAIR_DEMO_PATCH)]]"

text \<open>The router: the runtime of its last repaired repository, and the views of the fixed one.\<close>

record 'x router =
  ro_world :: "'x offline_world db_world"
  ro_active :: "'x offline_world runtime option"
  ro_views :: demo_views

record 'x router_parts =
  rp_platform :: "'x offline_world platform"
  rp_data_root :: "pystr list"
  rp_is_file :: "'x \<Rightarrow> pystr list \<Rightarrow> bool"
  rp_fixed :: "scripted_llm components"

definition recognized :: "'x router_parts \<Rightarrow> 'x \<Rightarrow> pystr list \<Rightarrow> bool" where
  "recognized Q x repository \<longleftrightarrow> rp_is_file Q x (repository @ [lit ''calculator.py''])
     \<and> rp_is_file Q x (repository @ [lit ''tests'', lit ''test_calculator.py''])"

definition offline_of :: "'x router_parts \<Rightarrow> raw_action list \<Rightarrow> 'x offline_world runtime res" where
  "offline_of Q actions =
     bind_res (offline_config (gh_sha (pf_host (rp_platform Q))) None) (\<lambda>config.
     Inr (offline_runtime (rp_platform Q) (rp_data_root Q) actions config))"

definition on_world :: "('x offline_world db_world, 'a) prog \<Rightarrow> ('x router, 'a) prog" where
  "on_world m w = (case m (ro_world w) of (r, x) \<Rightarrow> (r, w\<lparr>ro_world := x\<rparr>))"

definition router_run ::
    "'x router_parts \<Rightarrow> nat \<Rightarrow> pystr \<Rightarrow> pystr \<Rightarrow> pystr \<Rightarrow> bool \<Rightarrow> ('x router, task_view option) prog" where
  "router_run Q fuel repository description mode trust_repo w =
     (let x = dw_rest (ro_world w) in
      bind_prog (lift_res (gh_resolve (pf_host (rp_platform Q)) x repository)) (\<lambda>root.
      if \<not> recognized Q (ow_rest x) root
      then (\<lambda>w. case legacy_run (rp_fixed Q) description mode trust_repo (ro_views w) of (r, vs) \<Rightarrow> (r, w\<lparr>ro_views := vs\<rparr>))
      else bind_prog (lift_res (offline_of Q REPAIR_DEMO_ACTIONS)) (\<lambda>R.
           bind_prog (\<lambda>w. (Inr (), w\<lparr>ro_active := Some R\<rparr>)) (\<lambda>_.
           bind_prog (on_world (offline_run R fuel (path_text root) description mode trust_repo)) (\<lambda>v.
           ret (map_option fst v))))) w)"

definition router_status :: "'x router_parts \<Rightarrow> uuid \<Rightarrow> ('x router, task_view) prog" where
  "router_status Q u w =
     (case ro_active w of
        Some R \<Rightarrow> on_world (bind_prog (lift_res (check_uuid4 u)) (\<lambda>u. runtime_status (TaskId u))) w
      | None \<Rightarrow>
          (case bind_prog (lift_res (offline_of Q [])) (\<lambda>_. on_world
                  (bind_prog (lift_res (check_uuid4 u)) (\<lambda>u. runtime_status (TaskId u)))) w of
             (Inl (KeyError m), w') \<Rightarrow> (legacy_status u (ro_views w'), w')
           | x \<Rightarrow> x))"

definition router_resume :: "'x router_parts \<Rightarrow> nat \<Rightarrow> uuid \<Rightarrow> ('x router, task_view option) prog" where
  "router_resume Q fuel u w =
     (bind_prog (case ro_active w of Some R \<Rightarrow> ret R | None \<Rightarrow> lift_res (offline_of Q [])) (\<lambda>R.
      bind_prog (lift_res (check_uuid4 u)) (\<lambda>u.
      bind_prog (on_world (offline_resume R fuel (TaskId u))) (\<lambda>v. ret (map_option fst v)))) w)"

section \<open>The demo is as governed as a real run\<close>

text \<open>A demo run that returns was asked for as a demo, was given trust and worked in an isolated
  worktree of its own task like a real one; the counters it reports count the stored session's history.
  This holds of every runtime whose workspaces obey the interface and whose configuration is fixed.\<close>

context workspace_boundary
begin

lemma fixed_start:
  assumes "rt_load_config R = None" "rt_config R = Some config"
    and "governed_start R repository mode trust_repo x = (Inr (c, l, t, ws), y)"
  shows "c = config"
  using assms unfolding governed_start_def bind_prog_Inr
  by (auto simp: runtime_config_def ret_app given_def fail_unless_Inr)

lemma demo_governed:
  assumes "rt_load_config R = None" "rt_config R = Some config"
    and "store_ok (dw_db w)" "nat (int_or_default config ''limits'' ''max_actions'' 40) < fuel"
    and "offline_run R fuel repository description mode trust_repo w = (Inr v, w')"
  shows "mode = lit ''demo'' \<and> trust_repo \<and> (\<exists>t s ws view. v = Some (view, action_calls s)
      \<and> db_sessions (dw_db w') t = Some s \<and> cs_status s \<noteq> DECIDING \<and> tv_status view = cs_status s
      \<and> tv_task_id view = uuid_str (tid_value t) \<and> store_ok (dw_db w')
      \<and> cs_user_task s = description \<and> vw_isolated ws \<and> vw_task_id ws = t
      \<and> db_workspace (dw_db w') t = JObj (workspace_json ws)
      \<and> (\<forall>t'. t' \<noteq> t \<longrightarrow> db_sessions (dw_db w') t' = db_sessions (dw_db w) t'))"
proof -
  obtain u v0 where mode: "mode = lit ''demo''" and r: "runtime_run R fuel repository description (lit ''real'') trust_repo w = (Inr v0, u)"
    and c: "counted v0 u = (Inr v, w')"
    using assms(5) by (auto simp: offline_run_def raise_app bind_prog_Inr split: if_splits)
  have "\<forall>c l t ws x. governed_start R repository (lit ''real'') trust_repo (dw_rest w) = (Inr (c, l, t, ws), x) \<longrightarrow>
      nat (int_or_default c ''limits'' ''max_actions'' 40) < fuel"
    using fixed_start[OF assms(1,2)] assms(4) by blast
  from run_governed[OF assms(3) r this] obtain t ws s view where
    g: "trust_repo" "vw_isolated ws" "vw_task_id ws = t" "store_ok (dw_db u)" "db_workspace (dw_db u) t = JObj (workspace_json ws)"
      "\<forall>t'. t' \<noteq> t \<longrightarrow> db_sessions (dw_db u) t' = db_sessions (dw_db w) t'" "db_sessions (dw_db u) t = Some s"
      "cs_user_task s = description" "v0 = Some view" "tv_task_id view = uuid_str (tid_value t)"
      "tv_status view = cs_status s" "cs_status s \<noteq> DECIDING"
    by blast
  obtain s' d where l: "store_load t (dw_db u) = (Inr s', d)" and v: "v = Some (view, action_calls s')" "w' = u\<lparr>dw_db := d\<rparr>"
    using c g(9,10) by (auto simp: counted_def bind_prog_Inr lift_res_Inr bind_res_Inr uuid_of_str_uuid_str check_uuid4_def
        on_db_Inr ret_app split: if_splits)
  have "d = dw_db u" "s' = s" using sqlite.load_Inr[OF g(4) l] g(7) by auto
  with v mode g show ?thesis by auto
qed

end

interpretation offline: workspace_boundary "offline_runtime P data_root actions config" for P data_root actions config
proof (unfold_locales, goal_cases)
  case (1 r t c b x ws x')
  then have "rt_prepare (default_runtime (hashing P) data_root (Some config)) r t c b x = (Inr ws, x')"
    by (simp add: offline_runtime_def)
  then show ?case by (rule worktrees.prepared)
next
  case (2 ws c x ws' x')
  then have "rt_validate (default_runtime (hashing P) data_root (Some config)) ws c x = (Inr ws', x')"
    by (simp add: offline_runtime_def)
  then show ?case by (rule worktrees.validated)
qed

lemma offline_fixed:
  "rt_load_config (offline_runtime P data_root actions config) = None"
  "rt_config (offline_runtime P data_root actions config) = Some config"
  by (simp_all add: offline_runtime_def default_runtime_def Let_def)

lemmas demo_is_governed = offline.demo_governed[OF offline_fixed]

end
