(* ===== verification/Addresses.thy ===== *)
theory Addresses
  imports Prelude Json
begin

text \<open>
  What \<^verbatim>\<open>web/security.py\<close>, \<^verbatim>\<open>web/app.py\<close> and \<^verbatim>\<open>cli/app.py\<close> use of Python's \<open>ipaddress\<close> and
  \<open>urllib.parse\<close> (as of Python 3.12): IP addresses and their classes, and the parts of a URL. Lower
  casing and the normalisation check of non-ASCII hosts are arguments.
\<close>

section \<open>Cutting strings\<close>

text \<open>\<open>s.partition(c)\<close> and \<open>s.rpartition(c)\<close>: before, whether found, after.\<close>

definition partition_at :: "int \<Rightarrow> pystr \<Rightarrow> pystr \<times> bool \<times> pystr" where
  "partition_at c s = (takeWhile (\<lambda>x. x \<noteq> c) s, c \<in> set s, drop 1 (dropWhile (\<lambda>x. x \<noteq> c) s))"

definition rpartition_at :: "int \<Rightarrow> pystr \<Rightarrow> pystr \<times> bool \<times> pystr" where
  "rpartition_at c s =
     (if c \<in> set s then (rev (drop 1 (dropWhile (\<lambda>x. x \<noteq> c) (rev s))), True, rev (takeWhile (\<lambda>x. x \<noteq> c) (rev s)))
      else ([], False, s))"

definition is_ascii :: "pystr \<Rightarrow> bool" where
  "is_ascii s \<longleftrightarrow> list_all (\<lambda>c. 0 \<le> c \<and> c < 128) s"

definition ascii_digit :: "int \<Rightarrow> bool" where
  "ascii_digit c \<longleftrightarrow> 48 \<le> c \<and> c \<le> 57"

definition ascii_alpha :: "int \<Rightarrow> bool" where
  "ascii_alpha c \<longleftrightarrow> 65 \<le> c \<and> c \<le> 90 \<or> 97 \<le> c \<and> c \<le> 122"

definition ascii_hex :: "int \<Rightarrow> bool" where
  "ascii_hex c \<longleftrightarrow> ascii_digit c \<or> 65 \<le> c \<and> c \<le> 70 \<or> 97 \<le> c \<and> c \<le> 102"

definition hex_value :: "int \<Rightarrow> int" where
  "hex_value c = (if ascii_digit c then c - 48 else if c < 97 then c - 55 else c - 87)"

definition number :: "int \<Rightarrow> pystr \<Rightarrow> int" where
  "number base s = foldl (\<lambda>n c. n * base + hex_value c) 0 s"

section \<open>IP addresses\<close>

datatype ip = IPv4 int | IPv6 int

definition octet :: "pystr \<Rightarrow> int option" where
  "octet s =
     (if s \<noteq> [] \<and> list_all ascii_digit s \<and> length s \<le> 3 \<and> (s = [48] \<or> hd s \<noteq> 48) \<and> number 10 s \<le> 255
      then Some (number 10 s) else None)"

definition ipv4_address :: "pystr \<Rightarrow> int option" where
  "ipv4_address s =
     (case map octet (split_char 46 s) of
        [Some a, Some b, Some c, Some d] \<Rightarrow> Some (((a * 256 + b) * 256 + c) * 256 + d) | _ \<Rightarrow> None)"

definition hextet :: "pystr \<Rightarrow> int option" where
  "hextet s = (if s \<noteq> [] \<and> list_all ascii_hex s \<and> length s \<le> 4 then Some (number 16 s) else None)"

text \<open>The parts of an IPv6 address, the dotted IPv4 at the end as two of them.\<close>

definition ipv6_parts :: "pystr \<Rightarrow> pystr list option" where
  "ipv6_parts s =
     (let parts = split_char 58 s in
      if length parts < 3 then None
      else if 46 \<in> set (last parts)
      then (case ipv4_address (last parts) of
              None \<Rightarrow> None
            | Some _ \<Rightarrow> Some (butlast parts @ [[48], [48]]))
      else Some parts)"

definition ipv6_value :: "pystr list \<Rightarrow> int option" where
  "ipv6_value parts =
     (case those (map hextet parts) of None \<Rightarrow> None | Some hs \<Rightarrow> Some (foldl (\<lambda>n h. n * 65536 + h) 0 hs))"

text \<open>The value of the dotted part, for the last two hextets.\<close>

definition dotted_value :: "pystr \<Rightarrow> int" where
  "dotted_value s = (case ipv4_address (last (split_char 58 s)) of Some n \<Rightarrow> n | None \<Rightarrow> 0)"

definition ipv6_number :: "pystr \<Rightarrow> int option" where
  "ipv6_number s = (case ipv6_parts s of None \<Rightarrow> None | Some parts \<Rightarrow>
     (let n = length parts;
          skips = List.filter (\<lambda>i. parts ! i = []) [1..<n - 1];
          base = (case skips of
              [] \<Rightarrow> if n = 8 then ipv6_value parts else None
            | [i] \<Rightarrow>
                let hi = (if hd parts = [] then i - 1 else i);
                    lo = (if last parts = [] then n - i - 2 else n - i - 1)
                in if hd parts = [] \<and> hi \<noteq> 0 \<or> last parts = [] \<and> lo \<noteq> 0 \<or> 8 < hi + lo + 1 then None
                   else (case (ipv6_value (take hi parts), ipv6_value (drop (n - lo) parts)) of
                      (Some a, Some b) \<Rightarrow> Some (a * 65536 ^ (8 - hi) + b) | _ \<Rightarrow> None)
            | _ \<Rightarrow> None)
      in if 9 < n then None else map_option (\<lambda>b. b + dotted_value s) base))"

definition ipv6_address :: "pystr \<Rightarrow> int option" where
  "ipv6_address s =
     (case partition_at 37 s of (address, scoped, scope) \<Rightarrow>
        if 47 \<in> set s \<or> scoped \<and> (scope = [] \<or> 37 \<in> set scope) then None else ipv6_number address)"

definition ip_address :: "pystr \<Rightarrow> ip option" where
  "ip_address s =
     (case ipv4_address s of Some n \<Rightarrow> Some (IPv4 n) | None \<Rightarrow> map_option IPv6 (ipv6_address s))"

text \<open>A network: its address and the number of its free bits.\<close>

definition in_network :: "int \<Rightarrow> int \<times> nat \<Rightarrow> bool" where
  "in_network n net \<longleftrightarrow> n div 2 ^ snd net = fst net div 2 ^ snd net"

definition v4 :: "int \<Rightarrow> int \<Rightarrow> int \<Rightarrow> int \<Rightarrow> int" where
  "v4 a b c d = ((a * 256 + b) * 256 + c) * 256 + d"

text \<open>The high 64 bits of an IPv6 network, written as four hextets.\<close>

definition v6 :: "int \<Rightarrow> int \<Rightarrow> int \<Rightarrow> int \<Rightarrow> int" where
  "v6 a b c d = (((a * 65536 + b) * 65536 + c) * 65536 + d) * 2 ^ 64"

definition IPV4_PRIVATE :: "(int \<times> nat) list" where
  "IPV4_PRIVATE =
     [(v4 0 0 0 0, 24), (v4 10 0 0 0, 24), (v4 127 0 0 0, 24), (v4 169 254 0 0, 16), (v4 172 16 0 0, 20),
      (v4 192 0 0 0, 8), (v4 192 0 0 170, 1), (v4 192 0 2 0, 8), (v4 192 168 0 0, 16), (v4 198 18 0 0, 17),
      (v4 198 51 100 0, 8), (v4 203 0 113 0, 8), (v4 240 0 0 0, 28), (v4 255 255 255 255, 0)]"

definition IPV4_EXCEPTIONS :: "(int \<times> nat) list" where
  "IPV4_EXCEPTIONS = [(v4 192 0 0 9, 0), (v4 192 0 0 10, 0)]"

definition IPV6_PRIVATE :: "(int \<times> nat) list" where
  "IPV6_PRIVATE =
     [(1, 0), (0, 0), (65535 * 2 ^ 32, 32), (v6 0x64 0xff9b 1 0, 80), (v6 0x100 0 0 0, 64), (v6 0x2001 0 0 0, 105),
      (v6 0x2001 0xdb8 0 0, 96), (v6 0x2002 0 0 0, 112), (v6 0x3fff 0 0 0, 108), (v6 0xfc00 0 0 0, 121),
      (v6 0xfe80 0 0 0, 118)]"

definition IPV6_EXCEPTIONS :: "(int \<times> nat) list" where
  "IPV6_EXCEPTIONS =
     [(v6 0x2001 1 0 0 + 1, 0), (v6 0x2001 1 0 0 + 2, 0), (v6 0x2001 3 0 0, 96), (v6 0x2001 4 0x112 0, 80),
      (v6 0x2001 0x20 0 0, 100), (v6 0x2001 0x30 0 0, 100)]"

fun mapped :: "ip \<Rightarrow> ip" where
  "mapped (IPv4 n) = IPv4 n"
| "mapped (IPv6 n) = (if n div 2 ^ 32 = 65535 then IPv4 (n mod 2 ^ 32) else IPv6 n)"

fun plain_private :: "ip \<Rightarrow> bool" where
  "plain_private (IPv4 n) \<longleftrightarrow> list_ex (in_network n) IPV4_PRIVATE \<and> \<not> list_ex (in_network n) IPV4_EXCEPTIONS"
| "plain_private (IPv6 n) \<longleftrightarrow> list_ex (in_network n) IPV6_PRIVATE \<and> \<not> list_ex (in_network n) IPV6_EXCEPTIONS"

definition is_private :: "ip \<Rightarrow> bool" where
  "is_private a \<longleftrightarrow> plain_private (mapped a)"

fun is_loopback :: "ip \<Rightarrow> bool" where
  "is_loopback (IPv4 n) \<longleftrightarrow> in_network n (v4 127 0 0 0, 24)"
| "is_loopback (IPv6 n) \<longleftrightarrow> n = 1"

fun is_unspecified :: "ip \<Rightarrow> bool" where
  "is_unspecified (IPv4 n) \<longleftrightarrow> n = 0"
| "is_unspecified (IPv6 n) \<longleftrightarrow> n = 0"

fun is_multicast :: "ip \<Rightarrow> bool" where
  "is_multicast (IPv4 n) \<longleftrightarrow> in_network n (v4 224 0 0 0, 28)"
| "is_multicast (IPv6 n) \<longleftrightarrow> in_network n (v6 0xff00 0 0 0, 120)"

fun is_link_local :: "ip \<Rightarrow> bool" where
  "is_link_local (IPv4 n) \<longleftrightarrow> in_network n (v4 169 254 0 0, 16)"
| "is_link_local (IPv6 n) \<longleftrightarrow> in_network n (v6 0xfe80 0 0 0, 118)"
section \<open>URLs\<close>

record url =
  u_scheme :: pystr
  u_netloc :: pystr
  u_path :: pystr
  u_query :: pystr
  u_fragment :: pystr

text \<open>What the parser knows of text: lower casing, and whether a non-ASCII host survives the check of its
  normalisation.\<close>

record url_text =
  ut_lower :: "pystr \<Rightarrow> pystr"
  ut_host_ok :: "pystr \<Rightarrow> bool"

definition scheme_char :: "int \<Rightarrow> bool" where
  "scheme_char c \<longleftrightarrow> ascii_alpha c \<or> ascii_digit c \<or> c = 43 \<or> c = 45 \<or> c = 46"

definition split_scheme :: "url_text \<Rightarrow> pystr \<Rightarrow> pystr \<times> pystr" where
  "split_scheme T s =
     (case partition_at 58 s of (scheme, colon, rest) \<Rightarrow>
        if colon \<and> scheme \<noteq> [] \<and> ascii_alpha (hd scheme) \<and> list_all scheme_char scheme then (ut_lower T scheme, rest)
        else ([], s))"

definition bracketed_ok :: "pystr \<Rightarrow> bool" where
  "bracketed_ok netloc =
     (case partition_at 91 (snd (snd (rpartition_at 64 netloc))) of (before, _, bracketed) \<Rightarrow>
      case partition_at 93 bracketed of (host, _, port) \<Rightarrow>
        before = [] \<and> (port = [] \<or> hd port = 58)
        \<and> (if starts_with [118] host
           then (case partition_at 46 (tl host) of (version, dot, rest) \<Rightarrow>
                   version \<noteq> [] \<and> list_all ascii_hex version \<and> dot \<and> rest \<noteq> [] \<and> 10 \<notin> set rest)
           else (case ip_address host of Some (IPv6 _) \<Rightarrow> True | _ \<Rightarrow> False)))"

definition netloc_ok :: "url_text \<Rightarrow> pystr \<Rightarrow> bool" where
  "netloc_ok T netloc \<longleftrightarrow> (91 \<in> set netloc \<longleftrightarrow> 93 \<in> set netloc) \<and> (91 \<in> set netloc \<longrightarrow> bracketed_ok netloc)
     \<and> (is_ascii netloc \<or> ut_host_ok T netloc)"

definition PARAM_SCHEMES :: "pystr list" where
  "PARAM_SCHEMES = map lit ['''', ''ftp'', ''hdl'', ''prospero'', ''http'', ''https'', ''shttp'', ''rtsp'', ''rtsps'',
     ''rtspu'', ''sip'', ''sips'', ''mms'', ''sftp'', ''tel'']"

text \<open>\<open>urlparse\<close> takes the parameters of the last path segment off the path.\<close>

definition without_params :: "pystr \<Rightarrow> pystr" where
  "without_params path =
     (case rpartition_at 47 path of (before, slash, segment) \<Rightarrow>
        (if slash then before @ [47] else []) @ takeWhile (\<lambda>c. c \<noteq> 59) segment)"

definition urlparse :: "url_text \<Rightarrow> pystr \<Rightarrow> url res" where
  "urlparse T text =
     (let s = List.filter (\<lambda>c. c \<noteq> 9 \<and> c \<noteq> 10 \<and> c \<noteq> 13) (dropWhile (\<lambda>c. 0 \<le> c \<and> c \<le> 32) text);
          (scheme, rest) = split_scheme T s;
          is_delim = (\<lambda>c. c = 47 \<or> c = 63 \<or> c = 35);
          (netloc, tail) = (if starts_with [47, 47] rest
             then (takeWhile (\<lambda>c. \<not> is_delim c) (drop 2 rest), dropWhile (\<lambda>c. \<not> is_delim c) (drop 2 rest))
             else ([], rest));
          (before, _, fragment) = partition_at 35 tail;
          (path, _, query) = partition_at 63 before
      in if \<not> netloc_ok T netloc then Inl (ValueError ''invalid URL'')
         else Inr \<lparr>u_scheme = scheme, u_netloc = netloc,
                   u_path = (if scheme \<in> set PARAM_SCHEMES then without_params path else path),
                   u_query = query, u_fragment = fragment\<rparr>)"

definition host_info :: "url \<Rightarrow> pystr \<times> pystr" where
  "host_info u =
     (let info = snd (snd (rpartition_at 64 (u_netloc u))) in
      case partition_at 91 info of (_, bracket, bracketed) \<Rightarrow>
      if bracket then (case partition_at 93 bracketed of (host, _, port) \<Rightarrow> (host, snd (snd (partition_at 58 port))))
      else (case partition_at 58 info of (host, _, port) \<Rightarrow> (host, port)))"

text \<open>Whether \<open>username\<close> or \<open>password\<close> is a text that is not empty.\<close>

definition has_userinfo :: "url \<Rightarrow> bool" where
  "has_userinfo u =
     (case rpartition_at 64 (u_netloc u) of (info, found, _) \<Rightarrow>
      case partition_at 58 info of (name, _, password) \<Rightarrow> found \<and> (name \<noteq> [] \<or> password \<noteq> []))"

text \<open>\<open>hostname\<close>, with the empty text for \<open>None\<close>; a zone keeps its case.\<close>

definition url_hostname :: "url_text \<Rightarrow> url \<Rightarrow> pystr" where
  "url_hostname T u =
     (case partition_at 37 (fst (host_info u)) of (host, percent, zone) \<Rightarrow>
        if fst (host_info u) = [] then [] else ut_lower T host @ (if percent then 37 # zone else []))"

definition url_port :: "url \<Rightarrow> int option res" where
  "url_port u =
     (let port = snd (host_info u) in
      if port = [] then Inr None
      else if list_all ascii_digit port \<and> number 10 port \<le> 65535 then Inr (Some (number 10 port))
      else Inl (ValueError ''invalid port''))"

end
