(* ===== verification/WebApp.thy ===== *)
theory WebApp
  imports Addresses RunService
begin

text \<open>
  \<^verbatim>\<open>web/security.py\<close> and \<^verbatim>\<open>web/app.py\<close>: the origin and host checks, the CSRF double submit, and the
  request handlers of the demo's web page. A request is its raw headers, the chunks of its body and
  the scenario of its path. The service of \<^verbatim>\<open>web/run_service.py\<close>, the directories and the templates
  are arguments; a page is its template and what it shows. The event identifiers that are logged are
  not modelled.
\<close>

section \<open>Authorities and origins\<close>

definition int_text :: "int \<Rightarrow> pystr" where
  "int_text n = int_str n"

definition normalize_authority :: "url_text \<Rightarrow> pystr \<Rightarrow> pystr res" where
  "normalize_authority T host =
     bind_res (urlparse T (lit ''//'' @ host)) (\<lambda>parsed.
     bind_res (require (\<not> has_userinfo parsed) (ValueError ''authority must not contain userinfo'')) (\<lambda>_.
     let hostname = url_hostname T parsed in
     if hostname = [] then Inr (ut_lower T host)
     else bind_res (url_port parsed) (\<lambda>port.
       case port of
         None \<Rightarrow> Inr hostname
       | Some n \<Rightarrow> if n = 443 then Inr hostname else Inr (hostname @ 58 # int_text n))))"

definition validate_host_header :: "url_text \<Rightarrow> pystr \<Rightarrow> pystr \<Rightarrow> bool" where
  "validate_host_header T host canonical =
     (case (normalize_authority T host, normalize_authority T canonical) of
        (Inr a, Inr b) \<Rightarrow> a = b | _ \<Rightarrow> False)"

definition validate_canonical_origin :: "url_text \<Rightarrow> pystr \<Rightarrow> pystr res" where
  "validate_canonical_origin T v =
     bind_res (urlparse T v) (\<lambda>parsed.
     bind_res (require (u_scheme parsed = lit ''https'') (ValueError ''canonical_origin must use https scheme'')) (\<lambda>_.
     bind_res (require (\<not> has_userinfo parsed) (ValueError ''canonical_origin must not contain userinfo'')) (\<lambda>_.
     bind_res (require (url_hostname T parsed \<noteq> []) (ValueError ''canonical_origin must have a hostname'')) (\<lambda>_.
     bind_res (require (u_path parsed = [] \<or> u_path parsed = [47]) (ValueError ''canonical_origin must not contain a path'')) (\<lambda>_.
     bind_res (require (u_query parsed = []) (ValueError ''canonical_origin must not contain a query'')) (\<lambda>_.
     bind_res (require (u_fragment parsed = []) (ValueError ''canonical_origin must not contain a fragment'')) (\<lambda>_.
     let hostname = ut_lower T (url_hostname T parsed) in
     bind_res (url_port parsed) (\<lambda>port.
       case port of
         None \<Rightarrow> Inr (lit ''https://'' @ hostname)
       | Some n \<Rightarrow> if n = 443 then Inr (lit ''https://'' @ hostname)
                   else Inr (lit ''https://'' @ hostname @ 58 # int_text n)))))))))"

section \<open>Raw headers\<close>

definition ascii_lower :: "bytes \<Rightarrow> bytes" where
  "ascii_lower b = map (\<lambda>c. if 65 \<le> uint c \<and> uint c \<le> 90 then c + 32 else c) b"

definition latin1 :: "bytes \<Rightarrow> pystr" where
  "latin1 b = map uint b"

record request =
  rq_scenario :: pystr
  rq_headers :: "(bytes \<times> bytes) list"
  rq_chunks :: "bytes list"

definition raw_header_values :: "request \<Rightarrow> string \<Rightarrow> pystr list" where
  "raw_header_values q name =
     map (latin1 \<circ> snd) (List.filter (\<lambda>(h, _). latin1 (ascii_lower h) = lit name) (rq_headers q))"

definition single_raw_header :: "request \<Rightarrow> string \<Rightarrow> pystr option" where
  "single_raw_header q name = (case raw_header_values q name of [v] \<Rightarrow> Some v | _ \<Rightarrow> None)"

text \<open>\<open>_HOSTNAME_PATTERN\<close>: labels of letters, digits and inner hyphens, an optional final dot.\<close>

definition hostname_label :: "pystr \<Rightarrow> bool" where
  "hostname_label s \<longleftrightarrow> s \<noteq> [] \<and> length s \<le> 63
     \<and> list_all (\<lambda>c. ascii_alpha c \<or> ascii_digit c \<or> c = 45) s \<and> hd s \<noteq> 45 \<and> last s \<noteq> 45"

definition hostname_matches :: "pystr \<Rightarrow> bool" where
  "hostname_matches s \<longleftrightarrow> s \<noteq> [] \<and> length s \<le> 253
     \<and> list_all hostname_label (split_char 46 (if last s = 46 then butlast s else s))"

definition port_valid :: "pystr \<Rightarrow> bool" where
  "port_valid port \<longleftrightarrow> port \<noteq> [] \<and> list_all ascii_digit port \<and> length port \<le> 5 \<and> \<not> list_all (\<lambda>c. c = 48) port
     \<and> (length port < 5 \<or> number 10 port \<le> 65535)"

definition is_valid_raw_authority :: "pystr \<Rightarrow> bool" where
  "is_valid_raw_authority authority =
     (if authority = [] \<or> \<not> is_ascii authority \<or> authority \<noteq> strip authority \<or> has_any [47, 63, 35, 64] authority then False
      else if hd authority = 91 then
        (case partition_at 93 (tl authority) of (host, closed, rest) \<Rightarrow>
           closed \<and> host \<noteq> [] \<and> list_all (\<lambda>c. ascii_hex c \<or> c = 58 \<or> c = 46) host
           \<and> (rest = [] \<or> hd rest = 58 \<and> tl rest \<noteq> [] \<and> list_all ascii_digit (tl rest))
           \<and> ipv6_address host \<noteq> None \<and> (rest = [] \<or> port_valid (tl rest)))
      else if 1 < length (List.filter (\<lambda>c. c = 58) authority) then False
      else (case partition_at 58 authority of (hostname, separator, port) \<Rightarrow>
        hostname_matches hostname \<and> (\<not> separator \<or> port_valid port)))"

section \<open>The CSRF double submit\<close>

definition CSRF_COOKIE_NAME :: pystr where
  "CSRF_COOKIE_NAME = lit ''__Host-cah_csrf''"

definition FORM_MEDIA_TYPE :: pystr where
  "FORM_MEDIA_TYPE = lit ''application/x-www-form-urlencoded''"

definition MAX_FORM_BODY_BYTES :: int where
  "MAX_FORM_BODY_BYTES = 4096"

definition nonce_char :: "int \<Rightarrow> bool" where
  "nonce_char c \<longleftrightarrow> ascii_alpha c \<or> ascii_digit c \<or> c = 95 \<or> c = 45"

definition is_valid_csrf_nonce :: "pystr \<Rightarrow> bool" where
  "is_valid_csrf_nonce v \<longleftrightarrow> is_ascii v \<and> v \<noteq> [] \<and> list_all nonce_char v"

text \<open>\<open>secrets.compare_digest\<close> on ASCII texts.\<close>

definition compare_csrf_nonce :: "pystr \<Rightarrow> pystr \<Rightarrow> bool" where
  "compare_csrf_nonce a b \<longleftrightarrow> a = b"

definition validate_csrf_body :: "(pystr \<times> pystr) list \<Rightarrow> bool" where
  "validate_csrf_body body \<longleftrightarrow>
     set (map fst body) = {lit ''csrf_token''} \<and> (case map_of body (lit ''csrf_token'') of Some t \<Rightarrow> t \<noteq> [] | None \<Rightarrow> False)"

definition csrf_pair :: "pystr \<Rightarrow> pystr option" where
  "csrf_pair pair =
     (case partition_at 61 (strip pair) of (name, separator, value) \<Rightarrow>
        if separator \<and> name = CSRF_COOKIE_NAME then Some value else None)"

definition csrf_cookies :: "request \<Rightarrow> pystr list" where
  "csrf_cookies q = List.map_filter csrf_pair (concat (map (split_char 59) (raw_header_values q ''cookie'')))"

definition single_csrf_cookie :: "request \<Rightarrow> pystr option" where
  "single_csrf_cookie q =
     (case csrf_cookies q of [v] \<Rightarrow> if is_valid_csrf_nonce v then Some v else None | _ \<Rightarrow> None)"

text \<open>The body, read chunk by chunk.\<close>

fun read_limited :: "int \<Rightarrow> bytes \<Rightarrow> bytes list \<Rightarrow> bytes option" where
  "read_limited n body [] = Some body"
| "read_limited n body (chunk # chunks) =
     (if MAX_FORM_BODY_BYTES < n + py_len chunk then None
      else read_limited (n + py_len chunk) (body @ chunk) chunks)"

definition read_limited_body :: "request \<Rightarrow> bytes option" where
  "read_limited_body q = read_limited 0 [] (rq_chunks q)"

fun has_invalid_percent_encoding :: "bytes \<Rightarrow> bool" where
  "has_invalid_percent_encoding [] = False"
| "has_invalid_percent_encoding (b # bs) =
     (if uint b = 37 then
        (case bs of
           x # y # r \<Rightarrow> \<not> (ascii_hex (uint x) \<and> ascii_hex (uint y)) \<or> has_invalid_percent_encoding r
         | _ \<Rightarrow> True)
      else has_invalid_percent_encoding bs)"

text \<open>\<open>unquote\<close> of an ASCII text whose percent sequences are all valid.\<close>

fun unquote_bytes :: "pystr \<Rightarrow> bytes" where
  "unquote_bytes [] = []"
| "unquote_bytes (c # cs) =
     (if c = 37 then
        (case cs of
           x # y # r \<Rightarrow> if ascii_hex x \<and> ascii_hex y then of_int (number 16 [x, y]) # unquote_bytes r
                      else of_int c # unquote_bytes cs
         | _ \<Rightarrow> of_int c # unquote_bytes cs)
      else of_int c # unquote_bytes cs)"

definition unquote_plus :: "pystr \<Rightarrow> pystr option" where
  "unquote_plus s = utf8_decode (unquote_bytes (map (\<lambda>c. if c = 43 then 32 else c) s))"

definition parse_field :: "pystr \<Rightarrow> (pystr \<times> pystr) option" where
  "parse_field s =
     (case partition_at 61 s of (name, has_eq, value) \<Rightarrow>
        if \<not> has_eq then None
        else (case (unquote_plus name, unquote_plus value) of (Some n, Some v) \<Rightarrow> Some (n, v) | _ \<Rightarrow> None))"

definition parse_qsl :: "pystr \<Rightarrow> (pystr \<times> pystr) list option" where
  "parse_qsl s = (if s = [] then Some [] else those (map parse_field (split_char 38 s)))"

definition parse_csrf_form :: "bytes \<Rightarrow> pystr option" where
  "parse_csrf_form body =
     (if has_invalid_percent_encoding body \<or> \<not> is_ascii (latin1 body) then None
      else (case parse_qsl (latin1 body) of
         Some [(name, token)] \<Rightarrow>
           if name = lit ''csrf_token'' \<and> validate_csrf_body [(name, token)] \<and> is_valid_csrf_nonce token
           then Some token else None
       | _ \<Rightarrow> None))"
section \<open>The handlers\<close>

datatype page = ScenariosPage "(pystr \<times> pystr) list" pystr | ResultPage trace_view

text \<open>A response before the middleware, and after it.\<close>

datatype response = Failed int string | Page page "(pystr \<times> pystr) option"

definition RUN_SERVICE_ERROR_STATUSES :: "run_outcome \<Rightarrow> (int \<times> string) option" where
  "RUN_SERVICE_ERROR_STATUSES code =
     (case code of
        RO_TIMEOUT \<Rightarrow> Some (504, ''timeout'')
      | RO_CLEANUP_FAILED \<Rightarrow> Some (500, ''cleanup_failed'')
      | RO_TRACE_INCOMPLETE \<Rightarrow> Some (500, ''trace_incomplete'')
      | RO_WORKER_LIFECYCLE_INVALID \<Rightarrow> Some (500, ''worker_lifecycle_invalid'')
      | RO_TERMINATION_UNCONFIRMED \<Rightarrow> Some (500, ''termination_unconfirmed'')
      | RO_INTERNAL \<Rightarrow> Some (500, ''internal'')
      | _ \<Rightarrow> None)"

definition RETAIN_REQUEST_ROOT_PARENT_ERRORS :: "run_outcome set" where
  "RETAIN_REQUEST_ROOT_PARENT_ERRORS = {RO_CLEANUP_FAILED, RO_TERMINATION_UNCONFIRMED}"

text \<open>The application: its canonical origin as the settings keep it, its scenarios and its service; the
  temporary directories; and what rendering a page may raise.\<close>

record 'w web_app =
  wa_text :: url_text
  wa_origin :: pystr
  wa_registry :: "(pystr \<times> scenario) list"
  wa_service :: "pystr \<Rightarrow> pystr \<Rightarrow> 'w \<Rightarrow> (run_outcome + trace_view) \<times> 'w"
  wa_mkdtemp :: "('w, pystr) prog"
  wa_rmdir :: "pystr \<Rightarrow> ('w, unit) prog"
  wa_render :: "page \<Rightarrow> ('w, unit) prog"

definition canonical_authority :: "'w web_app \<Rightarrow> pystr" where
  "canonical_authority A = (case urlparse (wa_text A) (wa_origin A) of Inr u \<Rightarrow> u_netloc u | Inl _ \<Rightarrow> [])"

text \<open>The checks before a scenario is run, in their order: the failure, or nothing.\<close>

definition media_type :: "url_text \<Rightarrow> request \<Rightarrow> pystr" where
  "media_type T q =
     (case single_raw_header q ''content-type'' of None \<Rightarrow> [] | Some v \<Rightarrow> ut_lower T (strip (hd (split_char 59 v))))"

definition request_failure :: "'w web_app \<Rightarrow> request \<Rightarrow> response option" where
  "request_failure A q =
     (if rq_scenario q \<notin> fst ` set (wa_registry A) then Some (Failed 404 ''not_found'')
      else if single_raw_header q ''origin'' \<noteq> Some (wa_origin A) then Some (Failed 403 ''forbidden'')
      else (case single_raw_header q ''host'' of
        None \<Rightarrow> Some (Failed 403 ''forbidden'')
      | Some host \<Rightarrow>
          if \<not> is_valid_raw_authority host then Some (Failed 403 ''forbidden'')
          else if \<not> validate_host_header (wa_text A) host (canonical_authority A) then Some (Failed 403 ''forbidden'')
          else if media_type (wa_text A) q \<noteq> FORM_MEDIA_TYPE then Some (Failed 415 ''unsupported_media_type'')
          else (case read_limited_body q of
            None \<Rightarrow> Some (Failed 413 ''request_too_large'')
          | Some body \<Rightarrow>
              (case parse_csrf_form body of
                 None \<Rightarrow> Some (Failed 400 ''bad_request'')
               | Some form_token \<Rightarrow>
                   (case single_csrf_cookie q of
                      None \<Rightarrow> Some (Failed 403 ''forbidden'')
                    | Some cookie_token \<Rightarrow>
                        if compare_csrf_nonce form_token cookie_token then None else Some (Failed 403 ''forbidden''))))))"

text \<open>Running the scenario in a directory of its own; the flag says whether the directory is kept.\<close>

definition run_for_request :: "'w web_app \<Rightarrow> pystr \<Rightarrow> pystr \<Rightarrow> 'w \<Rightarrow> response res \<times> bool \<times> 'w" where
  "run_for_request A scenario root w =
     (case wa_service A scenario root w of
        (Inr trace, w1) \<Rightarrow>
          (case wa_render A (ResultPage trace) w1 of
             (Inl e, w2) \<Rightarrow> (Inl e, False, w2)
           | (Inr _, w2) \<Rightarrow> (Inr (Page (ResultPage trace) None), False, w2))
      | (Inl RO_BUSY, w1) \<Rightarrow> (Inr (Failed 503 ''busy''), False, w1)
      | (Inl code, w1) \<Rightarrow>
          (case RUN_SERVICE_ERROR_STATUSES code of
             Some (status, text) \<Rightarrow> (Inr (Failed status text), code \<in> RETAIN_REQUEST_ROOT_PARENT_ERRORS, w1)
           | None \<Rightarrow> (Inr (Failed 500 ''internal_error''), False, w1)))"

definition start_scenario :: "'w web_app \<Rightarrow> request \<Rightarrow> ('w, response) prog" where
  "start_scenario A q =
     (case request_failure A q of
        Some failure \<Rightarrow> ret failure
      | None \<Rightarrow>
          bind_prog (wa_mkdtemp A) (\<lambda>root w.
          case run_for_request A (rq_scenario q) root w of (r, retained, w1) \<Rightarrow>
            if retained then (r, w1)
            else (case wa_rmdir A root w1 of
                    (Inl e, w2) \<Rightarrow> (if is_os_error e then r else Inl e, w2)
                  | (Inr _, w2) \<Rightarrow> (r, w2))))"

definition list_scenarios :: "'w web_app \<Rightarrow> pystr \<Rightarrow> ('w, response) prog" where
  "list_scenarios A csrf_token =
     (let page = ScenariosPage (map (\<lambda>(i, s). (sc_id s, sc_description s)) (wa_registry A)) csrf_token
      in bind_prog (wa_render A page) (\<lambda>_. ret (Page page (Some (CSRF_COOKIE_NAME, csrf_token)))))"

text \<open>The middleware: no exception passes it, and every response gets the security headers.\<close>

definition SECURITY_HEADERS :: "(pystr \<times> pystr) list" where
  "SECURITY_HEADERS =
     [(lit ''Referrer-Policy'', lit ''origin''), (lit ''X-Content-Type-Options'', lit ''nosniff''),
      (lit ''X-Frame-Options'', lit ''DENY''),
      (lit ''Content-Security-Policy'',
       lit ''default-src '' @ [39] @ lit ''self'' @ [39] @ lit ''; base-uri '' @ [39] @ lit ''none'' @ [39]
       @ lit ''; form-action '' @ [39] @ lit ''self'' @ [39] @ lit ''; frame-ancestors '' @ [39] @ lit ''none'' @ [39])]"

definition add_security_headers :: "('w, response) prog \<Rightarrow> 'w \<Rightarrow> (response \<times> (pystr \<times> pystr) list) \<times> 'w" where
  "add_security_headers handler w =
     (case handler w of
        (Inl _, w') \<Rightarrow> ((Failed 500 ''internal_error'', SECURITY_HEADERS), w')
      | (Inr r, w') \<Rightarrow> ((r, SECURITY_HEADERS), w'))"
section \<open>What the checks admit\<close>

lemma single_raw_header_Some: "single_raw_header q name = Some v \<longleftrightarrow> raw_header_values q name = [v]"
  by (auto simp: single_raw_header_def split: list.splits)

lemma read_limited_Some: "read_limited n body chunks = Some b \<Longrightarrow> 0 \<le> n \<Longrightarrow>
    b = body @ concat chunks \<and> (chunks \<noteq> [] \<longrightarrow> n + py_len (concat chunks) \<le> MAX_FORM_BODY_BYTES)"
proof (induction chunks arbitrary: n body)
  case (Cons c cs)
  then have "n + py_len c \<le> MAX_FORM_BODY_BYTES" "read_limited (n + py_len c) (body @ c) cs = Some b"
    by (auto split: if_splits)
  with Cons.IH[of "n + py_len c" "body @ c"] Cons.prems(2) show ?case by (cases cs) auto
qed simp

lemma read_limited_body_Some:
  assumes "read_limited_body q = Some b"
  shows "b = concat (rq_chunks q) \<and> py_len b \<le> MAX_FORM_BODY_BYTES"
proof (cases "rq_chunks q")
  case Nil
  then show ?thesis using assms by (simp add: read_limited_body_def MAX_FORM_BODY_BYTES_def)
next
  case (Cons c cs)
  then show ?thesis using read_limited_Some[of 0 "[]" "rq_chunks q" b] assms by (auto simp: read_limited_body_def)
qed

lemma single_csrf_cookie_Some:
  "single_csrf_cookie q = Some v \<longleftrightarrow> csrf_cookies q = [v] \<and> is_valid_csrf_nonce v"
  by (auto simp: single_csrf_cookie_def split: list.splits if_splits)

lemma request_failure_None:
  assumes "request_failure A q = None"
  shows "rq_scenario q \<in> fst ` set (wa_registry A) \<and> raw_header_values q ''origin'' = [wa_origin A]
    \<and> (\<exists>host. raw_header_values q ''host'' = [host] \<and> is_valid_raw_authority host
        \<and> validate_host_header (wa_text A) host (canonical_authority A))
    \<and> media_type (wa_text A) q = FORM_MEDIA_TYPE
    \<and> py_len (concat (rq_chunks q)) \<le> MAX_FORM_BODY_BYTES
    \<and> (\<exists>token. parse_csrf_form (concat (rq_chunks q)) = Some token \<and> csrf_cookies q = [token] \<and> is_valid_csrf_nonce token)"
  using assms
  by (auto simp: request_failure_def compare_csrf_nonce_def single_raw_header_Some single_csrf_cookie_Some
      split: if_splits option.splits dest: read_limited_body_Some)

lemma request_failure_Some:
  "request_failure A q = Some f \<Longrightarrow> \<exists>status code. f = Failed status code \<and> status \<in> {400, 403, 404, 413, 415}"
  by (auto simp: request_failure_def split: if_splits option.splits)

text \<open>C23. A request's directory outlives an unconfirmed worker: when the service of the run service is behind
  the page and a created worker was not confirmed to have ended, the answer is the fixed error
  \<open>termination_unconfirmed\<close>, and after the service nothing more happens, so the directory is kept.\<close>

theorem request_root_outlives_worker:
  assumes "wa_service A = run_scenario D" "start_scenario A q w = (r, w')" "request_failure A q = None"
    and "wa_mkdtemp A w = (Inr root, u)" "s = run_state_of D (rq_scenario q) root u"
    and "CallStarted True \<in> set (rs_log s)" "CallConfirm True \<notin> set (rs_log s)"
  shows "r = Inr (Failed 500 ''termination_unconfirmed'') \<and> w' = snd (run_scenario D (rq_scenario q) root u)
    \<and> (\<forall>deleted. CallCleanup deleted \<notin> set (rs_log s))"
proof -
  obtain v where v: "run_scenario D (rq_scenario q) root u = (Inl RO_TERMINATION_UNCONFIRMED, v)"
    and kept: "\<forall>deleted. CallCleanup deleted \<notin> set (rs_log s)"
    using run_scenario_contained[OF assms(5)] assms(6,7) by (metis prod.collapse)
  then have "run_for_request A (rq_scenario q) root u = (Inr (Failed 500 ''termination_unconfirmed''), True, v)"
    using assms(1) by (simp add: run_for_request_def RUN_SERVICE_ERROR_STATUSES_def RETAIN_REQUEST_ROOT_PARENT_ERRORS_def)
  then show ?thesis using assms(2-4) v kept by (auto simp: start_scenario_def bind_prog_def)
qed

text \<open>What the browser sends back for a page of the application.\<close>

definition form_body :: "pystr \<Rightarrow> bytes" where
  "form_body token = map of_int (lit ''csrf_token='' @ token)"

definition cookie_header :: "pystr \<Rightarrow> pystr" where
  "cookie_header token = CSRF_COOKIE_NAME @ 61 # token"

lemma nonce_chars:
  "is_valid_csrf_nonce t \<Longrightarrow> c \<in> set t \<Longrightarrow> 45 \<le> c \<and> c \<le> 122 \<and> c \<noteq> 59 \<and> c \<noteq> 61 \<and> \<not> is_space c"
  by (auto simp: is_valid_csrf_nonce_def list_all_iff nonce_char_def ascii_alpha_def ascii_digit_def is_space_def)

lemma partition_at_first: "c \<notin> set s \<Longrightarrow> partition_at c (s @ c # t) = (s, True, t)"
proof -
  assume c: "c \<notin> set s"
  then have "takeWhile (\<lambda>x. x \<noteq> c) (s @ c # t) = s" "dropWhile (\<lambda>x. x \<noteq> c) (s @ c # t) = c # t"
    by (induction s) auto
  then show ?thesis by (simp add: partition_at_def)
qed

definition plain_char :: "int \<Rightarrow> bool" where
  "plain_char c \<longleftrightarrow> 0 \<le> c \<and> c < 128 \<and> c \<noteq> 37"

lemma plain_bytes:
  "list_all plain_char s \<Longrightarrow> unquote_bytes s = map of_int s"
  "list_all plain_char s \<Longrightarrow> utf8_decode (map of_int s) = Some s"
  "list_all plain_char s \<Longrightarrow> latin1 (map of_int s) = s"
  "list_all plain_char s \<Longrightarrow> \<not> has_invalid_percent_encoding (map of_int s)"
  by (induction s) (auto simp: plain_char_def latin1_def utf8_decode.simps(2) uint_word_of_int_eq take_bit_int_eq_self)

lemma unquote_plus_plain: "list_all plain_char s \<Longrightarrow> 43 \<notin> set s \<Longrightarrow> unquote_plus s = Some s"
proof -
  assume s: "list_all plain_char s" "43 \<notin> set s"
  then have "map (\<lambda>c. if c = 43 then 32 else c) s = s" by (induction s) auto
  then show ?thesis using plain_bytes[OF s(1)] by (simp add: unquote_plus_def)
qed

lemma split_char_absent: "c \<notin> set s \<Longrightarrow> split_char c s = [s]"
  by (induction s) auto

lemma strip_tight: "\<forall>c \<in> set s. \<not> is_space c \<Longrightarrow> strip s = s"
proof -
  assume s: "\<forall>c \<in> set s. \<not> is_space c"
  have "dropWhile is_space u = u" if "set u = set s" for u
    using s that by (cases u) auto
  then show ?thesis by (simp add: strip_def lstrip_def rstrip_def)
qed

lemma nonce_plain:
  assumes "is_valid_csrf_nonce token"
  shows "list_all plain_char token" "43 \<notin> set token" "38 \<notin> set token" "59 \<notin> set token" "\<forall>c \<in> set token. \<not> is_space c"
    "token \<noteq> []"
  using assms nonce_chars[OF assms] by (fastforce simp: list_all_iff plain_char_def is_valid_csrf_nonce_def)+

lemma parse_own_form:
  assumes "is_valid_csrf_nonce token"
  shows "parse_csrf_form (form_body token) = Some token"
proof -
  note N = nonce_plain[OF assms]
  let ?s = "lit ''csrf_token'' @ 61 # token"
  have s: "lit ''csrf_token='' @ token = ?s" by (simp add: str_simps)
  have name: "list_all plain_char (lit ''csrf_token'')" "43 \<notin> set (lit ''csrf_token'')" "38 \<notin> set (lit ''csrf_token'')"
    "61 \<notin> set (lit ''csrf_token'')"
    by code_simp+
  have plain: "list_all plain_char ?s" "38 \<notin> set ?s" using N name by (simp_all add: plain_char_def)
  have "is_ascii ?s" using plain(1) by (auto simp: is_ascii_def list_all_iff plain_char_def)
  moreover have "parse_qsl ?s = Some [(lit ''csrf_token'', token)]"
    using unquote_plus_plain[OF N(1,2)] unquote_plus_plain[OF name(1,2)]
    by (simp add: parse_qsl_def split_char_absent[OF plain(2)] parse_field_def partition_at_first[OF name(4)])
  ultimately show ?thesis
    using plain_bytes[OF plain(1)] assms N(6)
    by (simp add: parse_csrf_form_def form_body_def s validate_csrf_body_def)
qed

lemma own_cookie:
  assumes "is_valid_csrf_nonce token" "raw_header_values q ''cookie'' = [cookie_header token]"
  shows "single_csrf_cookie q = Some token"
proof -
  note N = nonce_plain[OF assms(1)]
  have c: "59 \<notin> set CSRF_COOKIE_NAME" "\<forall>c \<in> set CSRF_COOKIE_NAME. \<not> is_space c" "61 \<notin> set CSRF_COOKIE_NAME"
    by code_simp+
  have "59 \<notin> set (cookie_header token)" "\<forall>c \<in> set (cookie_header token). \<not> is_space c"
    using c N by (auto simp: cookie_header_def is_space_def)
  then have "csrf_cookies q = [token]"
    using assms(2) c(3) by (simp add: csrf_cookies_def split_char_absent csrf_pair_def strip_tight cookie_header_def
        partition_at_first List.map_filter_def)
  then show ?thesis using assms(1) by (simp add: single_csrf_cookie_def)
qed

text \<open>C32. The application's own form is accepted: for a valid token, the form body a browser sends back parses to
  that token, and a request whose only cookie header is the cookie that was set yields it too, so a
  request that sends both, with the application's origin and authority and the form's media type, for
  a registered scenario, is not refused.\<close>

theorem own_form_accepted:
  assumes "is_valid_csrf_nonce token" "raw_header_values q ''cookie'' = [cookie_header token]"
    and "rq_chunks q = [form_body token]" "length token \<le> 4085"
    and "rq_scenario q \<in> fst ` set (wa_registry A)" "raw_header_values q ''origin'' = [wa_origin A]"
    and "raw_header_values q ''host'' = [host]" "is_valid_raw_authority host"
    and "validate_host_header (wa_text A) host (canonical_authority A)" "media_type (wa_text A) q = FORM_MEDIA_TYPE"
  shows "single_csrf_cookie q = Some token \<and> parse_csrf_form (form_body token) = Some token
    \<and> request_failure A q = None"
proof -
  have "py_len (form_body token) \<le> MAX_FORM_BODY_BYTES"
    using assms(4) by (simp add: form_body_def MAX_FORM_BODY_BYTES_def py_len_def)
  then show ?thesis
    using own_cookie[OF assms(1,2)] parse_own_form[OF assms(1)] assms(3,5-10)
    by (simp add: request_failure_def single_raw_header_def read_limited_body_def compare_csrf_nonce_def)
qed
section \<open>A sample application\<close>

definition ascii_url_text :: url_text where
  "ascii_url_text = \<lparr>ut_lower = map (\<lambda>c. if 65 \<le> c \<and> c \<le> 90 then c + 32 else c), ut_host_ok = (\<lambda>_. False)\<rparr>"

definition sample_app :: "bool \<Rightarrow> unit web_app" where
  "sample_app confirmed =
     \<lparr>wa_text = ascii_url_text, wa_origin = lit ''https://demo.example'', wa_registry = [(lit ''demo'', sample_scenario)],
      wa_service = run_scenario (sample_service confirmed), wa_mkdtemp = ret [], wa_rmdir = (\<lambda>_. ret ()),
      wa_render = (\<lambda>_. ret ())\<rparr>"

definition header :: "string \<Rightarrow> pystr \<Rightarrow> bytes \<times> bytes" where
  "header name value = (map of_int (lit name), map of_int value)"

definition sample_token :: pystr where
  "sample_token = lit ''Ab-9_''"

definition sample_request :: request where
  "sample_request =
     \<lparr>rq_scenario = lit ''demo'',
      rq_headers = [header ''Origin'' (lit ''https://demo.example''), header ''Host'' (lit ''Demo.Example:443''),
        header ''Content-Type'' (lit ''application/x-www-form-urlencoded; charset=utf-8''),
        header ''Cookie'' (cookie_header sample_token)],
      rq_chunks = [form_body sample_token]\<rparr>"

lemma sample_request_facts:
  "is_valid_csrf_nonce sample_token" "raw_header_values sample_request ''cookie'' = [cookie_header sample_token]"
  "rq_chunks sample_request = [form_body sample_token]" "length sample_token \<le> 4085"
  "rq_scenario sample_request \<in> fst ` set (wa_registry (sample_app c))"
  "raw_header_values sample_request ''origin'' = [wa_origin (sample_app c)]"
  "raw_header_values sample_request ''host'' = [lit ''Demo.Example:443'']" "is_valid_raw_authority (lit ''Demo.Example:443'')"
  "validate_host_header (wa_text (sample_app c)) (lit ''Demo.Example:443'') (canonical_authority (sample_app c))"
  "media_type (wa_text (sample_app c)) sample_request = FORM_MEDIA_TYPE"
  by code_simp+

theorem own_form_accepted_witness:
  "request_failure (sample_app True) sample_request = None"
  using own_form_accepted[OF sample_request_facts] by blast

lemma sample_admitted: "request_failure (sample_app c) sample_request = None"
  by code_simp


theorem request_root_outlives_worker_witness:
  "fst (start_scenario (sample_app False) sample_request ()) = Inr (Failed 500 ''termination_unconfirmed'')"
proof -
  obtain r w' where r: "start_scenario (sample_app False) sample_request () = (r, w')" using prod.exhaust by blast
  have "wa_service (sample_app False) = run_scenario (sample_service False)" "wa_mkdtemp (sample_app False) () = (Inr [], ())"
    "rq_scenario sample_request = lit ''demo''"
    by (simp_all add: sample_app_def ret_app sample_request_def)
  then show ?thesis
    using request_root_outlives_worker[OF _ r sample_admitted _ refl, of "sample_service False" "[]" "()"] sample_unconfirmed r
    by simp
qed

text \<open>An IPv6 origin loses its brackets, so no browser's origin header equals it; and the parameters of the
  last path segment are dropped instead of being refused.\<close>

lemma ipv6_origin_unusable:
  "validate_canonical_origin ascii_url_text (lit ''https://[::1]:8443'') = Inr (lit ''https://::1:8443'')"
  "validate_canonical_origin ascii_url_text (lit ''https://demo.example/;x=y'') = Inr (lit ''https://demo.example'')"
  by code_simp+

end
