(* ===== verification/Cli.thy ===== *)
theory Cli
  imports Composition WebApp
begin

text \<open>
  \<^verbatim>\<open>cli/app.py\<close>: the commands. A command answers with an exit code and the lines it prints; it catches
  whatever its collaborators raise. The runtimes and the credential store are made inside the
  commands, so what making one raises is part of its programs. Reading the command line, with the range of
  \<^verbatim>\<open>--port\<close>, and the server that \<open>web\<close> starts are the libraries'.
\<close>

section \<open>Hosts\<close>

definition validate_web_host :: "url_text \<Rightarrow> pystr \<Rightarrow> pystr res" where
  "validate_web_host T host =
     (if host = [] \<or> host \<noteq> strip host \<or> \<not> is_ascii host then Inl (ValueError ''host is invalid'')
      else (case ip_address host of
        Some _ \<Rightarrow> Inr host
      | None \<Rightarrow>
          if hostname_matches host then Inr (rev (dropWhile (\<lambda>c. c = 46) (rev (ut_lower T host))))
          else Inl (ValueError ''host is invalid'')))"

definition is_private_or_loopback_host :: "pystr \<Rightarrow> bool" where
  "is_private_or_loopback_host host \<longleftrightarrow> host = lit ''localhost'' \<or>
     (case ip_address host of
        None \<Rightarrow> False
      | Some a \<Rightarrow> is_loopback a \<or> is_private a \<and> \<not> is_unspecified a \<and> \<not> is_multicast a \<and> \<not> is_link_local a)"

section \<open>The commands\<close>

definition task_uuid :: "pystr \<Rightarrow> uuid res" where
  "task_uuid raw =
     (case uuid_of_str raw of
        Inl _ \<Rightarrow> Inl (ValueError ''invalid task id'')
      | Inr u \<Rightarrow> if uuid_str u \<noteq> raw \<or> uuid_version u \<noteq> 4 then Inl (ValueError ''invalid task id'') else Inr u)"

definition render :: "task_view \<Rightarrow> pystr list" where
  "render view = [lit ''task_id: '' @ tv_task_id view, lit ''status: '' @ lit (task_status_value (tv_status view)),
     lit ''summary: '' @ tv_summary view]"

type_synonym answer = "int \<times> pystr list"

definition refused :: "string \<Rightarrow> answer" where
  "refused message = (2, [lit message])"

record 'w cli_runtime =
  cr_run :: "pystr \<Rightarrow> pystr \<Rightarrow> pystr \<Rightarrow> bool \<Rightarrow> ('w, task_view) prog"
  cr_status :: "uuid \<Rightarrow> ('w, task_view) prog"
  cr_resume :: "uuid \<Rightarrow> ('w, task_view) prog"

record 'w cli =
  cl_demo :: "'w cli_runtime"
  cl_persistent :: "'w cli_runtime"
  cl_keyring :: "'w keyring"
  cl_precheck :: bool
  cl_provider :: "('w, unit) prog option"
  cl_directory :: "'w \<Rightarrow> pystr \<Rightarrow> pystr option"
  cl_text :: url_text
  cl_prompt :: "('w, pystr) prog"

text \<open>The check of the credential, when a credential store was given to the command line.\<close>

definition precheck :: "'w cli \<Rightarrow> bool \<Rightarrow> 'w \<Rightarrow> answer option \<times> 'w" where
  "precheck C demo w =
     (if demo \<or> \<not> cl_precheck C then (None, w)
      else (case credential_status (cl_keyring C) w of
        (Inl _, w1) \<Rightarrow> (Some (refused ''provider is unavailable''), w1)
      | (Inr False, w1) \<Rightarrow> (Some (refused ''credential is not configured''), w1)
      | (Inr True, w1) \<Rightarrow>
          (case cl_provider C of
             None \<Rightarrow> (None, w1)
           | Some create \<Rightarrow> (case create w1 of
               (Inl _, w2) \<Rightarrow> (Some (refused ''provider is unavailable''), w2)
             | (Inr _, w2) \<Rightarrow> (None, w2)))))"

definition cli_run :: "'w cli \<Rightarrow> pystr \<Rightarrow> pystr \<Rightarrow> bool \<Rightarrow> bool \<Rightarrow> 'w \<Rightarrow> answer \<times> 'w" where
  "cli_run C repository description demo trust_repo w =
     (case cl_directory C w repository of
        None \<Rightarrow> (refused ''repository is invalid'', w)
      | Some path \<Rightarrow>
          (case precheck C demo w of
             (Some refusal, w1) \<Rightarrow> (refusal, w1)
           | (None, w1) \<Rightarrow>
               (case cr_run (if demo then cl_demo C else cl_persistent C) path description
                   (if demo then lit ''demo'' else lit ''real'') trust_repo w1 of
                  (Inl _, w2) \<Rightarrow> (refused ''task could not be started'', w2)
                | (Inr view, w2) \<Rightarrow> ((0, render view), w2))))"

definition cli_status :: "'w cli \<Rightarrow> pystr \<Rightarrow> 'w \<Rightarrow> answer \<times> 'w" where
  "cli_status C task_id w =
     (case task_uuid task_id of
        Inl _ \<Rightarrow> (refused ''invalid task id'', w)
      | Inr u \<Rightarrow>
          (case cr_status (cl_persistent C) u w of
             (Inl (KeyError _), w1) \<Rightarrow> (refused ''task not found'', w1)
           | (Inl _, w1) \<Rightarrow> (refused ''task status unavailable'', w1)
           | (Inr view, w1) \<Rightarrow> ((0, render view), w1)))"

definition is_key_error :: "exn \<Rightarrow> bool" where
  "is_key_error e \<longleftrightarrow> (case e of KeyError _ \<Rightarrow> True | _ \<Rightarrow> False)"

definition cli_resume :: "'w cli \<Rightarrow> pystr \<Rightarrow> 'w \<Rightarrow> answer \<times> 'w" where
  "cli_resume C task_id w =
     (case task_uuid task_id of
        Inl _ \<Rightarrow> (refused ''invalid task id'', w)
      | Inr u \<Rightarrow>
          (case cr_resume (cl_persistent C) u w of
             (Inl e, w1) \<Rightarrow>
               (refused (if is_key_error e \<or> is_value_error e then ''task cannot be resumed'' else ''task resume unavailable''), w1)
           | (Inr view, w1) \<Rightarrow> ((0, render view), w1)))"

definition key_command :: "('w, 'a) prog \<Rightarrow> string \<Rightarrow> ('a \<Rightarrow> string) \<Rightarrow> 'w \<Rightarrow> answer \<times> 'w" where
  "key_command m failure success w =
     (case m w of (Inl _, w1) \<Rightarrow> (refused failure, w1) | (Inr x, w1) \<Rightarrow> ((0, [lit (success x)]), w1))"

text \<open>\<open>key set\<close> and \<open>key update\<close> prompt for the value first, outside the \<open>try\<close>.\<close>

definition prompted :: "'w cli \<Rightarrow> (pystr \<Rightarrow> 'w \<Rightarrow> answer \<times> 'w) \<Rightarrow> 'w \<Rightarrow> answer res \<times> 'w" where
  "prompted C m w =
     (case cl_prompt C w of
        (Inl e, w1) \<Rightarrow> (Inl e, w1)
      | (Inr value, w1) \<Rightarrow> (case m value w1 of (a, w2) \<Rightarrow> (Inr a, w2)))"

definition key_set :: "'w cli \<Rightarrow> 'w \<Rightarrow> answer res \<times> 'w" where
  "key_set C = prompted C (\<lambda>v. key_command (credential_set (cl_keyring C) v) ''key could not be stored'' (\<lambda>_. ''configured''))"

definition key_update :: "'w cli \<Rightarrow> 'w \<Rightarrow> answer res \<times> 'w" where
  "key_update C = prompted C (\<lambda>v. key_command (credential_update (cl_keyring C) v) ''key could not be updated'' (\<lambda>_. ''configured''))"

definition key_status :: "'w cli \<Rightarrow> 'w \<Rightarrow> answer \<times> 'w" where
  "key_status C = key_command (credential_status (cl_keyring C)) ''key status unavailable''
     (\<lambda>b. if b then ''configured'' else ''not configured'')"

definition key_clear :: "'w cli \<Rightarrow> 'w \<Rightarrow> answer \<times> 'w" where
  "key_clear C = key_command (credential_clear (cl_keyring C)) ''key could not be cleared'' (\<lambda>_. ''not configured'')"

section \<open>The web server\<close>

record server =
  sv_origin :: pystr
  sv_host :: pystr
  sv_port :: int
  sv_workers :: int
  sv_proxy_headers :: bool
  sv_tls :: "(pystr \<times> pystr) option"

definition given_text :: "pystr option \<Rightarrow> bool" where
  "given_text v \<longleftrightarrow> v \<noteq> None \<and> v \<noteq> Some []"

definition web_server ::
    "url_text \<Rightarrow> pystr \<Rightarrow> pystr \<Rightarrow> int \<Rightarrow> pystr option \<Rightarrow> pystr option \<Rightarrow> bool \<Rightarrow> answer + server" where
  "web_server T origin host port tls_cert tls_key behind_https_proxy =
     (case validate_web_host T host of
        Inl _ \<Rightarrow> Inl (refused ''host is invalid'')
      | Inr normalized \<Rightarrow>
     (case validate_canonical_origin T origin of
        Inl _ \<Rightarrow> Inl (refused ''origin must be a valid https origin'')
      | Inr canonical \<Rightarrow>
          if given_text tls_cert \<noteq> given_text tls_key
          then Inl (refused ''--tls-cert and --tls-key must be provided together'')
          else if behind_https_proxy \<and> (given_text tls_cert \<or> given_text tls_key)
          then Inl (refused ''--behind-https-proxy cannot be combined with TLS options'')
          else if behind_https_proxy \<and> normalized \<noteq> lit ''0.0.0.0''
          then Inl (refused ''--behind-https-proxy requires --host 0.0.0.0'')
          else if \<not> behind_https_proxy \<and> \<not> is_private_or_loopback_host normalized \<and> \<not> given_text tls_cert
          then Inl (refused ''public host requires --tls-cert and --tls-key'')
          else Inr \<lparr>sv_origin = canonical, sv_host = normalized, sv_port = port, sv_workers = 1, sv_proxy_headers = False,
                 sv_tls = (case (tls_cert, tls_key) of
                    (Some c, Some k) \<Rightarrow> if c \<noteq> [] \<and> k \<noteq> [] then Some (c, k) else None | _ \<Rightarrow> None)\<rparr>))"

section \<open>What the commands promise\<close>

text \<open>The messages of a refused command.\<close>

definition MESSAGES :: "string list" where
  "MESSAGES = [''repository is invalid'', ''provider is unavailable'', ''credential is not configured'',
     ''task could not be started'', ''invalid task id'', ''task not found'', ''task status unavailable'',
     ''task cannot be resumed'', ''task resume unavailable'']"

definition fixed_answer :: "answer \<Rightarrow> bool" where
  "fixed_answer a \<longleftrightarrow> (\<exists>view. a = (0, render view)) \<or> (\<exists>m \<in> set MESSAGES. a = refused m)"

lemma fixed_refused: "m \<in> set MESSAGES \<Longrightarrow> fixed_answer (refused m)"
  by (auto simp: fixed_answer_def)

lemma fixed_view: "fixed_answer (0, render view)"
  by (auto simp: fixed_answer_def)

lemma precheck_cases:
  "precheck C demo w = (a, w') \<Longrightarrow> a = None \<or> a = Some (refused ''provider is unavailable'')
     \<or> a = Some (refused ''credential is not configured'')"
  by (auto simp: precheck_def split: if_splits prod.splits sum.splits option.splits bool.splits)

text \<open>A command prints the view of its task and exits with 0, or prints one of its fixed messages and exits
  with 2, whatever is raised below it; and a task identifier that is not a canonical version 4 UUID
  reaches no runtime.\<close>

theorem commands_sanitized:
  "fixed_answer (fst (cli_run C repository description demo trust_repo w))
    \<and> fixed_answer (fst (cli_status C i w)) \<and> fixed_answer (fst (cli_resume C i w))
    \<and> (case task_uuid i of
         Inl _ \<Rightarrow> cli_status C i w = (refused ''invalid task id'', w) \<and> cli_resume C i w = (refused ''invalid task id'', w)
       | Inr u \<Rightarrow> uuid_str u = i \<and> uuid_version u = 4)"
proof -
  have "fixed_answer (fst (cli_run C repository description demo trust_repo w))"
    by (auto simp: cli_run_def MESSAGES_def fixed_view intro!: fixed_refused split: option.splits prod.splits sum.splits
        dest!: precheck_cases)
  moreover have "fixed_answer (fst (cli_status C i w))"
    by (auto simp: cli_status_def MESSAGES_def fixed_view intro!: fixed_refused split: prod.splits sum.splits exn.splits)
  moreover have "fixed_answer (fst (cli_resume C i w))"
    by (auto simp: cli_resume_def MESSAGES_def fixed_view intro!: fixed_refused split: prod.splits sum.splits)
  ultimately show ?thesis
    by (auto simp: task_uuid_def cli_status_def cli_resume_def split: sum.splits if_splits)
qed

text \<open>C30. A public server has TLS: a server that is started serves the validated canonical origin with one worker
  and without trusting proxy headers; without a certificate and key it is bound to a private or
  loopback host, or to all addresses behind a proxy that was declared; a bare host name other than
  \<open>localhost\<close> never goes without.\<close>

theorem public_server_has_tls:
  assumes "web_server T origin host port tls_cert tls_key behind_https_proxy = Inr s"
  shows "validate_canonical_origin T origin = Inr (sv_origin s) \<and> validate_web_host T host = Inr (sv_host s)
    \<and> sv_port s = port \<and> sv_workers s = 1 \<and> \<not> sv_proxy_headers s
    \<and> (case sv_tls s of
         Some (c, k) \<Rightarrow> tls_cert = Some c \<and> tls_key = Some k \<and> c \<noteq> [] \<and> k \<noteq> [] \<and> \<not> behind_https_proxy
       | None \<Rightarrow> behind_https_proxy \<and> sv_host s = lit ''0.0.0.0'' \<or> sv_host s = lit ''localhost''
           \<or> (\<exists>a. ip_address (sv_host s) = Some a \<and> (is_loopback a
                \<or> is_private a \<and> \<not> is_unspecified a \<and> \<not> is_multicast a \<and> \<not> is_link_local a)))"
  using assms
  by (auto simp: web_server_def is_private_or_loopback_host_def given_text_def split: sum.splits if_splits option.splits)

lemma addresses:
  "ip_address (lit ''10.1.2.3'') = Some (IPv4 (v4 10 1 2 3))" "ip_address (lit ''010.1.2.3'') = None"
  "ip_address (lit ''::1'') = Some (IPv6 1)" "ip_address (lit ''1:2:3:4:5:6:7'') = None"
  "ip_address (lit ''::ffff:127.0.0.1'') = Some (IPv6 (65535 * 2 ^ 32 + v4 127 0 0 1))"
  "is_private (IPv4 (v4 10 1 2 3))" "\<not> is_private (IPv4 (v4 8 8 8 8))"
  by code_simp+

theorem public_server_has_tls_witness:
  "(case web_server ascii_url_text (lit ''https://demo.example'') (lit ''8.8.8.8'') 443 (Some (lit ''c'')) (Some (lit ''k'')) False of
     Inr s \<Rightarrow> sv_tls s = Some (lit ''c'', lit ''k'') \<and> sv_origin s = lit ''https://demo.example'' | Inl _ \<Rightarrow> False)
   \<and> web_server ascii_url_text (lit ''https://demo.example'') (lit ''8.8.8.8'') 443 None None False
     = Inl (refused ''public host requires --tls-cert and --tls-key'')"
proof -
  let ?s = "\<lparr>sv_origin = lit ''https://demo.example'', sv_host = lit ''8.8.8.8'', sv_port = 443, sv_workers = 1,
    sv_proxy_headers = False, sv_tls = Some (lit ''c'', lit ''k'')\<rparr>"
  have s: "web_server ascii_url_text (lit ''https://demo.example'') (lit ''8.8.8.8'') 443 (Some (lit ''c'')) (Some (lit ''k'')) False
      = Inr ?s"
    "web_server ascii_url_text (lit ''https://demo.example'') (lit ''8.8.8.8'') 443 None None False
      = Inl (refused ''public host requires --tls-cert and --tls-key'')"
    by code_simp+
  from public_server_has_tls[OF s(1)] s show ?thesis by simp
qed
section \<open>The command line over the real runtime\<close>

definition runtime_commands :: "'x runtime \<Rightarrow> nat \<Rightarrow> 'x db_world cli_runtime" where
  "runtime_commands R fuel =
     (let shown = (\<lambda>v. case v of Some view \<Rightarrow> ret view | None \<Rightarrow> raise (RuntimeError ''out of fuel''))
      in \<lparr>cr_run = (\<lambda>repository description mode trust_repo. bind_prog (runtime_run R fuel repository description mode trust_repo) shown),
          cr_status = (\<lambda>u. bind_prog (lift_res (check_uuid4 u)) (\<lambda>u. runtime_status (TaskId u))),
          cr_resume = (\<lambda>u. bind_prog (lift_res (check_uuid4 u)) (\<lambda>u. bind_prog (runtime_resume R fuel (TaskId u)) shown))\<rparr>)"

text \<open>Without \<^verbatim>\<open>--trust-repo\<close> no real task runs: the command exits with 2.\<close>

lemma untrusted_exits:
  "fst (fst (cli_run (C\<lparr>cl_persistent := runtime_commands (default_runtime P data_root config) fuel\<rparr>)
      repository description False False w)) = 2"
proof -
  let ?R = "default_runtime P data_root config"
  have "\<exists>e v. cr_run (runtime_commands ?R fuel) path description (lit ''real'') False u = (Inl e, v)" for path u
  proof (cases "cr_run (runtime_commands ?R fuel) path description (lit ''real'') False u")
    case (Pair r v)
    show ?thesis
    proof (cases r)
      case (Inr view)
      then have "\<exists>x y. runtime_run ?R fuel path description (lit ''real'') False u = (Inr x, y)"
        using Pair by (auto simp: runtime_commands_def Let_def bind_prog_Inr)
      then have "\<exists>a x y. governed_start ?R path (lit ''real'') False x = (Inr a, y)"
        unfolding runtime_run_def bind_prog_Inr by (auto simp: on_other_Inr) blast
      then show ?thesis using worktrees.governed_start_Inr[of P data_root config] by (metis prod_cases4)
    qed (use Pair in auto)
  qed
  then show ?thesis
    by (auto simp: cli_run_def refused_def split: option.splits prod.splits sum.splits dest!: precheck_cases)
      (metis prod.inject sum.distinct(1))+
qed

end
