(* ===== verification/ProcessBoundary.thy ===== *)
theory ProcessBoundary
  imports RunService Addresses Redaction "HOL-Library.Multiset"
begin

text \<open>
  \<^verbatim>\<open>web/process_boundary.py\<close>: the boundary around the worker's process tree, a process group on POSIX and
  a job object on Windows. The system calls are arguments; times are whole milliseconds. For Windows the
  state counts the handles that are open and the processes nobody asked to end, so that the theorems can
  say that a failed start leaves none behind. The structures of ctypes and the quoting of the command line
  are not modelled.
\<close>

section \<open>Process groups\<close>

text \<open>\<open>killpg\<close>: done, \<open>ProcessLookupError\<close>, another \<open>OSError\<close>. Reading \<^verbatim>\<open>/proc/<pid>/stat\<close>: the bytes,
  \<open>FileNotFoundError\<close>, another \<open>OSError\<close>. Waiting: the exit code, a timeout, an \<open>OSError\<close>.\<close>

datatype group_answer = GroupThere | GroupGone | GroupError

datatype stat_read = StatBytes bytes | StatGone | StatError

datatype wait_answer = Exited int | WaitTimeout | WaitError

record 'w child =
  ch_pid :: int
  ch_streams :: "('w, unit) prog list"

record 'w posix =
  px_linux :: bool
  px_killpg :: "int \<Rightarrow> bool \<Rightarrow> 'w \<Rightarrow> group_answer \<times> 'w"
  px_getpgid :: "int \<Rightarrow> ('w, int) prog"
  px_proc :: "'w \<Rightarrow> (pystr \<times> stat_read) list option"
  px_time :: "'w \<Rightarrow> int"
  px_sleep :: "int \<Rightarrow> 'w \<Rightarrow> 'w"
  px_wait :: "int \<Rightarrow> int \<Rightarrow> 'w \<Rightarrow> wait_answer \<times> 'w"
  px_popen :: "pystr list \<Rightarrow> pystr \<Rightarrow> (pystr \<times> pystr) list \<Rightarrow> int \<Rightarrow> bool \<Rightarrow> ('w, 'w child) prog"

text \<open>\<open>int()\<close> of ASCII digits with an optional sign.\<close>

definition decimal_text :: "pystr \<Rightarrow> bool" where
  "decimal_text s \<longleftrightarrow> s \<noteq> [] \<and> list_all ascii_digit s"

definition parse_int :: "pystr \<Rightarrow> int option" where
  "parse_int s =
     (case s of
        c # cs \<Rightarrow> if decimal_text s then Some (number 10 s)
                 else if (c = 43 \<or> c = 45) \<and> decimal_text cs then Some (if c = 45 then - number 10 cs else number 10 cs)
                 else None
      | [] \<Rightarrow> None)"

text \<open>The state and the process group of a \<^verbatim>\<open>stat\<close> line.\<close>

definition parse_stat :: "pystr \<Rightarrow> (pystr \<times> int) option" where
  "parse_stat text =
     (case rpartition_at 41 text of (_, found, rest) \<Rightarrow>
        if \<not> found then None
        else (case split_space rest of
          state # _ # pgrp # _ \<Rightarrow> map_option (Pair state) (parse_int pgrp) | _ \<Rightarrow> None))"

fun zombie_scan :: "int \<Rightarrow> bool \<Rightarrow> (pystr \<times> stat_read) list \<Rightarrow> bool option res" where
  "zombie_scan pgid found_member [] = Inr (if found_member then Some True else None)"
| "zombie_scan pgid found_member ((name, answer) # entries) =
     (if \<not> decimal_text name then zombie_scan pgid found_member entries
      else (case answer of
        StatGone \<Rightarrow> zombie_scan pgid found_member entries
      | StatError \<Rightarrow> Inr None
      | StatBytes b \<Rightarrow>
          (case utf8_decode b of
             None \<Rightarrow> Inl UnicodeError
           | Some text \<Rightarrow>
               (case parse_stat text of
                  None \<Rightarrow> Inr None
                | Some (state, pgrp) \<Rightarrow>
                    if pgrp \<noteq> pgid then zombie_scan pgid found_member entries
                    else if state \<noteq> lit ''Z'' then Inr (Some False)
                    else zombie_scan pgid True entries))))"

definition all_zombies :: "int \<Rightarrow> (pystr \<times> stat_read) list option \<Rightarrow> bool option res" where
  "all_zombies pgid entries = (case entries of None \<Rightarrow> Inr None | Some es \<Rightarrow> zombie_scan pgid False es)"

section \<open>The POSIX boundary\<close>

record 'w posix_boundary =
  pb_child :: "'w child"
  pb_pgid :: int
  pb_recovery :: "int option"

definition TERMINATION_RECOVERY :: int where
  "TERMINATION_RECOVERY = 100"

definition posix_boundary :: "'w posix \<Rightarrow> 'w child \<Rightarrow> ('w, 'w posix_boundary) prog" where
  "posix_boundary P child = bind_prog (px_getpgid P (ch_pid child)) (\<lambda>pgid.
     ret \<lparr>pb_child = child, pb_pgid = pgid, pb_recovery = None\<rparr>)"

definition posix_wait :: "'w posix \<Rightarrow> 'w posix_boundary \<Rightarrow> int \<Rightarrow> ('w, int option) prog" where
  "posix_wait P B deadline w =
     (case px_wait P (ch_pid (pb_child B)) (max 0 (deadline - px_time P w)) w of
        (Exited c, w') \<Rightarrow> (Inr (Some c), w')
      | (WaitTimeout, w') \<Rightarrow> (Inr None, w')
      | (WaitError, w') \<Rightarrow> (Inl (OSError ''wait''), w'))"

text \<open>\<open>while True\<close>, with fuel; the inner \<open>None\<close> is the fuel's end.\<close>

fun posix_confirm :: "'w posix \<Rightarrow> 'w posix_boundary \<Rightarrow> nat \<Rightarrow> ('w, bool option) prog" where
  "posix_confirm P B 0 w = (Inr None, w)"
| "posix_confirm P B (Suc fuel) w =
     (case px_killpg P (pb_pgid B) False w of
        (GroupGone, w1) \<Rightarrow> (Inr (Some True), w1)
      | (GroupError, w1) \<Rightarrow> (Inr (Some False), w1)
      | (GroupThere, w1) \<Rightarrow>
          if \<not> px_linux P then (Inr (Some False), w1)
          else (case all_zombies (pb_pgid B) (px_proc P w1) of
             Inl e \<Rightarrow> (Inl e, w1)
           | Inr z \<Rightarrow>
               if z = Some True then (Inr (Some True), w1)
               else let remaining = (case pb_recovery B of None \<Rightarrow> 0 | Some d \<Rightarrow> d - px_time P w1)
                    in if remaining \<le> 0 then (Inr (Some False), w1)
                       else posix_confirm P B fuel (px_sleep P (min 10 remaining) w1)))"

definition posix_terminate :: "'w posix \<Rightarrow> 'w posix_boundary \<Rightarrow> ('w, 'w posix_boundary) prog" where
  "posix_terminate P B w =
     (case px_killpg P (pb_pgid B) True w of
        (GroupGone, w1) \<Rightarrow> (Inr B, w1)
      | (GroupError, w1) \<Rightarrow> (Inl (OSError ''killpg''), w1)
      | (GroupThere, w1) \<Rightarrow> (Inr (B\<lparr>pb_recovery := Some (px_time P w1 + TERMINATION_RECOVERY)\<rparr>), w1))"

definition posix_wait_for_root :: "'w posix \<Rightarrow> 'w posix_boundary \<Rightarrow> int \<Rightarrow> ('w, bool) prog" where
  "posix_wait_for_root P B timeout w =
     (case px_wait P (ch_pid (pb_child B)) timeout w of (answer, w') \<Rightarrow>
        (Inr (case answer of Exited _ \<Rightarrow> True | _ \<Rightarrow> False), w'))"

text \<open>\<open>_close_streams\<close>: an \<open>OSError\<close> of a stream is passed over.\<close>

fun close_streams :: "('w, unit) prog list \<Rightarrow> ('w, unit) prog" where
  "close_streams [] w = (Inr (), w)"
| "close_streams (m # ms) w =
     (case m w of
        (Inl e, w') \<Rightarrow> if is_os_error e then close_streams ms w' else (Inl e, w')
      | (Inr _, w') \<Rightarrow> close_streams ms w')"

definition posix_close :: "'w posix_boundary \<Rightarrow> ('w, unit) prog" where
  "posix_close B = close_streams (ch_streams (pb_child B))"

definition posix_cleanup :: "'w posix \<Rightarrow> 'w child \<Rightarrow> ('w, unit) prog" where
  "posix_cleanup P child w =
     (case px_getpgid P (ch_pid child) w of (r, w1) \<Rightarrow>
      let w2 = (case r of Inr pgid \<Rightarrow> snd (px_killpg P pgid True w1) | Inl _ \<Rightarrow> w1);
          w3 = snd (px_wait P (ch_pid child) 5000 w2)
      in close_streams (ch_streams child) w3)"

definition posix_create ::
    "'w posix \<Rightarrow> pystr list \<Rightarrow> pystr \<Rightarrow> (pystr \<times> pystr) list \<Rightarrow> bool \<Rightarrow> int \<Rightarrow> bool \<Rightarrow> ('w, 'w posix_boundary) prog" where
  "posix_create P command cwd env shell creationflags start_new_session w =
     (if shell then (Inl (ValueError ''worker shell execution is forbidden''), w)
      else (case px_popen P command cwd env creationflags start_new_session w of
        (Inl e, w1) \<Rightarrow> (Inl e, w1)
      | (Inr child, w1) \<Rightarrow>
          (case posix_boundary P child w1 of
             (Inr B, w2) \<Rightarrow> (Inr B, w2)
           | (Inl e, w2) \<Rightarrow>
               (case posix_cleanup P child w2 of (Inl e', w3) \<Rightarrow> (Inl e', w3) | (Inr _, w3) \<Rightarrow> (Inl e, w3)))))"
section \<open>The boundary of the unit tests\<close>

text \<open>\<open>FakeProcessBoundary\<close>: scripted answers and the list of the calls; the last confirmation is repeated.\<close>

record fake_boundary =
  fk_wait_return :: "int option"
  fk_confirmations :: "bool list"
  fk_last_confirmation :: bool
  fk_root_wait_returns :: "bool list"
  fk_termination_waits :: "int list"
  fk_process_created :: bool
  fk_events :: "string list"

text \<open>The constructor: \<open>process\<close> is not given, \<open>None\<close>, or an object.\<close>

definition new_fake_boundary ::
    "int option \<Rightarrow> bool \<Rightarrow> bool list \<Rightarrow> bool list \<Rightarrow> bool option \<Rightarrow> bool option \<Rightarrow> string list \<Rightarrow> fake_boundary" where
  "new_fake_boundary wait_return last_confirmation confirmations root_wait_returns process process_created events =
     \<lparr>fk_wait_return = wait_return, fk_confirmations = confirmations, fk_last_confirmation = last_confirmation,
      fk_root_wait_returns = root_wait_returns, fk_termination_waits = [],
      fk_process_created = (case process_created of Some b \<Rightarrow> b | None \<Rightarrow> (case process of None \<Rightarrow> True | Some given \<Rightarrow> given)),
      fk_events = events\<rparr>"

definition fake_event :: "string \<Rightarrow> (fake_boundary, unit) prog" where
  "fake_event e = modify (\<lambda>s. s\<lparr>fk_events := fk_events s @ [e]\<rparr>)"

definition fake_wait :: "int \<Rightarrow> (fake_boundary, int option) prog" where
  "fake_wait deadline = bind_prog (fake_event ''wait'') (\<lambda>_ s. (Inr (fk_wait_return s), s))"

definition fake_confirm :: "(fake_boundary, bool) prog" where
  "fake_confirm = bind_prog (fake_event ''confirm'') (\<lambda>_ s.
     case fk_confirmations s of
       [] \<Rightarrow> (Inr (fk_last_confirmation s), s)
     | c # cs \<Rightarrow> (Inr c, s\<lparr>fk_confirmations := cs, fk_last_confirmation := c\<rparr>))"

definition fake_wait_root :: "int \<Rightarrow> (fake_boundary, bool) prog" where
  "fake_wait_root timeout = bind_prog (fake_event ''wait_root'') (\<lambda>_ s.
     let s' = s\<lparr>fk_termination_waits := fk_termination_waits s @ [timeout]\<rparr>
     in case fk_root_wait_returns s' of
          [] \<Rightarrow> (Inr True, s')
        | r # rs \<Rightarrow> (Inr r, s'\<lparr>fk_root_wait_returns := rs\<rparr>))"

section \<open>What a POSIX confirmation means\<close>

text \<open>A clock that never goes back, and moves on by at least what was slept.\<close>

definition clock_ok :: "'w posix \<Rightarrow> bool" where
  "clock_ok P \<longleftrightarrow> (\<forall>g k w. px_time P w \<le> px_time P (snd (px_killpg P g k w)))
     \<and> (\<forall>d w. 0 \<le> d \<longrightarrow> px_time P w + d \<le> px_time P (px_sleep P d w))"

text \<open>What an entry of \<^verbatim>\<open>/proc\<close> says of the group: every process of it is a zombie, and there is one.\<close>

datatype entry_kind = Unrelated | Zombie | Living | Unreadable | Undecodable

definition entry_kind :: "int \<Rightarrow> pystr \<times> stat_read \<Rightarrow> entry_kind" where
  "entry_kind pgid e =
     (if \<not> decimal_text (fst e) then Unrelated
      else (case snd e of
        StatGone \<Rightarrow> Unrelated
      | StatError \<Rightarrow> Unreadable
      | StatBytes b \<Rightarrow> (case utf8_decode b of
            None \<Rightarrow> Undecodable
          | Some text \<Rightarrow> (case parse_stat text of
                None \<Rightarrow> Unreadable
              | Some (state, pgrp) \<Rightarrow>
                  if pgrp \<noteq> pgid then Unrelated else if state = lit ''Z'' then Zombie else Living))))"

definition only_zombies :: "int \<Rightarrow> (pystr \<times> stat_read) list \<Rightarrow> bool" where
  "only_zombies pgid es \<longleftrightarrow> (\<forall>e \<in> set es. entry_kind pgid e = Unrelated \<or> entry_kind pgid e = Zombie)
     \<and> (\<exists>e \<in> set es. entry_kind pgid e = Zombie)"

lemma zombie_scan_step:
  "zombie_scan pgid f (e # es) = (case entry_kind pgid e of
      Unrelated \<Rightarrow> zombie_scan pgid f es | Zombie \<Rightarrow> zombie_scan pgid True es | Living \<Rightarrow> Inr (Some False)
    | Unreadable \<Rightarrow> Inr None | Undecodable \<Rightarrow> Inl UnicodeError)"
  by (cases e) (simp add: entry_kind_def split: stat_read.split option.split prod.split)

lemma zombie_scan_True:
  "zombie_scan pgid f es = Inr (Some True) \<longleftrightarrow>
    (\<forall>e \<in> set es. entry_kind pgid e = Unrelated \<or> entry_kind pgid e = Zombie)
     \<and> (f \<or> (\<exists>e \<in> set es. entry_kind pgid e = Zombie))"
proof (induction es arbitrary: f)
  case (Cons e es)
  show ?case
    unfolding zombie_scan_step using Cons by (cases "entry_kind pgid e") simp_all
qed simp

lemma zombies_True: "zombie_scan pgid False es = Inr (Some True) \<Longrightarrow> only_zombies pgid es"
  by (simp add: zombie_scan_True only_zombies_def)

lemma posix_confirm_spec:
  assumes "clock_ok P" "nat (case pb_recovery B of None \<Rightarrow> 0 | Some d \<Rightarrow> d - px_time P w) < fuel"
    and "posix_confirm P B fuel w = (r, w')"
  shows "r \<noteq> Inr None \<and> (r = Inr (Some True) \<longrightarrow>
      (\<exists>u. px_killpg P (pb_pgid B) False u = (GroupGone, w'))
      \<or> (\<exists>es. px_proc P w' = Some es \<and> only_zombies (pb_pgid B) es))"
  using assms(2,3)
proof (induction fuel arbitrary: w)
  case (Suc fuel)
  obtain a w1 where k: "px_killpg P (pb_pgid B) False w = (a, w1)" by fastforce
  have t: "px_time P w \<le> px_time P w1"
    using assms(1) k unfolding clock_ok_def by (metis snd_conv)
  show ?case
  proof (cases a)
    case GroupThere
    show ?thesis
    proof (cases "px_linux P")
      case True
      show ?thesis
      proof (cases "all_zombies (pb_pgid B) (px_proc P w1)")
        case (Inl e)
        then show ?thesis using Suc.prems k GroupThere True by auto
      next
        case (Inr z)
        show ?thesis
        proof (cases "z = Some True")
          case z: True
          then have "r = Inr (Some True)" "w' = w1" using Suc.prems(2) k GroupThere True Inr by auto
          moreover have "\<exists>es. px_proc P w1 = Some es \<and> only_zombies (pb_pgid B) es"
            using Inr z zombies_True by (auto simp: all_zombies_def split: option.splits)
          ultimately show ?thesis by blast
        next
          case z: False
          let ?left = "case pb_recovery B of None \<Rightarrow> 0 | Some d \<Rightarrow> d - px_time P w1"
          show ?thesis
          proof (cases "?left \<le> 0")
            case True
            then show ?thesis using Suc.prems(2) k GroupThere \<open>px_linux P\<close> Inr z by auto
          next
            case False
            then obtain d where d: "pb_recovery B = Some d" "0 < d - px_time P w1"
              by (cases "pb_recovery B") auto
            let ?u = "px_sleep P (min 10 (d - px_time P w1)) w1"
            have "px_time P w1 + min 10 (d - px_time P w1) \<le> px_time P ?u"
              using assms(1) d(2) unfolding clock_ok_def by auto
            then have "nat (d - px_time P ?u) < fuel" using Suc.prems(1) d t by auto
            moreover have "posix_confirm P B fuel ?u = (r, w')"
              using Suc.prems(2) k GroupThere \<open>px_linux P\<close> Inr z d by (simp add: Let_def)
            ultimately show ?thesis using Suc.IH d(1) by simp
          qed
        qed
      qed
    qed (use Suc.prems k GroupThere in auto)
  qed (use Suc.prems k in auto)
qed simp


text \<open>After a kill that found the group the fuel of the recovery time is enough.\<close>

lemma killed_confirms:
  assumes "clock_ok P" "posix_terminate P B w = (Inr B', w')"
  shows "nat (case pb_recovery B' of None \<Rightarrow> 0 | Some d \<Rightarrow> d - px_time P w') < 101 \<or> pb_recovery B' = pb_recovery B"
  using assms by (auto simp: posix_terminate_def TERMINATION_RECOVERY_def split: prod.splits group_answer.splits)
text \<open>A group that is gone 20 milliseconds after the kill; \<^verbatim>\<open>/proc\<close> cannot be listed.\<close>

definition example_posix :: "int posix" where
  "example_posix = \<lparr>px_linux = True, px_killpg = (\<lambda>_ _ w. (if 20 \<le> w then GroupGone else GroupThere, w)), px_getpgid = ret,
     px_proc = (\<lambda>w. None), px_time = (\<lambda>w. w), px_sleep = (\<lambda>d w. w + d), px_wait = (\<lambda>_ _ w. (Exited 0, w)),
     px_popen = (\<lambda>_ _ _ _ _. raise (OSError ''spawn''))\<rparr>"

definition example_boundary :: "int posix_boundary" where
  "example_boundary = \<lparr>pb_child = \<lparr>ch_pid = 5, ch_streams = []\<rparr>, pb_pgid = 5, pb_recovery = Some 100\<rparr>"

section \<open>Windows: the kernel\<close>

text \<open>The functions of kernel32 the boundary calls, with what the code reads of their answers: a handle or
  nothing, whether the call succeeded, the active processes of a job.\<close>

record 'w kernel32 =
  kn_create_job :: "'w \<Rightarrow> int option \<times> 'w"
  kn_set_limits :: "int \<Rightarrow> 'w \<Rightarrow> bool \<times> 'w"
  kn_assign :: "int \<Rightarrow> int \<Rightarrow> 'w \<Rightarrow> bool \<times> 'w"
  kn_query :: "int \<Rightarrow> 'w \<Rightarrow> int option \<times> 'w"
  kn_terminate_job :: "int \<Rightarrow> 'w \<Rightarrow> bool \<times> 'w"
  kn_resume :: "int \<Rightarrow> 'w \<Rightarrow> bool \<times> 'w"
  kn_terminate :: "int option \<Rightarrow> 'w \<Rightarrow> bool \<times> 'w"
  kn_close :: "int \<Rightarrow> 'w \<Rightarrow> bool \<times> 'w"
  kn_wait :: "int option \<Rightarrow> int \<Rightarrow> 'w \<Rightarrow> wait_answer \<times> 'w"
  kn_create_nul :: "bool \<Rightarrow> 'w \<Rightarrow> int option \<times> 'w"
  kn_attribute_size :: "'w \<Rightarrow> bool \<times> 'w"
  kn_attribute_init :: "'w \<Rightarrow> bool \<times> 'w"
  kn_attribute_update :: "int list \<Rightarrow> 'w \<Rightarrow> bool \<times> 'w"
  kn_attribute_delete :: "'w \<Rightarrow> unit \<times> 'w"
  kn_inherit :: "int \<Rightarrow> 'w \<Rightarrow> bool \<times> 'w"
  kn_create_process :: "pystr list \<Rightarrow> pystr \<Rightarrow> pystr list \<Rightarrow> int \<Rightarrow> 'w \<Rightarrow> (int \<times> int) option \<times> 'w"
  kn_time :: "'w \<Rightarrow> int"

text \<open>The world, the handles that are open and the processes nobody has asked to end.\<close>

record 'w windows =
  wn_world :: 'w
  wn_open :: "int list"
  wn_alive :: "int list"

definition kernel :: "('w \<Rightarrow> 'a \<times> 'w) \<Rightarrow> ('w windows, 'a) prog" where
  "kernel f s = (case f (wn_world s) of (x, w) \<Rightarrow> (Inr x, s\<lparr>wn_world := w\<rparr>))"

definition win_error :: exn where
  "win_error = OSError ''kernel32''"

definition checked :: "('w \<Rightarrow> bool \<times> 'w) \<Rightarrow> ('w windows, unit) prog" where
  "checked f = bind_prog (kernel f) (\<lambda>success. if success then ret () else raise win_error)"

definition opens :: "int \<Rightarrow> ('w windows, unit) prog" where
  "opens h = modify (\<lambda>s. s\<lparr>wn_open := h # wn_open s\<rparr>)"

definition close_handle :: "'w kernel32 \<Rightarrow> int option \<Rightarrow> ('w windows, unit) prog" where
  "close_handle K handle =
     (case handle of
        None \<Rightarrow> ret ()
      | Some h \<Rightarrow> bind_prog (modify (\<lambda>s. s\<lparr>wn_open := remove1 h (wn_open s)\<rparr>)) (\<lambda>_. checked (kn_close K h)))"

definition terminate_process :: "'w kernel32 \<Rightarrow> int option \<Rightarrow> ('w windows, bool) prog" where
  "terminate_process K handle =
     bind_prog (modify (\<lambda>s. s\<lparr>wn_alive := (case handle of None \<Rightarrow> wn_alive s | Some h \<Rightarrow> remove1 h (wn_alive s))\<rparr>))
       (\<lambda>_. kernel (kn_terminate K handle))"

fun close_all :: "'w kernel32 \<Rightarrow> int option list \<Rightarrow> ('w windows, unit) prog" where
  "close_all K [] = ret ()"
| "close_all K (h # hs) = bind_prog (attempt (close_handle K h)) (\<lambda>_. close_all K hs)"

definition cleanup_handles ::
    "'w kernel32 \<Rightarrow> int option \<Rightarrow> int option \<Rightarrow> int option \<Rightarrow> ('w windows, unit) prog" where
  "cleanup_handles K process thread job =
     bind_prog (if process = None then ret ()
       else bind_prog (terminate_process K process) (\<lambda>_. bind_prog (kernel (kn_wait K process 5000)) (\<lambda>_. ret ())))
       (\<lambda>_. close_all K [job, thread, process])"

section \<open>Windows: the suspended process\<close>

record created_process =
  cp_args :: "pystr list"
  cp_handle :: "int option"
  cp_thread :: "int option"
  cp_returncode :: "int option"

definition cleanup_created :: "'w kernel32 \<Rightarrow> created_process \<Rightarrow> int option \<Rightarrow> ('w windows, created_process) prog" where
  "cleanup_created K p job = bind_prog (cleanup_handles K (cp_handle p) (cp_thread p) job)
     (\<lambda>_. ret (p\<lparr>cp_thread := None, cp_handle := None\<rparr>))"

text \<open>\<open>wait\<close>: the exit code and the process that remembers it; nothing after a timeout.\<close>

definition process_wait ::
    "'w kernel32 \<Rightarrow> created_process \<Rightarrow> int \<Rightarrow> ('w windows, int option \<times> created_process) prog" where
  "process_wait K p timeout =
     (case cp_returncode p of
        Some c \<Rightarrow> ret (Some c, p)
      | None \<Rightarrow>
          bind_prog (kernel (kn_wait K (cp_handle p) (max 0 (min (2 ^ 32 - 2) timeout)))) (\<lambda>answer.
          case answer of
            Exited c \<Rightarrow> ret (Some c, p\<lparr>cp_returncode := Some c\<rparr>)
          | WaitTimeout \<Rightarrow> ret (None, p)
          | WaitError \<Rightarrow> raise win_error))"

definition process_poll :: "'w kernel32 \<Rightarrow> created_process \<Rightarrow> ('w windows, int option) prog" where
  "process_poll K p = bind_prog (process_wait K p 0) (\<lambda>(c, _). ret c)"

definition process_terminate :: "'w kernel32 \<Rightarrow> created_process \<Rightarrow> ('w windows, unit) prog" where
  "process_terminate K p =
     (if cp_returncode p \<noteq> None then ret ()
      else bind_prog (terminate_process K (cp_handle p)) (\<lambda>done.
        if done then ret ()
        else bind_prog (process_poll K p) (\<lambda>code. if code = None then raise win_error else ret ())))"

definition environment_block :: "(pystr \<Rightarrow> pystr) \<Rightarrow> (pystr \<times> pystr) list \<Rightarrow> pystr list" where
  "environment_block upper env = sort_key upper (map (\<lambda>(k, v). k @ 61 # v) env)"

text \<open>The part inside \<open>try\<close>: whether the attribute list was initialised, and the process.\<close>

definition start_suspended ::
    "'w kernel32 \<Rightarrow> pystr list \<Rightarrow> pystr \<Rightarrow> pystr list \<Rightarrow> int \<Rightarrow> int \<Rightarrow> int \<Rightarrow> ('w windows, bool \<times> created_process res) prog" where
  "start_suspended K command cwd block flags null_input null_output =
     bind_prog (attempt (bind_prog (checked (kn_attribute_size K)) (\<lambda>_. checked (kn_attribute_init K)))) (\<lambda>prepared.
     case prepared of
       Inl e \<Rightarrow> ret (False, Inl e)
     | Inr _ \<Rightarrow>
         bind_prog (attempt
           (bind_prog (checked (kn_attribute_update K [null_input, null_output])) (\<lambda>_.
            bind_prog (checked (kn_inherit K null_input)) (\<lambda>_.
            bind_prog (checked (kn_inherit K null_output)) (\<lambda>_.
            bind_prog (kernel (kn_create_process K command cwd block flags)) (\<lambda>made.
            case made of
              None \<Rightarrow> raise win_error
            | Some (process, thread) \<Rightarrow>
                bind_prog (modify (\<lambda>s. s\<lparr>wn_open := thread # process # wn_open s, wn_alive := process # wn_alive s\<rparr>)) (\<lambda>_.
                ret \<lparr>cp_args = command, cp_handle = Some process, cp_thread = Some thread, cp_returncode = None\<rparr>))))))) (\<lambda>p.
         ret (True, p)))"

text \<open>The part inside \<open>finally\<close> and what follows it: the first failure of a close wins, and a process that
  was started is then cleaned up.\<close>

definition after_pipes ::
    "'w kernel32 \<Rightarrow> created_process res \<Rightarrow> exn option \<Rightarrow> ('w windows, created_process) prog" where
  "after_pipes K process close_failure =
     (case (process, close_failure) of
        (Inl e, None) \<Rightarrow> raise e
      | (Inl _, Some f) \<Rightarrow> raise f
      | (Inr p, None) \<Rightarrow> ret p
      | (Inr p, Some f) \<Rightarrow> bind_prog (cleanup_created K p None) (\<lambda>_. raise f))"

definition close_pipes ::
    "'w kernel32 \<Rightarrow> int \<Rightarrow> int \<Rightarrow> bool \<times> created_process res \<Rightarrow> ('w windows, created_process) prog" where
  "close_pipes K null_input null_output outcome =
     bind_prog (if fst outcome then kernel (kn_attribute_delete K) else ret ()) (\<lambda>_.
     bind_prog (attempt (close_handle K (Some null_output))) (\<lambda>closed1.
     bind_prog (attempt (close_handle K (Some null_input))) (\<lambda>closed2.
     after_pipes K (snd outcome)
       (case (closed1, closed2) of (Inl e, _) \<Rightarrow> Some e | (Inr _, Inl e) \<Rightarrow> Some e | _ \<Rightarrow> None))))"

definition create_suspended ::
    "'w kernel32 \<Rightarrow> (pystr \<Rightarrow> pystr) \<Rightarrow> pystr list \<Rightarrow> pystr \<Rightarrow> (pystr \<times> pystr) list \<Rightarrow> int \<Rightarrow> ('w windows, created_process) prog" where
  "create_suspended K upper command cwd env flags =
     (if list_ex (\<lambda>(k, v). 0 \<in> set k \<or> 0 \<in> set v) env then raise (ValueError ''NUL is not valid in a worker environment'')
      else bind_prog (kernel (kn_create_nul K False)) (\<lambda>input.
      case input of None \<Rightarrow> raise win_error | Some null_input \<Rightarrow>
      bind_prog (opens null_input) (\<lambda>_.
      bind_prog (kernel (kn_create_nul K True)) (\<lambda>output.
      case output of None \<Rightarrow> bind_prog (close_handle K (Some null_input)) (\<lambda>_. raise win_error) | Some null_output \<Rightarrow>
      bind_prog (opens null_output) (\<lambda>_.
      bind_prog (start_suspended K command cwd (environment_block upper env) flags null_input null_output)
        (close_pipes K null_input null_output))))))"

section \<open>Windows: the job\<close>

record job_boundary =
  jb_process :: created_process
  jb_process_handle :: "int option"
  jb_thread_handle :: "int option"
  jb_job_handle :: "int option"

text \<open>The constructor; with its error, the process as it leaves it.\<close>

definition job_started ::
    "'w kernel32 \<Rightarrow> created_process \<Rightarrow> int \<Rightarrow> unit res \<Rightarrow> ('w windows, (created_process \<times> exn) + job_boundary) prog" where
  "job_started K p job r =
     (case r of
        Inr _ \<Rightarrow> ret (Inr \<lparr>jb_process = p, jb_process_handle = cp_handle p, jb_thread_handle = cp_thread p, jb_job_handle = Some job\<rparr>)
      | Inl e \<Rightarrow> bind_prog (cleanup_created K p (Some job)) (\<lambda>p'. ret (Inl (p', e))))"

definition job_boundary :: "'w kernel32 \<Rightarrow> created_process \<Rightarrow> ('w windows, (created_process \<times> exn) + job_boundary) prog" where
  "job_boundary K p =
     bind_prog (kernel (kn_create_job K)) (\<lambda>created.
     case created of
       None \<Rightarrow> ret (Inl (p, win_error))
     | Some job \<Rightarrow>
         bind_prog (opens job) (\<lambda>_.
         bind_prog (attempt
           (bind_prog (checked (kn_set_limits K job)) (\<lambda>_.
            bind_prog (checked (kn_assign K job (case cp_handle p of Some h \<Rightarrow> h | None \<Rightarrow> 0))) (\<lambda>_.
            case cp_thread p of
              None \<Rightarrow> raise (OSError ''worker thread handle unavailable'')
            | Some thread \<Rightarrow> checked (kn_resume K thread)))))
           (job_started K p job)))"

definition job_wait :: "'w kernel32 \<Rightarrow> job_boundary \<Rightarrow> int \<Rightarrow> ('w windows, int option) prog" where
  "job_wait K B deadline s =
     bind_prog (process_wait K (jb_process B) (max 0 (deadline - kn_time K (wn_world s)))) (\<lambda>(c, _). ret c) s"

definition job_confirm :: "'w kernel32 \<Rightarrow> job_boundary \<Rightarrow> ('w windows, bool) prog" where
  "job_confirm K B =
     (case jb_job_handle B of
        None \<Rightarrow> ret False
      | Some job \<Rightarrow> bind_prog (kernel (kn_query K job)) (\<lambda>active. ret (active = Some 0)))"

definition job_terminate :: "'w kernel32 \<Rightarrow> job_boundary \<Rightarrow> ('w windows, unit) prog" where
  "job_terminate K B =
     (case jb_job_handle B of
        None \<Rightarrow> raise (OSError ''job handle unavailable'')
      | Some job \<Rightarrow> checked (kn_terminate_job K job))"

definition job_wait_for_root :: "'w kernel32 \<Rightarrow> job_boundary \<Rightarrow> int \<Rightarrow> ('w windows, bool) prog" where
  "job_wait_for_root K B timeout =
     bind_prog (attempt (process_wait K (jb_process B) timeout)) (\<lambda>r.
     ret (case r of Inr (Some _, _) \<Rightarrow> True | _ \<Rightarrow> False))"

text \<open>\<open>close\<close>: every handle is closed and forgotten, the first failure is the answer.\<close>

definition job_close :: "'w kernel32 \<Rightarrow> job_boundary \<Rightarrow> ('w windows, unit res \<times> job_boundary) prog" where
  "job_close K B =
     bind_prog (attempt (close_handle K (jb_job_handle B))) (\<lambda>a.
     bind_prog (attempt (close_handle K (jb_thread_handle B))) (\<lambda>b.
     bind_prog (attempt (close_handle K (jb_process_handle B))) (\<lambda>c.
     ret (case (a, b, c) of (Inl e, _) \<Rightarrow> Inl e | (Inr _, Inl e, _) \<Rightarrow> Inl e | (Inr _, Inr _, r) \<Rightarrow> r,
          B\<lparr>jb_job_handle := None, jb_thread_handle := None, jb_process_handle := None\<rparr>))))"

definition partial_cleanup :: "'w kernel32 \<Rightarrow> created_process \<Rightarrow> ('w windows, unit) prog" where
  "partial_cleanup K p =
     bind_prog (attempt (process_terminate K p)) (\<lambda>_.
     bind_prog (attempt (process_wait K p 5000)) (\<lambda>_.
     close_all K [cp_thread p, cp_handle p]))"

definition windows_create ::
    "'w kernel32 \<Rightarrow> (pystr \<Rightarrow> pystr) \<Rightarrow> pystr list \<Rightarrow> pystr \<Rightarrow> (pystr \<times> pystr) list \<Rightarrow> bool \<Rightarrow> int \<Rightarrow> bool
       \<Rightarrow> ('w windows, job_boundary) prog" where
  "windows_create K upper command cwd env shell flags start_new_session =
     (if shell then raise (ValueError ''worker shell execution is forbidden'')
      else if start_new_session then raise (ValueError ''Windows workers use a Job Object, not start_new_session'')
      else bind_prog (create_suspended K upper command cwd env flags) (\<lambda>p.
        bind_prog (job_boundary K p) (\<lambda>r.
        case r of Inr B \<Rightarrow> ret B | Inl (p', e) \<Rightarrow> bind_prog (partial_cleanup K p') (\<lambda>_. raise e))))"

section \<open>Windows: nothing is left behind\<close>

text \<open>The open handles and the processes still to be ended, as multisets.\<close>

definition held :: "'w windows \<Rightarrow> int multiset \<times> int multiset" where
  "held s = (mset (wn_open s), mset (wn_alive s))"

definition handles :: "int option list \<Rightarrow> int multiset" where
  "handles hs = mset (List.map_filter id hs)"

lemma handles_simps [simp]:
  "handles [] = {#}" "handles (None # hs) = handles hs" "handles (Some h # hs) = add_mset h (handles hs)"
  by (simp_all add: handles_def List.map_filter_def)

lemma handles_Cons: "handles (h # hs) = handles [h] + handles hs"
  by (cases h) simp_all

lemma wp_kernel: "(\<And>x t. held t = held s \<Longrightarrow> Q (Inr x) t) \<Longrightarrow> wp (kernel f) Q s"
  by (simp add: wp_def kernel_def held_def split: prod.splits)

lemma wp_checked: "(\<And>r t. held t = held s \<Longrightarrow> Q r t) \<Longrightarrow> wp (checked f) Q s"
  unfolding checked_def wp_bind by (rule wp_kernel) (simp add: wp_simps)

lemma wp_opens: "(\<And>t. held t = (add_mset h (fst (held s)), snd (held s)) \<Longrightarrow> Q (Inr ()) t) \<Longrightarrow> wp (opens h) Q s"
  by (simp add: opens_def wp_simps held_def)

lemma wp_close:
  "(\<And>r t. held t = (fst (held s) - handles [h], snd (held s)) \<Longrightarrow> Q r t) \<Longrightarrow> wp (close_handle K h) Q s"
  unfolding close_handle_def
  by (cases h) (auto simp: wp_simps held_def intro!: wp_checked)

lemma wp_terminate_process:
  "(\<And>x t. held t = (fst (held s), snd (held s) - handles [h]) \<Longrightarrow> Q (Inr x) t) \<Longrightarrow> wp (terminate_process K h) Q s"
  unfolding terminate_process_def
  by (cases h) (auto simp: wp_simps held_def intro!: wp_kernel)

lemma wp_close_all:
  "(\<And>t. held t = (fst (held s) - handles hs, snd (held s)) \<Longrightarrow> Q (Inr ()) t) \<Longrightarrow> wp (close_all K hs) Q s"
proof (induction hs arbitrary: s)
  case (Cons h hs)
  show ?case
    by (simp add: wp_simps, rule wp_close, simp, rule Cons.IH, rule Cons.prems)
      (simp add: handles_Cons[of h hs] diff_diff_add)
qed (simp add: wp_simps)

lemma wp_cleanup:
  "(\<And>t. held t = (fst (held s) - handles [j, th, p], snd (held s) - handles [p]) \<Longrightarrow> Q (Inr ()) t)
     \<Longrightarrow> wp (cleanup_handles K p th j) Q s"
  unfolding cleanup_handles_def
  by (cases p) (auto simp: wp_simps simp del: close_all.simps intro!: wp_close_all wp_terminate_process wp_kernel)

lemma wp_cleanup_created:
  "(\<And>t. held t = (fst (held s) - handles [j, cp_thread p, cp_handle p], snd (held s) - handles [cp_handle p])
      \<Longrightarrow> Q (Inr (p\<lparr>cp_thread := None, cp_handle := None\<rparr>)) t) \<Longrightarrow> wp (cleanup_created K p j) Q s"
  unfolding cleanup_created_def wp_bind by (rule wp_cleanup) (simp add: wp_simps)

lemma wp_process_wait:
  "(\<And>r t. held t = held s \<Longrightarrow> Q r t) \<Longrightarrow> wp (process_wait K p d) Q s"
  unfolding process_wait_def
  by (cases "cp_returncode p") (auto simp: wp_simps split: wait_answer.split intro!: wp_kernel)

lemma wp_process_terminate:
  "cp_returncode p = None \<Longrightarrow> (\<And>r t. held t = (fst (held s), snd (held s) - handles [cp_handle p]) \<Longrightarrow> Q r t)
     \<Longrightarrow> wp (process_terminate K p) Q s"
  unfolding process_terminate_def
  by (auto simp: wp_simps process_poll_def split: sum.split prod.split intro!: wp_terminate_process wp_process_wait)

lemma wp_partial_cleanup:
  "cp_returncode p = None \<Longrightarrow>
    (\<And>t. held t = (fst (held s) - handles [cp_thread p, cp_handle p], snd (held s) - handles [cp_handle p]) \<Longrightarrow> Q (Inr ()) t)
     \<Longrightarrow> wp (partial_cleanup K p) Q s"
  unfolding partial_cleanup_def wp_bind wp_attempt
  by (rule wp_process_terminate, simp, simp add: wp_simps del: close_all.simps, rule wp_process_wait,
      simp del: close_all.simps, rule wp_close_all, simp)

lemma wp_start_suspended:
  assumes "\<And>i p t. held t = (handles [cp_thread p, cp_handle p] + fst (held s), handles [cp_handle p] + snd (held s)) \<Longrightarrow>
      cp_returncode p = None \<Longrightarrow> cp_handle p \<noteq> None \<Longrightarrow> cp_thread p \<noteq> None \<Longrightarrow> Q (Inr (i, Inr p)) t"
    and "\<And>i e t. held t = held s \<Longrightarrow> Q (Inr (i, Inl e)) t"
  shows "wp (start_suspended K command cwd block flags ni no) Q s"
  unfolding start_suspended_def wp_bind wp_attempt
  apply (rule wp_checked)
  subgoal for r t
    apply (cases r; simp add: wp_simps assms)
    apply (rule wp_checked)
    subgoal for r' t'
      apply (cases r'; simp add: wp_simps assms)
      apply (rule wp_checked)
      subgoal for r1 t1
        apply (cases r1; simp add: wp_simps assms)
        apply (rule wp_checked)
        subgoal for r2 t2
          apply (cases r2; simp add: wp_simps assms)
          apply (rule wp_checked)
          subgoal for r3 t3
            apply (cases r3; simp add: wp_simps assms)
            apply (rule wp_kernel)
            subgoal for x t4
              by (auto simp: wp_simps held_def intro!: assms split: option.split)
            done
          done
        done
      done
    done
  done

text \<open>After the pipes are closed a failed start holds what it held before, a started process is the caller's.\<close>

definition started :: "created_process res \<Rightarrow> int multiset \<times> int multiset \<Rightarrow> int multiset \<times> int multiset \<Rightarrow> bool" where
  "started r before after \<longleftrightarrow> (case r of
     Inl _ \<Rightarrow> after = before
   | Inr p \<Rightarrow> cp_returncode p = None \<and> (\<exists>h th. cp_handle p = Some h \<and> cp_thread p = Some th
       \<and> after = (add_mset th (add_mset h (fst before)), add_mset h (snd before))))"

lemma wp_close_pipes:
  assumes "started (snd out) before now" "held s = (add_mset no (add_mset ni (fst now)), snd now)"
  shows "wp (close_pipes K ni no out) (\<lambda>r t. started r before (held t)) s"
proof -
  have close: "wp (close_handle K (Some no)) (\<lambda>c1. wp (close_handle K (Some ni)) (\<lambda>c2. wp (f c1 c2) Q)) u"
    if "held u = held s" "\<And>c1 c2 t. held t = now \<Longrightarrow> wp (f c1 c2) Q t" for f Q u
    by (rule wp_close, rule wp_close) (simp add: that assms(2))
  have fin: "wp (after_pipes K (snd out) failure) (\<lambda>r t. started r before (held t)) u" if "held u = now" for failure u
    using assms(1) that unfolding after_pipes_def
    by (cases "snd out"; cases failure) (auto simp: wp_simps started_def intro!: wp_cleanup_created)
  show ?thesis
    unfolding close_pipes_def wp_bind[of "if _ then _ else _"]
    by (cases "fst out") (auto simp: wp_simps intro!: wp_kernel close fin)
qed

lemma wp_run_suspended:
  assumes "held u = (add_mset no (add_mset ni (fst b)), snd b)"
  shows "wp (bind_prog (start_suspended K command cwd block flags ni no) (close_pipes K ni no)) (\<lambda>r t. started r b (held t)) u"
  unfolding wp_bind
proof (rule wp_start_suspended)
  fix i :: bool and p :: created_process and t :: "'a windows"
  assume t: "held t = (handles [cp_thread p, cp_handle p] + fst (held u), handles [cp_handle p] + snd (held u))"
    "cp_returncode p = None" "cp_handle p \<noteq> None" "cp_thread p \<noteq> None"
  let ?now = "(handles [cp_thread p, cp_handle p] + fst b, handles [cp_handle p] + snd b)"
  have "started (snd (i, Inr p)) b ?now" "held t = (add_mset no (add_mset ni (fst ?now)), snd ?now)"
    using t assms by (auto simp: started_def)
  from wp_close_pipes[OF this]
  show "case Inr (i, Inr p) of Inl e \<Rightarrow> started (Inl e) b (held t)
      | Inr x \<Rightarrow> wp (close_pipes K ni no x) (\<lambda>r t. started r b (held t)) t" by simp
next
  fix i :: bool and e and t :: "'a windows"
  assume t: "held t = held u"
  have "started (snd (i, Inl e)) b b" by (simp add: started_def)
  from wp_close_pipes[OF this] t assms
  show "case Inr (i, Inl e) of Inl e \<Rightarrow> started (Inl e) b (held t)
      | Inr x \<Rightarrow> wp (close_pipes K ni no x) (\<lambda>r t. started r b (held t)) t" by simp
qed

lemma wp_create_suspended:
  "wp (create_suspended K upper command cwd env flags) (\<lambda>r t. started r (held s) (held t)) s"
proof -
  have keep: "started (Inl e) a b \<longleftrightarrow> b = a" for e a b by (simp add: started_def)
  have out: "wp (bind_prog (kernel (kn_create_nul K True)) (\<lambda>output.
      case output of None \<Rightarrow> bind_prog (close_handle K (Some ni)) (\<lambda>_. raise win_error) | Some no \<Rightarrow>
      bind_prog (opens no) (\<lambda>_.
      bind_prog (start_suspended K command cwd (environment_block upper env) flags ni no) (close_pipes K ni no))))
      (\<lambda>r t. started r (held s) (held t)) u"
    if "held u = (add_mset ni (fst (held s)), snd (held s))" for ni u
    unfolding wp_bind[of "kernel _"]
    by (rule wp_kernel)
      (auto simp: that keep wp_simps(1)[of "opens _"] wp_simps(1)[of "close_handle _ _"] wp_basic
        split: option.split sum.split intro!: wp_opens wp_close wp_run_suspended)
  show ?thesis
    unfolding create_suspended_def wp_if wp_basic keep wp_bind[of "kernel _"]
    by (auto simp: keep wp_simps(1)[of "opens _"] wp_basic split: option.split intro!: wp_kernel wp_opens out)
qed
definition in_job :: "(created_process \<times> exn) + job_boundary \<Rightarrow> int multiset \<times> int multiset \<Rightarrow> int multiset \<times> int multiset \<Rightarrow> bool" where
  "in_job r before after \<longleftrightarrow> (case r of
     Inl (p, _) \<Rightarrow> cp_returncode p = None
       \<and> after = (handles [cp_thread p, cp_handle p] + fst before, handles [cp_handle p] + snd before)
   | Inr B \<Rightarrow> (\<exists>j th h. jb_job_handle B = Some j \<and> jb_thread_handle B = Some th \<and> jb_process_handle B = Some h
       \<and> after = ({#j, th, h#} + fst before, {#h#} + snd before)))"

lemma wp_job_boundary:
  assumes "started (Inr p) before (held s)"
  shows "wp (job_boundary K p) (\<lambda>r t. \<exists>x. r = Inr x \<and> in_job x before (held t)) s"
proof -
  from assms obtain h th where p: "cp_returncode p = None" "cp_handle p = Some h" "cp_thread p = Some th"
    and s: "held s = (add_mset th (add_mset h (fst before)), add_mset h (snd before))"
    by (auto simp: started_def)
  have start: "wp (bind_prog (checked (kn_set_limits K j)) (\<lambda>_. bind_prog (checked (kn_assign K j h)) (\<lambda>_.
      checked (kn_resume K th)))) Q u" if "\<And>r t. held t = held u \<Longrightarrow> Q r t" for j Q u
    unfolding wp_bind by (rule wp_checked, auto simp: that split: sum.split intro!: wp_checked)
  have rest: "wp (job_started K p j r) (\<lambda>r t. \<exists>x. r = Inr x \<and> in_job x before (held t)) u"
    if "held u = (add_mset j (fst (held s)), snd (held s))" for j r u
    unfolding job_started_def
    by (cases r) (auto simp: wp_simps that s p in_job_def intro!: wp_cleanup_created)
  show ?thesis
    unfolding job_boundary_def wp_bind[of "kernel _"]
    by (auto simp: wp_simps(1)[of "opens _"] wp_simps(1)[of "attempt _"] wp_attempt wp_basic p s in_job_def[of "Inl _"]
        split: option.split intro!: wp_kernel wp_opens start rest)
qed

lemma wp_job_close:
  "(\<And>r t. held t = (fst (held s) - handles [jb_job_handle B, jb_thread_handle B, jb_process_handle B], snd (held s)) \<Longrightarrow>
      Q (Inr (r, B\<lparr>jb_job_handle := None, jb_thread_handle := None, jb_process_handle := None\<rparr>)) t)
     \<Longrightarrow> wp (job_close K B) Q s"
  unfolding job_close_def wp_bind wp_attempt
  by (rule wp_close, simp, rule wp_close, simp, rule wp_close)
    (simp add: wp_simps handles_Cons[of "jb_job_handle B" "[jb_thread_handle B, jb_process_handle B]"]
      handles_Cons[of "jb_thread_handle B" "[jb_process_handle B]"] diff_diff_add add.assoc)

definition placed :: "job_boundary res \<Rightarrow> int multiset \<times> int multiset \<Rightarrow> int multiset \<times> int multiset \<Rightarrow> bool" where
  "placed r before after \<longleftrightarrow> (case r of Inl _ \<Rightarrow> after = before | Inr B \<Rightarrow> in_job (Inr B) before after)"

lemma wp_windows_create:
  "wp (windows_create K upper command cwd env shell flags new_session) (\<lambda>r t. placed r (held s) (held t)) s"
proof -
  have job: "wp (bind_prog (job_boundary K p) (\<lambda>r. case r of Inr B \<Rightarrow> ret B
        | Inl (p', e) \<Rightarrow> bind_prog (partial_cleanup K p') (\<lambda>_. raise e))) (\<lambda>r t. placed r (held s) (held t)) u"
    if "started (Inr p) (held s) (held u)" for p u
    unfolding wp_bind[of "job_boundary _ _"]
    by (rule wp_mono[OF wp_job_boundary[OF that]])
      (auto simp: wp_simps(1)[of "partial_cleanup _ _"] wp_basic in_job_def[of "Inl _"] placed_def split: sum.split intro!: wp_partial_cleanup)
  show ?thesis
    unfolding windows_create_def wp_if wp_basic wp_bind[of "create_suspended _ _ _ _ _ _"]
    by (auto intro!: wp_mono[OF wp_create_suspended] job simp: started_def[of "Inl _"] placed_def[of "Inl _"] split: sum.split)
qed

text \<open>C17. Starting a worker on Windows is atomic in what it holds: a start that fails, at whichever of its calls to
  the kernel, has closed every handle it opened and asked every process it created to end, and one that succeeds
  holds the handles of the job, the thread and the process of its boundary and no other, which closing the
  boundary gives back, whichever of the closes fail.\<close>

theorem worker_start_atomic:
  "case windows_create K upper command cwd env shell flags new_session s of
     (Inl _, t) \<Rightarrow> mset (wn_open t) = mset (wn_open s) \<and> mset (wn_alive t) = mset (wn_alive s)
   | (Inr B, t) \<Rightarrow>
       (\<exists>job thread process. jb_job_handle B = Some job \<and> jb_thread_handle B = Some thread \<and> jb_process_handle B = Some process
         \<and> mset (wn_open t) = {#job, thread, process#} + mset (wn_open s)
         \<and> mset (wn_alive t) = {#process#} + mset (wn_alive s))
       \<and> mset (wn_open (snd (job_close K B t))) = mset (wn_open s)"
proof -
  obtain r t where run: "windows_create K upper command cwd env shell flags new_session s = (r, t)" by fastforce
  from wp_result[OF wp_windows_create, of K upper command cwd env shell flags new_session s] run
  have made: "placed r (held s) (held t)" by simp
  show ?thesis
  proof (cases r)
    case (Inl e)
    then show ?thesis using made run by (simp add: placed_def held_def)
  next
    case (Inr B)
    have "wp (job_close K B) (\<lambda>_ u. fst (held u) = fst (held t)
        - handles [jb_job_handle B, jb_thread_handle B, jb_process_handle B]) t"
      by (rule wp_job_close) simp
    from wp_result[OF this] made Inr
    show ?thesis by (auto simp: run held_def in_job_def placed_def)
  qed
qed

end
