(* ===== verification/RequestRoot.thy ===== *)
theory RequestRoot
  imports Worker
begin

text \<open>
  What the demo service and its worker do to the disk: creating the private request root, removing it or
  moving it aside (\<^verbatim>\<open>web/run_service.py\<close>), clearing the bytecode of a worktree before a test run and writing
  the result file (\<^verbatim>\<open>web/worker.py\<close>). The disk is a list of paths with their inodes and a script of the
  calls the kernel refuses; \<open>Path.resolve\<close> is an argument. The theorems say what removal may touch, and
  that it removes the whole tree when nothing is refused.
\<close>

section \<open>The disk\<close>

text \<open>A link and a reparse point have nothing below them: no operation here goes through one.\<close>

datatype inode = RegularFile int bytes | Directory int | Symlink | ReparsePoint

record disk =
  dk_nodes :: "(pystr list \<times> inode) list"
  dk_refusals :: "bool list"

definition lookup :: "disk \<Rightarrow> pystr list \<Rightarrow> inode option" where
  "lookup d p = map_of (dk_nodes d) p"

definition children :: "disk \<Rightarrow> pystr list \<Rightarrow> pystr list list" where
  "children d p = filter (\<lambda>q. q \<noteq> [] \<and> butlast q = p) (map fst (dk_nodes d))"

fun linked :: "inode option \<Rightarrow> bool" where
  "linked (Some Symlink) = True"
| "linked (Some ReparsePoint) = True"
| "linked _ = False"

fun directory :: "inode option \<Rightarrow> bool" where
  "directory (Some (Directory _)) = True"
| "directory _ = False"

definition within :: "pystr list \<Rightarrow> pystr list \<Rightarrow> bool" where
  "within d p \<longleftrightarrow> take (length d) p = d"

text \<open>A call that changes the disk: the next word of the script says whether the kernel refuses it.\<close>

definition system_call :: "(disk, 'a) prog \<Rightarrow> (disk, 'a) prog" where
  "system_call m d =
     (case dk_refusals d of
        [] \<Rightarrow> m d
      | refused # rest \<Rightarrow> if refused then (Inl (OSError ''refused''), d\<lparr>dk_refusals := rest\<rparr>) else m (d\<lparr>dk_refusals := rest\<rparr>))"

definition put_node :: "pystr list \<Rightarrow> inode \<Rightarrow> disk \<Rightarrow> disk" where
  "put_node p i d = d\<lparr>dk_nodes := dk_nodes d @ [(p, i)]\<rparr>"

definition drop_node :: "pystr list \<Rightarrow> disk \<Rightarrow> disk" where
  "drop_node p d = d\<lparr>dk_nodes := filter (\<lambda>(q, _). q \<noteq> p) (dk_nodes d)\<rparr>"

fun with_mode :: "int \<Rightarrow> inode \<Rightarrow> inode" where
  "with_mode m (RegularFile _ b) = RegularFile m b"
| "with_mode m (Directory _) = Directory m"
| "with_mode m i = i"

definition set_mode :: "pystr list \<Rightarrow> int \<Rightarrow> disk \<Rightarrow> disk" where
  "set_mode p m d = d\<lparr>dk_nodes := map (\<lambda>(q, i). (q, if q = p then with_mode m i else i)) (dk_nodes d)\<rparr>"

fun mode_of :: "inode \<Rightarrow> int" where
  "mode_of (RegularFile m _) = m"
| "mode_of (Directory m) = m"
| "mode_of _ = 511"

definition unlink :: "pystr list \<Rightarrow> (disk, unit) prog" where
  "unlink p = system_call (\<lambda>d. case lookup d p of
     Some i \<Rightarrow> if directory (Some i) then (Inl (OSError ''unlink''), d) else (Inr (), drop_node p d)
   | None \<Rightarrow> (Inl (OSError ''unlink''), d))"

definition rmdir :: "pystr list \<Rightarrow> (disk, unit) prog" where
  "rmdir p = system_call (\<lambda>d.
     if directory (lookup d p) \<and> children d p = [] then (Inr (), drop_node p d) else (Inl (OSError ''rmdir''), d))"

definition mkdir :: "int \<Rightarrow> pystr list \<Rightarrow> (disk, unit) prog" where
  "mkdir mode p = system_call (\<lambda>d.
     if lookup d p \<noteq> None then (Inl (OSError ''FileExistsError''), d)
     else if p = [] \<or> \<not> directory (lookup d (butlast p)) then (Inl (OSError ''mkdir''), d)
     else (Inr (), put_node p (Directory mode) d))"

text \<open>\<open>open\<close> with \<open>O_CREAT | O_EXCL\<close>, and the bytes written to it.\<close>

definition create_exclusive :: "int \<Rightarrow> pystr list \<Rightarrow> bytes \<Rightarrow> (disk, unit) prog" where
  "create_exclusive mode p content = system_call (\<lambda>d.
     if lookup d p \<noteq> None \<or> p = [] \<or> \<not> directory (lookup d (butlast p)) then (Inl (OSError ''open''), d)
     else (Inr (), put_node p (RegularFile mode content) d))"

section \<open>The request root\<close>

definition create_private_directory :: "pystr list \<Rightarrow> (disk, unit) prog" where
  "create_private_directory = mkdir 448"

definition write_private_config :: "pystr list \<Rightarrow> bytes \<Rightarrow> (disk, unit) prog" where
  "write_private_config = create_exclusive 384"

definition restore_owner_access :: "pystr list \<Rightarrow> bool \<Rightarrow> (disk, unit) prog" where
  "restore_owner_access p is_directory = system_call (\<lambda>d. case lookup d p of
     None \<Rightarrow> (Inl (OSError ''stat''), d)
   | Some i \<Rightarrow> (Inr (), set_mode p (or (mode_of i) (if is_directory then 448 else 384)) d))"

text \<open>\<open>for _attempt in range(2)\<close>\<close>

definition twice :: "(disk, unit) prog \<Rightarrow> (disk, unit) prog \<Rightarrow> (disk, unit) prog" where
  "twice m restore = bind_prog (attempt m) (\<lambda>r. case r of Inr _ \<Rightarrow> ret () | Inl _ \<Rightarrow> bind_prog restore (\<lambda>_. m))"

fun for_each :: "('a \<Rightarrow> (disk, unit) prog) \<Rightarrow> 'a list \<Rightarrow> (disk, unit) prog" where
  "for_each f [] = ret ()"
| "for_each f (x # xs) = bind_prog (f x) (\<lambda>_. for_each f xs)"

text \<open>\<open>is_symlink() or has_reparse_point()\<close>; \<open>stat\<close> fails where nothing is.\<close>

definition not_a_link :: "pystr list \<Rightarrow> (disk, unit) prog" where
  "not_a_link p d =
     (if lookup d p = None \<or> linked (lookup d p) then (Inl (OSError ''reparse point in request tree''), d) else (Inr (), d))"

type_synonym resolver = "disk \<Rightarrow> pystr list \<Rightarrow> pystr list option"

text \<open>\<open>remove\<close>, with the depth of the call stack as fuel.\<close>

fun remove_tree :: "resolver \<Rightarrow> pystr list \<Rightarrow> nat \<Rightarrow> pystr list \<Rightarrow> (disk, unit) prog" where
  "remove_tree resolve root 0 p = raise (RuntimeError ''maximum recursion depth exceeded'')"
| "remove_tree resolve root (Suc depth) p =
     bind_prog (not_a_link p) (\<lambda>_ d.
     if directory (lookup d p)
     then bind_prog (restore_owner_access p True) (\<lambda>_ d.
          bind_prog (for_each (\<lambda>child.
              bind_prog (not_a_link child) (\<lambda>_ d.
              case resolve d child of
                Some r \<Rightarrow> if within root r then remove_tree resolve root depth child d
                          else (Inl (ValueError ''relative_to''), d)
              | None \<Rightarrow> (Inl (OSError ''resolve''), d))) (children d p)) (\<lambda>_.
          twice (rmdir p) (restore_owner_access p True)) d) d
     else bind_prog (restore_owner_access p False) (\<lambda>_. twice (unlink p) (restore_owner_access p False)) d)"

definition cleanup_request_root :: "resolver \<Rightarrow> nat \<Rightarrow> pystr list \<Rightarrow> (disk, unit) prog" where
  "cleanup_request_root resolve depth request_root =
     bind_prog (not_a_link request_root) (\<lambda>_ d.
     case resolve d request_root of
       None \<Rightarrow> (Inl (OSError ''resolve''), d)
     | Some root \<Rightarrow>
         if \<not> directory (lookup d root) then (Inl (OSError ''request root is not a real directory''), d)
         else remove_tree resolve root depth root d)"

text \<open>\<open>rename\<close> to a name that is free, or an empty directory.\<close>

definition rename_to_quarantine :: "pystr list \<Rightarrow> pystr \<Rightarrow> (disk, unit) prog" where
  "rename_to_quarantine request_root token = system_call (\<lambda>d.
     let target = butlast request_root @ [last request_root @ lit ''-quarantine-'' @ token]
     in if request_root = [] \<or> lookup d request_root = None
           \<or> (lookup d target \<noteq> None \<and> \<not> (directory (lookup d target) \<and> children d target = []))
        then (Inl (OSError ''rename''), d)
        else (Inr (), d\<lparr>dk_nodes := map (\<lambda>(q, i). (if within request_root q then target @ drop (length request_root) q else q, i))
                                      (filter (\<lambda>(q, _). q \<noteq> target) (dk_nodes d))\<rparr>))"

section \<open>Removal stays inside and follows nothing\<close>

definition disk_ok :: "disk \<Rightarrow> bool" where
  "disk_ok d \<longleftrightarrow> (\<forall>q. q \<noteq> [] \<longrightarrow> lookup d q \<noteq> None \<longrightarrow> directory (lookup d (butlast q)))"

text \<open>What one step may do: outside \<open>root\<close>, and of links anywhere, nothing; no link appears.\<close>

definition kept :: "pystr list \<Rightarrow> disk \<Rightarrow> disk \<Rightarrow> bool" where
  "kept root d t \<longleftrightarrow> (\<forall>q. \<not> within root q \<or> linked (lookup d q) \<longrightarrow> lookup t q = lookup d q)
     \<and> (\<forall>q. linked (lookup t q) \<longrightarrow> linked (lookup d q)) \<and> (disk_ok d \<longrightarrow> disk_ok t)"

lemma lookup_simps [simp]:
  "lookup (drop_node p d) q = (if q = p then None else lookup d q)"
  "lookup (set_mode p m d) q = map_option (\<lambda>i. if q = p then with_mode m i else i) (lookup d q)"
  "lookup (d\<lparr>dk_refusals := r\<rparr>) q = lookup d q"
  "lookup (put_node p i d) q = (case lookup d q of None \<Rightarrow> if q = p then Some i else None | x \<Rightarrow> x)"
proof -
  have "map_of (filter (\<lambda>(q, _). q \<noteq> p) xs) q = (if q = p then None else map_of xs q)" for xs :: "(pystr list \<times> inode) list"
    by (induction xs) auto
  then show "lookup (drop_node p d) q = (if q = p then None else lookup d q)"
    by (simp add: lookup_def drop_node_def)
  have "map_of (map (\<lambda>(q, i). (q, if q = p then with_mode m i else i)) xs) q
      = map_option (\<lambda>i. if q = p then with_mode m i else i) (map_of xs q)" for xs
    by (induction xs) auto
  then show "lookup (set_mode p m d) q = map_option (\<lambda>i. if q = p then with_mode m i else i) (lookup d q)"
    by (simp add: lookup_def set_mode_def)
qed (auto simp: lookup_def put_node_def map_add_def split: option.split)

lemma kinds [simp]:
  "linked (Some (with_mode m i)) = linked (Some i)" "directory (Some (with_mode m i)) = directory (Some i)"
  by (cases i; simp)+

lemma kinds_map [simp]:
  "linked (map_option (\<lambda>i. if b then with_mode m i else i) x) = linked x"
  "directory (map_option (\<lambda>i. if b then with_mode m i else i) x) = directory x"
  by (cases x; simp)+

lemma children_iff: "q \<in> set (children d p) \<longleftrightarrow> q \<noteq> [] \<and> butlast q = p \<and> lookup d q \<noteq> None"
  by (auto simp: children_def lookup_def map_of_eq_None_iff)

lemma within_refl [simp]: "within p p"
  by (simp add: within_def)

lemma within_append [simp]: "within p (p @ q)"
  by (simp add: within_def)

lemma within_child: "within root p \<Longrightarrow> q \<noteq> [] \<Longrightarrow> butlast q = p \<Longrightarrow> within root q"
  unfolding within_def by (metis append_butlast_last_id append_take_drop_id append_assoc append_eq_conv_conj)

lemma kept_refl [simp]: "kept root d d"
  by (simp add: kept_def)

lemma kept_trans: "kept root d t \<Longrightarrow> kept root t u \<Longrightarrow> kept root d u"
  unfolding kept_def by metis

lemma kept_refusals: "kept root (d\<lparr>dk_refusals := r\<rparr>) t = kept root d t"
  by (simp add: kept_def disk_ok_def)

lemma kept_call:
  assumes "\<And>u. (\<forall>q. lookup u q = lookup d q) \<Longrightarrow> kept root u (snd (m u))"
  shows "kept root d (snd (system_call m d))"
proof (cases "dk_refusals d")
  case (Cons refused rest)
  have "kept root d (snd (m (d\<lparr>dk_refusals := rest\<rparr>)))"
    using assms[of "d\<lparr>dk_refusals := rest\<rparr>"] by (simp add: kept_refusals)
  moreover have "kept root d (d\<lparr>dk_refusals := rest\<rparr>)"
    using kept_refusals[of root rest d "d\<lparr>dk_refusals := rest\<rparr>"] by simp
  ultimately show ?thesis using Cons by (simp add: system_call_def)
qed (simp add: system_call_def assms)

lemma kept_bind:
  "kept root d (snd (m d)) \<Longrightarrow> (\<And>x t. m d = (Inr x, t) \<Longrightarrow> kept root d t \<Longrightarrow> kept root t (snd (f x t)))
     \<Longrightarrow> kept root d (snd (bind_prog m f d))"
  by (auto simp: bind_prog_def split: prod.split sum.split intro: kept_trans)

lemma kept_ops:
  assumes "within root p" "\<not> linked (lookup d p)"
  shows "kept root d (snd (unlink p d))" "kept root d (snd (rmdir p d))" "kept root d (snd (restore_owner_access p b d))"
proof -
  show "kept root d (snd (unlink p d))"
    unfolding unlink_def
  proof (rule kept_call)
    fix u
    assume u: "\<forall>q. lookup u q = lookup d q"
    have "disk_ok u \<longrightarrow> disk_ok (drop_node p u)" if "\<not> directory (lookup u p)"
      using that by (auto simp: disk_ok_def)
    then show "kept root u (snd (case lookup u p of
        Some i \<Rightarrow> if directory (Some i) then (Inl (OSError ''unlink''), u) else (Inr (), drop_node p u)
      | None \<Rightarrow> (Inl (OSError ''unlink''), u)))"
      using assms u by (auto simp: kept_def split: option.split)
  qed
  show "kept root d (snd (rmdir p d))"
    unfolding rmdir_def
  proof (rule kept_call)
    fix u
    assume u: "\<forall>q. lookup u q = lookup d q"
    have "disk_ok u \<longrightarrow> disk_ok (drop_node p u)" if "children u p = []"
      using that children_iff[of _ u p] by (auto simp: disk_ok_def)
    then show "kept root u (snd (if directory (lookup u p) \<and> children u p = [] then (Inr (), drop_node p u)
        else (Inl (OSError ''rmdir''), u)))"
      using assms u by (auto simp: kept_def)
  qed
  show "kept root d (snd (restore_owner_access p b d))"
    unfolding restore_owner_access_def
  proof (rule kept_call)
    fix u
    assume u: "\<forall>q. lookup u q = lookup d q"
    then show "kept root u (snd (case lookup u p of None \<Rightarrow> (Inl (OSError ''stat''), u)
      | Some i \<Rightarrow> (Inr (), set_mode p (or (mode_of i) (if b then 448 else 384)) u)))"
      using assms by (auto simp: kept_def disk_ok_def map_option_case split: option.split)
  qed
qed

lemma kept_not_a_link: "snd (not_a_link p d) = d" "not_a_link p d = (Inr x, t) \<Longrightarrow> t = d \<and> lookup d p \<noteq> None \<and> \<not> linked (lookup d p)"
  by (auto simp: not_a_link_def split: if_splits)

lemma kept_linked: "kept root d t \<Longrightarrow> \<not> linked (lookup d p) \<Longrightarrow> \<not> linked (lookup t p)"
  by (auto simp: kept_def)

lemma kept_twice:
  assumes "within root p" "\<not> linked (lookup d p)" "m = unlink p \<or> m = rmdir p"
  shows "kept root d (snd (twice m (restore_owner_access p b) d))"
proof -
  have m: "kept root u (snd (m u))" if "\<not> linked (lookup u p)" for u
    using assms(1,3) kept_ops that by blast
  have a: "snd (attempt m d) = snd (m d)" by (simp add: attempt_def split: prod.split)
  show ?thesis
    unfolding twice_def
  proof (rule kept_bind)
    show "kept root d (snd (attempt m d))" using m assms(2) a by simp
    fix x t
    assume t: "kept root d t"
    then have t_ok: "\<not> linked (lookup t p)" using assms(2) kept_linked by blast
    have "kept root t (snd (bind_prog (restore_owner_access p b) (\<lambda>_. m) t))"
    proof (rule kept_bind)
      show "kept root t (snd (restore_owner_access p b t))" using kept_ops(3)[OF assms(1) t_ok] .
      fix y u
      assume "kept root t u"
      then show "kept root u (snd (m u))" using t_ok kept_linked m by blast
    qed
    then show "kept root t (snd ((case x of Inl _ \<Rightarrow> bind_prog (restore_owner_access p b) (\<lambda>_. m) | Inr _ \<Rightarrow> ret ()) t))"
      by (cases x) simp_all
  qed
qed

lemma kept_for_each:
  "(\<And>x u. x \<in> set xs \<Longrightarrow> kept root u (snd (f x u))) \<Longrightarrow> kept root d (snd (for_each f xs d))"
  by (induction xs arbitrary: d) (auto intro!: kept_bind)

lemma kept_remove:
  "within root p \<Longrightarrow> kept root d (snd (remove_tree resolve root n p d))"
proof (induction n arbitrary: p d)
  case (Suc n)
  show ?case
    unfolding remove_tree.simps
  proof (rule kept_bind, goal_cases)
    case (2 x t)
    note t = kept_not_a_link(2)[OF 2(1)]
    have step: "kept root t (snd (bind_prog (restore_owner_access p b) f t))"
      if "\<And>u. \<not> linked (lookup u p) \<Longrightarrow> kept root u (snd (f () u))" for b f
      using that t kept_ops(3)[OF Suc.prems] kept_linked by (intro kept_bind) auto
    have kids: "kept root u (snd (for_each (\<lambda>child. bind_prog (not_a_link child) (\<lambda>_ d.
          case resolve d child of
            Some r \<Rightarrow> if within root r then remove_tree resolve root n child d else (Inl (ValueError ''relative_to''), d)
          | None \<Rightarrow> (Inl (OSError ''resolve''), d))) (children u p) u))" for u
      using within_child[OF Suc.prems] Suc.IH
      by (intro kept_for_each kept_bind) (auto simp: kept_not_a_link(1) children_iff split: option.split)
    have "kept root u (snd (bind_prog (for_each (\<lambda>child. bind_prog (not_a_link child) (\<lambda>_ d.
          case resolve d child of
            Some r \<Rightarrow> if within root r then remove_tree resolve root n child d else (Inl (ValueError ''relative_to''), d)
          | None \<Rightarrow> (Inl (OSError ''resolve''), d))) (children u p)) (\<lambda>_. twice (rmdir p) (restore_owner_access p True)) u))"
      if "\<not> linked (lookup u p)" for u
      using kept_linked that kept_twice[OF Suc.prems] by (intro kept_bind kids) auto
    then show ?case
      using kept_twice[OF Suc.prems] by (auto intro!: step)
  qed (simp add: kept_not_a_link)
qed simp

lemma twice_gone:
  assumes "twice m restore d = (Inr (), t)" "\<And>u v. m u = (Inr (), v) \<Longrightarrow> lookup v p = None"
  shows "lookup t p = None"
  using assms by (auto simp: twice_def attempt_def bind_prog_def split: prod.splits sum.splits)

lemma gone_ops: "unlink p u = (Inr (), v) \<Longrightarrow> lookup v p = None" "rmdir p u = (Inr (), v) \<Longrightarrow> lookup v p = None"
  by (auto simp: unlink_def rmdir_def system_call_def split: list.splits if_splits option.splits)

lemma remove_gone: "remove_tree resolve root n p d = (Inr (), t) \<Longrightarrow> lookup t p = None"
  by (cases n) (auto simp: bind_prog_Inr split: if_splits dest: twice_gone[of _ _ _ _ p] gone_ops)

lemma gone_within:
  assumes "disk_ok d" "lookup d p = None" "within p q"
  shows "lookup d q = None"
proof -
  obtain r where "q = p @ r" using assms(3) by (metis append_take_drop_id within_def)
  moreover have "lookup d (p @ r) = None"
    using assms(1,2)
  proof (induction r rule: rev_induct)
    case (snoc x r)
    then have "\<not> directory (lookup d (p @ r))" by simp
    then show ?case using assms(1) unfolding disk_ok_def by (metis append_assoc append_is_Nil_conv butlast_snoc not_Cons_self2)
  qed simp
  ultimately show ?thesis by simp
qed

section \<open>Removal is complete\<close>

definition healthy :: "disk \<Rightarrow> bool" where
  "healthy d \<longleftrightarrow> dk_refusals d = [] \<and> distinct (map fst (dk_nodes d)) \<and> disk_ok d"

definition drop_within :: "pystr list \<Rightarrow> disk \<Rightarrow> disk" where
  "drop_within p d = d\<lparr>dk_nodes := filter (\<lambda>(q, _). \<not> within p q) (dk_nodes d)\<rparr>"

text \<open>A real tree: no link in it, and less than \<open>n\<close> levels of it.\<close>

definition real_tree :: "nat \<Rightarrow> pystr list \<Rightarrow> disk \<Rightarrow> bool" where
  "real_tree n p d \<longleftrightarrow> lookup d p \<noteq> None
     \<and> (\<forall>q. within p q \<longrightarrow> lookup d q \<noteq> None \<longrightarrow> \<not> linked (lookup d q) \<and> length q < length p + n)"

text \<open>\<open>Path.resolve\<close> of a path that is there, without a link on it.\<close>

definition resolves :: "resolver \<Rightarrow> bool" where
  "resolves resolve \<longleftrightarrow> (\<forall>d q. disk_ok d \<longrightarrow> lookup d q \<noteq> None \<longrightarrow> \<not> linked (lookup d q) \<longrightarrow> resolve d q = Some q)"

lemma lookup_drop_within [simp]: "lookup (drop_within p d) q = (if within p q then None else lookup d q)"
proof -
  have "map_of (filter (\<lambda>(q, _). \<not> within p q) xs) q = (if within p q then None else map_of xs q)"
    for xs :: "(pystr list \<times> inode) list"
    by (induction xs) auto
  then show ?thesis by (simp add: lookup_def drop_within_def)
qed

lemma within_butlast: "within p (butlast q) \<Longrightarrow> within p q"
  unfolding within_def by (metis append_butlast_last_id append_eq_conv_conj append_take_drop_id append_assoc take_append butlast.simps(1))

lemma within_trans: "within p q \<Longrightarrow> within q r \<Longrightarrow> within p r"
  unfolding within_def by (metis append_take_drop_id append_assoc append_eq_conv_conj)

lemma child_within: "q \<in> set (children d p) \<Longrightarrow> within p q \<and> q \<noteq> p"
  unfolding children_iff using within_child[of p p q] by (cases q rule: rev_cases) auto

lemma healthy_drop: "healthy d \<Longrightarrow> healthy (drop_within p d)"
proof -
  assume h: "healthy d"
  have "distinct (map fst (filter P xs))" if "distinct (map fst xs)" for P and xs :: "(pystr list \<times> inode) list"
    using that by (induction xs) auto
  moreover have "disk_ok (drop_within p d)"
    using h within_butlast by (auto simp: healthy_def disk_ok_def split: if_splits)
  ultimately show ?thesis using h by (simp add: healthy_def drop_within_def)
qed

lemma for_each_drop:
  assumes "\<And>c e. healthy e \<Longrightarrow> real_tree n c e \<Longrightarrow> c \<in> set xs \<Longrightarrow> f c e = (Inr (), drop_within c e)"
    and "healthy d" "\<And>c. c \<in> set xs \<Longrightarrow> real_tree n c d" "distinct xs" "\<And>c. c \<in> set xs \<Longrightarrow> length c = k"
  shows "for_each f xs d = (Inr (), d\<lparr>dk_nodes := filter (\<lambda>(q, _). \<forall>c \<in> set xs. \<not> within c q) (dk_nodes d)\<rparr>)"
  using assms
proof (induction xs arbitrary: d)
  case Nil
  have "filter (\<lambda>(q, _). True) xs = xs" for xs :: "(pystr list \<times> inode) list" by (induction xs) auto
  then show ?case by simp
next
  case (Cons c cs)
  have apart: "\<not> within c c'" if "c' \<in> set cs" for c'
    using that Cons.prems(4,5) unfolding within_def by (metis distinct.simps(2) list.set_intros(1,2) order_refl take_all)
  have real: "real_tree n c' (drop_within c d)" if "c' \<in> set cs" for c'
    using Cons.prems(3)[of c'] that apart by (auto simp: real_tree_def split: if_splits)
  have "for_each f cs (drop_within c d) = (Inr (), (drop_within c d)\<lparr>dk_nodes :=
      filter (\<lambda>(q, _). \<forall>c \<in> set cs. \<not> within c q) (dk_nodes (drop_within c d))\<rparr>)"
    by (rule Cons.IH) (use Cons.prems real healthy_drop in auto)
  moreover have "f c d = (Inr (), drop_within c d)"
    using Cons.prems by simp
  moreover have "filter (\<lambda>(q, _). \<forall>c \<in> set cs. \<not> within c q) (filter (\<lambda>(q, _). \<not> within c q) ys)
      = filter (\<lambda>(q, _). \<forall>c' \<in> set (c # cs). \<not> within c' q) ys" for ys :: "(pystr list \<times> inode) list"
    by (induction ys) auto
  ultimately show ?case by (simp add: bind_prog_def drop_within_def)
qed

lemma set_mode_nodes [simp]:
  "children (set_mode p m d) r = children d r" "dk_refusals (set_mode p m d) = dk_refusals d"
  "(set_mode p m d)\<lparr>dk_nodes := ns\<rparr> = d\<lparr>dk_nodes := ns\<rparr>" "healthy (set_mode p m d) = healthy d"
proof -
  have keys: "map fst (dk_nodes (set_mode p m d)) = map fst (dk_nodes d)"
    by (simp add: set_mode_def comp_def case_prod_beta)
  then show "children (set_mode p m d) r = children d r" by (simp add: children_def)
  show "dk_refusals (set_mode p m d) = dk_refusals d" "(set_mode p m d)\<lparr>dk_nodes := ns\<rparr> = d\<lparr>dk_nodes := ns\<rparr>"
    by (simp_all add: set_mode_def)
  moreover have "disk_ok (set_mode p m d) = disk_ok d" by (simp add: disk_ok_def)
  ultimately show "healthy (set_mode p m d) = healthy d" unfolding healthy_def keys by simp
qed

lemma set_mode_filter:
  "\<not> P p \<Longrightarrow> filter (\<lambda>(q, _). P q) (dk_nodes (set_mode p m d)) = filter (\<lambda>(q, _). P q) (dk_nodes d)"
proof -
  assume "\<not> P p"
  then have "filter (\<lambda>(q, _). P q) (map (\<lambda>(q, i). (q, if q = p then with_mode a i else i)) ys) = filter (\<lambda>(q, _). P q) ys"
    for a and ys :: "(pystr list \<times> inode) list"
    by (induction ys) auto
  then show ?thesis by (simp add: set_mode_def)
qed

lemma node_there: "(q, j) \<in> set (dk_nodes d) \<Longrightarrow> lookup d q \<noteq> None"
  using weak_map_of_SomeI[of q j "dk_nodes d"] by (auto simp: lookup_def)

lemma first_below:
  assumes "disk_ok d" "lookup d q \<noteq> None" "within p q" "q \<noteq> p"
  obtains c where "c \<in> set (children d p)" "within c q"
proof -
  obtain x r where q: "q = (p @ [x]) @ r"
    using assms(3,4) unfolding within_def
    by (metis append_take_drop_id append.right_neutral append_Cons append_Nil append_assoc neq_Nil_conv)
  then have "lookup d (p @ [x]) \<noteq> None" using gone_within[OF assms(1)] assms(2) within_append by metis
  then have "p @ [x] \<in> set (children d p)" by (simp add: children_iff)
  moreover have "within (p @ [x]) q" unfolding q by (rule within_append)
  ultimately show ?thesis using that by blast
qed

text \<open>A leaf, and a directory whose children are gone, is all that is left of its tree.\<close>

lemma alone_filter:
  "(\<And>q j. (q, j) \<in> set ns \<Longrightarrow> within p q \<Longrightarrow> q = p) \<Longrightarrow>
    filter (\<lambda>(q, _). q \<noteq> p) ns = filter (\<lambda>(q, _). \<not> within p q) ns"
  using within_refl by (intro filter_cong) auto

lemma leaf_alone:
  assumes "disk_ok d" "\<not> directory (lookup d p)" "(q, j) \<in> set (dk_nodes d)" "within p q"
  shows "q = p"
  using assms first_below[OF assms(1) node_there[OF assms(3)] assms(4)]
  by (metis children_iff disk_ok_def)

lemma pruned_alone:
  assumes "disk_ok e" "(q, j) \<in> set (filter (\<lambda>(q, _). \<forall>c \<in> set (children e p). \<not> within c q) (dk_nodes e))" "within p q"
  shows "q = p"
  using assms first_below[OF assms(1) node_there[of q j]] by fastforce

lemma pruned:
  assumes "disk_ok e" and u: "dk_nodes u = filter (\<lambda>(q, _). \<forall>c \<in> set (children e p). \<not> within c q) (dk_nodes e)"
  shows "children u p = []" "lookup u p = lookup e p"
    "filter (\<lambda>(q, _). q \<noteq> p) (dk_nodes u) = filter (\<lambda>(q, _). \<not> within p q) (dk_nodes e)"
proof -
  have kid: "within p c" "\<not> within c p" if "c \<in> set (children e p)" for c
    using child_within[OF that] unfolding within_def by (metis, metis append_eq_conv_conj append_take_drop_id nle_le take_all)
  have alone: "q = p" if "(q, j) \<in> set (dk_nodes u)" "within p q" for q j
    using pruned_alone[OF assms(1)] that unfolding u by blast
  have "q \<notin> set (children u p)" for q
  proof
    assume q: "q \<in> set (children u p)"
    then obtain j where "(q, j) \<in> set (dk_nodes u)" by (auto simp: children_def)
    with alone child_within[OF q] show False by blast
  qed
  then show "children u p = []" by (metis list.set_intros(1) neq_Nil_conv)
  have "map_of (filter (\<lambda>(q, _). P q) ys) p = map_of ys p" if "P p" for P and ys :: "(pystr list \<times> inode) list"
    using that by (induction ys) auto
  then show "lookup u p = lookup e p" using kid(2) by (simp add: lookup_def u)
  have "filter (\<lambda>(q, _). q \<noteq> p) (dk_nodes u) = filter (\<lambda>(q, _). \<not> within p q) (dk_nodes u)"
    using alone by (rule alone_filter)
  also have "\<dots> = filter (\<lambda>(q, _). \<not> within p q) (dk_nodes e)"
    unfolding u using kid(1) within_trans by (auto intro!: filter_cong)
  finally show "filter (\<lambda>(q, _). q \<noteq> p) (dk_nodes u) = filter (\<lambda>(q, _). \<not> within p q) (dk_nodes e)" .
qed

lemma restored:
  assumes "healthy d" "lookup d p = Some i"
  obtains m where "restore_owner_access p b d = (Inr (), set_mode p m d)"
  using assms that by (auto simp: restore_owner_access_def system_call_def healthy_def)

lemma remove_complete:
  assumes "resolves resolve"
  shows "healthy d \<Longrightarrow> real_tree n p d \<Longrightarrow> within root p \<Longrightarrow>
    remove_tree resolve root n p d = (Inr (), drop_within p d)"
proof (induction n arbitrary: p d)
  case 0
  then show ?case by (metis add_0_right less_irrefl real_tree_def within_refl)
next
  case (Suc n)
  obtain i where i: "lookup d p = Some i" "\<not> linked (Some i)"
    using Suc.prems(2) by (force simp: real_tree_def)
  have ok_d: "disk_ok d" "dk_refusals d = []" "distinct (map fst (dk_nodes d))"
    using Suc.prems(1) by (simp_all add: healthy_def)
  have link: "not_a_link p d = (Inr (), d)" using i by (simp add: not_a_link_def)
  obtain m where m: "restore_owner_access p (directory (Some i)) d = (Inr (), set_mode p m d)"
    using restored[OF Suc.prems(1) i(1)] .
  let ?e = "set_mode p m d"
  show ?case
  proof (cases "directory (Some i)")
    case False
    have alone: "filter (\<lambda>(q, _). q \<noteq> p) (dk_nodes d) = filter (\<lambda>(q, _). \<not> within p q) (dk_nodes d)"
      using leaf_alone[OF ok_d(1)] False i(1) by (intro alone_filter) auto
    have "unlink p ?e = (Inr (), drop_within p d)"
      using ok_d i False alone set_mode_filter[of "\<lambda>q. q \<noteq> p" p m d]
      by (simp add: unlink_def system_call_def drop_node_def drop_within_def)
    then show ?thesis using i False m by (simp add: bind_prog_def link twice_def attempt_def)
  next
    case True
    define F where "F child = bind_prog (not_a_link child) (\<lambda>_ d. case resolve d child of
        Some r \<Rightarrow> if within root r then remove_tree resolve root n child d else (Inl (ValueError ''relative_to''), d)
      | None \<Rightarrow> (Inl (OSError ''resolve''), d))" for child
    let ?ns = "filter (\<lambda>(q, _). \<forall>c \<in> set (children d p). \<not> within c q) (dk_nodes ?e)"
    have kid: "c \<noteq> [] \<and> butlast c = p \<and> within p c \<and> lookup d c \<noteq> None \<and> length c = Suc (length p)"
      if "c \<in> set (children d p)" for c
      using that child_within[OF that] by (cases c rule: rev_cases) (auto simp: children_iff)
    have F: "F c u = (Inr (), drop_within c u)" if "healthy u" "real_tree n c u" "c \<in> set (children d p)" for c u
    proof -
      have c: "lookup u c \<noteq> None" "\<not> linked (lookup u c)" using that(2) within_refl[of c] by (auto simp: real_tree_def)
      then have "resolve u c = Some c" using assms that(1) by (auto simp: resolves_def healthy_def)
      moreover have "within root c" using kid[OF that(3)] Suc.prems(3) within_trans by blast
      ultimately show ?thesis using Suc.IH[OF that(1,2)] c by (simp add: F_def bind_prog_def not_a_link_def)
    qed
    have real: "real_tree n c ?e" if "c \<in> set (children d p)" for c
      using Suc.prems(2) kid[OF that] within_trans[of p c] by (auto simp: real_tree_def)
    have h: "healthy ?e" using Suc.prems(1) by simp
    have "for_each F (children d p) ?e = (Inr (), ?e\<lparr>dk_nodes := ?ns\<rparr>)"
    proof (rule for_each_drop[where n = n and k = "Suc (length p)"])
      show "distinct (children d p)" using ok_d(3) by (simp add: children_def)
    qed (use F real kid h in auto)
    moreover have "rmdir p (?e\<lparr>dk_nodes := ?ns\<rparr>) = (Inr (), drop_within p d)"
      using pruned[of ?e "d\<lparr>dk_nodes := ?ns\<rparr>" p] h ok_d(2) i True set_mode_filter[of "\<lambda>q. \<not> within p q" p m d]
      by (simp add: rmdir_def system_call_def drop_node_def drop_within_def healthy_def)
    ultimately show ?thesis
      using i True m by (simp add: bind_prog_def link twice_def attempt_def F_def[abs_def])
  qed
qed

lemma kept_cleanup:
  assumes "cleanup_request_root resolve depth p d = (r, t)"
  shows "case resolve d p of None \<Rightarrow> t = d | Some root \<Rightarrow> kept root d t \<and> (r = Inr () \<longrightarrow> lookup t root = None)"
proof (cases "not_a_link p d")
  case (Pair x u)
  have u: "u = d" using kept_not_a_link(1)[of p d] Pair by simp
  show ?thesis
  proof (cases "resolve d p")
    case (Some root)
    have "kept root d (snd (remove_tree resolve root depth root d))" by (rule kept_remove) simp
    then show ?thesis
      using assms Pair u Some remove_gone[of resolve root depth root d t]
      by (auto simp: cleanup_request_root_def bind_prog_def split: sum.splits if_splits)
  qed (use assms Pair u in \<open>auto simp: cleanup_request_root_def bind_prog_def split: sum.splits\<close>)
qed

text \<open>C18. Removing a request root touches nothing outside the directory it resolves to and no link anywhere,
  whatever the kernel refuses and wherever it stops; when it reports success nothing of the tree is left; and it
  does succeed on a tree without links that is no deeper than the stack, when nothing is refused: the disk is
  then the disk without that tree.\<close>

theorem cleanup_confined:
  assumes "disk_ok d" "cleanup_request_root resolve depth p d = (r, t)"
  shows "(\<forall>q. linked (lookup d q) \<longrightarrow> lookup t q = lookup d q)
    \<and> (case resolve d p of None \<Rightarrow> t = d | Some root \<Rightarrow>
        (\<forall>q. \<not> within root q \<longrightarrow> lookup t q = lookup d q)
        \<and> (r = Inr () \<longrightarrow> (\<forall>q. within root q \<longrightarrow> lookup t q = None)))
    \<and> (healthy d \<and> resolves resolve \<and> real_tree depth p d \<and> directory (lookup d p) \<longrightarrow> r = Inr () \<and> t = drop_within p d)"
proof (intro conjI)
  note k = kept_cleanup[OF assms(2)]
  show "\<forall>q. linked (lookup d q) \<longrightarrow> lookup t q = lookup d q"
    using k by (auto simp: kept_def split: option.splits)
  show "case resolve d p of None \<Rightarrow> t = d | Some root \<Rightarrow> (\<forall>q. \<not> within root q \<longrightarrow> lookup t q = lookup d q)
        \<and> (r = Inr () \<longrightarrow> (\<forall>q. within root q \<longrightarrow> lookup t q = None))"
  proof (cases "resolve d p")
    case (Some root)
    then have t: "kept root d t" "r = Inr () \<longrightarrow> lookup t root = None" using k by simp_all
    have "disk_ok t" using t(1) assms(1) unfolding kept_def by blast
    then have "lookup t q = None" if "r = Inr ()" "within root q" for q
      using gone_within t(2) that by blast
    moreover have "\<forall>q. \<not> within root q \<longrightarrow> lookup t q = lookup d q" using t(1) unfolding kept_def by blast
    ultimately show ?thesis using Some by simp
  qed (use k in simp)
  show "healthy d \<and> resolves resolve \<and> real_tree depth p d \<and> directory (lookup d p) \<longrightarrow> r = Inr () \<and> t = drop_within p d"
  proof
    assume a: "healthy d \<and> resolves resolve \<and> real_tree depth p d \<and> directory (lookup d p)"
    then have l: "lookup d p \<noteq> None" "\<not> linked (lookup d p)" by (auto simp: real_tree_def)
    then have "resolve d p = Some p" using a assms(1) by (simp add: resolves_def)
    then show "r = Inr () \<and> t = drop_within p d"
      using assms(2) remove_complete[of resolve d depth p p] a l
      by (simp add: cleanup_request_root_def bind_prog_def not_a_link_def)
  qed
qed

text \<open>A root with a read-only artifact beside a linked directory; the second call is refused.\<close>

definition sample_disk :: "bool list \<Rightarrow> disk" where
  "sample_disk refusals = \<lparr>dk_nodes = [([], Directory 493), ([lit ''run''], Directory 320), ([lit ''run'', lit ''data''], Directory 448),
     ([lit ''run'', lit ''data'', lit ''db''], RegularFile 256 []), ([lit ''keep''], RegularFile 420 [1]), ([lit ''link''], Symlink)],
     dk_refusals = refusals\<rparr>"

lemma sample_disk_ok: "disk_ok (sample_disk r)"
  by (auto simp: disk_ok_def sample_disk_def lookup_def split: if_splits)

theorem cleanup_confined_witness:
  "lookup (snd (cleanup_request_root (\<lambda>_ q. Some q) 3 [lit ''run''] (sample_disk [False, True]))) [lit ''keep''] = Some (RegularFile 420 [1])
   \<and> lookup (snd (cleanup_request_root (\<lambda>_ q. Some q) 3 [lit ''run''] (sample_disk [False, True]))) [lit ''link''] = Some Symlink
   \<and> cleanup_request_root (\<lambda>_ q. Some q) 3 [lit ''run''] (sample_disk []) = (Inr (), drop_within [lit ''run''] (sample_disk []))"
proof -
  let ?f = "cleanup_request_root (\<lambda>_ q. Some q) 3 [lit ''run'']"
  have names: "lit ''run'' \<noteq> lit ''keep''" "lit ''run'' \<noteq> lit ''link''" "lit ''keep'' \<noteq> lit ''link''"
    by (simp_all add: lit_def)
  note safe = cleanup_confined[OF sample_disk_ok[of "[]"] prod.collapse[symmetric], where resolve = "\<lambda>_ q. Some q" and depth = 3 and p = "[lit ''run'']"]
    cleanup_confined[OF sample_disk_ok[of "[False, True]"] prod.collapse[symmetric], where resolve = "\<lambda>_ q. Some q" and depth = 3 and p = "[lit ''run'']"]
  have "healthy (sample_disk []) \<and> real_tree 3 [lit ''run''] (sample_disk [])"
    using sample_disk_ok[of "[]"] names
    by (auto simp: healthy_def real_tree_def sample_disk_def lookup_def within_def split: if_splits)
  moreover have "resolves (\<lambda>_ q. Some q)" by (simp add: resolves_def)
  moreover have "directory (lookup (sample_disk []) [lit ''run''])" by (simp add: sample_disk_def lookup_def)
  ultimately have "fst (?f (sample_disk [])) = Inr () \<and> snd (?f (sample_disk [])) = drop_within [lit ''run''] (sample_disk [])"
    using safe(1) by blast
  moreover have "lookup (sample_disk [False, True]) [lit ''keep''] = Some (RegularFile 420 [1])"
    "lookup (sample_disk [False, True]) [lit ''link''] = Some Symlink"
    using names by (auto simp: sample_disk_def lookup_def)
  ultimately show ?thesis
    using safe(2) names by (auto simp: prod_eq_iff within_def)
qed

section \<open>The worktree and the result of the worker\<close>

text \<open>What \<open>lstat\<close> says of every prefix of a path.\<close>

definition components_of :: "disk \<Rightarrow> pystr list \<Rightarrow> component list" where
  "components_of d p = map (\<lambda>k. if lookup d (take k p) = None then Missing
      else if linked (lookup d (take k p)) then Linked else Plain) [0..<Suc (length p)]"

definition path_facts_of :: "resolver \<Rightarrow> disk \<Rightarrow> pystr list \<Rightarrow> path_facts" where
  "path_facts_of resolve d p = \<lparr>pf_parts = p, pf_components = components_of d p, pf_exists = lookup d p \<noteq> None,
     pf_resolved_parent = (case resolve d (butlast p) of Some r \<Rightarrow> r | None \<Rightarrow> [])\<rparr>"

definition no_link_on :: "resolver \<Rightarrow> bool \<Rightarrow> pystr list \<Rightarrow> (disk, unit) prog" where
  "no_link_on resolve allow_missing_leaf p d = (assert_no_links allow_missing_leaf (path_facts_of resolve d p), d)"

definition strictly :: "resolver \<Rightarrow> pystr list \<Rightarrow> (disk, pystr list) prog" where
  "strictly resolve p d = (case resolve d p of Some r \<Rightarrow> (Inr r, d) | None \<Rightarrow> (Inl (OSError ''resolve''), d))"

definition resolve_expected_worktree :: "resolver \<Rightarrow> pystr list \<Rightarrow> pystr list \<Rightarrow> (disk, pystr list) prog" where
  "resolve_expected_worktree resolve worktree data_root =
     bind_prog (no_link_on resolve False data_root) (\<lambda>_.
     bind_prog (strictly resolve data_root) (\<lambda>data_root_resolved.
     bind_prog (no_link_on resolve False (data_root @ [lit ''worktrees''])) (\<lambda>_.
     bind_prog (strictly resolve (data_root @ [lit ''worktrees''])) (\<lambda>worktrees_root.
     bind_prog (no_link_on resolve False worktree) (\<lambda>_.
     bind_prog (strictly resolve worktree) (\<lambda>resolved_worktree.
     if butlast worktrees_root \<noteq> data_root_resolved \<or> butlast resolved_worktree \<noteq> worktrees_root
     then raise (ValueError []) else ret resolved_worktree))))))"

text \<open>\<open>shutil.rmtree\<close>: everything below, the deepest first, until a call is refused.\<close>

definition rmtree :: "pystr list \<Rightarrow> (disk, unit) prog" where
  "rmtree p d = for_each (\<lambda>q. system_call (\<lambda>d. (Inr (), drop_node q d)))
     (sort_key (\<lambda>q. - int (length q)) (filter (within p) (map fst (dk_nodes d)))) d"

definition bytecode_directories :: "pystr list \<Rightarrow> disk \<Rightarrow> pystr list list" where
  "bytecode_directories root d = sort_key (\<lambda>q. - int (length q))
     (filter (\<lambda>q. within root q \<and> q \<noteq> root \<and> last q = lit ''__pycache__'') (map fst (dk_nodes d)))"

definition clear_directory :: "resolver \<Rightarrow> pystr list \<Rightarrow> pystr list \<Rightarrow> (disk, unit) prog" where
  "clear_directory resolve root p =
     bind_prog (no_link_on resolve False p) (\<lambda>_.
     bind_prog (strictly resolve p) (\<lambda>resolved d.
     if \<not> directory (lookup d resolved) \<or> \<not> (within root resolved \<and> resolved \<noteq> root) then (Inl (ValueError []), d)
     else bind_prog (no_link_on resolve False p) (\<lambda>_. rmtree p) d))"

definition clear_worktree_bytecode :: "resolver \<Rightarrow> pystr list \<Rightarrow> pystr list \<Rightarrow> (disk, unit) prog" where
  "clear_worktree_bytecode resolve worktree data_root = or_worker_error
     (bind_prog (resolve_expected_worktree resolve worktree data_root) (\<lambda>root d.
        for_each (clear_directory resolve root) (bytecode_directories root d) d))"

text \<open>\<open>_BytecodeClearingPytestRunner.run\<close>\<close>

definition clearing_run :: "resolver \<Rightarrow> pystr list \<Rightarrow> (disk, 'a) prog \<Rightarrow> pystr list \<Rightarrow> (disk, 'a) prog" where
  "clearing_run resolve data_root runner worktree = or_worker_error
     (bind_prog (clear_worktree_bytecode resolve worktree data_root) (\<lambda>_. runner))"

definition write_result :: "resolver \<Rightarrow> pystr list \<Rightarrow> pystr list \<Rightarrow> worker_result \<Rightarrow> (disk, unit) prog" where
  "write_result resolve result_path request_root result = or_worker_error
     (bind_prog (no_link_on resolve True result_path) (\<lambda>_.
      bind_prog (strictly resolve (butlast result_path)) (\<lambda>parent.
      if parent \<noteq> request_root then raise (ValueError [])
      else bind_prog (lift_res (encode_result result)) (create_exclusive 384 result_path))))"

section \<open>Clearing removes bytecode and nothing else\<close>

text \<open>A step that only takes away paths of \<open>P\<close>.\<close>

definition takes :: "(pystr list \<Rightarrow> bool) \<Rightarrow> disk \<Rightarrow> disk \<Rightarrow> bool" where
  "takes P d t \<longleftrightarrow> (\<forall>q. lookup t q = lookup d q \<or> (P q \<and> lookup t q = None))"

lemma takes_refl [simp]: "takes P d d"
  by (simp add: takes_def)

lemma takes_trans: "takes P d t \<Longrightarrow> takes P t u \<Longrightarrow> takes P d u"
  unfolding takes_def by metis

lemma takes_gone: "takes P d t \<Longrightarrow> lookup d q = None \<Longrightarrow> lookup t q = None"
  unfolding takes_def by metis

lemma for_each_takes:
  assumes "for_each f xs d = (r, t)" "\<And>x u s v. x \<in> set xs \<Longrightarrow> f x u = (s, v) \<Longrightarrow> takes P u v \<and> (s = Inr () \<longrightarrow> lookup v (g x) = None)"
  shows "takes P d t \<and> (r = Inr () \<longrightarrow> (\<forall>x \<in> set xs. lookup t (g x) = None))"
  using assms
proof (induction xs arbitrary: d)
  case (Cons x xs)
  obtain s v where fx: "f x d = (s, v)" by fastforce
  note v = Cons.prems(2)[OF _ fx]
  show ?case
  proof (cases s)
    case (Inr y)
    then have run: "for_each f xs v = (r, t)" using Cons.prems(1) fx by (simp add: bind_prog_def)
    have "takes P v t \<and> (r = Inr () \<longrightarrow> (\<forall>x \<in> set xs. lookup t (g x) = None))"
      by (rule Cons.IH[OF run], rule Cons.prems(2)) simp_all
    then show ?thesis using v Inr takes_trans takes_gone by (metis list.set_intros(1) old.unit.exhaust set_ConsD)
  qed (use Cons.prems(1) fx v in \<open>auto simp: bind_prog_def\<close>)
qed simp

lemma rmtree_takes:
  assumes "rmtree p d = (r, t)"
  shows "takes (within p) d t \<and> (r = Inr () \<longrightarrow> lookup t p = None)"
proof -
  have "takes (within p) d t \<and> (r = Inr () \<longrightarrow>
      (\<forall>x \<in> set (sort_key (\<lambda>q. - int (length q)) (filter (within p) (map fst (dk_nodes d)))). lookup t x = None))"
    by (rule for_each_takes[OF assms[unfolded rmtree_def], where g = "\<lambda>x. x"])
      (auto simp: system_call_def takes_def split: list.splits if_splits)
  moreover have "p \<in> fst ` set (dk_nodes d)" if "lookup d p \<noteq> None"
    using that by (simp add: lookup_def map_of_eq_None_iff)
  ultimately show ?thesis using takes_gone[of "within p" d t p] by (cases "lookup d p") auto
qed

definition cached :: "pystr list \<Rightarrow> pystr list \<Rightarrow> bool" where
  "cached root q \<longleftrightarrow> within root q \<and> lit ''__pycache__'' \<in> set (drop (length root) q)"

lemma bytecode_there:
  "p \<in> set (bytecode_directories root d) \<longleftrightarrow>
     within root p \<and> p \<noteq> root \<and> last p = lit ''__pycache__'' \<and> lookup d p \<noteq> None"
  by (auto simp: bytecode_directories_def lookup_def map_of_eq_None_iff)

lemma cached_within: "p \<in> set (bytecode_directories root d) \<Longrightarrow> within p q \<Longrightarrow> cached root q"
proof -
  assume "p \<in> set (bytecode_directories root d)" and pq: "within p q"
  then have w: "within root p" "p \<noteq> root" "last p = lit ''__pycache__''" by (simp_all add: bytecode_there)
  obtain ys where ys: "p = root @ ys" using w(1) unfolding within_def by (metis append_take_drop_id)
  then obtain x r where p: "p = root @ x # r" "last (x # r) = lit ''__pycache__''"
    using w(2,3) by (cases ys) auto
  obtain s where "q = p @ s" using pq unfolding within_def by (metis append_take_drop_id)
  then have "q = root @ (x # r) @ s" using p(1) by simp
  moreover have "lit ''__pycache__'' \<in> set (x # r)" using p(2) last_in_set by (metis list.distinct(1))
  ultimately show ?thesis by (auto simp: cached_def)
qed

lemma clear_directory_takes:
  assumes "p \<in> set (bytecode_directories root d)" "clear_directory resolve root p u = (s, v)"
  shows "takes (cached root) u v \<and> (s = Inr () \<longrightarrow> lookup v p = None)"
proof -
  have "v = u \<and> s \<noteq> Inr () \<or> rmtree p u = (s, v)"
    using assms(2) by (auto simp: clear_directory_def bind_prog_def no_link_on_def strictly_def split: sum.splits option.splits if_splits)
  then show ?thesis
    using rmtree_takes[of p u s v] cached_within[OF assms(1)] by (auto simp: takes_def)
qed

lemma worktree_resolved:
  "resolve_expected_worktree resolve worktree data_root d = (r, t) \<Longrightarrow>
     t = d \<and> (\<forall>root. r = Inr root \<longrightarrow> resolve d worktree = Some root \<and> resolve d data_root = Some (butlast (butlast root)))"
  by (auto simp: resolve_expected_worktree_def bind_prog_def no_link_on_def strictly_def split: sum.splits option.splits if_splits)

text \<open>C24. Clearing the bytecode of a worktree takes away only paths below it with a \<^verbatim>\<open>__pycache__\<close> component, for
  the worktree two levels below the data root that the path resolves to, and changes no other path of the disk,
  whatever is refused; when it succeeds nothing named \<^verbatim>\<open>__pycache__\<close> is left in the worktree.\<close>

theorem bytecode_confined:
  assumes "clear_worktree_bytecode resolve worktree data_root d = (r, t)"
  shows "(t = d \<and> r \<noteq> Inr ()) \<or>
    (\<exists>root. resolve d worktree = Some root \<and> resolve d data_root = Some (butlast (butlast root))
      \<and> (\<forall>q. lookup t q = lookup d q \<or> (cached root q \<and> lookup t q = None))
      \<and> (r = Inr () \<longrightarrow> (\<forall>q. within root q \<and> q \<noteq> root \<and> last q = lit ''__pycache__'' \<longrightarrow> lookup t q = None)))"
proof -
  obtain w u where expected: "resolve_expected_worktree resolve worktree data_root d = (w, u)" by fastforce
  note e = worktree_resolved[OF expected]
  show ?thesis
  proof (cases w)
    case (Inl x)
    then show ?thesis
      using assms expected e by (auto simp: clear_worktree_bytecode_def or_worker_error_def bind_prog_def split: sum.splits prod.splits)
  next
    case (Inr root)
    obtain s v where loop: "for_each (clear_directory resolve root) (bytecode_directories root d) d = (s, v)" by fastforce
    have t: "t = v" "r = Inr () \<longrightarrow> s = Inr ()"
      using assms expected e Inr loop
      by (auto simp: clear_worktree_bytecode_def or_worker_error_def bind_prog_def split: sum.splits prod.splits)
    have "takes (cached root) d v \<and> (s = Inr () \<longrightarrow> (\<forall>p \<in> set (bytecode_directories root d). lookup v p = None))"
      by (rule for_each_takes[OF loop, where g = "\<lambda>p. p"]) (rule clear_directory_takes)
    then have gone: "takes (cached root) d t" "r = Inr () \<longrightarrow> (\<forall>p \<in> set (bytecode_directories root d). lookup t p = None)"
      using t by auto
    moreover have "lookup t q = None" if "r = Inr ()" "within root q \<and> q \<noteq> root \<and> last q = lit ''__pycache__''" for q
      using gone that takes_gone[OF gone(1), of q] by (auto simp: bytecode_there)
    ultimately show ?thesis using e Inr by (auto simp: takes_def)
  qed
qed

text \<open>A worktree with bytecode in a package; the cache inside the data root, but outside the worktree, stays.\<close>

definition sample_worktree :: disk where
  "sample_worktree = \<lparr>dk_nodes = [([], Directory 493), ([lit ''worktrees''], Directory 448), ([lit ''worktrees'', lit ''t''], Directory 448),
     ([lit ''worktrees'', lit ''t'', lit ''__pycache__''], Directory 493),
     ([lit ''worktrees'', lit ''t'', lit ''__pycache__'', lit ''a''], RegularFile 420 []), ([lit ''__pycache__''], Directory 448)], dk_refusals = []\<rparr>"

theorem bytecode_confined_witness:
  "fst (clear_worktree_bytecode (\<lambda>_ q. Some q) [lit ''worktrees'', lit ''t''] [] sample_worktree) = Inr ()
   \<and> lookup (snd (clear_worktree_bytecode (\<lambda>_ q. Some q) [lit ''worktrees'', lit ''t''] [] sample_worktree))
       [lit ''worktrees'', lit ''t'', lit ''__pycache__''] = None
   \<and> lookup (snd (clear_worktree_bytecode (\<lambda>_ q. Some q) [lit ''worktrees'', lit ''t''] [] sample_worktree)) [lit ''__pycache__''] \<noteq> None"
proof -
  let ?run = "clear_worktree_bytecode (\<lambda>_ q. Some q) [lit ''worktrees'', lit ''t''] [] sample_worktree"
  have finished: "fst ?run = Inr ()" by code_simp
  have here: "lookup sample_worktree [lit ''__pycache__''] \<noteq> None" by code_simp
  from bytecode_confined[OF prod.collapse[symmetric], of "\<lambda>_ q. Some q" "[lit ''worktrees'', lit ''t'']" "[]" sample_worktree] finished
  have kept: "lookup (snd ?run) q = lookup sample_worktree q \<or> cached [lit ''worktrees'', lit ''t''] q"
    and gone: "within [lit ''worktrees'', lit ''t''] q \<and> q \<noteq> [lit ''worktrees'', lit ''t''] \<and> last q = lit ''__pycache__''
      \<Longrightarrow> lookup (snd ?run) q = None" for q by auto
  have "\<not> cached [lit ''worktrees'', lit ''t''] [lit ''__pycache__'']" by (simp add: cached_def within_def)
  then have "lookup (snd ?run) [lit ''__pycache__''] \<noteq> None" using kept[of "[lit ''__pycache__'']"] here by simp
  then show ?thesis using finished gone by (simp add: within_def)
qed

text \<open>The result is a new file with the encoded result, and nothing else on the disk is written.\<close>

lemma write_result_only:
  assumes "write_result resolve p root result d = (Inr (), t)"
  shows "lookup d p = None \<and> resolve d (butlast p) = Some root \<and> (\<exists>b. encode_result result = Inr b
    \<and> lookup t p = Some (RegularFile 384 b) \<and> (\<forall>q. q \<noteq> p \<longrightarrow> lookup t q = lookup d q))"
  using assms
  by (auto simp: write_result_def or_worker_error_def bind_prog_def no_link_on_def strictly_def create_exclusive_def system_call_def
      split: sum.splits option.splits if_splits prod.splits list.splits)

end
