(* ===== verification/WorkerRuntime.thy ===== *)
theory WorkerRuntime
  imports OfflineDemo Worker RequestRoot
begin

text \<open>
  The runtime a demo worker runs its scenario in (\<^verbatim>\<open>web/worker.py\<close>): the offline runtime with the test timeout
  fixed and the bytecode of the worktree cleared before every test run, and the scenario played in it. The
  theorems carry what is proved of a governed run, of the stored session and of the trace over to the result
  the worker reports.
\<close>

section \<open>The fixed timeout\<close>

definition PYTEST_TIMEOUT_SECONDS :: int where
  "PYTEST_TIMEOUT_SECONDS = 20"

text \<open>\<open>model_copy\<close> checks nothing and keeps the recorded hash.\<close>

definition set_fixed_pytest_timeout :: "frozen_config \<Rightarrow> frozen_config" where
  "set_fixed_pytest_timeout c = c\<lparr>fc_sections := map (\<lambda>(s, fs).
     (s, if s = ''tests'' then dict_update ''timeout_seconds'' (JInt PYTEST_TIMEOUT_SECONDS) fs else fs)) (fc_sections c)\<rparr>"

lemma fixed_sections:
  "map_of (fc_sections (set_fixed_pytest_timeout c)) s = map_option (\<lambda>fs. if s = ''tests''
     then dict_update ''timeout_seconds'' (JInt PYTEST_TIMEOUT_SECONDS) fs else fs) (map_of (fc_sections c) s)"
proof -
  have "map_of (map (\<lambda>(s, fs). (s, if s = ''tests'' then f fs else fs)) xs) s
      = map_option (\<lambda>fs. if s = ''tests'' then f fs else fs) (map_of xs s)" for f and xs :: "(string \<times> cfg_section) list"
    by (induction xs) auto
  then show ?thesis by (simp add: set_fixed_pytest_timeout_def)
qed

lemma fixed_field:
  "config_json_field (set_fixed_pytest_timeout c) s f =
     (if s = ''tests'' \<and> f = ''timeout_seconds'' \<and> map_of (fc_sections c) s \<noteq> None then Some (JInt PYTEST_TIMEOUT_SECONDS)
      else config_json_field c s f)"
  by (cases "map_of (fc_sections c) s") (auto simp: config_json_field_def fixed_sections map_of_dict_update)

section \<open>Tests with cleared bytecode\<close>

text \<open>\<open>_BytecodeClearingPytestRunner\<close> in the place of the runner: every failure below it is the one \<open>WorkerError\<close>.\<close>

definition cleared_pytest ::
    "(pystr \<Rightarrow> ('w, unit) prog) \<Rightarrow> 'w runner_deps \<Rightarrow> test_request \<Rightarrow> ('w, test_execution) prog" where
  "cleared_pytest clear R request =
     or_worker_error (bind_prog (clear (tq_worktree request)) (\<lambda>_. run_pytest R request))"

definition cleared_tests_run ::
    "(pystr \<Rightarrow> ('w, unit) prog) \<Rightarrow> 'w core_tests \<Rightarrow> test_phase \<Rightarrow> pystr list \<Rightarrow> ('w, action_execution) prog" where
  "cleared_tests_run clear C phase argv =
     bind_prog (lift_res (case frozen_command argv of Inl _ \<Rightarrow> Inl ValidationError | Inr c \<Rightarrow> Inr c)) (\<lambda>command.
     bind_prog (make_test_request (ct_runner C)
        \<lparr>tq_task_id = ct_task_id C, tq_phase = phase, tq_command = command,
         tq_base_commit = ct_base_commit C, tq_config_sha256 = ct_config_sha256 C,
         tq_worktree = ct_root C, tq_environment = ct_environment C, tq_timeout = ct_timeout C\<rparr>) (\<lambda>request.
     bind_prog (cleared_pytest clear (ct_runner C) request) (\<lambda>execution.
     bind_prog (lift_res (parse_pytest (rd_re (ct_runner C)) (te_raw execution) (te_run execution))) (\<lambda>parsed.
     bind_prog (ct_revision C) (\<lambda>revision.
     ret \<lparr>ae_safe_summary = pr_summary parsed, ae_source_revision = revision,
          ae_test_run = Some (te_run execution), ae_parsed_result = Some parsed,
          ae_unknown_outcome = (tn_outcome (te_run execution) = RUN_UNKNOWN_OUTCOME)\<rparr>)))))"

text \<open>The test runner is one object: the full test and the tests of an action both clear first.\<close>

definition worker_tools ::
    "(pystr \<Rightarrow> ('x, unit) prog) \<Rightarrow> 'x platform \<Rightarrow> verified_workspace \<Rightarrow> task_id \<Rightarrow> frozen_config \<Rightarrow> 'x tools" where
  "worker_tools clear P ws t c =
     (let tests = tests_of P ws t c;
          W = (workspace_of P ws c tests)\<lparr>ws_tests := Some (\<lambda>scope targets.
             cleared_tests_run clear tests (if scope = FOCUSED_SCOPE then FOCUSED else REQUESTED_FULL) (ct_default_command tests @ targets))\<rparr>
      in (default_tools P ws t c)\<lparr>to_execute := execute W,
           to_full_tests := cleared_tests_run clear tests POST_PATCH (ct_default_command tests)\<rparr>)"

definition worker_runtime ::
    "(pystr \<Rightarrow> ('x offline_world, unit) prog) \<Rightarrow> 'x offline_world platform \<Rightarrow> pystr list \<Rightarrow> raw_action list \<Rightarrow> frozen_config
       \<Rightarrow> 'x offline_world runtime" where
  "worker_runtime clear P data_root actions config =
     (let c = set_fixed_pytest_timeout config
      in (offline_runtime P data_root actions c)\<lparr>rt_tools := (\<lambda>ws t c. ret (worker_tools clear (hashing P) ws t c))\<rparr>)"

section \<open>Playing a scenario\<close>

text \<open>The runtime's view of the task and the session it stored; the fuel's end is no view.\<close>

definition scenario_runtime ::
    "(pystr \<Rightarrow> ('x offline_world, unit) prog) \<Rightarrow> 'x offline_world platform \<Rightarrow> pystr list \<Rightarrow> nat \<Rightarrow> scenario \<Rightarrow> pystr
       \<Rightarrow> ('x offline_world db_world, (task_status \<times> core_session) option) prog" where
  "scenario_runtime clear P data_root fuel sc repository =
     bind_prog (lift_res (offline_config (gh_sha (pf_host P)) (Some (sc_max_actions sc)))) (\<lambda>config.
     bind_prog (offline_run (worker_runtime clear P data_root (map (RawDict \<circ> dump_action) (sc_actions sc)) config)
        fuel repository (sc_description sc) (lit ''demo'') True) (\<lambda>v.
     case v of
       None \<Rightarrow> ret None
     | Some (view, _) \<Rightarrow>
         bind_prog (lift_res (bind_res (uuid_of_str (tv_task_id view)) check_uuid4)) (\<lambda>u.
         bind_prog (on_db (store_load (TaskId u))) (\<lambda>s. ret (Some (tv_status view, s))))))"

section \<open>The worker's runs are governed\<close>

interpretation worker: workspace_boundary "worker_runtime clear P data_root actions config"
  for clear P data_root actions config
  by unfold_locales (auto simp: worker_runtime_def Let_def dest: offline.prepared offline.validated)

lemma worker_fixed:
  "rt_load_config (worker_runtime clear P data_root actions config) = None"
  "rt_config (worker_runtime clear P data_root actions config) = Some (set_fixed_pytest_timeout config)"
  by (simp_all add: worker_runtime_def Let_def offline_fixed)

text \<open>The timeout of a request is the fixed one whatever the configuration said.\<close>

lemma worker_timeout:
  "map_of (fc_sections c) ''tests'' \<noteq> None \<Longrightarrow> ct_timeout (tests_of P ws t (set_fixed_pytest_timeout c)) = 20"
  by (simp add: tests_of_def int_or_default_def fixed_field PYTEST_TIMEOUT_SECONDS_def)

text \<open>Where clearing succeeds and changes nothing, the tests are those of the real runtime, up to the name of an error.\<close>

lemma cleared_tests_same:
  assumes "\<And>p w. clear p w = (Inr (), w)" "core_tests_run C phase argv w = (Inr e, w')"
  shows "cleared_tests_run clear C phase argv w = (Inr e, w')"
  using assms(2)
  by (auto simp: core_tests_run_def cleared_tests_run_def cleared_pytest_def or_worker_error_def bind_prog_def assms(1)
      split: sum.splits prod.splits)

lemma played_Inr:
  assumes "store_ok (dw_db w)" "offline_config (gh_sha (pf_host P)) (Some (sc_max_actions sc)) = Inr config"
    and "nat (int_or_default config ''limits'' ''max_actions'' 40) < fuel"
    and "scenario_runtime clear P data_root fuel sc repository w = (Inr v, w')"
  shows "\<exists>s t ws. v = Some (cs_status s, s) \<and> cs_status s \<noteq> DECIDING \<and> cs_user_task s = sc_description sc
     \<and> db_sessions (dw_db w') t = Some s \<and> vw_isolated ws \<and> vw_task_id ws = t
     \<and> db_workspace (dw_db w') t = JObj (workspace_json ws)
     \<and> (\<forall>t'. t' \<noteq> t \<longrightarrow> db_sessions (dw_db w') t' = db_sessions (dw_db w) t')"
proof -
  let ?R = "worker_runtime clear P data_root (map (RawDict \<circ> dump_action) (sc_actions sc)) config"
  obtain v0 u where r: "offline_run ?R fuel repository (sc_description sc) (lit ''demo'') True w = (Inr v0, u)"
    and rest: "(case v0 of None \<Rightarrow> ret None | Some (view, _) \<Rightarrow>
         bind_prog (lift_res (bind_res (uuid_of_str (tv_task_id view)) check_uuid4)) (\<lambda>u.
         bind_prog (on_db (store_load (TaskId u))) (\<lambda>s. ret (Some (tv_status view, s))))) u = (Inr v, w')"
    using assms(2,4) by (auto simp: scenario_runtime_def bind_prog_Inr lift_res_Inr)
  have fuel: "nat (int_or_default (set_fixed_pytest_timeout config) ''limits'' ''max_actions'' 40) < fuel"
    using assms(3) by (simp add: int_or_default_def fixed_field)
  from worker.demo_governed[OF worker_fixed assms(1) fuel r] obtain t s ws view where
    g: "v0 = Some (view, action_calls s)" "db_sessions (dw_db u) t = Some s" "cs_status s \<noteq> DECIDING"
      "tv_status view = cs_status s" "tv_task_id view = uuid_str (tid_value t)" "store_ok (dw_db u)"
      "cs_user_task s = sc_description sc" "vw_isolated ws" "vw_task_id ws = t"
      "db_workspace (dw_db u) t = JObj (workspace_json ws)"
      "\<forall>t'. t' \<noteq> t \<longrightarrow> db_sessions (dw_db u) t' = db_sessions (dw_db w) t'"
    by blast
  obtain s' d where l: "store_load t (dw_db u) = (Inr s', d)" and v: "v = Some (tv_status view, s')" "w' = u\<lparr>dw_db := d\<rparr>"
    using rest g(1,5) by (auto simp: bind_prog_Inr lift_res_Inr bind_res_Inr uuid_of_str_uuid_str check_uuid4_def
        on_db_Inr ret_app split: if_splits)
  have "d = dw_db u" "s' = s" using sqlite.load_Inr[OF g(6) l] g(2) by auto
  with v g show ?thesis by auto
qed

text \<open>What the worker reports of a scenario is the end and the trace of a session that was run under the governance
  of the real runtime, in an isolated worktree of its own, and that its database still holds.\<close>

theorem report_is_of_governed_run:
  assumes "store_ok (dw_db w)" "offline_config (gh_sha (pf_host P)) (Some (sc_max_actions sc)) = Inr config"
    and "nat (int_or_default config ''limits'' ''max_actions'' 40) < fuel"
    and "scenario_runtime clear P data_root fuel sc repository w = (Inr (Some (status, s)), w')"
    and "conclude casefold sc status s = Inr result"
  shows "wr_terminal result = cs_status s \<and> cs_status s = sc_terminal sc \<and> cs_status s \<noteq> DECIDING
    \<and> build_trace_events casefold s = Inr (wr_events result) \<and> ok (validate_trace (sc_contract sc) (wr_events result))
    \<and> cs_user_task s = sc_description sc \<and> (\<exists>t ws. db_sessions (dw_db w') t = Some s \<and> vw_isolated ws \<and> vw_task_id ws = t
        \<and> db_workspace (dw_db w') t = JObj (workspace_json ws))"
proof -
  from played_Inr[OF assms(1-4)] obtain t ws where
    g: "status = cs_status s" "cs_status s \<noteq> DECIDING" "cs_user_task s = sc_description sc" "db_sessions (dw_db w') t = Some s"
      "vw_isolated ws" "vw_task_id ws = t" "db_workspace (dw_db w') t = JObj (workspace_json ws)"
    by auto
  have "wr_terminal result = status \<and> status = sc_terminal sc \<and> build_trace_events casefold s = Inr (wr_events result)
      \<and> ok (validate_trace (sc_contract sc) (wr_events result))"
    using assms(5) by (auto simp: conclude_def bind_res_Inr split: if_splits)
  with g show ?thesis by auto
qed

end
