(* ===== verification/ProcessTree.thy ===== *)
theory ProcessTree
  imports Launcher ProcessBoundary
begin

text \<open>
  \<^verbatim>\<open>adapters/process/runner.py\<close> with its effects: starting the process, waiting, ending its tree after a timeout.
  The chunks a stream gives before its reader is joined are what the operating system says. The launcher here
  refines the launcher of \<open>Launcher\<close>, whose operating system is a function.
\<close>

record 'w process_host =
  ph_windows :: bool
  ph_popen :: "launch_request \<Rightarrow> int \<Rightarrow> bool \<Rightarrow> ('w, int) prog"
  ph_wait :: "int \<Rightarrow> int \<Rightarrow> 'w \<Rightarrow> wait_answer \<times> 'w"
  ph_run :: "pystr list \<Rightarrow> ('w, unit) prog"
  ph_killpg :: "int \<Rightarrow> ('w, unit) prog"
  ph_kill :: "int \<Rightarrow> ('w, unit) prog"
  ph_drain :: "int \<Rightarrow> 'w \<Rightarrow> (bytes list \<times> bytes list) \<times> 'w"

definition CREATE_NEW_PROCESS_GROUP :: int where
  "CREATE_NEW_PROCESS_GROUP = 512"

text \<open>A wait that times out raises a \<open>SubprocessError\<close>, which \<open>_terminate_tree\<close> catches with \<open>OSError\<close>.\<close>

definition terminate_tree :: "'w process_host \<Rightarrow> int \<Rightarrow> ('w, unit) prog" where
  "terminate_tree H pid w =
     (case (if ph_windows H then ph_run H [lit ''taskkill'', lit ''/PID'', int_str pid, lit ''/T'', lit ''/F''] else ph_killpg H pid) w of
        (Inl e, w1) \<Rightarrow> if is_os_error e then ph_kill H pid w1 else (Inl e, w1)
      | (Inr _, w1) \<Rightarrow>
          (case ph_wait H pid 5 w1 of
             (Exited _, w2) \<Rightarrow> (Inr (), w2)
           | (_, w2) \<Rightarrow> ph_kill H pid w2))"

text \<open>After the wait: the readers are joined and the result is checked.\<close>

definition collect_output ::
    "'w process_host \<Rightarrow> capture \<Rightarrow> capture \<Rightarrow> int \<Rightarrow> int option \<Rightarrow> ('w, launch_result) prog" where
  "collect_output H stdout_capture stderr_capture pid code w =
     (case ph_drain H pid w of ((out_chunks, err_chunks), w') \<Rightarrow>
      let out = drain out_chunks stdout_capture;
          err = drain err_chunks stderr_capture
      in (check_launch_result
           \<lparr>la_status = (if code = None then LS_TIMED_OUT else LS_COMPLETED), la_exit_code = code,
            la_stdout = cap_value out, la_stderr = cap_value err,
            la_stdout_truncated = cap_truncated out, la_stderr_truncated = cap_truncated err\<rparr>, w'))"

definition await_exit :: "'w process_host \<Rightarrow> int \<Rightarrow> int \<Rightarrow> ('w, int option) prog" where
  "await_exit H pid timeout w =
     (case ph_wait H pid timeout w of
        (Exited code, w') \<Rightarrow> (Inr (Some code), w')
      | (WaitTimeout, w') \<Rightarrow> bind_prog (terminate_tree H pid) (\<lambda>_. ret None) w'
      | (WaitError, w') \<Rightarrow> (Inl (OSError ''wait''), w'))"

definition launch_on :: "'w process_host \<Rightarrow> launch_request \<Rightarrow> ('w, launch_result) prog" where
  "launch_on H request =
     bind_prog (lift_res (new_capture (lr_stdout_limit request))) (\<lambda>stdout_capture.
     bind_prog (lift_res (new_capture (lr_stderr_limit request))) (\<lambda>stderr_capture.
     bind_prog (attempt (ph_popen H request (if ph_windows H then CREATE_NEW_PROCESS_GROUP else 0) (\<not> ph_windows H))) (\<lambda>started.
     case started of
       Inl e \<Rightarrow>
         if is_os_error e then lift_res (check_launch_result
             \<lparr>la_status = LS_ENVIRONMENT_ERROR, la_exit_code = None, la_stdout = [], la_stderr = [],
              la_stdout_truncated = False, la_stderr_truncated = False\<rparr>)
         else raise e
     | Inr pid \<Rightarrow> bind_prog (await_exit H pid (lr_timeout request)) (collect_output H stdout_capture stderr_capture pid))))"

text \<open>What is returned is what the pure launcher says of some process the operating system started, or of none: so
  the type and the bounds of its results hold of the launcher with effects.\<close>

lemma collected:
  assumes "collect_output H oc ec pid code w = (Inr result, w')" "new_capture (lr_stdout_limit request) = Inr oc"
    "new_capture (lr_stderr_limit request) = Inr ec"
  shows "\<exists>out err. launch (\<lambda>_. Some \<lparr>op_stdout = out, op_stderr = err, op_exit = code\<rparr>) request = Inr result"
proof -
  obtain out err v where "ph_drain H pid w = ((out, err), v)" by (metis prod.exhaust)
  then have "launch (\<lambda>_. Some \<lparr>op_stdout = out, op_stderr = err, op_exit = code\<rparr>) request = Inr result"
    using assms by (cases code) (simp_all add: collect_output_def launch_def Let_def)
  then show ?thesis by blast
qed

theorem launch_refines:
  assumes "launch_on H request w = (Inr result, w')"
  shows "\<exists>p. launch (\<lambda>_. p) request = Inr result"
proof -
  obtain oc ec r v where c: "new_capture (lr_stdout_limit request) = Inr oc" "new_capture (lr_stderr_limit request) = Inr ec"
    and rest: "(case r of
       Inl e \<Rightarrow> if is_os_error e then lift_res (check_launch_result
             \<lparr>la_status = LS_ENVIRONMENT_ERROR, la_exit_code = None, la_stdout = [], la_stderr = [],
              la_stdout_truncated = False, la_stderr_truncated = False\<rparr>) else raise e
     | Inr pid \<Rightarrow> bind_prog (await_exit H pid (lr_timeout request)) (collect_output H oc ec pid)) v = (Inr result, w')"
    using assms unfolding launch_on_def by (auto simp: bind_prog_Inr lift_res_app)
  show ?thesis
  proof (cases r)
    case (Inl e)
    then have "launch (\<lambda>_. None) request = Inr result"
      using rest c by (auto simp: launch_def split: if_splits)
    then show ?thesis by blast
  next
    case (Inr pid)
    then obtain code u where "collect_output H oc ec pid code u = (Inr result, w')"
      using rest by (auto simp: bind_prog_Inr)
    from collected[OF this c] show ?thesis by blast
  qed
qed

text \<open>A process that is not over in time is reported without an exit code, and only after its tree was asked to end.\<close>

lemma timed_out_terminated:
  assumes "launch_on H request w = (Inr result, w')"
    and "ph_popen H request (if ph_windows H then CREATE_NEW_PROCESS_GROUP else 0) (\<not> ph_windows H) w = (Inr pid, u)"
    and "ph_wait H pid (lr_timeout request) u = (WaitTimeout, v)"
  shows "la_status result = LS_TIMED_OUT \<and> la_exit_code result = None \<and> (\<exists>x. terminate_tree H pid v = (Inr (), x))"
proof -
  obtain oc ec x where "terminate_tree H pid v = (Inr (), x)" "collect_output H oc ec pid None x = (Inr result, w')"
    using assms unfolding launch_on_def
    by (auto simp: bind_prog_Inr lift_res_app attempt_def await_exit_def)
  then show ?thesis
    by (auto simp: collect_output_def check_launch_result_def Let_def split: prod.splits if_splits)
qed
end
