(* ===== verification/WindowsSecurity.thy ===== *)
theory WindowsSecurity
  imports ProcessBoundary
begin

text \<open>
  The private directory and file of a request on Windows (\<^verbatim>\<open>web/run_service.py\<close>): the security descriptor that
  gives access to the current user and the restricting groups of its token only, and the two calls that use it.
  The calls to advapi32 and kernel32 are arguments, without their buffers; the open handles and the memory the
  system allocated are counted as in \<open>ProcessBoundary\<close>.
\<close>

record 'w token_api =
  tk_open :: "'w \<Rightarrow> int option \<times> 'w"
  tk_size :: "int \<Rightarrow> int \<Rightarrow> 'w \<Rightarrow> int \<times> 'w"
  tk_user :: "int \<Rightarrow> 'w \<Rightarrow> int option \<times> 'w"
  tk_groups :: "int \<Rightarrow> 'w \<Rightarrow> int list option \<times> 'w"
  tk_string :: "int \<Rightarrow> 'w \<Rightarrow> (int \<times> pystr) option \<times> 'w"
  tk_descriptor :: "pystr \<Rightarrow> 'w \<Rightarrow> int option \<times> 'w"
  tk_free :: "int \<Rightarrow> 'w \<Rightarrow> unit \<times> 'w"
  tk_close :: "int \<Rightarrow> 'w \<Rightarrow> bool \<times> 'w"
  tk_create_directory :: "pystr \<Rightarrow> int \<Rightarrow> 'w \<Rightarrow> int option \<times> 'w"
  tk_create_file :: "pystr \<Rightarrow> int \<Rightarrow> 'w \<Rightarrow> int option \<times> 'w"
  tk_descriptor_of :: "int \<Rightarrow> 'w \<Rightarrow> bool \<times> 'w"
  tk_write :: "int \<Rightarrow> bytes \<Rightarrow> 'w \<Rightarrow> bool \<times> 'w"

text \<open>\<open>try: m finally: release\<close>\<close>

definition finally_do :: "('s, 'a) prog \<Rightarrow> ('s, unit) prog \<Rightarrow> ('s, 'a) prog" where
  "finally_do m release = bind_prog (attempt m) (\<lambda>r. bind_prog release (\<lambda>_. lift_res r))"

definition forget :: "int \<Rightarrow> ('w windows, unit) prog" where
  "forget h = modify (\<lambda>s. s\<lparr>wn_open := remove1 h (wn_open s)\<rparr>)"

definition local_free :: "'w token_api \<Rightarrow> int \<Rightarrow> ('w windows, unit) prog" where
  "local_free K p = bind_prog (forget p) (\<lambda>_. kernel (tk_free K p))"

definition close_token :: "'w token_api \<Rightarrow> int \<Rightarrow> ('w windows, unit) prog" where
  "close_token K h = bind_prog (forget h) (\<lambda>_. bind_prog (kernel (tk_close K h)) (\<lambda>_. ret ()))"

section \<open>The descriptor\<close>

definition ace :: "pystr \<Rightarrow> pystr" where
  "ace sid = lit ''(A;OICI;GA;;;'' @ sid @ lit '')''"

definition EVERYONE :: pystr where
  "EVERYONE = lit ''S-1-1-0''"

definition group_ace :: "'w token_api \<Rightarrow> int \<Rightarrow> ('w windows, pystr) prog" where
  "group_ace K sid = bind_prog (kernel (tk_string K sid)) (\<lambda>converted.
     case converted of
       None \<Rightarrow> raise win_error
     | Some (p, text) \<Rightarrow> bind_prog (opens p) (\<lambda>_.
         finally_do (ret (if text \<noteq> EVERYONE then ace text else [])) (local_free K p)))"

fun group_aces :: "'w token_api \<Rightarrow> int list \<Rightarrow> ('w windows, pystr) prog" where
  "group_aces K [] = ret []"
| "group_aces K (sid # sids) = bind_prog (group_ace K sid) (\<lambda>a. bind_prog (group_aces K sids) (\<lambda>rest. ret (a @ rest)))"

definition restricted_aces :: "'w token_api \<Rightarrow> int \<Rightarrow> ('w windows, pystr) prog" where
  "restricted_aces K token = bind_prog (kernel (tk_size K token 11)) (\<lambda>size.
     if size = 0 then ret []
     else bind_prog (kernel (tk_groups K token)) (\<lambda>groups.
       case groups of None \<Rightarrow> raise win_error | Some sids \<Rightarrow> group_aces K sids))"

definition current_user_private_sddl :: "'w token_api \<Rightarrow> ('w windows, pystr) prog" where
  "current_user_private_sddl K = bind_prog (kernel (tk_open K)) (\<lambda>opened.
     case opened of None \<Rightarrow> raise win_error | Some token \<Rightarrow>
     bind_prog (opens token) (\<lambda>_.
     finally_do
       (bind_prog (kernel (tk_size K token 1)) (\<lambda>_.
        bind_prog (kernel (tk_user K token)) (\<lambda>user.
        case user of None \<Rightarrow> raise win_error | Some sid \<Rightarrow>
        bind_prog (kernel (tk_string K sid)) (\<lambda>converted.
        case converted of None \<Rightarrow> raise win_error | Some (p, user_sid) \<Rightarrow>
        bind_prog (opens p) (\<lambda>_.
        finally_do (bind_prog (restricted_aces K token) (\<lambda>aces. ret (lit ''D:P'' @ ace user_sid @ aces)))
          (local_free K p))))))
       (close_token K token)))"

section \<open>Its uses\<close>

definition private_security_attributes ::
    "'w token_api \<Rightarrow> pystr \<Rightarrow> (int \<Rightarrow> ('w windows, 'a) prog) \<Rightarrow> ('w windows, 'a) prog" where
  "private_security_attributes K sddl body = bind_prog (kernel (tk_descriptor K sddl)) (\<lambda>made.
     case made of None \<Rightarrow> raise win_error | Some d \<Rightarrow>
     bind_prog (opens d) (\<lambda>_. finally_do (body d) (local_free K d)))"

text \<open>\<open>CreateDirectoryW\<close>: nothing, or the error; 183 is \<open>ERROR_ALREADY_EXISTS\<close>.\<close>

definition windows_private_directory :: "'w token_api \<Rightarrow> pystr \<Rightarrow> pystr \<Rightarrow> ('w windows, unit) prog" where
  "windows_private_directory K sddl path = private_security_attributes K sddl (\<lambda>d.
     bind_prog (kernel (tk_create_directory K path d)) (\<lambda>failure.
     case failure of None \<Rightarrow> ret () | Some error \<Rightarrow>
       if error = 183 then raise (OSError ''FileExistsError'') else raise win_error))"

text \<open>The file descriptor owns the handle once there is one.\<close>

definition windows_private_config :: "'w token_api \<Rightarrow> pystr \<Rightarrow> pystr \<Rightarrow> bytes \<Rightarrow> ('w windows, unit) prog" where
  "windows_private_config K sddl path encoded =
     bind_prog (private_security_attributes K sddl (\<lambda>d. kernel (tk_create_file K path d))) (\<lambda>created.
     case created of None \<Rightarrow> raise win_error | Some h \<Rightarrow>
     bind_prog (opens h) (\<lambda>_.
     bind_prog (kernel (tk_descriptor_of K h)) (\<lambda>owned.
     if \<not> owned then bind_prog (close_token K h) (\<lambda>_. raise win_error)
     else finally_do (checked (tk_write K h encoded)) (close_token K h))))"

section \<open>Nothing is leaked, nobody else is let in\<close>

lemma wp_finally: "wp m (\<lambda>r t. wp release (\<lambda>r' u. case r' of Inl e \<Rightarrow> Q (Inl e) u | Inr _ \<Rightarrow> Q r u) t) s \<Longrightarrow> wp (finally_do m release) Q s"
  unfolding finally_do_def wp_bind wp_attempt by (simp add: wp_basic cong: sum.case_cong)

lemma wp_local_free:
  "(\<And>t. held t = (fst (held s) - {#p#}, snd (held s)) \<Longrightarrow> Q (Inr ()) t) \<Longrightarrow> wp (local_free K p) Q s"
  unfolding local_free_def forget_def wp_bind wp_modify sum.case
  by (rule wp_kernel) (simp add: held_def)

lemma wp_close_token:
  "(\<And>t. held t = (fst (held s) - {#p#}, snd (held s)) \<Longrightarrow> Q (Inr ()) t) \<Longrightarrow> wp (close_token K p) Q s"
  unfolding close_token_def forget_def wp_bind wp_modify sum.case
  by (rule wp_kernel) (simp add: held_def wp_basic)

lemma wp_group_ace:
  "(\<And>e t. held t = held s \<Longrightarrow> Q (Inl e) t) \<Longrightarrow> (\<And>sid t. held t = held s \<Longrightarrow> sid \<noteq> EVERYONE \<Longrightarrow> Q (Inr (ace sid)) t)
    \<Longrightarrow> (\<And>t. held t = held s \<Longrightarrow> Q (Inr []) t) \<Longrightarrow> wp (group_ace K sid) Q s"
  unfolding group_ace_def wp_bind
  by (rule wp_kernel) (auto simp: wp_simps(1)[of "opens _"] wp_basic split: option.split intro!: wp_opens wp_finally wp_local_free)

definition only_aces :: "pystr \<Rightarrow> bool" where
  "only_aces a \<longleftrightarrow> (\<exists>sids. a = concat (map ace sids) \<and> EVERYONE \<notin> set sids)"

lemma only_aces_simps: "only_aces []" "sid \<noteq> EVERYONE \<Longrightarrow> only_aces a \<Longrightarrow> only_aces (ace sid @ a)"
  unfolding only_aces_def by (metis concat.simps(1) empty_iff empty_set list.map(1))
    (metis concat.simps(2) list.map(2) set_ConsD)

lemma wp_group_aces:
  "wp (group_aces K sids) (\<lambda>r t. held t = held s \<and> (\<forall>a. r = Inr a \<longrightarrow> only_aces a)) s"
proof (induction sids arbitrary: s)
  case (Cons sid sids)
  have rest: "wp (bind_prog (group_aces K sids) (\<lambda>rest. ret (a @ rest))) (\<lambda>r t. held t = held s \<and> (\<forall>a. r = Inr a \<longrightarrow> only_aces a)) u"
    if "held u = held s" "a = [] \<or> (\<exists>sid. sid \<noteq> EVERYONE \<and> a = ace sid)" for a u
    unfolding wp_bind
    by (rule wp_mono[OF Cons.IH[of u]]) (use that in \<open>auto simp: wp_basic only_aces_simps split: sum.split\<close>)
  show ?case
    unfolding group_aces.simps wp_bind[of "group_ace _ _"]
  proof (rule wp_group_ace)
    fix sid and t :: "'a windows" assume "held t = held s" "sid \<noteq> EVERYONE"
    then show "case Inr (ace sid) of Inl e \<Rightarrow> held t = held s \<and> (\<forall>a. Inl e = Inr a \<longrightarrow> only_aces a)
        | Inr a \<Rightarrow> wp (bind_prog (group_aces K sids) (\<lambda>rest. ret (a @ rest))) (\<lambda>r t. held t = held s \<and> (\<forall>a. r = Inr a \<longrightarrow> only_aces a)) t"
      using rest[of t "ace sid"] by auto
  next
    fix t :: "'a windows" assume "held t = held s"
    then show "case Inr [] of Inl e \<Rightarrow> held t = held s \<and> (\<forall>a. Inl e = Inr a \<longrightarrow> only_aces a)
        | Inr a \<Rightarrow> wp (bind_prog (group_aces K sids) (\<lambda>rest. ret (a @ rest))) (\<lambda>r t. held t = held s \<and> (\<forall>a. r = Inr a \<longrightarrow> only_aces a)) t"
      using rest[of t "[]"] by simp
  qed simp
qed (simp add: wp_basic only_aces_simps)

lemma wp_restricted_aces:
  "wp (restricted_aces K token) (\<lambda>r t. held t = held s \<and> (\<forall>a. r = Inr a \<longrightarrow> only_aces a)) s"
  unfolding restricted_aces_def wp_bind
  by (rule wp_kernel) (auto simp: wp_basic wp_if wp_bind only_aces_simps split: option.split intro!: wp_kernel wp_mono[OF wp_group_aces])

text \<open>Whatever the system answers, the token and every string it allocated are given back; the descriptor is
  protected from inheritance and holds the entry of the user and entries of groups other than everyone.\<close>

theorem sddl_private:
  "case current_user_private_sddl K s of (r, t) \<Rightarrow> mset (wn_open t) = mset (wn_open s) \<and>
     (case r of Inl _ \<Rightarrow> True
      | Inr sddl \<Rightarrow> \<exists>user groups. sddl = lit ''D:P'' @ ace user @ concat (map ace groups) \<and> EVERYONE \<notin> set groups)"
proof -
  let ?Q = "\<lambda>r t. held t = held s \<and> (\<forall>x. r = Inr x \<longrightarrow> (\<exists>user a. x = lit ''D:P'' @ ace user @ a \<and> only_aces a))"
  have aces: "wp (finally_do (bind_prog (restricted_aces K token) (\<lambda>aces. ret (lit ''D:P'' @ ace user @ aces))) (local_free K p))
      (\<lambda>r t. wp (close_token K token) (\<lambda>r' u. case r' of Inl e \<Rightarrow> ?Q (Inl e) u | Inr _ \<Rightarrow> ?Q r u) t) u"
    if "held u = (add_mset p (add_mset token (fst (held s))), snd (held s))" for token user p u
    by (rule wp_finally, unfold wp_bind, rule wp_mono[OF wp_restricted_aces[of K token u]])
      (use that in \<open>auto simp: wp_basic split: sum.split intro!: wp_local_free wp_close_token\<close>)
  have body: "wp (finally_do
       (bind_prog (kernel (tk_size K token 1)) (\<lambda>_.
        bind_prog (kernel (tk_user K token)) (\<lambda>user.
        case user of None \<Rightarrow> raise win_error | Some sid \<Rightarrow>
        bind_prog (kernel (tk_string K sid)) (\<lambda>converted.
        case converted of None \<Rightarrow> raise win_error | Some (p, user_sid) \<Rightarrow>
        bind_prog (opens p) (\<lambda>_.
        finally_do (bind_prog (restricted_aces K token) (\<lambda>aces. ret (lit ''D:P'' @ ace user_sid @ aces)))
          (local_free K p))))))
       (close_token K token)) ?Q u"
    if "held u = (add_mset token (fst (held s)), snd (held s))" for token u
    by (rule wp_finally)
      (auto simp: that wp_bind[of "kernel _"] wp_bind[of "opens _"] wp_basic split: option.split
        intro!: wp_kernel wp_opens wp_close_token aces)
  have "wp (current_user_private_sddl K) ?Q s"
    unfolding current_user_private_sddl_def wp_bind[of "kernel _"]
    by (rule wp_kernel) (auto simp: wp_bind[of "opens _"] wp_basic split: option.split intro!: wp_opens body)
  from wp_result[OF this] show ?thesis
    by (auto simp: held_def only_aces_def split: prod.split sum.split) metis
qed

lemma private_attributes_kept:
  assumes "\<And>d u. wp (body d) (\<lambda>r t. held t = held u) u"
  shows "wp (private_security_attributes K sddl body) (\<lambda>r t. held t = held s) s"
  unfolding private_security_attributes_def wp_bind[of "kernel _"]
  by (rule wp_kernel)
    (auto simp: wp_bind[of "opens _"] wp_basic split: option.split
      intro!: wp_opens wp_finally wp_mono[OF assms] wp_local_free)

lemma private_directory_kept: "wp (windows_private_directory K sddl path) (\<lambda>r t. held t = held s) s"
  unfolding windows_private_directory_def
  by (rule private_attributes_kept) (auto simp: wp_bind wp_basic wp_if split: option.split intro!: wp_kernel)

text \<open>The configuration file is closed on every way out.\<close>

lemma private_config_kept: "wp (windows_private_config K sddl path encoded) (\<lambda>r t. held t = held s) s"
proof -
  have made: "wp (private_security_attributes K sddl (\<lambda>d. kernel (tk_create_file K path d))) (\<lambda>r t. held t = held s) s"
    by (rule private_attributes_kept) (auto intro!: wp_kernel)
  show ?thesis
    unfolding windows_private_config_def wp_bind[of "private_security_attributes _ _ _"]
    by (rule wp_mono[OF made])
      (auto simp: wp_bind[of "opens _"] wp_bind[of "kernel _"] wp_bind[of "close_token _ _"] wp_basic wp_if split: option.split sum.split
        intro!: wp_opens wp_kernel wp_close_token wp_finally wp_checked)
qed
end
