(* ===== verification/Support.thy ===== *)
theory Support
  imports Config FileSystem
begin

text \<open>
  Modules of \<^verbatim>\<open>core/\<close> that nothing in the program uses yet: the records of the memory (\<^verbatim>\<open>core/memory.py\<close>), the
  dispatcher of typed tools (\<^verbatim>\<open>core/tool_dispatcher.py\<close>) and the terminal statuses (\<^verbatim>\<open>core/state_machine.py\<close>).
\<close>

section \<open>Memory\<close>

record memory_record =
  me_type :: pystr
  me_content :: pystr
  me_tags :: "pystr list"
  me_source :: pystr
  me_native_utc :: bool
  me_created_at :: int
  me_task_id :: task_id

definition check_memory_record :: "memory_record \<Rightarrow> memory_record res" where
  "check_memory_record r =
     bind_res (require (py_len (me_content r) \<le> 2000) ValidationError) (\<lambda>_.
     bind_res (require (me_native_utc r) ValidationError) (\<lambda>_. Inr r))"

definition check_memory_slice :: "memory_record list \<Rightarrow> memory_record list res" where
  "check_memory_slice records = bind_res (require (py_len records \<le> 10) ValidationError) (\<lambda>_. Inr records)"

definition TERMINAL_TASK_STATUSES :: "task_status set" where
  "TERMINAL_TASK_STATUSES = {SUCCEEDED, STOPPED, PAUSED_FOR_HUMAN, CANCELLED}"

definition is_terminal :: "task_status \<Rightarrow> bool" where
  "is_terminal status \<longleftrightarrow> status \<in> TERMINAL_TASK_STATUSES"

section \<open>The dispatcher\<close>

text \<open>The name of an action's class.\<close>

fun action_class :: "action \<Rightarrow> string" where
  "action_class (ListFiles _ _) = ''ListFilesAction''"
| "action_class (ReadFile _ _ _) = ''ReadFileAction''"
| "action_class (SearchCode _ _ _) = ''SearchCodeAction''"
| "action_class (RunTests _ _) = ''RunTestsAction''"
| "action_class (RunDiagnostic _ _) = ''RunDiagnosticAction''"
| "action_class GitStatus = ''GitStatusAction''"
| "action_class GitDiff = ''GitDiffAction''"
| "action_class (ApplyPatch _) = ''ApplyPatchAction''"
| "action_class (RequestHuman _) = ''RequestHumanAction''"

text \<open>The state: the names of the classes whose handler was called.\<close>

record 'w dispatcher =
  di_world :: 'w
  di_handler_calls :: "string list"

definition dispatch ::
    "(string \<rightharpoonup> ('w, 'p tool_result) prog) \<Rightarrow> capability_set \<Rightarrow> action \<Rightarrow> ('w dispatcher, 'p tool_result) prog" where
  "dispatch registry capabilities a s =
     (case registry (action_class a) of
        None \<Rightarrow> (tool_error UNSUPPORTED (lit ''action is not registered''), s)
      | Some handler \<Rightarrow>
          if cp_mode capabilities \<noteq> lit ''real'' then (tool_error UNSUPPORTED (lit ''action is not available''), s)
          else (case handler (di_world s) of (r, w) \<Rightarrow>
            (r, s\<lparr>di_world := w, di_handler_calls := di_handler_calls s @ [action_class a]\<rparr>)))"

text \<open>Outside real mode no handler runs, and the calls the dispatcher counts are the handlers that ran.\<close>

lemma dispatch_counts:
  "dispatch registry capabilities a s = (r, t) \<Longrightarrow>
     (t = s \<and> (registry (action_class a) = None \<or> cp_mode capabilities \<noteq> lit ''real'')) \<or>
     (cp_mode capabilities = lit ''real'' \<and> di_handler_calls t = di_handler_calls s @ [action_class a]
        \<and> (\<exists>handler. registry (action_class a) = Some handler \<and> handler (di_world s) = (r, di_world t)))"
  by (auto simp: dispatch_def split: option.splits if_splits prod.splits)
end
