(* ===== verification/WorkerBoundary.thy ===== *)
theory WorkerBoundary
  imports RunService ProcessBoundary
begin

text \<open>
  The run service over the real boundaries: \<open>create_boundary\<close> and the operations of \<^verbatim>\<open>web/process_boundary.py\<close> in the
  place of the parameters of \<^verbatim>\<open>web/run_service.py\<close>. The interface between the two is what a confirmation means;
  the service's steps that rely on it are proved once against it and hold of both boundaries.
\<close>

section \<open>The interface\<close>

locale worker_boundary =
  fixes R :: "('w, 'h) run_deps" and ended :: "'h \<Rightarrow> 'w \<Rightarrow> bool"
  assumes confirms: "rn_confirm R h w = (Inr True, w') \<Longrightarrow> ended h w'"
begin

lemma confirmed: "confirm R h s = (Inr True, t) \<Longrightarrow> ended h (rs_env t)"
  by (auto simp: confirm_def bind_prog_Inr attempt_def call_def dest: confirms split: prod.splits)

lemma terminated: "terminate_and_confirm R h s = (Inr True, t) \<Longrightarrow> ended h (rs_env t)"
  by (auto simp: terminate_and_confirm_def bind_prog_Inr dest: confirmed split: if_splits)

text \<open>A worker that is settled as confirmed has ended in the world in which its root may then be deleted.\<close>

lemma settled_ended: "settle_worker R h out s = (Inr (), t) \<Longrightarrow> rs_confirmed t \<Longrightarrow> ended h (rs_env t)"
  by (auto simp: settle_worker_def bind_prog_Inr modify_def prefer_pending_def dest: terminated)

text \<open>The result file is read only in a world in which the worker has ended.\<close>

lemma read_after_end:
  assumes "await_worker R scenario deadline root h s = (Inr (), t)" "snd (rs_pending t) = Some v" "snd (rs_pending s) = None"
  shows "\<exists>u. ended h (rs_env u) \<and> collect_result R scenario root u = (Inr (), t)"
proof -
  have settle: "snd (rs_pending y) = None \<or> snd (rs_pending y) = snd (rs_pending x)"
    if "settle_worker R h out x = (Inr (), y)" for out x y
  proof -
    obtain r u where tc: "terminate_and_confirm R h x = (r, u)" by fastforce
    then have "rs_pending u = rs_pending x"
      by (auto simp: terminate_and_confirm_def confirm_def bind_prog_def attempt_def call_def split: prod.splits sum.splits if_splits)
    moreover have "rs_pending y = rs_pending u \<or> (\<exists>k. rs_pending y = prefer_result (rs_pending u) k)"
      using that tc by (cases r) (auto simp: settle_worker_def bind_prog_def modify_def prefer_pending_def)
    moreover have "snd (prefer_result z k) = None \<or> prefer_result z k = z" for z k
      by (simp add: prefer_result_def split: option.split)
    ultimately show ?thesis by metis
  qed
  have dead: "snd (rs_pending x) \<noteq> None" if "settle_worker R h out x = (Inr (), t)" for out x
    using settle[OF that] assms(2) by (metis option.distinct(1))
  have wait: "silent (rn_wait R h deadline) x = (r, u) \<Longrightarrow> rs_pending u = rs_pending x"
    and clock: "silent (rn_clock R) x = (p, u) \<Longrightarrow> rs_pending u = rs_pending x"
    and conf: "confirm R h x = (q, u) \<Longrightarrow> rs_pending u = rs_pending x" for r p q x u
    by (auto simp: confirm_def bind_prog_def attempt_def call_def split: prod.splits sum.splits)
  show ?thesis
    using assms(1) unfolding await_worker_def
    by (auto simp: bind_prog_Inr split: if_splits dest!: dead dest: confirmed simp: assms(3)) (auto simp: assms(3) dest!: wait clock conf)
qed

end

section \<open>The service over a process group\<close>

text \<open>The world of one run with the boundary object it made; a run makes one.\<close>

record 'w boundary_world =
  bw_rest :: 'w
  bw_boundary :: "'w posix_boundary option"

definition on_boundary :: "('w posix_boundary \<Rightarrow> ('w, 'a \<times> 'w posix_boundary) prog) \<Rightarrow> ('w boundary_world, 'a) prog" where
  "on_boundary f s =
     (case bw_boundary s of
        None \<Rightarrow> (Inl AttributeError, s)
      | Some B \<Rightarrow> (case f B (bw_rest s) of
            (Inl e, w) \<Rightarrow> (Inl e, s\<lparr>bw_rest := w\<rparr>)
          | (Inr (x, B'), w) \<Rightarrow> (Inr x, s\<lparr>bw_rest := w, bw_boundary := Some B'\<rparr>)))"

definition unchanged :: "('w posix_boundary \<Rightarrow> ('w, 'a) prog) \<Rightarrow> 'w posix_boundary \<Rightarrow> ('w, 'a \<times> 'w posix_boundary) prog" where
  "unchanged f B = bind_prog (f B) (\<lambda>x. ret (x, B))"

text \<open>The milliseconds left of the recovery time, and one, are enough fuel for a confirmation.\<close>

definition confirm_fuel :: "'w posix \<Rightarrow> 'w posix_boundary \<Rightarrow> 'w \<Rightarrow> nat" where
  "confirm_fuel P B w = Suc (nat (case pb_recovery B of None \<Rightarrow> 0 | Some d \<Rightarrow> d - px_time P w))"

definition confirm_posix :: "'w posix \<Rightarrow> 'w posix_boundary \<Rightarrow> ('w, bool) prog" where
  "confirm_posix P B w =
     (case posix_confirm P B (confirm_fuel P B w) w of
        (Inl e, w') \<Rightarrow> (Inl e, w')
      | (Inr None, w') \<Rightarrow> (Inl TimeoutError, w')
      | (Inr (Some b), w') \<Rightarrow> (Inr b, w'))"

definition posix_service ::
    "'w posix \<Rightarrow> ('w boundary_world, unit) run_deps \<Rightarrow> ('w boundary_world, unit) run_deps" where
  "posix_service P R = R\<lparr>
     rn_start := (\<lambda>c s. case posix_create P (wk_argv c) (wk_cwd c) (wk_env c) False (wk_creationflags c) (wk_new_session c) (bw_rest s) of
         (Inl e, w) \<Rightarrow> (Inl e, s\<lparr>bw_rest := w\<rparr>)
       | (Inr B, w) \<Rightarrow> (Inr (), s\<lparr>bw_rest := w, bw_boundary := Some B\<rparr>)),
     rn_process_created := (\<lambda>_. ret True),
     rn_wait := (\<lambda>_ deadline. on_boundary (unchanged (\<lambda>B. posix_wait P B deadline))),
     rn_terminate := (\<lambda>_. on_boundary (\<lambda>B. bind_prog (posix_terminate P B) (\<lambda>B'. ret ((), B')))),
     rn_wait_root := (\<lambda>_ timeout. on_boundary (unchanged (\<lambda>B. posix_wait_for_root P B timeout))),
     rn_confirm := (\<lambda>_. on_boundary (unchanged (confirm_posix P))),
     rn_close := (\<lambda>_. on_boundary (unchanged posix_close))\<rparr>"

text \<open>The kernel has just said that the group is gone, or it lists only zombies in it.\<close>

definition posix_ended :: "'w posix \<Rightarrow> unit \<Rightarrow> 'w boundary_world \<Rightarrow> bool" where
  "posix_ended P h s \<longleftrightarrow> (\<exists>B. bw_boundary s = Some B \<and>
     ((\<exists>u. px_killpg P (pb_pgid B) False u = (GroupGone, bw_rest s))
      \<or> (\<exists>es. px_proc P (bw_rest s) = Some es \<and> only_zombies (pb_pgid B) es)))"

lemma posix_confirm_True:
  "posix_confirm P B fuel w = (Inr (Some True), w') \<Longrightarrow>
     (\<exists>u. px_killpg P (pb_pgid B) False u = (GroupGone, w')) \<or> (\<exists>es. px_proc P w' = Some es \<and> only_zombies (pb_pgid B) es)"
proof (induction fuel arbitrary: w)
  case (Suc fuel)
  obtain a w1 where k: "px_killpg P (pb_pgid B) False w = (a, w1)" by fastforce
  show ?case
  proof (cases a)
    case GroupGone
    then show ?thesis using Suc.prems k by auto
  next
    case GroupThere
    then obtain z where z: "px_linux P" "all_zombies (pb_pgid B) (px_proc P w1) = Inr z"
      using Suc.prems k by (auto split: if_splits sum.splits)
    show ?thesis
    proof (cases "z = Some True")
      case True
      then show ?thesis
        using Suc.prems k GroupThere z zombies_True by (auto simp: all_zombies_def split: option.splits)
    next
      case False
      then show ?thesis using Suc k GroupThere z by (auto simp: Let_def split: if_splits)
    qed
  qed (use Suc.prems k in auto)
qed simp

interpretation posix_group: worker_boundary "posix_service P R" "posix_ended P" for P R
proof
  fix h w w'
  assume "rn_confirm (posix_service P R) h w = (Inr True, w')"
  then obtain B u where B: "bw_boundary w = Some B" "confirm_posix P B (bw_rest w) = (Inr True, u)"
      "w' = w\<lparr>bw_rest := u, bw_boundary := Some B\<rparr>"
    by (auto simp: posix_service_def on_boundary_def unchanged_def bind_prog_Inr split: option.splits prod.splits sum.splits)
  from B(2) have "posix_confirm P B (confirm_fuel P B (bw_rest w)) (bw_rest w) = (Inr (Some True), u)"
    by (auto simp: confirm_posix_def split: prod.splits sum.splits option.splits)
  from posix_confirm_True[OF this] show "posix_ended P h w'" unfolding posix_ended_def B(3) by simp
qed

text \<open>With a clock that moves on, the fuel never ends.\<close>

lemma confirm_fuel_enough:
  assumes "clock_ok P"
  shows "fst (posix_confirm P B (confirm_fuel P B w) w) \<noteq> Inr None"
proof -
  obtain r w' where run: "posix_confirm P B (confirm_fuel P B w) w = (r, w')" by fastforce
  have "nat (case pb_recovery B of None \<Rightarrow> 0 | Some d \<Rightarrow> d - px_time P w) < confirm_fuel P B w"
    by (simp add: confirm_fuel_def)
  from posix_confirm_spec[OF assms this run] run show ?thesis by simp
qed

section \<open>The service over a job\<close>

record 'w job_world =
  jw_windows :: "'w windows"
  jw_boundary :: "job_boundary option"

definition on_job :: "(job_boundary \<Rightarrow> ('w windows, 'a \<times> job_boundary) prog) \<Rightarrow> ('w job_world, 'a) prog" where
  "on_job f s =
     (case jw_boundary s of
        None \<Rightarrow> (Inl AttributeError, s)
      | Some B \<Rightarrow> (case f B (jw_windows s) of
            (Inl e, w) \<Rightarrow> (Inl e, s\<lparr>jw_windows := w\<rparr>)
          | (Inr (x, B'), w) \<Rightarrow> (Inr x, s\<lparr>jw_windows := w, jw_boundary := Some B'\<rparr>)))"

definition job_service ::
    "'w kernel32 \<Rightarrow> (pystr \<Rightarrow> pystr) \<Rightarrow> ('w job_world, unit) run_deps \<Rightarrow> ('w job_world, unit) run_deps" where
  "job_service K upper R = R\<lparr>
     rn_start := (\<lambda>c s. case windows_create K upper (wk_argv c) (wk_cwd c) (wk_env c) False (wk_creationflags c) (wk_new_session c) (jw_windows s) of
         (Inl e, w) \<Rightarrow> (Inl e, s\<lparr>jw_windows := w\<rparr>)
       | (Inr B, w) \<Rightarrow> (Inr (), s\<lparr>jw_windows := w, jw_boundary := Some B\<rparr>)),
     rn_process_created := (\<lambda>_. ret True),
     rn_wait := (\<lambda>_ deadline. on_job (\<lambda>B. bind_prog (job_wait K B deadline) (\<lambda>x. ret (x, B)))),
     rn_terminate := (\<lambda>_. on_job (\<lambda>B. bind_prog (job_terminate K B) (\<lambda>x. ret (x, B)))),
     rn_wait_root := (\<lambda>_ timeout. on_job (\<lambda>B. bind_prog (job_wait_for_root K B timeout) (\<lambda>x. ret (x, B)))),
     rn_confirm := (\<lambda>_. on_job (\<lambda>B. bind_prog (job_confirm K B) (\<lambda>x. ret (x, B)))),
     rn_close := (\<lambda>_ s. bind_prog (on_job (job_close K)) lift_res s)\<rparr>"

text \<open>The kernel has just said that no process of the job is active.\<close>

definition job_ended :: "'w kernel32 \<Rightarrow> unit \<Rightarrow> 'w job_world \<Rightarrow> bool" where
  "job_ended K h s \<longleftrightarrow> (\<exists>B job u. jw_boundary s = Some B \<and> jb_job_handle B = Some job
     \<and> kn_query K job u = (Some 0, wn_world (jw_windows s)))"

interpretation job_object: worker_boundary "job_service K upper R" "job_ended K" for K upper R
proof
  fix h w w'
  assume "rn_confirm (job_service K upper R) h w = (Inr True, w')"
  then obtain B u where B: "jw_boundary w = Some B" "job_confirm K B (jw_windows w) = (Inr True, u)"
      "w' = w\<lparr>jw_windows := u, jw_boundary := Some B\<rparr>"
    by (auto simp: job_service_def on_job_def bind_prog_Inr split: option.splits prod.splits sum.splits)
  from B(2) obtain job where "jb_job_handle B = Some job" "kn_query K job (wn_world (jw_windows w)) = (Some 0, wn_world u)"
    by (auto simp: job_confirm_def bind_prog_Inr kernel_def split: option.splits prod.splits)
  then show "job_ended K h w'" unfolding job_ended_def B(3) by auto
qed
end
