(* ===== verification/Spec2Isabelle.thy ===== *)
theory Spec2Isabelle
  imports Prelude Domain Models Json Actions Patching PatchScripts PatchApply Canonical Policy
    Feedback Context Harness HarnessLoop Application Demo StateStore SessionStore Trace
    Scenarios Launcher Config Regex Redaction PytestParser Artifacts PytestRunner Ipc RunService
    Worker FileSystem Executor Workspaces Providers StoreRefinement Composition OfflineDemo
    Addresses WebApp Cli ProcessBoundary RequestRoot WorkerRuntime ProcessTree WindowsSecurity
    Support WorkerBoundary
begin

text \<open>
  A verification library for the coding-agent harness (\<^verbatim>\<open>src/coding_agent_harness/\<close>): a model proposes actions,
  the harness checks them against a policy, carries them out in an isolated git worktree, runs the tests and
  feeds their result back until the task is done, stopped or paused.

  \<^bold>\<open>The program and its theories.\<close> A theory opens with what it holds; the definitions keep the names of the code.

  \<^item> Shared: \<open>Prelude\<close> (Python strings as code points, exceptions as values, \<open>res\<close> for code that may raise, \<open>prog\<close>
    for code that also changes a world, the string methods), \<open>Json\<close> (\<open>json.loads\<close>, \<open>json.dumps\<close>), \<open>Regex\<close> (the part
    of \<open>re\<close> used), \<open>Addresses\<close> (\<open>ipaddress\<close>, \<open>urllib.parse\<close>), \<open>Canonical\<close> (\<^verbatim>\<open>security/canonical.py\<close>).
  \<^item> Data: \<open>Domain\<close> and \<open>Models\<close> (\<^verbatim>\<open>domain/enums.py\<close>, \<^verbatim>\<open>domain/models.py\<close>), \<open>Actions\<close> (\<^verbatim>\<open>domain/actions.py\<close>).
  \<^item> Patches: \<open>Patching\<close> and \<open>PatchScripts\<close> (the diff parser and its specification), \<open>PatchApply\<close> (writing and
    compensating), all of \<^verbatim>\<open>patching/\<close>; \<open>Policy\<close> (\<^verbatim>\<open>security/policy.py\<close>, \<^verbatim>\<open>core/patch_policy.py\<close>).
  \<^item> The loop: \<open>Feedback\<close> (\<^verbatim>\<open>feedback/\<close>), \<open>Context\<close> (\<^verbatim>\<open>core/context.py\<close>, \<^verbatim>\<open>core/budget.py\<close>), \<open>Harness\<close> and
    \<open>HarnessLoop\<close> (\<^verbatim>\<open>core/harness.py\<close>), \<open>Application\<close> (\<^verbatim>\<open>application/service.py\<close>), \<open>Demo\<close>, \<open>Support\<close> (modules of
    \<^verbatim>\<open>core/\<close> nothing uses yet).
  \<^item> Stores: \<open>StateStore\<close> (\<^verbatim>\<open>adapters/sqlite/state_store.py\<close>), \<open>SessionStore\<close> (\<^verbatim>\<open>application/session_store.py\<close>),
    \<open>StoreRefinement\<close>, \<open>Artifacts\<close> (\<^verbatim>\<open>adapters/artifacts/\<close>).
  \<^item> Tools: \<open>FileSystem\<close> (\<^verbatim>\<open>adapters/filesystem/\<close>, \<^verbatim>\<open>security/paths.py\<close>), \<open>Launcher\<close> and \<open>ProcessTree\<close>
    (\<^verbatim>\<open>adapters/process/runner.py\<close>), \<open>Redaction\<close> (\<^verbatim>\<open>security/redaction.py\<close>, \<^verbatim>\<open>feedback/normalize.py\<close>),
    \<open>PytestParser\<close> and \<open>PytestRunner\<close>, \<open>Executor\<close> (\<^verbatim>\<open>adapters/runtime/\<close>, \<^verbatim>\<open>adapters/git/readonly.py\<close>), \<open>Workspaces\<close>
    (\<^verbatim>\<open>application/preflight.py\<close>, \<^verbatim>\<open>adapters/git/worktree.py\<close>), \<open>Providers\<close> (\<^verbatim>\<open>adapters/credentials/\<close>,
    \<^verbatim>\<open>adapters/llm/\<close>), \<open>Config\<close> (\<^verbatim>\<open>config/\<close>).
  \<^item> The whole: \<open>Composition\<close> and \<open>OfflineDemo\<close> (\<^verbatim>\<open>composition.py\<close>), \<open>Cli\<close> (\<^verbatim>\<open>cli/app.py\<close>).
  \<^item> The web demo: \<open>Trace\<close>, \<open>Scenarios\<close>, \<open>Ipc\<close>, \<open>RunService\<close>, \<open>Worker\<close>, \<open>WorkerRuntime\<close>, \<open>RequestRoot\<close>,
    \<open>ProcessBoundary\<close>, \<open>WorkerBoundary\<close>, \<open>WindowsSecurity\<close> and \<open>WebApp\<close> (\<^verbatim>\<open>web/\<close>, \<^verbatim>\<open>demo/\<close>).

  \<^bold>\<open>How it is modelled.\<close> A class is a record of its attributes, an enumeration a datatype, a dictionary an
  association list or a map, an exception a value of \<open>exn\<close>. What the code calls but does not contain (the file
  system, git, SQLite's engine, the clock, SHA-256, the keyring, the model, the kernel) is an argument: a field of
  a record of programs over a world of any type, so that every answer it may give, an error included, is covered.
  A loop whose end depends on such an argument has fuel, and its end is a value of its own.

  \<^bold>\<open>Interfaces.\<close> \<open>session_store\<close> and \<open>core_env\<close> say what the loop relies on: a saved session is loaded back and
  collaborators leave sessions alone; the in-memory store (\<open>mem_store\<close>, \<open>mem\<close>) and the SQLite store (\<open>sqlite\<close>,
  \<open>persistent\<close>, and \<open>bound\<close>, which also keeps the recorded workspace) interpret them. \<open>artifact_store\<close> is
  interpreted by \<open>local_artifacts\<close>. \<open>workspace_boundary\<close> says what preparing and validating a workspace promise; the
  git worktrees of the real runtime (\<open>worktrees\<close>), of the offline demo (\<open>offline\<close>) and of the demo worker
  (\<open>worker\<close>) interpret it. \<open>worker_boundary\<close> says what the confirmation of a worker's end means to the run service;
  the process group (\<open>posix_group\<close>) and the job object (\<open>job_object\<close>) interpret it.

  \<^bold>\<open>What is shown.\<close>
  \<^item> A run of the loop ends within its budget, and succeeds only on evidence: a passing, parsed test run outside
    the focused phase and without workspace drift, which is the last of the stored result history
    (\<open>Application\<close>, \<open>PytestRunner\<close>); a passing result cannot come from a run that failed.
  \<^item> A patch is applied as a whole or not at all, only inside the workspace and only to files that did not change
    since it was prepared; the parser reads back every patch written in its format (\<open>PatchApply\<close>, \<open>Policy\<close>,
    \<open>PatchScripts\<close>).
  \<^item> A real run and a resumed one are governed: trust, a configured model, an isolated worktree of the task, git only
    in a hardened environment, and no effect on other tasks (\<open>Composition\<close>, \<open>Workspaces\<close>).
  \<^item> Approvals are consumed once, leases exclude each other, sessions and artifacts are read back as written, and the
    core over SQLite is the core over a map (\<open>StateStore\<close>, \<open>SessionStore\<close>, \<open>Artifacts\<close>, \<open>StoreRefinement\<close>).
  \<^item> Configured secrets do not leave redaction; tools read only plain files of the workspace, except that searching
    does not apply the guard (\<open>Redaction\<close>, \<open>FileSystem\<close>).
  \<^item> The web demo refuses forged requests, releases its lock, deletes no directory under a living worker, removes
    exactly that directory, leaks neither handles nor processes, and shows only results it has validated
    (\<open>WebApp\<close>, \<open>RunService\<close>, \<open>RequestRoot\<close>, \<open>ProcessBoundary\<close>, \<open>WindowsSecurity\<close>, \<open>Worker\<close>).

  \<^bold>\<open>Bounds and fuel.\<close> The loop takes a number of steps as fuel: more than \<open>max_actions - action_count\<close> is enough
  (\<open>run_ends\<close>), as every step that goes on counts an action. Confirming the end of a process group takes more than
  the milliseconds left of its recovery time. Removing a directory takes its depth, the recursion of the code. The
  sixteen attempts at a request root are those of the code. The regular expressions and JSON values recurse on the
  length of their text.

  \<^bold>\<open>Not modelled.\<close> The protocol classes of \<^verbatim>\<open>ports/\<close> have no code. Of libraries only what the sources rely on is there:
  pydantic's coercions beyond the types used, the templates and static files of the page, the web server, typer's
  reading of the command line, the structures and signatures given to ctypes and the quoting of a Windows command
  line are left out, and so is the injection of other launchers and factories into \<open>build_default_real_runtime\<close>.
  Threads are modelled by what they deliver: the chunks a reader thread has fed when it is joined. The database is
  its tables; a transaction is one step, as SQLite promises.
\<close>

end
